(* ===== verification/Prelude.thy ===== *)
theory Prelude
  imports Complex_Main "HOL-Library.Char_ord" "HOL-Library.List_Lexorder"
begin

text \<open>
  Shared vocabulary of the development: the standard containers the C++ sources use and the
  fixed-width integers they compute with.

  \<^item> \<open>std::map\<close> is an association list kept strictly sorted by key (\<open>om_inv\<close>); its
    iteration order is the list order, as in C++.  \<open>std::set\<close> is a strictly sorted list.
  \<^item> \<open>int32_t\<close>, \<open>int64_t\<close> and \<open>uint64_t\<close> values are \<open>int\<close>s; every operation of the
    sources that can leave the range is followed by the two's-complement reduction
    (\<open>s32\<close>, \<open>s64\<close>, \<open>u64\<close>).
  \<^item> the locale \<open>ordered_map\<close> is the contract of the map operations the components
    rely on, interpreted on the sorted association lists.
\<close>

named_theorems om_simps \<open>lookup laws of the ordered map and set operations\<close>
named_theorems om_inv_intros \<open>the ordered map and set operations keep the key order\<close>

section \<open>Fixed-width integers\<close>

definition s32 :: "int \<Rightarrow> int" where
  "s32 x = signed_take_bit 31 x"

definition s64 :: "int \<Rightarrow> int" where
  "s64 x = signed_take_bit 63 x"

definition u64 :: "int \<Rightarrow> int" where
  "u64 x = take_bit 64 x"

lemma s32_id: "- (2 ^ 31) \<le> x \<Longrightarrow> x < 2 ^ 31 \<Longrightarrow> s32 x = x"
  by (simp add: s32_def signed_take_bit_int_eq_self)

lemma s64_id: "- (2 ^ 63) \<le> x \<Longrightarrow> x < 2 ^ 63 \<Longrightarrow> s64 x = x"
  by (simp add: s64_def signed_take_bit_int_eq_self)

lemma u64_id: "0 \<le> x \<Longrightarrow> x < 2 ^ 64 \<Longrightarrow> u64 x = x"
  by (simp add: u64_def take_bit_int_eq_self)

lemma s32_range: "- (2 ^ 31) \<le> s32 x" "s32 x < 2 ^ 31"
  using signed_take_bit_int_greater_eq_minus_exp [of 31 x] signed_take_bit_int_less_exp [of 31 x]
  by (simp_all add: s32_def)

lemma s64_range: "- (2 ^ 63) \<le> s64 x" "s64 x < 2 ^ 63"
  using signed_take_bit_int_greater_eq_minus_exp [of 63 x] signed_take_bit_int_less_exp [of 63 x]
  by (simp_all add: s64_def)

lemma u64_range: "0 \<le> u64 x" "u64 x < 2 ^ 64"
  using take_bit_int_less_exp [of 64 x] by (simp_all add: u64_def)

section \<open>Ordered maps (std::map)\<close>

type_synonym ('k, 'v) omap = "('k \<times> 'v) list"

definition om_keys :: "('k, 'v) omap \<Rightarrow> 'k list" where
  "om_keys m = map fst m"

definition om_inv :: "('k::linorder, 'v) omap \<Rightarrow> bool" where
  "om_inv m \<longleftrightarrow> sorted_wrt (<) (map fst m)"

fun om_put :: "'k::linorder \<Rightarrow> 'v \<Rightarrow> ('k, 'v) omap \<Rightarrow> ('k, 'v) omap" where
  "om_put k v [] = [(k, v)]"
| "om_put k v ((k', v') # m) =
     (if k < k' then (k, v) # (k', v') # m
      else if k = k' then (k, v) # m
      else (k', v') # om_put k v m)"

definition om_erase :: "'k \<Rightarrow> ('k, 'v) omap \<Rightarrow> ('k, 'v) omap" where
  "om_erase k m = filter (\<lambda>e. fst e \<noteq> k) m"

definition om_has :: "('k, 'v) omap \<Rightarrow> 'k \<Rightarrow> bool" where
  "om_has m k \<longleftrightarrow> map_of m k \<noteq> None"

text \<open>\<open>m[k]\<close> on a mutable map: the stored value, or a value-initialised default.\<close>

definition om_at :: "'v \<Rightarrow> ('k, 'v) omap \<Rightarrow> 'k \<Rightarrow> 'v" where
  "om_at d m k = (case map_of m k of None \<Rightarrow> d | Some v \<Rightarrow> v)"

text \<open>
  \<open>lower_bound\<close> as a split of the iteration order: the entries strictly below the key, and
  the entries from the iterator on.
\<close>

definition om_below :: "'k::linorder \<Rightarrow> ('k, 'v) omap \<Rightarrow> ('k, 'v) omap" where
  "om_below k m = takeWhile (\<lambda>e. fst e < k) m"

definition om_from :: "'k::linorder \<Rightarrow> ('k, 'v) omap \<Rightarrow> ('k, 'v) omap" where
  "om_from k m = dropWhile (\<lambda>e. fst e < k) m"

lemma map_of_om_put [om_simps]: "map_of (om_put k v m) = (map_of m)(k \<mapsto> v)"
  by (induction k v m rule: om_put.induct) (auto simp: fun_eq_iff)

lemma map_of_om_erase [om_simps]: "map_of (om_erase k m) = (map_of m)(k := None)"
  by (induction m) (auto simp: om_erase_def fun_eq_iff)

lemma set_keys_om_put [simp]: "fst ` set (om_put k v m) = insert k (fst ` set m)"
  by (induction k v m rule: om_put.induct) auto

lemma om_keys_om_put: "set (om_keys (om_put k v m)) = insert k (set (om_keys m))"
  by (simp add: om_keys_def)

lemma om_inv_Nil [simp]: "om_inv []"
  by (simp add: om_inv_def)

lemma om_inv_Cons: "om_inv ((k, v) # m) \<longleftrightarrow> (\<forall>k' \<in> fst ` set m. k < k') \<and> om_inv m"
  by (simp add: om_inv_def)

lemma om_inv_put [om_inv_intros]: "om_inv m \<Longrightarrow> om_inv (om_put k v m)"
proof (induction k v m rule: om_put.induct)
  case (1 k v)
  then show ?case by (simp add: om_inv_def)
next
  case (2 k v k' v' m)
  then have below: "\<forall>x \<in> fst ` set m. k' < x" and inv: "om_inv m"
    by (simp_all add: om_inv_Cons)
  show ?case
    using 2 below inv by (auto simp: om_inv_Cons intro: less_trans)
qed

lemma om_inv_filter [om_inv_intros]: "om_inv m \<Longrightarrow> om_inv (filter P m)"
  by (induction m) (auto simp: om_inv_def)

lemma om_inv_erase [om_inv_intros]: "om_inv m \<Longrightarrow> om_inv (om_erase k m)"
  by (simp add: om_erase_def om_inv_filter)

lemma om_inv_distinct: "om_inv m \<Longrightarrow> distinct (map fst m)"
  by (simp add: om_inv_def strict_sorted_iff)

lemma om_lookup_mem: "om_inv m \<Longrightarrow> (k, v) \<in> set m \<longleftrightarrow> map_of m k = Some v"
  using om_inv_distinct by fastforce

lemma om_has_iff: "om_has m k \<longleftrightarrow> k \<in> fst ` set m"
  by (simp add: om_has_def map_of_eq_None_iff)

lemma om_split: "om_below k m @ om_from k m = m"
  by (simp add: om_below_def om_from_def)

lemma om_below_less: "e \<in> set (om_below k m) \<Longrightarrow> fst e < k"
  by (auto simp: om_below_def dest: set_takeWhileD)

lemma om_from_ge: "om_inv m \<Longrightarrow> e \<in> set (om_from k m) \<Longrightarrow> k \<le> fst e"
proof (induction m)
  case Nil
  then show ?case by (simp add: om_from_def)
next
  case (Cons a m)
  show ?case
  proof (cases "fst a < k")
    case True
    with Cons show ?thesis by (cases a) (simp add: om_from_def om_inv_Cons)
  next
    case False
    with Cons.prems have "e = a \<or> fst a < fst e"
      by (cases a) (auto simp: om_from_def om_inv_Cons)
    with False show ?thesis by auto
  qed
qed

lemma om_inv_append: "om_inv (m @ m') \<longleftrightarrow>
    om_inv m \<and> om_inv m' \<and> (\<forall>x \<in> fst ` set m. \<forall>y \<in> fst ` set m'. x < y)"
  by (auto simp: om_inv_def sorted_wrt_append)

lemma length_om_erase: "om_inv m \<Longrightarrow> om_has m k \<Longrightarrow> Suc (length (om_erase k m)) = length m"
proof (induction m)
  case Nil
  then show ?case by (simp add: om_has_def)
next
  case (Cons a m)
  obtain k' v where a: "a = (k', v)" by (cases a)
  show ?case
  proof (cases "k' = k")
    case True
    with Cons.prems a have "\<forall>x \<in> fst ` set m. x \<noteq> k" by (auto simp: om_inv_Cons)
    then have "om_erase k m = m" by (auto simp: om_erase_def filter_id_conv)
    with True a show ?thesis by (simp add: om_erase_def)
  next
    case False
    with Cons a show ?thesis by (simp add: om_erase_def om_has_def om_inv_Cons)
  qed
qed

section \<open>The map contract\<close>

text \<open>
  What the components use of an ordered map: lookups after an update and after an erase, and
  an iteration that visits every binding exactly once.
\<close>

locale ordered_map =
  fixes find :: "'m \<Rightarrow> 'k \<Rightarrow> 'v option"
    and put :: "'k \<Rightarrow> 'v \<Rightarrow> 'm \<Rightarrow> 'm"
    and erase :: "'k \<Rightarrow> 'm \<Rightarrow> 'm"
    and entries :: "'m \<Rightarrow> ('k \<times> 'v) list"
    and inv :: "'m \<Rightarrow> bool"
  assumes find_put: "inv m \<Longrightarrow> find (put k v m) = (find m)(k \<mapsto> v)"
    and find_erase: "inv m \<Longrightarrow> find (erase k m) = (find m)(k := None)"
    and entries_find: "inv m \<Longrightarrow> (k, v) \<in> set (entries m) \<longleftrightarrow> find m k = Some v"
    and entries_distinct: "inv m \<Longrightarrow> distinct (map fst (entries m))"
    and inv_put: "inv m \<Longrightarrow> inv (put k v m)"
    and inv_erase: "inv m \<Longrightarrow> inv (erase k m)"
begin

lemma find_put_erase: "inv m \<Longrightarrow> find (erase k (put k v m)) = (find m)(k := None)"
  by (simp add: find_erase find_put inv_put)

lemma entries_put_other:
  "inv m \<Longrightarrow> k' \<noteq> k \<Longrightarrow> (k', v') \<in> set (entries (put k v m)) \<longleftrightarrow> (k', v') \<in> set (entries m)"
  by (simp add: entries_find find_put inv_put)

lemma entries_erase:
  "inv m \<Longrightarrow> set (entries (erase k m)) = {e \<in> set (entries m). fst e \<noteq> k}"
  by (auto simp: entries_find find_erase inv_erase split: if_splits)

text \<open>
  A left-to-right run of stores and erases is the fold of the function updates: the container
  refines the mathematical map, whatever the order of its iteration.
\<close>

lemma run_refines:
  assumes "inv m"
  shows "inv (fold (\<lambda>(k, w) m. case w of None \<Rightarrow> erase k m | Some v \<Rightarrow> put k v m) ws m)
    \<and> find (fold (\<lambda>(k, w) m. case w of None \<Rightarrow> erase k m | Some v \<Rightarrow> put k v m) ws m)
        = fold (\<lambda>(k, w) f. f(k := w)) ws (find m)"
  using assms
proof (induction ws arbitrary: m)
  case Nil
  then show ?case by simp
next
  case (Cons a ws)
  obtain k w where a: "a = (k, w)" by (cases a)
  show ?case
    using Cons.IH [of "erase k m"] Cons.IH [of "put k (the w) m"] Cons.prems
    by (cases w) (simp_all add: a inv_put inv_erase find_put find_erase)
qed

end

interpretation om: ordered_map map_of om_put om_erase "\<lambda>m. m" om_inv
proof (unfold_locales, goal_cases)
  case 3
  then show ?case by (rule om_lookup_mem)
qed (simp_all add: om_simps om_inv_distinct om_inv_intros)

section \<open>Ordered sets (std::set)\<close>

fun os_insert :: "'a::linorder \<Rightarrow> 'a list \<Rightarrow> 'a list" where
  "os_insert x [] = [x]"
| "os_insert x (y # ys) =
     (if x < y then x # y # ys else if x = y then y # ys else y # os_insert x ys)"

definition os_erase :: "'a \<Rightarrow> 'a list \<Rightarrow> 'a list" where
  "os_erase x ys = filter (\<lambda>y. y \<noteq> x) ys"

lemma set_os_insert [simp]: "set (os_insert x ys) = insert x (set ys)"
  by (induction x ys rule: os_insert.induct) auto

lemma set_os_erase [simp]: "set (os_erase x ys) = set ys - {x}"
  by (auto simp: os_erase_def)

lemma os_insert_not_Nil [simp]: "os_insert x ys \<noteq> []"
  by (cases ys) simp_all

lemma os_erase_Nil [simp]: "os_erase x [] = []"
  by (simp add: os_erase_def)

section \<open>Number parsing (std::stoull)\<close>

definition is_space :: "char \<Rightarrow> bool" where
  "is_space c \<longleftrightarrow> of_char c = (32 :: nat) \<or> (9 \<le> (of_char c :: nat) \<and> of_char c \<le> (13 :: nat))"

definition is_digit :: "char \<Rightarrow> bool" where
  "is_digit c \<longleftrightarrow> 48 \<le> (of_char c :: nat) \<and> of_char c \<le> (57 :: nat)"

definition digits_val :: "string \<Rightarrow> int" where
  "digits_val ds = fold (\<lambda>c a. a * 10 + (of_char c - 48)) ds 0"

text \<open>
  Leading white space, an optional sign, the longest run of digits; trailing characters are
  ignored.  \<open>None\<close> is an exception (no digits, or out of the 64-bit range); a minus sign negates
  modulo \<open>2 ^ 64\<close>.
\<close>

definition stoull :: "string \<Rightarrow> int option" where
  "stoull str =
     (let s1 = dropWhile is_space str;
          neg = (case s1 of c # _ \<Rightarrow> c = CHR ''-'' | [] \<Rightarrow> False);
          s2 = (case s1 of c # r \<Rightarrow> if c = CHR ''-'' \<or> c = CHR ''+'' then r else s1 | [] \<Rightarrow> s1);
          ds = takeWhile is_digit s2
      in if ds = [] \<or> 2 ^ 64 \<le> digits_val ds then None
         else Some (if neg then u64 (- digits_val ds) else digits_val ds))"

end
