(* ===== verification/Float64.thy ===== *)
theory Float64
  imports Prelude "HOL-Library.Log_Nat"
begin

text \<open>
  The C++ \<open>double\<close>: IEEE-754 binary64 with rounding to nearest, ties to even, gradual
  underflow and overflow to an infinity.  A value is \<open>NaN\<close>, an infinity, or a finite rational;
  every arithmetic operation of the sources is the exact operation followed by the rounding
  \<open>fl\<close>, so the model computes the number the program computes, not a real-number idealisation
  of it.  The two zeros are identified (no source inspects the sign of a zero).

  The section on rounding shows that \<open>flr\<close> is odd, monotone, exact on representable values and
  within half an ulp; the locale \<open>rounding\<close> collects what the client proofs need of it.

  Casts of a \<open>double\<close> to a signed integer truncate towards zero; where C++ leaves the cast
  undefined (NaN, infinities, out of range) the model takes the value the x86-64 conversion
  instructions deliver, the minimum of the target type.
\<close>

section \<open>Rounding of rationals\<close>

definition rne :: "rat \<Rightarrow> int" where
  "rne x = (let f = \<lfloor>x\<rfloor>; r = x - of_int f in
     if r < 1 / 2 then f else if 1 / 2 < r then f + 1 else if even f then f else f + 1)"

definition ilog2 :: "rat \<Rightarrow> int" where
  "ilog2 x = (case quotient_of x of (n, d) \<Rightarrow>
     let e = bitlen n - bitlen d in if x < 2 powi e then e - 1 else e)"

definition ulp_exp :: "rat \<Rightarrow> int" where
  "ulp_exp x = max (ilog2 \<bar>x\<bar> - 52) (- 1074)"

definition flr :: "rat \<Rightarrow> rat" where
  "flr x = (if x = 0 then 0 else of_int (rne (x / 2 powi ulp_exp x)) * 2 powi ulp_exp x)"

definition f64_limit :: rat where
  "f64_limit = 2 ^ 1024"

subsection \<open>Round to nearest even\<close>

lemma rne_floor: "\<lfloor>x\<rfloor> \<le> rne x" "rne x \<le> \<lfloor>x\<rfloor> + 1"
  by (auto simp: rne_def Let_def)

lemma rne_of_int [simp]: "rne (of_int k) = k"
  by (simp add: rne_def)

lemma rne_mono: assumes "x \<le> y" shows "rne x \<le> rne y"
proof (cases "\<lfloor>x\<rfloor> = \<lfloor>y\<rfloor>")
  case True
  with assms show ?thesis by (auto simp: rne_def Let_def)
next
  case False
  then have "\<lfloor>x\<rfloor> + 1 \<le> \<lfloor>y\<rfloor>" using floor_mono [OF assms] by simp
  then show ?thesis using rne_floor(2) [of x] rne_floor(1) [of y] by linarith
qed

lemma rne_err: "\<bar>of_int (rne x) - x\<bar> \<le> 1 / 2"
proof -
  define f where "f = \<lfloor>x\<rfloor>"
  have "of_int f \<le> x" "x < of_int f + 1" unfolding f_def by linarith+
  then show ?thesis unfolding rne_def Let_def f_def [symmetric] by (auto simp: abs_if)
qed

lemma rne_minus: "rne (- x) = - rne x"
proof (cases "x = of_int \<lfloor>x\<rfloor>")
  case True
  then have "rne (- x) = rne (of_int (- \<lfloor>x\<rfloor>))" by simp
  also have "\<dots> = - rne x" using True by (metis rne_of_int)
  finally show ?thesis .
next
  case False
  define f where "f = \<lfloor>x\<rfloor>"
  have x: "of_int f \<le> x" "x < of_int f + 1" "x \<noteq> of_int f" using False unfolding f_def by linarith+
  have neg: "\<lfloor>- x\<rfloor> = - f - 1" using x by (simp add: floor_eq_iff)
  have pos: "\<lfloor>x\<rfloor> = f" by (simp add: f_def)
  have parity: "even (- f - 1) \<longleftrightarrow> \<not> even f" by simp
  show ?thesis
    unfolding rne_def Let_def neg pos parity by (auto simp: field_simps)
qed

subsection \<open>The binade of a positive rational\<close>

lemma powi_2_pos [simp]: "(0::rat) < 2 powi e"
  by simp

lemma powi_2_split: "2 powi (a + b) = (2 powi a :: rat) * 2 powi b"
  by (simp add: power_int_add)

lemma powi_2_mono: "a \<le> b \<Longrightarrow> (2 powi a :: rat) \<le> 2 powi b"
  by (intro power_int_increasing) simp_all

lemma powi_2_less_iff: "(2 powi a :: rat) < 2 powi b \<longleftrightarrow> a < b"
  using powi_2_mono [of b a] power_int_strict_increasing [of a b "2::rat"] by fastforce

lemma bitlen_rat_bounds:
  assumes "0 < n"
  shows "2 powi (bitlen n - 1) \<le> (of_int n :: rat)" "(of_int n :: rat) < 2 powi bitlen n"
proof -
  have pos: "1 \<le> bitlen n" using assms bitlen_eq_zero_iff [of n] bitlen_nonneg [of n] by linarith
  have "2 ^ nat (bitlen n - 1) \<le> n" "n < 2 ^ nat (bitlen n)" using bitlen_bounds [OF assms] by auto
  then have "(2 ^ nat (bitlen n - 1) :: rat) \<le> of_int n" "(of_int n :: rat) < 2 ^ nat (bitlen n)"
    by (metis of_int_le_iff of_int_numeral of_int_power)
      (metis \<open>n < 2 ^ nat (bitlen n)\<close> of_int_less_iff of_int_numeral of_int_power)
  then show "2 powi (bitlen n - 1) \<le> (of_int n :: rat)" "(of_int n :: rat) < 2 powi bitlen n"
    using pos by (simp_all add: power_int_def)
qed

lemma ilog2_bounds:
  assumes "0 < x"
  shows "2 powi ilog2 x \<le> x" "x < 2 powi (ilog2 x + 1)"
proof -
  obtain n d where q: "quotient_of x = (n, d)" by (cases "quotient_of x")
  have d: "0 < d" and x: "x = of_int n / of_int d"
    using q quotient_of_denom_pos quotient_of_div by auto
  have n: "0 < n" using assms d x by (simp add: zero_less_divide_iff)
  define e where "e = bitlen n - bitlen d"
  have up: "x < 2 powi (e + 1)"
  proof -
    have "of_int n < (2 powi bitlen n :: rat)" using bitlen_rat_bounds [OF n] by simp
    also have "\<dots> = 2 powi (e + 1) * 2 powi (bitlen d - 1)"
      by (simp add: e_def flip: powi_2_split)
    also have "\<dots> \<le> 2 powi (e + 1) * of_int d"
      using bitlen_rat_bounds [OF d] by (intro mult_left_mono) simp_all
    finally show ?thesis using d by (simp add: x divide_less_eq)
  qed
  have low: "2 powi (e - 1) < x"
  proof -
    have "2 powi (e - 1) * of_int d < 2 powi (e - 1) * (2 powi bitlen d :: rat)"
      using bitlen_rat_bounds [OF d] by (intro mult_strict_left_mono) simp_all
    also have "\<dots> = 2 powi (bitlen n - 1)" by (simp add: e_def flip: powi_2_split)
    also have "\<dots> \<le> of_int n" using bitlen_rat_bounds [OF n] by simp
    finally show ?thesis using d by (simp add: x less_divide_eq)
  qed
  show "2 powi ilog2 x \<le> x" "x < 2 powi (ilog2 x + 1)"
    using up low by (auto simp: ilog2_def q Let_def e_def [symmetric])
qed

lemma ilog2_unique: "0 < x \<Longrightarrow> 2 powi k \<le> x \<Longrightarrow> x < 2 powi (k + 1) \<Longrightarrow> ilog2 x = k"
  using ilog2_bounds [of x] powi_2_less_iff [of k "ilog2 x + 1"] powi_2_less_iff [of "ilog2 x" "k + 1"]
  by linarith

lemma ilog2_mono: "0 < x \<Longrightarrow> x \<le> y \<Longrightarrow> ilog2 x \<le> ilog2 y"
  using ilog2_bounds [of x] ilog2_bounds [of y] powi_2_less_iff [of "ilog2 x" "ilog2 y + 1"]
  by linarith

lemma ilog2_less: "0 < x \<Longrightarrow> x < 2 powi k \<Longrightarrow> ilog2 x < k"
  using ilog2_bounds [of x] powi_2_less_iff [of "ilog2 x" k] by linarith

subsection \<open>Properties of the rounded value\<close>

lemma flr_zero [simp]: "flr 0 = 0"
  by (simp add: flr_def)

lemma flr_minus: "flr (- x) = - flr x"
  by (simp add: flr_def ulp_exp_def rne_minus)

lemma ulp_exp_mono: "0 < x \<Longrightarrow> x \<le> y \<Longrightarrow> ulp_exp x \<le> ulp_exp y"
  using ilog2_mono [of x y] by (simp add: ulp_exp_def max_def)

lemma below_binade: "0 < x \<Longrightarrow> x < 2 powi (ulp_exp x + 53)"
proof -
  assume x: "0 < x"
  have "x < 2 powi (ilog2 x + 1)" using ilog2_bounds [OF x] by simp
  also have "\<dots> \<le> 2 powi (ulp_exp x + 53)" using x by (intro powi_2_mono) (simp add: ulp_exp_def)
  finally show ?thesis .
qed

lemma flr_le_grid:
  assumes "0 < x" "x \<le> of_int k * 2 powi ulp_exp x"
  shows "flr x \<le> of_int k * 2 powi ulp_exp x"
proof -
  have "x / 2 powi ulp_exp x \<le> of_int k" using assms by (simp add: divide_le_eq)
  then have "rne (x / 2 powi ulp_exp x) \<le> k" using rne_mono rne_of_int by metis
  then show ?thesis using assms by (simp add: flr_def mult_right_mono)
qed

lemma flr_ge_grid:
  assumes "0 < x" "of_int k * 2 powi ulp_exp x \<le> x"
  shows "of_int k * 2 powi ulp_exp x \<le> flr x"
proof -
  have "of_int k \<le> x / 2 powi ulp_exp x" using assms by (simp add: le_divide_eq)
  then have "k \<le> rne (x / 2 powi ulp_exp x)" using rne_mono rne_of_int by metis
  then show ?thesis using assms by (simp add: flr_def mult_right_mono)
qed

lemma flr_nonneg: "0 \<le> x \<Longrightarrow> 0 \<le> flr x"
  using flr_ge_grid [of x 0] by (cases "x = 0") simp_all

lemma flr_mono_pos:
  assumes "0 < x" "x \<le> y"
  shows "flr x \<le> flr y"
proof (cases "ulp_exp x = ulp_exp y")
  case True
  have "x / 2 powi ulp_exp x \<le> y / 2 powi ulp_exp x" using assms by (simp add: divide_right_mono)
  with assms True show ?thesis by (simp add: flr_def rne_mono mult_right_mono)
next
  case False
  then have lt: "ulp_exp x + 53 \<le> ulp_exp y + 52" using ulp_exp_mono [OF assms] by simp
  have y: "0 < y" using assms by simp
  have ey: "ulp_exp y = ilog2 y - 52"
    using False ulp_exp_mono [OF assms] y by (auto simp: ulp_exp_def max_def split: if_splits)
  have "flr x \<le> of_int (2 ^ 53) * 2 powi ulp_exp x"
  proof (rule flr_le_grid [OF assms(1)])
    have "x < 2 powi (ulp_exp x + 53)" by (rule below_binade [OF assms(1)])
    then show "x \<le> of_int (2 ^ 53) * 2 powi ulp_exp x" by (simp add: powi_2_split)
  qed
  also have "\<dots> = 2 powi (ulp_exp x + 53)" by (simp add: powi_2_split)
  also have "\<dots> \<le> 2 powi (ulp_exp y + 52)" by (rule powi_2_mono [OF lt])
  also have "\<dots> = of_int (2 ^ 52) * 2 powi ulp_exp y" by (simp add: powi_2_split)
  also have "\<dots> \<le> flr y"
  proof (rule flr_ge_grid [OF y])
    have "2 powi (ulp_exp y + 52) \<le> y" using ilog2_bounds [OF y] ey by simp
    then show "of_int (2 ^ 52) * 2 powi ulp_exp y \<le> y" by (simp add: powi_2_split)
  qed
  finally show ?thesis .
qed

lemma flr_mono:
  assumes "x \<le> y"
  shows "flr x \<le> flr y"
proof -
  consider "0 < x" | "x \<le> 0" "0 \<le> y" | "y < 0" by linarith
  then show ?thesis
  proof cases
    case 1
    then show ?thesis using assms by (rule flr_mono_pos)
  next
    case 2
    then have "flr x \<le> 0" using flr_nonneg [of "- x"] by (simp add: flr_minus)
    also have "0 \<le> flr y" using 2 by (simp add: flr_nonneg)
    finally show ?thesis .
  next
    case 3
    then show ?thesis using flr_mono_pos [of "- y" "- x"] assms by (simp add: flr_minus)
  qed
qed

text \<open>A value is representable when it is an integer multiple of a power of two of 53 bits.\<close>

definition is_f64 :: "rat \<Rightarrow> bool" where
  "is_f64 x \<longleftrightarrow> flr x = x"

lemma is_f64_scaled:
  assumes "\<bar>m\<bar> < 2 ^ 53" "- 1074 \<le> k"
  shows "is_f64 (of_int m * 2 powi k)"
proof (cases "m = 0")
  case True
  then show ?thesis by (simp add: is_f64_def)
next
  case False
  define x where "x = (of_int m * 2 powi k :: rat)"
  have x: "x \<noteq> 0" "\<bar>x\<bar> = of_int \<bar>m\<bar> * 2 powi k" using False by (simp_all add: x_def abs_mult)
  have "(of_int \<bar>m\<bar> :: rat) < of_int (2 ^ 53)" using assms(1) by (simp only: of_int_less_iff)
  then have "\<bar>x\<bar> < 2 powi (53 + k)" using x by (simp add: powi_2_split)
  then have "ilog2 \<bar>x\<bar> < 53 + k" using x by (intro ilog2_less) simp_all
  then have e: "ulp_exp x \<le> k" using assms(2) by (simp add: ulp_exp_def)
  define u where "u = ulp_exp x"
  have "2 powi k = (2 powi (k - u) :: rat) * 2 powi u" by (simp flip: powi_2_split)
  moreover have "(2 powi (k - u) :: rat) = 2 ^ nat (k - u)" using e by (simp add: u_def power_int_def)
  ultimately have "x / 2 powi u = of_int (m * 2 ^ nat (k - u))" by (simp add: x_def)
  then have "x / 2 powi ulp_exp x = of_int (m * 2 ^ nat (k - ulp_exp x))" by (simp add: u_def)
  then have "rne (x / 2 powi ulp_exp x) = m * 2 ^ nat (k - ulp_exp x)" by (metis rne_of_int)
  then have "flr x = of_int (m * 2 ^ nat (k - ulp_exp x)) * 2 powi ulp_exp x"
    using x by (simp add: flr_def)
  also have "\<dots> = x" using \<open>x / 2 powi ulp_exp x = _\<close> by (simp add: field_simps)
  finally show ?thesis by (simp add: is_f64_def x_def)
qed

lemma is_f64_int: "\<bar>m\<bar> < 2 ^ 53 \<Longrightarrow> is_f64 (of_int m)"
  using is_f64_scaled [of m 0] by simp

lemma flr_int: "\<bar>m\<bar> < 2 ^ 53 \<Longrightarrow> flr (of_int m) = of_int m"
  using is_f64_int [of m] by (simp add: is_f64_def)

lemma flr_err_ulp: "\<bar>flr x - x\<bar> \<le> 2 powi ulp_exp x / 2"
proof (cases "x = 0")
  case True
  then show ?thesis by simp
next
  case False
  let ?u = "2 powi ulp_exp x :: rat"
  have "flr x - x = (of_int (rne (x / ?u)) - x / ?u) * ?u"
    using False by (simp add: flr_def field_simps)
  then have "\<bar>flr x - x\<bar> = \<bar>of_int (rne (x / ?u)) - x / ?u\<bar> * ?u" by (simp add: abs_mult)
  also have "\<dots> \<le> 1 / 2 * ?u" by (intro mult_right_mono rne_err) simp
  finally show ?thesis by simp
qed

text \<open>In the normal range the relative error is at most \<open>2\<close> to the \<open>-53\<close>.\<close>

lemma flr_err_rel:
  assumes "2 powi (- 1022) \<le> \<bar>x\<bar>"
  shows "\<bar>flr x - x\<bar> \<le> \<bar>x\<bar> / 2 ^ 53"
proof -
  have x: "0 < \<bar>x\<bar>" using assms powi_2_pos less_le_trans by blast
  have "- 1022 < ilog2 \<bar>x\<bar> + 1"
    using ilog2_bounds(2) [OF x] assms powi_2_less_iff [of "- 1022" "ilog2 \<bar>x\<bar> + 1"] by linarith
  then have e: "ulp_exp x = ilog2 \<bar>x\<bar> - 52" by (simp add: ulp_exp_def)
  have "2 powi ulp_exp x * 2 ^ 52 = (2 powi ilog2 \<bar>x\<bar> :: rat)"
    using powi_2_split [of "ulp_exp x" 52] by (simp add: e)
  then have "2 powi ulp_exp x \<le> \<bar>x\<bar> / 2 ^ 52" using ilog2_bounds(1) [OF x] by (simp add: field_simps)
  then show ?thesis using flr_err_ulp [of x] by simp
qed

text \<open>Over the whole range the error is the relative one plus half the smallest subnormal.\<close>

lemma flr_err: "\<bar>flr x - x\<bar> \<le> \<bar>x\<bar> / 2 ^ 53 + 2 powi (- 1075)"
proof (cases "2 powi (- 1022) \<le> \<bar>x\<bar>")
  case True
  then show ?thesis using flr_err_rel [of x] powi_2_pos [of "- 1075"] by linarith
next
  case False
  show ?thesis
  proof (cases "x = 0")
    case True
    then show ?thesis by (simp add: flr_zero)
  next
    case nz: False
    have "\<bar>x\<bar> < 2 powi (- 1022)" using False by simp
    then have "ilog2 \<bar>x\<bar> < - 1022" using nz by (intro ilog2_less) simp_all
    then have "ulp_exp x = - 1074" by (simp add: ulp_exp_def)
    moreover have "2 powi (- 1074) / 2 = (2 powi (- 1075) :: rat)"
      using powi_2_split [of "- 1075" 1] by simp
    ultimately have "\<bar>flr x - x\<bar> \<le> 2 powi (- 1075)" using flr_err_ulp [of x] by simp
    moreover have "0 \<le> \<bar>x\<bar> / 2 ^ 53" by simp
    ultimately show ?thesis by linarith
  qed
qed

subsection \<open>The rounding contract\<close>

locale rounding =
  fixes rnd :: "rat \<Rightarrow> rat"
  assumes rnd_mono: "x \<le> y \<Longrightarrow> rnd x \<le> rnd y"
    and rnd_minus: "rnd (- x) = - rnd x"
begin

lemma rnd_zero: "rnd 0 = 0"
  using rnd_minus [of 0] by simp

lemma rnd_nonneg: "0 \<le> x \<Longrightarrow> 0 \<le> rnd x"
  using rnd_mono [of 0 x] by (simp add: rnd_zero)

lemma rnd_between: "rnd a = a \<Longrightarrow> rnd b = b \<Longrightarrow> a \<le> x \<Longrightarrow> x \<le> b \<Longrightarrow> a \<le> rnd x \<and> rnd x \<le> b"
  using rnd_mono [of a x] rnd_mono [of x b] by simp

end

interpretation f64: rounding flr
  by unfold_locales (simp_all add: flr_mono flr_minus)

section \<open>Values and operations\<close>

datatype dbl = NaN | PInf | NInf | Fin rat

definition fl :: "rat \<Rightarrow> dbl" where
  "fl x = (let y = flr x in
     if f64_limit \<le> y then PInf else if y \<le> - f64_limit then NInf else Fin y)"

fun d_neg :: "dbl \<Rightarrow> dbl" where
  "d_neg NaN = NaN"
| "d_neg PInf = NInf"
| "d_neg NInf = PInf"
| "d_neg (Fin x) = Fin (- x)"

fun d_add :: "dbl \<Rightarrow> dbl \<Rightarrow> dbl" where
  "d_add (Fin x) (Fin y) = fl (x + y)"
| "d_add NaN b = NaN"
| "d_add a NaN = NaN"
| "d_add PInf NInf = NaN"
| "d_add NInf PInf = NaN"
| "d_add PInf b = PInf"
| "d_add NInf b = NInf"
| "d_add a PInf = PInf"
| "d_add a NInf = NInf"

definition d_sub :: "dbl \<Rightarrow> dbl \<Rightarrow> dbl" where
  "d_sub a b = d_add a (d_neg b)"

definition d_inf :: "bool \<Rightarrow> dbl" where
  "d_inf neg = (if neg then NInf else PInf)"

fun d_negative :: "dbl \<Rightarrow> bool" where
  "d_negative NInf = True"
| "d_negative (Fin x) = (x < 0)"
| "d_negative _ = False"

fun d_mul :: "dbl \<Rightarrow> dbl \<Rightarrow> dbl" where
  "d_mul (Fin x) (Fin y) = fl (x * y)"
| "d_mul NaN b = NaN"
| "d_mul a NaN = NaN"
| "d_mul a b = (if a = Fin 0 \<or> b = Fin 0 then NaN else d_inf (d_negative a \<noteq> d_negative b))"

fun d_div :: "dbl \<Rightarrow> dbl \<Rightarrow> dbl" where
  "d_div (Fin x) (Fin y) =
     (if y = 0 then (if x = 0 then NaN else d_inf (x < 0)) else fl (x / y))"
| "d_div NaN b = NaN"
| "d_div a NaN = NaN"
| "d_div (Fin x) b = Fin 0"
| "d_div a (Fin y) = d_inf (d_negative a \<noteq> (y < 0))"
| "d_div a b = NaN"

fun d_lt :: "dbl \<Rightarrow> dbl \<Rightarrow> bool" where
  "d_lt (Fin x) (Fin y) = (x < y)"
| "d_lt NaN b = False"
| "d_lt a NaN = False"
| "d_lt NInf b = (b \<noteq> NInf)"
| "d_lt PInf b = False"
| "d_lt a PInf = True"
| "d_lt a NInf = False"

definition d_le :: "dbl \<Rightarrow> dbl \<Rightarrow> bool" where
  "d_le a b \<longleftrightarrow> d_lt a b \<or> (a = b \<and> a \<noteq> NaN)"

definition isnan :: "dbl \<Rightarrow> bool" where
  "isnan a \<longleftrightarrow> a = NaN"

fun isfinite :: "dbl \<Rightarrow> bool" where
  "isfinite (Fin x) = True"
| "isfinite _ = False"

text \<open>\<open>std::min\<close>, \<open>std::max\<close> and \<open>std::clamp\<close>, with their behaviour on unordered arguments.\<close>

definition d_min :: "dbl \<Rightarrow> dbl \<Rightarrow> dbl" where
  "d_min a b = (if d_lt b a then b else a)"

definition d_max :: "dbl \<Rightarrow> dbl \<Rightarrow> dbl" where
  "d_max a b = (if d_lt a b then b else a)"

definition d_clamp :: "dbl \<Rightarrow> dbl \<Rightarrow> dbl \<Rightarrow> dbl" where
  "d_clamp v lo hi = (if d_lt v lo then lo else if d_lt hi v then hi else v)"

text \<open>\<open>std::round\<close> rounds halves away from zero.\<close>

definition round_away :: "rat \<Rightarrow> int" where
  "round_away x = (if x < 0 then - \<lfloor>- x + 1 / 2\<rfloor> else \<lfloor>x + 1 / 2\<rfloor>)"

fun d_map_int :: "(rat \<Rightarrow> int) \<Rightarrow> dbl \<Rightarrow> dbl" where
  "d_map_int f (Fin x) = fl (of_int (f x))"
| "d_map_int f a = a"

definition d_round :: "dbl \<Rightarrow> dbl" where
  "d_round a = d_map_int round_away a"

definition d_floor :: "dbl \<Rightarrow> dbl" where
  "d_floor a = d_map_int floor a"

definition d_ceil :: "dbl \<Rightarrow> dbl" where
  "d_ceil a = d_map_int ceiling a"

text \<open>\<open>static_cast\<close> between \<open>double\<close> and the signed integers.\<close>

definition d_of_int :: "int \<Rightarrow> dbl" where
  "d_of_int i = fl (of_int i)"

definition trunc_rat :: "rat \<Rightarrow> int" where
  "trunc_rat x = (if x < 0 then \<lceil>x\<rceil> else \<lfloor>x\<rfloor>)"

fun cast_i64 :: "dbl \<Rightarrow> int" where
  "cast_i64 (Fin x) =
     (if - (2 ^ 63) \<le> trunc_rat x \<and> trunc_rat x < 2 ^ 63 then trunc_rat x else - (2 ^ 63))"
| "cast_i64 _ = - (2 ^ 63)"

fun cast_i32 :: "dbl \<Rightarrow> int" where
  "cast_i32 (Fin x) =
     (if - (2 ^ 31) \<le> trunc_rat x \<and> trunc_rat x < 2 ^ 31 then trunc_rat x else - (2 ^ 31))"
| "cast_i32 _ = - (2 ^ 31)"

section \<open>Facts the components share\<close>

lemma fl_Fin: "\<bar>flr x\<bar> < f64_limit \<Longrightarrow> fl x = Fin (flr x)"
  by (auto simp: fl_def Let_def abs_if split: if_splits)

lemma f64_limit_gt: "(2::rat) ^ 53 < f64_limit"
  unfolding f64_limit_def by (rule power_strict_increasing) simp_all

lemma fl_representable: "is_f64 x \<Longrightarrow> \<bar>x\<bar> < f64_limit \<Longrightarrow> fl x = Fin x"
  by (simp add: is_f64_def fl_Fin)

lemma fl_of_int: "\<bar>m\<bar> < 2 ^ 53 \<Longrightarrow> fl (of_int m) = Fin (of_int m)"
proof -
  assume m: "\<bar>m\<bar> < 2 ^ 53"
  then have "(of_int \<bar>m\<bar> :: rat) < of_int (2 ^ 53)" by (simp only: of_int_less_iff)
  then have "\<bar>of_int m :: rat\<bar> < f64_limit" using f64_limit_gt by simp
  then show ?thesis using m by (simp add: fl_representable is_f64_int)
qed

lemma fl_half: "\<bar>m\<bar> < 2 ^ 53 \<Longrightarrow> fl (of_int m / 2) = Fin (of_int m / 2)"
proof -
  assume m: "\<bar>m\<bar> < 2 ^ 53"
  then have "(of_int \<bar>m\<bar> :: rat) < of_int (2 ^ 53)" by (simp only: of_int_less_iff)
  then have "\<bar>of_int m / 2 :: rat\<bar> < f64_limit" using f64_limit_gt by simp
  then show ?thesis using is_f64_scaled [OF m, of "- 1"] by (simp add: fl_representable power_int_def)
qed

lemma fl_0 [simp]: "fl 0 = Fin 0"
  using fl_of_int [of 0] by simp

lemma fl_1 [simp]: "fl 1 = Fin 1"
  using fl_of_int [of 1] by simp

lemma fl_minus_1 [simp]: "fl (- 1) = Fin (- 1)"
  using fl_of_int [of "- 1"] by simp

lemma fl_numeral [simp]: "(numeral n :: int) < 2 ^ 53 \<Longrightarrow> fl (numeral n) = Fin (numeral n)"
  using fl_of_int [of "numeral n"] by simp

lemma fl_neg_numeral [simp]:
  "(numeral n :: int) < 2 ^ 53 \<Longrightarrow> fl (- numeral n) = Fin (- numeral n)"
  using fl_of_int [of "- numeral n"] by simp

lemma fl_numeral_half [simp]:
  "(numeral n :: int) < 2 ^ 53 \<Longrightarrow> fl (numeral n / 2) = Fin (numeral n / 2)"
  using fl_half [of "numeral n"] by simp

lemma fl_1_half [simp]: "fl (1 / 2) = Fin (1 / 2)"
  using fl_half [of 1] by simp

lemma d_of_int_small: "\<bar>m\<bar> < 2 ^ 53 \<Longrightarrow> d_of_int m = Fin (of_int m)"
  by (simp add: d_of_int_def fl_of_int)

lemma fl_not_NaN [simp]: "fl x \<noteq> NaN"
  by (simp add: fl_def Let_def)

lemma f64_limit_pos: "0 < f64_limit"
  by (simp add: f64_limit_def)

lemma fl_mono: "x \<le> y \<Longrightarrow> d_le (fl x) (fl y)"
  using flr_mono [of x y] f64_limit_pos by (auto simp: fl_def Let_def d_le_def)

lemma d_le_refl [simp]: "d_le a a \<longleftrightarrow> a \<noteq> NaN"
  by (cases a) (simp_all add: d_le_def)

lemma d_le_Fin [simp]: "d_le (Fin x) (Fin y) \<longleftrightarrow> x \<le> y"
  by (auto simp: d_le_def)

lemma d_le_trans: "d_le a b \<Longrightarrow> d_le b c \<Longrightarrow> d_le a c"
  by (cases a; cases b; cases c) (auto simp: d_le_def)

lemma d_lt_irrefl [simp]: "\<not> d_lt a a"
  by (cases a) simp_all

lemma d_le_lt_antisym: "d_lt a b \<Longrightarrow> \<not> d_le b a"
  by (cases a; cases b) (auto simp: d_le_def)

lemma d_not_lt: "a \<noteq> NaN \<Longrightarrow> b \<noteq> NaN \<Longrightarrow> \<not> d_lt a b \<longleftrightarrow> d_le b a"
  by (cases a; cases b) (auto simp: d_le_def)

text \<open>\<open>std::clamp\<close> lands in the interval for every argument that is not a NaN.\<close>

lemma d_clamp_bounds:
  assumes "d_le lo hi" "v \<noteq> NaN"
  shows "d_le lo (d_clamp v lo hi)" "d_le (d_clamp v lo hi) hi"
proof -
  have "lo \<noteq> NaN" "hi \<noteq> NaN" using assms(1) by (cases lo; cases hi; simp add: d_le_def)+
  then show "d_le lo (d_clamp v lo hi)" "d_le (d_clamp v lo hi) hi"
    using assms d_not_lt by (auto simp: d_clamp_def)
qed

lemma d_min_le: "a \<noteq> NaN \<Longrightarrow> b \<noteq> NaN \<Longrightarrow> d_le (d_min a b) a \<and> d_le (d_min a b) b"
  by (cases a; cases b) (auto simp: d_min_def d_le_def)

lemma d_max_ge: "a \<noteq> NaN \<Longrightarrow> b \<noteq> NaN \<Longrightarrow> d_le a (d_max a b) \<and> d_le b (d_max a b)"
  by (cases a; cases b) (auto simp: d_max_def d_le_def)

lemma cast_i64_range: "- (2 ^ 63) \<le> cast_i64 a" "cast_i64 a < 2 ^ 63"
  by (cases a; simp)+

lemma cast_i32_range: "- (2 ^ 31) \<le> cast_i32 a" "cast_i32 a < 2 ^ 31"
  by (cases a; simp)+

lemma trunc_rat_of_int [simp]: "trunc_rat (of_int k) = k"
  by (simp add: trunc_rat_def)

lemma round_away_of_int [simp]: "round_away (of_int k) = k"
proof (cases "k < 0")
  case True
  have "\<lfloor>- of_int k + 1 / 2 :: rat\<rfloor> = - k" by (simp add: floor_eq_iff)
  with True show ?thesis by (simp add: round_away_def)
next
  case False
  have "\<lfloor>of_int k + 1 / 2 :: rat\<rfloor> = k" by (simp add: floor_eq_iff)
  with False show ?thesis by (simp add: round_away_def)
qed

lemma round_away_numeral [simp]:
  "round_away 0 = 0" "round_away 1 = 1" "round_away (numeral n) = numeral n"
  "round_away (- 1) = - 1" "round_away (- numeral n) = - numeral n"
  using round_away_of_int [of 0] round_away_of_int [of 1] round_away_of_int [of "numeral n"]
    round_away_of_int [of "- 1"] round_away_of_int [of "- numeral n"] by simp_all

lemma trunc_rat_numeral [simp]:
  "trunc_rat 0 = 0" "trunc_rat 1 = 1" "trunc_rat (numeral n) = numeral n"
  "trunc_rat (- 1) = - 1" "trunc_rat (- numeral n) = - numeral n"
  using trunc_rat_of_int [of 0] trunc_rat_of_int [of 1] trunc_rat_of_int [of "numeral n"]
    trunc_rat_of_int [of "- 1"] trunc_rat_of_int [of "- numeral n"] by simp_all

text \<open>The nearest integer of a value within half a unit of it.\<close>

lemma round_away_near: "\<bar>x - of_int k\<bar> < 1 / 2 \<Longrightarrow> round_away x = k"
proof -
  assume near: "\<bar>x - of_int k\<bar> < 1 / 2"
  have pos: "\<lfloor>x + 1 / 2\<rfloor> = k" using near by (simp add: floor_eq_iff abs_if split: if_splits)
  have neg: "\<lfloor>1 / 2 - x\<rfloor> = - k" using near by (simp add: floor_eq_iff abs_if split: if_splits)
  show ?thesis using pos neg by (simp add: round_away_def)
qed

section \<open>Doubles as container keys\<close>

text \<open>
  The order of \<open>std::map\<close> keyed by doubles.  On values that are not NaN it is the comparison of
  the language; a NaN, on which \<open>std::less\<close> is no order at all, is placed last.
\<close>

instantiation dbl :: linorder
begin

definition less_dbl :: "dbl \<Rightarrow> dbl \<Rightarrow> bool" where
  "less_dbl a b \<longleftrightarrow> d_lt a b \<or> (a \<noteq> NaN \<and> b = NaN)"

definition less_eq_dbl :: "dbl \<Rightarrow> dbl \<Rightarrow> bool" where
  "less_eq_dbl a b \<longleftrightarrow> a = b \<or> a < (b :: dbl)"

instance
proof
  fix a b c :: dbl
  show "(a < b) = (a \<le> b \<and> \<not> b \<le> a)"
    by (cases a; cases b) (auto simp: less_dbl_def less_eq_dbl_def)
  show "a \<le> a" by (simp add: less_eq_dbl_def)
  show "a \<le> b \<Longrightarrow> b \<le> c \<Longrightarrow> a \<le> c"
    by (cases a; cases b; cases c) (auto simp: less_dbl_def less_eq_dbl_def)
  show "a \<le> b \<Longrightarrow> b \<le> a \<Longrightarrow> a = b"
    by (cases a; cases b) (auto simp: less_dbl_def less_eq_dbl_def)
  show "a \<le> b \<or> b \<le> a"
    by (cases a; cases b) (auto simp: less_dbl_def less_eq_dbl_def)
qed

end

lemma dbl_less_Fin [simp]: "Fin x < Fin y \<longleftrightarrow> x < y"
  by (simp add: less_dbl_def)

lemma dbl_le_Fin [simp]: "Fin x \<le> Fin y \<longleftrightarrow> x \<le> y"
  by (auto simp: less_eq_dbl_def)

lemma dbl_less_iff: "a \<noteq> NaN \<Longrightarrow> b \<noteq> NaN \<Longrightarrow> a < b \<longleftrightarrow> d_lt a b"
  by (simp add: less_dbl_def)

text \<open>\<open>std::greater\<close>: the same keys in descending iteration order.\<close>

datatype 'a desc = Desc (undesc: 'a)

instantiation desc :: (linorder) linorder
begin

definition less_desc :: "'a desc \<Rightarrow> 'a desc \<Rightarrow> bool" where
  "less_desc a b \<longleftrightarrow> undesc b < undesc a"

definition less_eq_desc :: "'a desc \<Rightarrow> 'a desc \<Rightarrow> bool" where
  "less_eq_desc a b \<longleftrightarrow> undesc b \<le> undesc a"

instance
  by standard (auto simp: less_desc_def less_eq_desc_def desc.expand less_le_not_le)

end

lemma desc_less [simp]: "Desc a < Desc b \<longleftrightarrow> b < a"
  by (simp add: less_desc_def)

section \<open>One tick beside a price\<close>

text \<open>
  A price of \<open>k\<close> ticks of size \<open>t\<close> is held as the double \<open>k * t\<close>.  Stepping a tick (or more) away
  from it, dividing by the tick again and rounding outwards with the \<open>1e-8\<close> allowance of the
  sources never comes back to \<open>k\<close>: the accumulated rounding error stays far below one tick.
\<close>

lemma flr_err_bound: "\<bar>x\<bar> \<le> b \<Longrightarrow> \<bar>flr x - x\<bar> \<le> b / 2 ^ 53 + 2 powi (- 1075)"
  by (rule order_trans [OF flr_err]) (simp add: divide_right_mono)

lemma touch_step_up:
  fixes t s :: rat and k :: int
  assumes t: "2 powi (- 200) \<le> t" and s: "t \<le> s" and k: "\<bar>k\<bar> \<le> 2 ^ 40"
  shows "flr (flr (of_int k * t) - s) / t \<le> of_int k - 1 + 1 / 2 ^ 10"
proof -
  define h :: rat where "h = 2 powi (- 1075)"
  define K where "K = (of_int k :: rat)"
  have t0: "0 < t" using t powi_2_pos less_le_trans by blast
  have "2 powi (- 875) * 2 powi (- 200) = h" unfolding h_def by (simp flip: powi_2_split)
  then have h1: "h \<le> 2 powi (- 875) * t" using t by (metis mult_left_mono powi_2_pos order_less_imp_le)
  have "(2 powi (- 875) :: rat) \<le> 2 powi (- 53)" by (intro powi_2_mono) simp
  also have "\<dots> = 1 / 2 ^ 53" by (simp add: power_int_minus_divide)
  finally have "2 powi (- 875) * t \<le> (1 / 2 ^ 53) * t" using t0 by (intro mult_right_mono) simp_all
  then have h: "h \<le> t / 2 ^ 53" "0 < h" using h1 by (simp_all add: h_def)
  have K: "\<bar>K\<bar> \<le> 2 ^ 40" using k unfolding K_def by (metis of_int_abs of_int_le_iff of_int_numeral of_int_power)
  have Kt: "\<bar>K * t\<bar> \<le> 2 ^ 40 * t" using K t0 by (simp add: abs_mult)
  define P where "P = flr (K * t)"
  have "\<bar>P - K * t\<bar> \<le> 2 ^ 40 * t / 2 ^ 53 + h"
    using flr_err_bound [OF Kt] unfolding P_def h_def .
  then have P: "\<bar>P - K * t\<bar> \<le> t / 2 ^ 12" using h(1) t0 by simp
  define X where "X = P - t"
  have "\<bar>X\<bar> \<le> t / 2 ^ 12 + 2 ^ 40 * t + t" using P Kt t0 unfolding X_def by linarith
  then have X: "\<bar>X\<bar> \<le> 2 ^ 41 * t" using t0 by simp
  have "flr (P - s) \<le> flr X" using s unfolding X_def by (intro flr_mono) simp
  also have "flr X \<le> X + 2 ^ 41 * t / 2 ^ 53 + h"
    using flr_err_bound [OF X] unfolding h_def by linarith
  also have "\<dots> \<le> X + t / 2 ^ 11" using h(1) t0 by simp
  also have "\<dots> \<le> K * t - t + t / 2 ^ 12 + t / 2 ^ 11" using P unfolding X_def by linarith
  also have "\<dots> \<le> (K - 1 + 1 / 2 ^ 10) * t" using t0 by (simp add: algebra_simps)
  finally show ?thesis using t0 by (simp add: P_def K_def pos_divide_le_eq)
qed


lemma touch_step_down:
  fixes t s :: rat and k :: int
  assumes t: "2 powi (- 200) \<le> t" and s: "0 \<le> s" "s \<le> 2 ^ 20 * t" and k: "\<bar>k\<bar> \<le> 2 ^ 40"
  shows "- (2 ^ 42) \<le> flr (flr (of_int k * t) - s) / t"
proof -
  define h :: rat where "h = 2 powi (- 1075)"
  define K where "K = (of_int k :: rat)"
  have t0: "0 < t" using t powi_2_pos less_le_trans by blast
  have "h \<le> 2 powi (- 200)" unfolding h_def by (intro powi_2_mono) simp
  then have h: "h \<le> t" using t by simp
  have K: "\<bar>K\<bar> \<le> 2 ^ 40" using k unfolding K_def by (metis of_int_abs of_int_le_iff of_int_numeral of_int_power)
  have Kt: "\<bar>K * t\<bar> \<le> 2 ^ 40 * t" using K t0 by (simp add: abs_mult)
  define P where "P = flr (K * t)"
  have "\<bar>P - K * t\<bar> \<le> 2 ^ 40 * t / 2 ^ 53 + h"
    using flr_err_bound [OF Kt] unfolding P_def h_def .
  then have P: "\<bar>P - K * t\<bar> \<le> 2 * t" using h t0 by simp
  define X where "X = P - s"
  have "\<bar>X\<bar> \<le> 2 * t + 2 ^ 40 * t + 2 ^ 20 * t" using P Kt t0 s unfolding X_def by linarith
  then have X: "\<bar>X\<bar> \<le> 2 ^ 41 * t" using t0 by simp
  have "\<bar>flr X - X\<bar> \<le> 2 ^ 41 * t / 2 ^ 53 + h"
    using flr_err_bound [OF X] unfolding h_def .
  then have "- (2 ^ 42) * t \<le> flr X" using X h t0 by simp
  then show ?thesis using t0 by (simp add: P_def K_def X_def pos_le_divide_eq)
qed

lemma flr_tenth_bound: "0 \<le> flr (1 / 100000000)" "flr (1 / 100000000) \<le> 1 / 2 ^ 10"
proof -
  show "0 \<le> flr (1 / 100000000)" by (rule flr_nonneg) simp
  have "is_f64 (of_int 1 * 2 powi (- 10))" by (rule is_f64_scaled) simp_all
  then have "flr (1 / 2 ^ 10) = 1 / 2 ^ 10" by (simp add: is_f64_def power_int_minus_divide)
  moreover have "flr (1 / 100000000) \<le> flr (1 / 2 ^ 10)" by (rule flr_mono) simp
  ultimately show "flr (1 / 100000000) \<le> 1 / 2 ^ 10" by simp
qed

lemma flr_grid10: "\<bar>m\<bar> \<le> 2 ^ 52 \<Longrightarrow> flr (of_int m / 2 ^ 10) = of_int m / 2 ^ 10"
  using is_f64_scaled [of m "- 10"] by (simp add: is_f64_def power_int_minus_divide)

text \<open>The floor of the quotient with the epsilon stays on the near side of the touch.\<close>

lemma touch_floor:
  fixes q :: rat and k :: int
  assumes q: "- (2 ^ 42) \<le> q" "q \<le> of_int k - 1 + 1 / 2 ^ 10" and k: "\<bar>k\<bar> \<le> 2 ^ 40"
  shows "- (2 ^ 43) \<le> flr (flr q + flr (1 / 100000000))"
    and "flr (flr q + flr (1 / 100000000)) < of_int k"
proof -
  have grid: "flr (of_int ((k - 1) * 2 ^ 10 + j) / 2 ^ 10) = of_int ((k - 1) * 2 ^ 10 + j) / 2 ^ 10"
    if "\<bar>j\<bar> \<le> 2" for j
    using k that by (intro flr_grid10) (simp add: abs_le_iff)
  have low: "flr (- (2 ^ 42)) = - (2 ^ 42)" using flr_int [of "- (2 ^ 42)"] by simp
  have q1: "flr q \<le> of_int k - 1 + 1 / 2 ^ 10"
    using flr_mono [OF q(2)] grid [of 1] by (simp add: field_simps)
  have q2: "- (2 ^ 42) \<le> flr q" using flr_mono [OF q(1)] low by simp
  have "flr q + flr (1 / 100000000) \<le> of_int ((k - 1) * 2 ^ 10 + 2) / 2 ^ 10"
    using q1 flr_tenth_bound(2) by (simp add: field_simps)
  from flr_mono [OF this] have "flr (flr q + flr (1 / 100000000)) \<le> of_int ((k - 1) * 2 ^ 10 + 2) / 2 ^ 10"
    using grid [of 2] by simp
  also have "\<dots> < of_int k" by (simp add: field_simps)
  finally show "flr (flr q + flr (1 / 100000000)) < of_int k" .
  have "- (2 ^ 42) \<le> flr q + flr (1 / 100000000)" using q2 flr_tenth_bound(1) by linarith
  from flr_mono [OF this] show "- (2 ^ 43) \<le> flr (flr q + flr (1 / 100000000))" using low by simp
qed


lemma flr_between: "is_f64 a \<Longrightarrow> is_f64 b \<Longrightarrow> a \<le> x \<Longrightarrow> x \<le> b \<Longrightarrow> a \<le> flr x \<and> flr x \<le> b"
  unfolding is_f64_def by (rule f64.rnd_between)

lemma fl_bounded:
  assumes "\<bar>x\<bar> \<le> 2 ^ n" "n \<le> 1000"
  shows "fl x = Fin (flr x)" "\<bar>flr x\<bar> \<le> 2 ^ n"
proof -
  have "is_f64 (of_int 1 * 2 powi int n)" "is_f64 (of_int (- 1) * 2 powi int n)"
    by (rule is_f64_scaled; simp)+
  then have "is_f64 (2 ^ n)" "is_f64 (- (2 ^ n))" by simp_all
  moreover have "- (2 ^ n) \<le> x" "x \<le> 2 ^ n" using assms(1) by linarith+
  ultimately have "- (2 ^ n) \<le> flr x \<and> flr x \<le> 2 ^ n" by (intro flr_between)
  then show b: "\<bar>flr x\<bar> \<le> 2 ^ n" by linarith
  moreover have "(2::rat) ^ n < f64_limit"
    unfolding f64_limit_def using assms(2) by (intro power_strict_increasing) simp_all
  ultimately show "fl x = Fin (flr x)" by (simp add: fl_Fin)
qed

text \<open>One tick (or more) below a price, floored to the grid, is strictly below the price.\<close>

lemma floor_below_touch:
  assumes t: "2 powi (- 200) \<le> t" "t \<le> 2 ^ 200" and s: "t \<le> s" "s \<le> 2 ^ 20 * t" and k: "\<bar>k\<bar> \<le> 2 ^ 40"
  shows "\<exists>y. d_add (d_div (d_sub (d_mul (d_of_int k) (Fin t)) (Fin s)) (Fin t)) (fl (1 / 100000000)) = Fin y
    \<and> - (2 ^ 43) \<le> y \<and> y < of_int k"
proof -
  have t0: "0 < t" using t(1) powi_2_pos less_le_trans by blast
  have kk: "\<bar>k\<bar> < 2 ^ 53" using k by simp
  have K: "\<bar>of_int k :: rat\<bar> \<le> 2 ^ 40" using k by (metis of_int_abs of_int_le_iff of_int_numeral of_int_power)
  define q where "q = flr (flr (of_int k * t) - s) / t"
  have up: "q \<le> of_int k - 1 + 1 / 2 ^ 10" unfolding q_def by (rule touch_step_up [OF t(1) s(1) k])
  have low: "- (2 ^ 42) \<le> q" unfolding q_def using touch_step_down [OF t(1) _ s(2) k] s(1) t0 by simp
  have "\<bar>of_int k * t\<bar> \<le> 2 ^ 40 * 2 ^ 200" unfolding abs_mult using K t t0 by (intro mult_mono) simp_all
  also have "\<dots> = 2 ^ 240" by simp
  finally have p: "\<bar>of_int k * t\<bar> \<le> 2 ^ 240" .
  have "2 ^ 20 * t \<le> 2 ^ 20 * 2 ^ 200" using t(2) by (rule mult_left_mono) simp
  moreover have "\<bar>flr (of_int k * t)\<bar> \<le> 2 ^ 240" by (rule fl_bounded(2) [OF p]) simp
  ultimately have "\<bar>flr (of_int k * t) - s\<bar> \<le> 2 ^ 240 + 2 ^ 20 * 2 ^ 200"
    using s t0 by linarith
  also have "\<dots> \<le> 2 ^ 241" by simp
  finally have x: "\<bar>flr (of_int k * t) - s\<bar> \<le> 2 ^ 241" .
  have "q \<le> 2 ^ 40" using up K by (simp add: abs_le_iff)
  then have q: "\<bar>q\<bar> \<le> 2 ^ 42" using low by (simp add: abs_le_iff)
  have "\<bar>flr q\<bar> \<le> 2 ^ 42" by (rule fl_bounded(2) [OF q]) simp
  then have "\<bar>flr q + flr (1 / 100000000)\<bar> \<le> 2 ^ 42 + 1 / 2 ^ 10"
    using flr_tenth_bound by linarith
  also have "\<dots> \<le> 2 ^ 43" by simp
  finally have r: "\<bar>flr q + flr (1 / 100000000)\<bar> \<le> 2 ^ 43" .
  have e: "fl (1 / 100000000) = Fin (flr (1 / 100000000))" by (rule fl_bounded(1) [where n = 0]) simp_all
  have "d_add (d_div (d_sub (d_mul (d_of_int k) (Fin t)) (Fin s)) (Fin t)) (fl (1 / 100000000))
      = Fin (flr (flr q + flr (1 / 100000000)))"
    using t0 fl_bounded(1) [OF p] fl_bounded(1) [OF x] fl_bounded(1) [OF q] fl_bounded(1) [OF r]
    by (simp add: d_of_int_small [OF kk] d_sub_def e q_def)
  then show ?thesis using touch_floor [OF low up k] by blast
qed

lemma d_neg_fl: "d_neg (fl x) = fl (- x)"
  using f64_limit_pos by (auto simp: fl_def Let_def flr_minus)

lemma ceil_above_touch:
  assumes t: "2 powi (- 200) \<le> t" "t \<le> 2 ^ 200" and s: "t \<le> s" "s \<le> 2 ^ 20 * t" and k: "\<bar>k\<bar> \<le> 2 ^ 40"
  shows "\<exists>y. d_sub (d_div (d_add (d_mul (d_of_int k) (Fin t)) (Fin s)) (Fin t)) (fl (1 / 100000000)) = Fin y
    \<and> y \<le> 2 ^ 43 \<and> of_int k < y"
proof -
  have neg_add: "d_neg (d_add a b) = d_add (d_neg a) (d_neg b)" for a b
    by (cases a; cases b) (simp_all add: d_neg_fl)
  have neg_div: "d_neg (d_div a (Fin t)) = d_div (d_neg a) (Fin t)" for a
    using t(1) powi_2_pos [of "- 200"] by (cases a) (auto simp: d_neg_fl d_inf_def)
  have neg_mul: "d_neg (d_mul (d_of_int k) (Fin t)) = d_mul (d_of_int (- k)) (Fin t)"
    using k by (simp add: d_of_int_small d_neg_fl)
  have neg_neg: "d_neg (d_neg a) = a" for a by (cases a) simp_all
  obtain y where y: "d_add (d_div (d_sub (d_mul (d_of_int (- k)) (Fin t)) (Fin s)) (Fin t))
      (fl (1 / 100000000)) = Fin y" "- (2 ^ 43) \<le> y" "y < of_int (- k)"
    using floor_below_touch [OF t s, of "- k"] k by auto
  have "d_sub (d_div (d_add (d_mul (d_of_int k) (Fin t)) (Fin s)) (Fin t)) (fl (1 / 100000000))
      = d_neg (d_add (d_div (d_sub (d_mul (d_of_int (- k)) (Fin t)) (Fin s)) (Fin t)) (fl (1 / 100000000)))"
    unfolding neg_add neg_div d_sub_def neg_mul [symmetric] neg_neg ..
  then show ?thesis using y by auto
qed

end
