(* ===== verification/Msg_Types.thy ===== *)
theory Msg_Types
  imports Float64
begin

text \<open>
  The data the processes exchange: the normalised market messages of
  \<open>common/market_msg_types.hpp\<close>, the task payloads of \<open>common/feed_msg_types.hpp\<close>, the order
  requests and replies of \<open>trader/order_gateway/order_gateway_dtypes.hpp\<close> and the price structs
  of \<open>trader/price_dtypes.hpp\<close>.  Every struct is a record with the fields of the source,
  prefixed by an abbreviation of the struct; \<open>std::optional\<close> is \<open>option\<close>, an empty string is
  \<open>[]\<close>, and the default member initialisers are the \<open>_init\<close> records.
\<close>

type_synonym product = string
type_synonym cid = int
type_synonym price_level = "dbl \<times> dbl"

section \<open>Products\<close>

datatype category = futures | spot | asset

definition category_from_string :: "string \<Rightarrow> category" where
  "category_from_string s =
     (if s = ''spot'' then spot else if s = ''asset'' then asset else futures)"

record product_spec =
  ps_product :: product
  ps_category :: category

text \<open>\<open>token.find(':')\<close> and the two \<open>substr\<close> calls around it.\<close>

definition product_spec_from_token :: "string \<Rightarrow> product_spec" where
  "product_spec_from_token token =
     (case dropWhile (\<lambda>c. c \<noteq> CHR '':'') token of
        [] \<Rightarrow> \<lparr>ps_product = token, ps_category = futures\<rparr>
      | _ # rest \<Rightarrow> \<lparr>ps_product = takeWhile (\<lambda>c. c \<noteq> CHR '':'') token,
                     ps_category = category_from_string rest\<rparr>)"

section \<open>Market messages\<close>

record subscribe_request_msg =
  sr_subscribe :: bool
  sr_product :: product
  sr_category :: category

record subscribe_response_msg =
  sp_subscribe :: bool
  sp_success :: bool
  sp_product :: product
  sp_category :: category

record orderbook_level =
  ol_price :: "dbl option"
  ol_qty :: "dbl option"

record orderbook_data =
  bid_book :: "orderbook_level list"
  ask_book :: "orderbook_level list"
  ob_server_tstamp_ms :: "int option"

record trade_data =
  td_trade_price :: "dbl option"
  td_cum_trade_qty :: "dbl option"
  td_cum_buy_trade_qty :: "dbl option"
  td_server_tstamp_ms :: "int option"

record execution_data =
  ed_account_no :: string
  ed_order_no :: string
  ed_original_order_no :: string
  ed_client_order_id :: string
  ed_short_product :: string
  ed_full_product :: string
  ed_is_accept_data :: bool
  ed_is_place :: bool
  ed_is_cancel :: bool
  ed_is_bid :: bool
  ed_is_accepted :: bool
  ed_is_rejected :: bool
  ed_is_executed :: bool
  ed_update_position_on_fill :: bool
  ed_order_price :: "dbl option"
  ed_order_qty :: "dbl option"
  ed_execute_price :: "dbl option"
  ed_execute_qty :: "dbl option"

definition execution_data_init :: execution_data where
  "execution_data_init = \<lparr>ed_account_no = [], ed_order_no = [], ed_original_order_no = [],
     ed_client_order_id = [], ed_short_product = [], ed_full_product = [],
     ed_is_accept_data = False, ed_is_place = False, ed_is_cancel = False, ed_is_bid = False,
     ed_is_accepted = False, ed_is_rejected = False, ed_is_executed = False,
     ed_update_position_on_fill = True, ed_order_price = None, ed_order_qty = None,
     ed_execute_price = None, ed_execute_qty = None\<rparr>"

record position_data =
  pd_balance :: "dbl option"
  pd_available_balance :: "dbl option"

record product_info_data =
  pi_tick_size :: "dbl option"
  pi_lot_size :: "dbl option"

definition product_info_init :: product_info_data where
  "product_info_init = \<lparr>pi_tick_size = None, pi_lot_size = None\<rparr>"

record fair_price_data =
  fp_ts :: int
  fp_fair_price :: "dbl option"
  fp_factor :: "dbl option"
  fp_forward_vol_bp :: dbl

section \<open>Task payloads of the internal feeds\<close>

record feed_status =
  fs_connecting :: bool
  fs_connected :: bool

record feed_subscribe =
  fu_subscribe :: bool
  fu_success :: bool
  fu_product :: product

datatype feed_kind = FeedOrderbook | FeedTrade | FeedExecution | FeedPosition | FeedProductInfo | FeedError

datatype feed_payload =
    POrderbook orderbook_data
  | PTrade trade_data
  | PExecution execution_data
  | PPosition position_data
  | PProductInfo product_info_data

record market_data_response =
  md_feed :: feed_kind
  md_product :: product
  md_data :: feed_payload

record fair_price_response =
  fr_product :: product
  fr_data :: fair_price_data

section \<open>Order requests and replies\<close>

record order_place_info =
  op_is_limit :: bool
  op_is_bid :: bool
  op_price :: dbl
  op_qty :: dbl
  op_product :: product
  op_cid :: cid
  op_reduce_only :: bool

record order_amend_info =
  oa_order_no :: string
  oa_amend_all :: bool
  oa_is_limit :: bool
  oa_price :: dbl
  oa_qty :: dbl
  oa_product :: product
  oa_cid :: cid

record order_cancel_info =
  oc_order_no :: string
  oc_cancel_all :: bool
  oc_is_limit :: bool
  oc_qty :: dbl
  oc_product :: product
  oc_cid :: cid

record order_response =
  or_success :: bool
  or_code :: string
  or_msg :: string
  or_order_no :: string
  or_cid :: cid
  or_server_tstamp_ms :: "int option"
  or_order_gone :: bool

definition order_response_init :: order_response where
  "order_response_init = \<lparr>or_success = False, or_code = [], or_msg = [], or_order_no = [],
     or_cid = 0, or_server_tstamp_ms = None, or_order_gone = False\<rparr>"

section \<open>Price structs of the trader\<close>

record price_info =
  bbid_price_in_min_ticks :: int
  bask_price_in_min_ticks :: int
  mid_price :: dbl
  fair_price :: dbl
  applied_factor :: dbl
  forward_vol_bp :: dbl
  tick_size :: dbl

record l1 =
  l1_bbid_price_in_min_ticks :: int
  l1_bask_price_in_min_ticks :: int
  l1_bbid_qty_in_lots :: int
  l1_bask_qty_in_lots :: int

definition l1_init :: l1 where
  "l1_init = \<lparr>l1_bbid_price_in_min_ticks = - 1, l1_bask_price_in_min_ticks = - 1,
     l1_bbid_qty_in_lots = 0, l1_bask_qty_in_lots = 0\<rparr>"

record fair_price_state =
  fps_ts :: int
  fps_fair_price :: dbl
  fps_factor :: dbl
  fps_forward_vol_bp :: dbl

definition fair_price_state_init :: fair_price_state where
  "fair_price_state_init = \<lparr>fps_ts = 0, fps_fair_price = NaN, fps_factor = NaN,
     fps_forward_vol_bp = Fin 1\<rparr>"

section \<open>Facts\<close>

text \<open>A token written as \<open>SYMBOL:category\<close> names the symbol and the category.\<close>

fun category_name :: "category \<Rightarrow> string" where
  "category_name futures = ''futures''"
| "category_name spot = ''spot''"
| "category_name asset = ''asset''"

lemma category_from_name [simp]: "category_from_string (category_name c) = c"
  by (cases c) (simp_all add: category_from_string_def)

lemma token_split:
  "CHR '':'' \<notin> set p \<Longrightarrow> takeWhile (\<lambda>c. c \<noteq> CHR '':'') (p @ CHR '':'' # r) = p
     \<and> dropWhile (\<lambda>c. c \<noteq> CHR '':'') (p @ CHR '':'' # r) = CHR '':'' # r"
  by (induction p) auto

end
