(* ===== verification/Strategy.thy ===== *)
theory Strategy
  imports Msg_Types "HOL-Library.Multiset"
begin

text \<open>
  The quoting strategy: the unit conversions of \<open>trader/strategy/base_strategy.cpp\<close> and the
  decision of \<open>trader/strategy/geuant_strategy.cpp\<close>.  A strategy object is the pair of its
  units (\<open>base_strategy\<close>) and its parameters (\<open>geuant_params\<close>); \<open>make_decision\<close> writes into four
  containers it is handed by reference, here the fields of \<open>decision\<close>.

  Prices are counts of min ticks (\<open>int64_t\<close>), quantities counts of lots (\<open>int32_t\<close>); every
  integer operation that can leave its width is reduced, every double operation is rounded.
\<close>

section \<open>Units\<close>

record market_config =
  mc_name :: string
  mc_min_tick_size :: dbl
  mc_default_lot_size :: dbl
  mc_exchange :: string
  mc_tick_func :: "(dbl \<Rightarrow> dbl) option"
  mc_short_sell_unable :: bool

definition get_tick_func :: "string \<Rightarrow> (dbl \<Rightarrow> dbl) option" where
  "get_tick_func exchange = None"

record outstanding_order =
  oo_price_in_min_ticks :: int
  oo_qty_in_lots :: int
  oo_is_bid :: bool

record base_strategy =
  bs_min_tick_size :: dbl
  bs_default_lot_size :: dbl
  bs_tick_func :: "(dbl \<Rightarrow> dbl) option"
  bs_short_sell_unable :: bool

definition base_strategy_of :: "market_config \<Rightarrow> base_strategy" where
  "base_strategy_of mc =
     \<lparr>bs_min_tick_size = mc_min_tick_size mc, bs_default_lot_size = mc_default_lot_size mc,
      bs_tick_func = mc_tick_func mc, bs_short_sell_unable = mc_short_sell_unable mc\<rparr>"

definition eps_ticks :: dbl where
  "eps_ticks = fl (1 / 100000000)"

definition round_price_in_min_ticks :: "base_strategy \<Rightarrow> dbl \<Rightarrow> int" where
  "round_price_in_min_ticks bs price = cast_i64 (d_round (d_div price (bs_min_tick_size bs)))"

definition ceil_price_in_min_ticks :: "base_strategy \<Rightarrow> dbl \<Rightarrow> int" where
  "ceil_price_in_min_ticks bs price =
     (case bs_tick_func bs of
        Some tick_func \<Rightarrow>
          (let local_tick_size = tick_func price;
               ceil_price = d_mul (d_ceil (d_sub (d_div price local_tick_size) eps_ticks)) local_tick_size
           in round_price_in_min_ticks bs ceil_price)
      | None \<Rightarrow> cast_i64 (d_ceil (d_sub (d_div price (bs_min_tick_size bs)) eps_ticks)))"

definition floor_price_in_min_ticks :: "base_strategy \<Rightarrow> dbl \<Rightarrow> int" where
  "floor_price_in_min_ticks bs price =
     (case bs_tick_func bs of
        Some tick_func \<Rightarrow>
          (let local_tick_size = tick_func price;
               floor_price = d_mul (d_floor (d_add (d_div price local_tick_size) eps_ticks)) local_tick_size
           in round_price_in_min_ticks bs floor_price)
      | None \<Rightarrow> cast_i64 (d_floor (d_add (d_div price (bs_min_tick_size bs)) eps_ticks)))"

definition to_double_price :: "base_strategy \<Rightarrow> int \<Rightarrow> dbl" where
  "to_double_price bs p = d_mul (d_of_int p) (bs_min_tick_size bs)"

definition round_qty_in_lots :: "base_strategy \<Rightarrow> dbl \<Rightarrow> int" where
  "round_qty_in_lots bs qty = cast_i32 (d_round (d_div qty (bs_default_lot_size bs)))"

definition dollar_to_qty_in_lots :: "base_strategy \<Rightarrow> dbl \<Rightarrow> dbl \<Rightarrow> int" where
  "dollar_to_qty_in_lots bs order_dollar order_price =
     round_qty_in_lots bs (d_div order_dollar order_price)"

definition to_double_qty :: "base_strategy \<Rightarrow> int \<Rightarrow> dbl" where
  "to_double_qty bs q = d_mul (d_of_int q) (bs_default_lot_size bs)"

section \<open>The Geuant strategy\<close>

record geuant_params =
  gp_name :: string
  spread_const_bp :: dbl
  skew_ratio :: dbl
  use_spread_cap :: bool
  spread_cap_bp :: dbl
  use_bbo_cap_buffer :: bool
  bbo_cap_buffer_bp :: dbl
  order_lots :: int
  order_dollar :: dbl
  position_limit_in_lots :: int
  position_in_dollar :: bool
  position_limit_in_dollar :: dbl
  order_buffer_bp :: dbl
  order_num :: nat
  order_interval_bp :: dbl
  tick_based_order_interval :: bool
  order_interval_ticks :: int

definition geuant_params_init :: geuant_params where
  "geuant_params_init = \<lparr>gp_name = [], spread_const_bp = Fin 0, skew_ratio = Fin 0, use_spread_cap = False,
     spread_cap_bp = Fin 0, use_bbo_cap_buffer = False, bbo_cap_buffer_bp = Fin 0,
     order_lots = 0, order_dollar = Fin 0, position_limit_in_lots = 0,
     position_in_dollar = False, position_limit_in_dollar = Fin 0, order_buffer_bp = Fin 0,
     order_num = 0, order_interval_bp = Fin 0, tick_based_order_interval = False,
     order_interval_ticks = 0\<rparr>"

type_synonym place_map = "(int, int) omap"
type_synonym outstanding_map = "(cid, outstanding_order) omap"

record decision =
  bid_place_orders :: place_map
  ask_place_orders :: place_map
  bid_cancel_orders :: "cid list"
  ask_cancel_orders :: "cid list"

definition decision_init :: decision where
  "decision_init = \<lparr>bid_place_orders = [], ask_place_orders = [],
     bid_cancel_orders = [], ask_cancel_orders = []\<rparr>"

definition clip_delta :: "geuant_params \<Rightarrow> dbl \<Rightarrow> dbl" where
  "clip_delta ps delta =
     (if use_spread_cap ps then d_min (d_max (Fin 0) delta) (spread_cap_bp ps)
      else d_max (Fin 0) delta)"

definition delta_bid :: "geuant_params \<Rightarrow> dbl \<Rightarrow> dbl \<Rightarrow> dbl" where
  "delta_bid ps fwd_vol_bp usage =
     clip_delta ps (d_mul (d_mul (spread_const_bp ps) fwd_vol_bp)
       (d_add (Fin 1) (d_mul (skew_ratio ps) usage)))"

definition delta_ask :: "geuant_params \<Rightarrow> dbl \<Rightarrow> dbl \<Rightarrow> dbl" where
  "delta_ask ps fwd_vol_bp usage =
     clip_delta ps (d_mul (d_mul (spread_const_bp ps) fwd_vol_bp)
       (d_sub (Fin 1) (d_mul (skew_ratio ps) usage)))"

definition get_order_qty_in_lots :: "base_strategy \<Rightarrow> geuant_params \<Rightarrow> int \<Rightarrow> int \<Rightarrow> int" where
  "get_order_qty_in_lots bs ps price_in_min_ticks qty_limit_in_lots =
     min qty_limit_in_lots
       (if position_in_dollar ps
        then dollar_to_qty_in_lots bs (order_dollar ps) (to_double_price bs price_in_min_ticks)
        else order_lots ps)"

subsection \<open>Pairing resting orders with wanted prices\<close>

definition order_tolerance :: "dbl \<Rightarrow> int \<Rightarrow> int" where
  "order_tolerance buffer_bp outstanding_price =
     (if d_lt (Fin 0) buffer_bp
      then cast_i64 (d_floor (d_add
             (d_div (d_mul (d_of_int (s64 \<bar>outstanding_price\<bar>)) buffer_bp) (Fin 10000)) eps_ticks))
      else 0)"

text \<open>
  The two neighbours of the resting price in the sorted place map: the entry before
  \<open>lower_bound\<close>, then the entry at it if that one is strictly nearer.
\<close>

definition nearest_candidate :: "int \<Rightarrow> place_map \<Rightarrow> (int \<times> int) option" where
  "nearest_candidate outstanding_price place_orders =
     (let below = om_below outstanding_price place_orders;
          upper = om_from outstanding_price place_orders;
          candidate = (if below = [] then None
                       else Some (fst (last below), s64 (outstanding_price - fst (last below))))
      in case upper of
           [] \<Rightarrow> candidate
         | (k, _) # _ \<Rightarrow>
             (let distance = s64 (k - outstanding_price) in
              case candidate of
                None \<Rightarrow> Some (k, distance)
              | Some (_, best_distance) \<Rightarrow>
                  if distance < best_distance then Some (k, distance) else candidate))"

definition claimed_price :: "int \<Rightarrow> int \<Rightarrow> place_map \<Rightarrow> int option" where
  "claimed_price outstanding_price tolerance place_orders =
     (case nearest_candidate outstanding_price place_orders of
        None \<Rightarrow> None
      | Some (k, best_distance) \<Rightarrow> if tolerance < best_distance then None else Some k)"

definition refresh_order ::
  "dbl \<Rightarrow> cid \<Rightarrow> outstanding_order \<Rightarrow> decision \<Rightarrow> decision" where
  "refresh_order buffer_bp c oo d =
     (let place_orders = (if oo_is_bid oo then bid_place_orders d else ask_place_orders d) in
      case claimed_price (oo_price_in_min_ticks oo)
             (order_tolerance buffer_bp (oo_price_in_min_ticks oo)) place_orders of
        None \<Rightarrow>
          if oo_is_bid oo then d\<lparr>bid_cancel_orders := bid_cancel_orders d @ [c]\<rparr>
          else d\<lparr>ask_cancel_orders := ask_cancel_orders d @ [c]\<rparr>
      | Some k \<Rightarrow>
          if oo_is_bid oo then d\<lparr>bid_place_orders := om_erase k place_orders\<rparr>
          else d\<lparr>ask_place_orders := om_erase k place_orders\<rparr>)"

fun refresh_orders :: "dbl \<Rightarrow> outstanding_map \<Rightarrow> decision \<Rightarrow> decision" where
  "refresh_orders buffer_bp [] d = d"
| "refresh_orders buffer_bp ((c, oo) # os) d =
     refresh_orders buffer_bp os (refresh_order buffer_bp c oo d)"

definition choose_orders_to_cancel ::
  "geuant_params \<Rightarrow> outstanding_map \<Rightarrow> bool \<Rightarrow> decision \<Rightarrow> decision" where
  "choose_orders_to_cancel ps outstanding_orders is_liquidate d =
     refresh_orders (if is_liquidate then Fin 0 else order_buffer_bp ps) outstanding_orders d"

subsection \<open>The decision\<close>

definition local_tick_size :: "base_strategy \<Rightarrow> price_info \<Rightarrow> dbl" where
  "local_tick_size bs pri =
     (case bs_tick_func bs of
        Some tick_func \<Rightarrow> tick_func (fair_price pri)
      | None \<Rightarrow> if d_lt (Fin 0) (tick_size pri) then tick_size pri else bs_min_tick_size bs)"

definition bid_price_limit :: "base_strategy \<Rightarrow> geuant_params \<Rightarrow> price_info \<Rightarrow> int" where
  "bid_price_limit bs ps pri =
     (if use_bbo_cap_buffer ps
      then floor_price_in_min_ticks bs
             (d_mul (to_double_price bs (bbid_price_in_min_ticks pri))
               (d_sub (Fin 1) (d_div (bbo_cap_buffer_bp ps) (Fin 10000))))
      else floor_price_in_min_ticks bs
             (d_sub (to_double_price bs (bask_price_in_min_ticks pri)) (local_tick_size bs pri)))"

definition ask_price_limit :: "base_strategy \<Rightarrow> geuant_params \<Rightarrow> price_info \<Rightarrow> int" where
  "ask_price_limit bs ps pri =
     (if use_bbo_cap_buffer ps
      then ceil_price_in_min_ticks bs
             (d_mul (to_double_price bs (bask_price_in_min_ticks pri))
               (d_add (Fin 1) (d_div (bbo_cap_buffer_bp ps) (Fin 10000))))
      else ceil_price_in_min_ticks bs
             (d_add (to_double_price bs (bbid_price_in_min_ticks pri)) (local_tick_size bs pri)))"

definition position_limit :: "base_strategy \<Rightarrow> geuant_params \<Rightarrow> price_info \<Rightarrow> int" where
  "position_limit bs ps pri =
     (if position_in_dollar ps
      then dollar_to_qty_in_lots bs (position_limit_in_dollar ps) (mid_price pri)
      else position_limit_in_lots ps)"

definition bid_qty_limit :: "base_strategy \<Rightarrow> geuant_params \<Rightarrow> price_info \<Rightarrow> int \<Rightarrow> int" where
  "bid_qty_limit bs ps pri position_in_lots = s32 (position_limit bs ps pri - position_in_lots)"

definition ask_qty_limit :: "base_strategy \<Rightarrow> geuant_params \<Rightarrow> price_info \<Rightarrow> int \<Rightarrow> int" where
  "ask_qty_limit bs ps pri position_in_lots =
     min (if bs_short_sell_unable bs then position_in_lots else 2 ^ 31 - 1)
       (s32 (position_in_lots + position_limit bs ps pri))"

definition position_limit_usage :: "base_strategy \<Rightarrow> geuant_params \<Rightarrow> price_info \<Rightarrow> int \<Rightarrow> dbl" where
  "position_limit_usage bs ps pri position_in_lots =
     (if position_in_dollar ps
      then d_div (d_mul (to_double_qty bs position_in_lots) (mid_price pri)) (position_limit_in_dollar ps)
      else d_div (to_double_qty bs position_in_lots) (to_double_qty bs (position_limit_in_lots ps)))"

definition price_offset :: "base_strategy \<Rightarrow> geuant_params \<Rightarrow> price_info \<Rightarrow> nat \<Rightarrow> dbl" where
  "price_offset bs ps pri order_idx =
     (if 1 \<le> order_idx \<and> tick_based_order_interval ps
      then d_mul (d_of_int (u64 (int order_idx * order_interval_ticks ps))) (local_tick_size bs pri)
      else d_div (d_mul (d_mul (fair_price pri) (d_of_int (int order_idx))) (order_interval_bp ps))
             (Fin 10000))"

definition ladder_bid_price ::
  "base_strategy \<Rightarrow> geuant_params \<Rightarrow> price_info \<Rightarrow> dbl \<Rightarrow> nat \<Rightarrow> place_map \<Rightarrow> int" where
  "ladder_bid_price bs ps pri base_delta_bid order_idx placed =
     min (round_price_in_min_ticks bs
            (if 1 \<le> order_idx \<and> tick_based_order_interval ps
             then d_sub (to_double_price bs (fst (last placed))) (price_offset bs ps pri order_idx)
             else d_sub (d_mul (fair_price pri) (d_sub (Fin 1) (d_div base_delta_bid (Fin 10000))))
                    (price_offset bs ps pri order_idx)))
       (bid_price_limit bs ps pri)"

definition ladder_ask_price ::
  "base_strategy \<Rightarrow> geuant_params \<Rightarrow> price_info \<Rightarrow> dbl \<Rightarrow> nat \<Rightarrow> place_map \<Rightarrow> int" where
  "ladder_ask_price bs ps pri base_delta_ask order_idx placed =
     max (round_price_in_min_ticks bs
            (if 1 \<le> order_idx \<and> tick_based_order_interval ps
             then d_add (to_double_price bs (fst (hd placed))) (price_offset bs ps pri order_idx)
             else d_add (d_mul (fair_price pri) (d_add (Fin 1) (d_div base_delta_ask (Fin 10000))))
                    (price_offset bs ps pri order_idx)))
       (ask_price_limit bs ps pri)"

definition ladder_step ::
  "base_strategy \<Rightarrow> geuant_params \<Rightarrow> price_info \<Rightarrow> int \<Rightarrow> nat \<Rightarrow> decision \<Rightarrow> decision" where
  "ladder_step bs ps pri position_in_lots order_idx d =
     (let usage = position_limit_usage bs ps pri position_in_lots;
          base_delta_bid = delta_bid ps (forward_vol_bp pri) usage;
          base_delta_ask = delta_ask ps (forward_vol_bp pri) usage;
          bid_lim = bid_qty_limit bs ps pri position_in_lots;
          ask_lim = ask_qty_limit bs ps pri position_in_lots;
          d1 = (if 0 < bid_lim
                then (let p = ladder_bid_price bs ps pri base_delta_bid order_idx (bid_place_orders d)
                      in d\<lparr>bid_place_orders :=
                             om_put p (get_order_qty_in_lots bs ps p bid_lim) (bid_place_orders d)\<rparr>)
                else d)
      in if 0 < ask_lim
         then (let p = ladder_ask_price bs ps pri base_delta_ask order_idx (ask_place_orders d1)
               in d1\<lparr>ask_place_orders :=
                       om_put p (get_order_qty_in_lots bs ps p ask_lim) (ask_place_orders d1)\<rparr>)
         else d1)"

definition ladder ::
  "base_strategy \<Rightarrow> geuant_params \<Rightarrow> price_info \<Rightarrow> int \<Rightarrow> decision \<Rightarrow> decision" where
  "ladder bs ps pri position_in_lots d =
     fold (ladder_step bs ps pri position_in_lots) [0..<order_num ps] d"

definition liquidation_quote :: "base_strategy \<Rightarrow> price_info \<Rightarrow> int \<Rightarrow> decision \<Rightarrow> decision" where
  "liquidation_quote bs pri position_in_lots d =
     (if 0 < position_in_lots
      then d\<lparr>ask_place_orders :=
               om_put (floor_price_in_min_ticks bs
                        (d_sub (to_double_price bs (bask_price_in_min_ticks pri)) (local_tick_size bs pri)))
                 position_in_lots (ask_place_orders d)\<rparr>
      else if position_in_lots < 0
      then d\<lparr>bid_place_orders :=
               om_put (ceil_price_in_min_ticks bs
                        (d_add (to_double_price bs (bbid_price_in_min_ticks pri)) (local_tick_size bs pri)))
                 (s32 (- position_in_lots)) (bid_place_orders d)\<rparr>
      else d)"

definition make_decision ::
  "base_strategy \<Rightarrow> geuant_params \<Rightarrow> price_info \<Rightarrow> bool \<Rightarrow> int \<Rightarrow> outstanding_map \<Rightarrow> decision
    \<Rightarrow> decision" where
  "make_decision bs ps pri do_liquidate position_in_lots outstanding_orders d =
     (if isnan (mid_price pri) then d
      else if do_liquidate
      then choose_orders_to_cancel ps outstanding_orders do_liquidate
             (liquidation_quote bs pri position_in_lots d)
      else choose_orders_to_cancel ps outstanding_orders do_liquidate
             (ladder bs ps pri position_in_lots d))"

section \<open>The pairing, one side at a time\<close>

text \<open>
  Reference definition: on one side, the resting orders in client-id order each claim their
  nearest wanted price when it is near enough, otherwise they are cancelled.  The result is the
  claims, the cancelled ids and the wanted prices still to be placed.
\<close>

fun match_side ::
  "(int \<Rightarrow> int) \<Rightarrow> (cid \<times> int) list \<Rightarrow> place_map \<Rightarrow> (cid \<times> int) list \<times> cid list \<times> place_map" where
  "match_side tol [] m = ([], [], m)"
| "match_side tol ((c, p) # os) m =
     (case claimed_price p (tol p) m of
        None \<Rightarrow> (case match_side tol os m of (claims, cancels, rest) \<Rightarrow> (claims, c # cancels, rest))
      | Some k \<Rightarrow> (case match_side tol os (om_erase k m) of
                    (claims, cancels, rest) \<Rightarrow> ((c, k) # claims, cancels, rest)))"

definition side_orders :: "bool \<Rightarrow> outstanding_map \<Rightarrow> (cid \<times> int) list" where
  "side_orders is_bid os =
     map (\<lambda>e. (fst e, oo_price_in_min_ticks (snd e))) (filter (\<lambda>e. oo_is_bid (snd e) = is_bid) os)"

definition in_ticks :: "int \<Rightarrow> bool" where
  "in_ticks p \<longleftrightarrow> - (2 ^ 62) \<le> p \<and> p < 2 ^ 62"

definition side_matched ::
  "(int \<Rightarrow> int) \<Rightarrow> (cid \<times> int) list \<Rightarrow> place_map \<Rightarrow> cid list \<Rightarrow> place_map \<Rightarrow> bool" where
  "side_matched tol resting wanted cancels rest \<longleftrightarrow>
     (\<exists>claims. mset (map fst claims) + mset cancels = mset (map fst resting)
        \<and> distinct (map snd claims) \<and> snd ` set claims \<subseteq> fst ` set wanted
        \<and> rest = filter (\<lambda>e. fst e \<notin> snd ` set claims) wanted
        \<and> (\<forall>(c, k) \<in> set claims. \<exists>p. (c, p) \<in> set resting \<and> \<bar>k - p\<bar> \<le> tol p)
        \<and> (\<forall>c \<in> set cancels. \<exists>p. (c, p) \<in> set resting \<and> (\<forall>k \<in> fst ` set rest. tol p < \<bar>k - p\<bar>)))"

lemma s64_in_ticks: "in_ticks p \<Longrightarrow> in_ticks q \<Longrightarrow> s64 (p - q) = p - q"
  by (rule s64_id) (auto simp: in_ticks_def)

lemma om_below_last:
  assumes "om_inv m" "om_below p m \<noteq> []" "k \<in> fst ` set m" "k < p"
  shows "k \<le> fst (last (om_below p m))"
proof -
  have "om_inv (om_below p m @ om_from p m)" using assms(1) by (simp add: om_split)
  then have inv: "om_inv (om_below p m)" unfolding om_inv_append by blast
  have "k \<in> fst ` set (om_below p m)"
    using assms(3,4) om_from_ge [OF assms(1)] om_split [of p m]
    by (metis (no_types, lifting) Un_iff imageE imageI leD set_append)
  then obtain e where e: "e \<in> set (om_below p m)" "k = fst e" by auto
  have split: "om_below p m = butlast (om_below p m) @ [last (om_below p m)]" using assms(2) by simp
  then have "e \<in> set (butlast (om_below p m)) \<or> e = last (om_below p m)"
    using e(1) by (metis Un_iff empty_iff empty_set insert_iff list.simps(15) set_append)
  moreover have "om_inv (butlast (om_below p m) @ [last (om_below p m)])" using inv split by simp
  ultimately show ?thesis using e(2) unfolding om_inv_append by fastforce
qed

lemma om_from_hd:
  assumes "om_inv m" "om_from p m = (k0, v) # r" "k \<in> fst ` set m" "p \<le> k"
  shows "k0 \<le> k"
proof -
  obtain e where e: "e \<in> set m" "k = fst e" using assms(3) by auto
  then have "e \<in> set (om_below p m @ om_from p m)" by (simp add: om_split)
  then have "e \<in> set ((k0, v) # r)" using om_below_less [of e p m] assms(2,4) e(2) by force
  moreover have "om_inv (om_below p m @ ((k0, v) # r))" using assms(1,2) by (metis om_split)
  ultimately show ?thesis using e(2) unfolding om_inv_append om_inv_Cons by force
qed

text \<open>
  Looking at the two neighbours is looking at every wanted price: the candidate is a nearest
  one, and of two equally near the lower.
\<close>

lemma nearest_candidate_nearest:
  assumes inv: "om_inv m" and p: "in_ticks p" and ks: "\<forall>k \<in> fst ` set m. in_ticks k"
  shows "case nearest_candidate p m of
      None \<Rightarrow> m = []
    | Some (k, d) \<Rightarrow> k \<in> fst ` set m \<and> d = \<bar>k - p\<bar>
        \<and> (\<forall>k' \<in> fst ` set m. \<bar>k - p\<bar> < \<bar>k' - p\<bar> \<or> (\<bar>k - p\<bar> = \<bar>k' - p\<bar> \<and> k \<le> k'))"
proof -
  define b where "b = fst (last (om_below p m))"
  have parts: "set m = set (om_below p m) \<union> set (om_from p m)" by (metis om_split set_append)
  have b: "b \<in> fst ` set m" "b < p" "s64 (p - b) = p - b" if "om_below p m \<noteq> []"
  proof -
    have "last (om_below p m) \<in> set (om_below p m)" using that by simp
    then show "b \<in> fst ` set m" "b < p" unfolding b_def
      using parts by (blast, simp add: om_below_less)
    with ks p show "s64 (p - b) = p - b" using s64_in_ticks by blast
  qed
  have bmax: "k \<le> b" if "om_below p m \<noteq> []" "k \<in> fst ` set m" "k < p" for k
    using om_below_last [OF inv that] by (simp add: b_def)
  have no_below: "p \<le> k" if "om_below p m = []" "k \<in> fst ` set m" for k
    using that parts om_from_ge [OF inv] by auto
  show ?thesis
  proof (cases "om_from p m")
    case Nil
    then have all: "k < p" if "k \<in> fst ` set m" for k using that parts om_below_less by auto
    show ?thesis
    proof (cases "om_below p m = []")
      case True
      with Nil show ?thesis using parts by (simp add: nearest_candidate_def)
    next
      case False
      have pick: "nearest_candidate p m = Some (b, p - b)"
        using Nil False b(3) by (simp add: nearest_candidate_def b_def [symmetric])
      have near: "p - b < \<bar>k' - p\<bar> \<or> (p - b = \<bar>k' - p\<bar> \<and> b \<le> k')" if "k' \<in> fst ` set m" for k'
        using bmax [OF False that] all [OF that] by linarith
      show ?thesis
        unfolding pick option.case prod.case using near b(1,2) [OF False] by (metis abs_minus_commute abs_of_pos diff_gt_0_iff_gt)
    qed
  next
    case (Cons e r)
    obtain k0 v where e: "e = (k0, v)" by (cases e)
    with Cons have fr: "om_from p m = (k0, v) # r" by simp
    have "(k0, v) \<in> set m" using fr parts by simp
    then have k0: "k0 \<in> fst ` set m" by force
    have "p \<le> k0" using om_from_ge [OF inv, of "(k0, v)"] fr by simp
    have kd: "s64 (k0 - p) = k0 - p" using k0 ks p s64_in_ticks by blast
    have kmin: "k0 \<le> k" if "k \<in> fst ` set m" "p \<le> k" for k using om_from_hd [OF inv fr that] .
    show ?thesis
    proof (cases "om_below p m = []")
      case True
      then have pick: "nearest_candidate p m = Some (k0, k0 - p)"
        using fr kd by (simp add: nearest_candidate_def)
      have near: "k0 - p < \<bar>k' - p\<bar> \<or> (k0 - p = \<bar>k' - p\<bar> \<and> k0 \<le> k')" if "k' \<in> fst ` set m" for k'
        using kmin [OF that] no_below [OF True that] by linarith
      show ?thesis
        unfolding pick option.case prod.case using near k0 \<open>p \<le> k0\<close> by (metis abs_of_nonneg diff_ge_0_iff_ge)
    next
      case False
      define n where "n = (if k0 - p < p - b then k0 else b)"
      have pick: "nearest_candidate p m = Some (n, \<bar>n - p\<bar>)"
        using False fr kd b(2,3) [OF False] \<open>p \<le> k0\<close>
        by (simp add: nearest_candidate_def Let_def b_def [symmetric] n_def)
      have "\<bar>n - p\<bar> < \<bar>k' - p\<bar> \<or> (\<bar>n - p\<bar> = \<bar>k' - p\<bar> \<and> n \<le> k')" if "k' \<in> fst ` set m" for k'
        using bmax [OF False that] kmin [OF that] b(2) [OF False] \<open>p \<le> k0\<close> unfolding n_def
        by (cases "k' < p") (simp_all split: if_splits, linarith+)
      moreover have "n \<in> fst ` set m" using b(1) [OF False] k0 by (simp add: n_def)
      ultimately show ?thesis unfolding pick option.case prod.case by blast
    qed
  qed
qed

lemma claimed_price_cases:
  assumes "om_inv m" "in_ticks p" "\<forall>k \<in> fst ` set m. in_ticks k"
  shows "case claimed_price p t m of
      None \<Rightarrow> \<forall>k \<in> fst ` set m. t < \<bar>k - p\<bar>
    | Some k \<Rightarrow> k \<in> fst ` set m \<and> \<bar>k - p\<bar> \<le> t"
  using nearest_candidate_nearest [OF assms]
  by (fastforce simp: claimed_price_def split: option.splits prod.splits if_splits)

lemma match_side_matched:
  assumes "om_inv m" "\<forall>k \<in> fst ` set m. in_ticks k" "\<forall>p \<in> snd ` set os. in_ticks p"
  shows "case match_side tol os m of (claims, cancels, rest) \<Rightarrow>
      mset (map fst claims) + mset cancels = mset (map fst os)
      \<and> distinct (map snd claims) \<and> snd ` set claims \<subseteq> fst ` set m
      \<and> rest = filter (\<lambda>e. fst e \<notin> snd ` set claims) m
      \<and> (\<forall>(c, k) \<in> set claims. \<exists>p. (c, p) \<in> set os \<and> \<bar>k - p\<bar> \<le> tol p)
      \<and> (\<forall>c \<in> set cancels. \<exists>p. (c, p) \<in> set os \<and> (\<forall>k \<in> fst ` set rest. tol p < \<bar>k - p\<bar>))"
  using assms
proof (induction tol os m rule: match_side.induct)
  case (1 tol m)
  then show ?case by simp
next
  case (2 tol c p os m)
  have p: "in_ticks p" and os: "\<forall>p \<in> snd ` set os. in_ticks p" using "2.prems"(3) by auto
  note pick = claimed_price_cases [OF "2.prems"(1) p "2.prems"(2), of "tol p"]
  show ?case
  proof (cases "claimed_price p (tol p) m")
    case None
    obtain claims cancels rest where r: "match_side tol os m = (claims, cancels, rest)"
      using prod_cases3 by blast
    note IH = "2.IH"(1) [OF None "2.prems"(1,2) os, unfolded r prod.case]
    have "fst ` set rest \<subseteq> fst ` set m" using IH by auto
    then have far: "\<forall>k \<in> fst ` set rest. tol p < \<bar>k - p\<bar>"
      using pick unfolding None option.case by blast
    show ?thesis
      unfolding match_side.simps None r option.case prod.case
    proof (intro conjI)
      show "mset (map fst claims) + mset (c # cancels) = mset (map fst ((c, p) # os))"
        using IH by simp
      show "\<forall>(c', k') \<in> set claims. \<exists>p'. (c', p') \<in> set ((c, p) # os) \<and> \<bar>k' - p'\<bar> \<le> tol p'"
        using IH by fastforce
      show "\<forall>c' \<in> set (c # cancels). \<exists>p'. (c', p') \<in> set ((c, p) # os) \<and> (\<forall>k \<in> fst ` set rest. tol p' < \<bar>k - p'\<bar>)"
        using IH far by (simp only: list.set ball_simps insert_iff) blast
    qed (use IH in blast)+
  next
    case (Some k)
    have inv: "om_inv (om_erase k m)" and ks: "\<forall>k' \<in> fst ` set (om_erase k m). in_ticks k'"
      using "2.prems"(1,2) by (auto simp: om_inv_intros) (auto simp: om_erase_def)
    obtain claims cancels rest where r: "match_side tol os (om_erase k m) = (claims, cancels, rest)"
      using prod_cases3 by blast
    note IH = "2.IH"(2) [OF Some inv ks os, unfolded r prod.case]
    have fresh: "k \<notin> snd ` set claims" using IH by (auto simp: om_erase_def)
    have sub: "snd ` set claims \<subseteq> fst ` set m" using IH by (auto simp: om_erase_def)
    have rest: "rest = filter (\<lambda>e. fst e \<notin> snd ` set ((c, k) # claims)) m"
      using IH by (simp add: om_erase_def)
    have near: "k \<in> fst ` set m" "\<bar>k - p\<bar> \<le> tol p" using pick Some by auto
    show ?thesis
      unfolding match_side.simps Some r option.case prod.case
    proof (intro conjI)
      show "mset (map fst ((c, k) # claims)) + mset cancels = mset (map fst ((c, p) # os))"
        using IH by simp
      show "distinct (map snd ((c, k) # claims))" "snd ` set ((c, k) # claims) \<subseteq> fst ` set m"
        using IH fresh sub near by auto
      show "\<forall>(c', k') \<in> set ((c, k) # claims). \<exists>p'. (c', p') \<in> set ((c, p) # os) \<and> \<bar>k' - p'\<bar> \<le> tol p'"
        using IH near by fastforce
      show "\<forall>c' \<in> set cancels. \<exists>p'. (c', p') \<in> set ((c, p) # os) \<and> (\<forall>k \<in> fst ` set rest. tol p' < \<bar>k - p'\<bar>)"
        using IH by (meson list.set_intros(2))
    qed (rule rest)
  qed
qed

lemma match_side_side_matched:
  assumes "om_inv m" "\<forall>k \<in> fst ` set m. in_ticks k" "\<forall>p \<in> snd ` set os. in_ticks p"
  shows "side_matched tol os m (fst (snd (match_side tol os m))) (snd (snd (match_side tol os m)))"
proof -
  obtain claims cancels rest where r: "match_side tol os m = (claims, cancels, rest)"
    using prod_cases3 by blast
  show ?thesis
    unfolding side_matched_def r fst_conv snd_conv
    by (rule exI [where x = claims]) (rule match_side_matched [OF assms, of tol, unfolded r prod.case])
qed

text \<open>The interleaved loop over both sides is the two one-sided pairings.\<close>

lemma refresh_orders_sides:
  "refresh_orders b os d =
     (case match_side (order_tolerance b) (side_orders True os) (bid_place_orders d) of
        (_, bc, br) \<Rightarrow> case match_side (order_tolerance b) (side_orders False os) (ask_place_orders d) of
        (_, ac, ar) \<Rightarrow>
          d\<lparr>bid_place_orders := br, ask_place_orders := ar,
            bid_cancel_orders := bid_cancel_orders d @ bc,
            ask_cancel_orders := ask_cancel_orders d @ ac\<rparr>)"
proof (induction b os d rule: refresh_orders.induct)
  case (1 b d)
  then show ?case by (simp add: side_orders_def)
next
  case (2 b c oo os d)
  then show ?case
    by (cases "oo_is_bid oo")
      (simp_all add: refresh_order_def side_orders_def Let_def split: option.splits prod.splits)
qed

text \<open>Without tolerance the pairing is set difference on prices.\<close>

lemma claimed_price_exact:
  assumes "om_inv m" "in_ticks p" "\<forall>k \<in> fst ` set m. in_ticks k"
  shows "claimed_price p 0 m = (if p \<in> fst ` set m then Some p else None)"
proof -
  have "\<exists>k. claimed_price p 0 m = Some k" if "p \<in> fst ` set m"
    using claimed_price_cases [OF assms, of 0] that by (cases "claimed_price p 0 m") auto
  then show ?thesis
    using claimed_price_cases [OF assms, of 0] by (cases "claimed_price p 0 m") auto
qed

lemma match_side_exact:
  assumes "om_inv m" "\<forall>k \<in> fst ` set m. in_ticks k" "\<forall>p \<in> snd ` set os. in_ticks p"
    "distinct (map snd os)" "\<forall>p. tol p = 0"
  shows "snd (match_side tol os m) =
    (map fst (filter (\<lambda>e. snd e \<notin> fst ` set m) os), filter (\<lambda>e. fst e \<notin> snd ` set os) m)"
  using assms
proof (induction tol os m rule: match_side.induct)
  case (1 tol m)
  then show ?case by simp
next
  case (2 tol c p os m)
  have p: "in_ticks p" and os: "\<forall>p \<in> snd ` set os. in_ticks p" and d: "distinct (map snd os)"
    and new: "p \<notin> snd ` set os" and t: "tol p = 0"
    using "2.prems" by auto
  note pick = claimed_price_exact [OF "2.prems"(1) p "2.prems"(2)]
  show ?case
  proof (cases "p \<in> fst ` set m")
    case True
    then have some: "claimed_price p (tol p) m = Some p" using pick t by simp
    have inv: "om_inv (om_erase p m)" and ks: "\<forall>k' \<in> fst ` set (om_erase p m). in_ticks k'"
      using "2.prems"(1,2) by (auto simp: om_inv_intros) (auto simp: om_erase_def)
    have keys: "fst ` set (om_erase p m) = fst ` set m - {p}" by (auto simp: om_erase_def)
    have bids: "filter (\<lambda>e. snd e \<notin> fst ` set m - {p}) os = filter (\<lambda>e. snd e \<notin> fst ` set m) os"
      using new by (intro filter_cong) force+
    have rest: "filter (\<lambda>e. fst e \<notin> snd ` set os) (om_erase p m) =
        filter (\<lambda>e. fst e \<notin> snd ` set ((c, p) # os)) m"
      by (simp add: om_erase_def)
    obtain claims cancels r where r: "match_side tol os (om_erase p m) = (claims, cancels, r)"
      using prod_cases3 by blast
    show ?thesis
      using "2.IH"(2) [OF some inv ks os d "2.prems"(5)] True
      unfolding match_side.simps some r option.case prod.case keys bids rest by simp
  next
    case False
    then have none: "claimed_price p (tol p) m = None" using pick t by simp
    have "filter (\<lambda>e. fst e \<notin> insert p (snd ` set os)) m = filter (\<lambda>e. fst e \<notin> snd ` set os) m"
      using False by (intro filter_cong) force+
    then show ?thesis
      using "2.IH"(1) [OF none "2.prems"(1,2) os d "2.prems"(5)] False none
      by (simp add: case_prod_unfold)
  qed
qed

lemma match_side_cancels: "set (fst (snd (match_side tol os m))) \<subseteq> fst ` set os"
  by (induction tol os m rule: match_side.induct) (auto split: option.splits prod.splits)

lemma match_side_distinct: "distinct (map fst os) \<Longrightarrow> distinct (fst (snd (match_side tol os m)))"
proof (induction tol os m rule: match_side.induct)
  case (2 tol c p os m)
  then show ?case using match_side_cancels [of tol os m]
    by (auto split: option.splits prod.splits)
qed simp

lemma match_side_rest:
  "(om_inv m \<longrightarrow> om_inv (snd (snd (match_side tol os m))))
   \<and> set (snd (snd (match_side tol os m))) \<subseteq> set m"
proof (induction tol os m rule: match_side.induct)
  case (2 tol c p os m)
  have "set (om_erase k m) \<subseteq> set m" for k by (auto simp: om_erase_def)
  then have sub: "A \<subseteq> set (om_erase k m) \<Longrightarrow> A \<subseteq> set m" for A k by blast
  show ?case
    using 2 sub by (cases "claimed_price p (tol p) m") (simp_all add: om_inv_erase case_prod_unfold, blast)
qed simp

lemma side_orders_distinct: "om_inv os \<Longrightarrow> distinct (map fst (side_orders b os))"
  using om_inv_distinct [OF om_inv_filter, of os "\<lambda>e. oo_is_bid (snd e) = b"]
  by (simp add: side_orders_def comp_def)

lemma side_orders_mem:
  "c \<in> fst ` set (side_orders b os) \<longleftrightarrow> (\<exists>oo. (c, oo) \<in> set os \<and> oo_is_bid oo = b)"
  by (force simp: side_orders_def)

lemma decision_init_sel [simp]:
  "bid_place_orders decision_init = []" "ask_place_orders decision_init = []"
  "bid_cancel_orders decision_init = []" "ask_cancel_orders decision_init = []"
  by (simp_all add: decision_init_def)

section \<open>The strategy contract\<close>

text \<open>
  What the order handler relies on when it acts on a decision: the cancelled ids are outstanding
  orders of the right side, each at most once, and the place maps are ordered.
\<close>

definition side_ids :: "bool \<Rightarrow> outstanding_map \<Rightarrow> cid set" where
  "side_ids b os = {c. \<exists>oo. (c, oo) \<in> set os \<and> oo_is_bid oo = b}"

locale strategy_contract =
  fixes decide :: "price_info \<Rightarrow> bool \<Rightarrow> int \<Rightarrow> outstanding_map \<Rightarrow> decision \<Rightarrow> decision"
  assumes bid_cancels: "om_inv os \<Longrightarrow>
      set (bid_cancel_orders (decide pri liq pos os decision_init)) \<subseteq> side_ids True os
      \<and> distinct (bid_cancel_orders (decide pri liq pos os decision_init))"
    and ask_cancels: "om_inv os \<Longrightarrow>
      set (ask_cancel_orders (decide pri liq pos os decision_init)) \<subseteq> side_ids False os
      \<and> distinct (ask_cancel_orders (decide pri liq pos os decision_init))"
    and ordered: "om_inv (bid_place_orders (decide pri liq pos os decision_init))
      \<and> om_inv (ask_place_orders (decide pri liq pos os decision_init))"
begin

lemma cancels_known: "om_inv os \<Longrightarrow>
    c \<in> set (bid_cancel_orders (decide pri liq pos os decision_init))
      \<union> set (ask_cancel_orders (decide pri liq pos os decision_init)) \<Longrightarrow> om_has os c"
  using bid_cancels [of os pri liq pos] ask_cancels [of os pri liq pos]
  by (auto simp: side_ids_def om_has_iff) force+

lemma cancels_once:
  assumes "om_inv os"
  shows "distinct (bid_cancel_orders (decide pri liq pos os decision_init)
    @ ask_cancel_orders (decide pri liq pos os decision_init))"
proof -
  have "side_ids True os \<inter> side_ids False os = {}"
    using om_lookup_mem [OF assms] by (auto simp: side_ids_def)
  then show ?thesis
    using bid_cancels [OF assms, of pri liq pos] ask_cancels [OF assms, of pri liq pos]
    by (auto simp: disjoint_iff)
qed

end

definition ladder_inv ::
  "base_strategy \<Rightarrow> geuant_params \<Rightarrow> price_info \<Rightarrow> int \<Rightarrow> decision \<Rightarrow> bool" where
  "ladder_inv bs ps pri pos d \<longleftrightarrow>
     om_inv (bid_place_orders d) \<and> om_inv (ask_place_orders d)
     \<and> (\<forall>(p, q) \<in> set (bid_place_orders d). p \<le> bid_price_limit bs ps pri
          \<and> 0 < bid_qty_limit bs ps pri pos
          \<and> q = get_order_qty_in_lots bs ps p (bid_qty_limit bs ps pri pos))
     \<and> (\<forall>(p, q) \<in> set (ask_place_orders d). ask_price_limit bs ps pri \<le> p
          \<and> 0 < ask_qty_limit bs ps pri pos
          \<and> q = get_order_qty_in_lots bs ps p (ask_qty_limit bs ps pri pos))"

lemma mem_om_put: "e \<in> set (om_put k v m) \<Longrightarrow> e = (k, v) \<or> e \<in> set m"
  by (induction k v m rule: om_put.induct) (auto split: if_splits)

lemma ladder_step_inv:
  assumes "ladder_inv bs ps pri pos d"
  shows "ladder_inv bs ps pri pos (ladder_step bs ps pri pos i d)"
proof -
  let ?bid = "\<lambda>(p, q). p \<le> bid_price_limit bs ps pri \<and> 0 < bid_qty_limit bs ps pri pos
          \<and> q = get_order_qty_in_lots bs ps p (bid_qty_limit bs ps pri pos)"
  let ?ask = "\<lambda>(p, q). ask_price_limit bs ps pri \<le> p \<and> 0 < ask_qty_limit bs ps pri pos
          \<and> q = get_order_qty_in_lots bs ps p (ask_qty_limit bs ps pri pos)"
  have bid_le: "ladder_bid_price bs ps pri x i m \<le> bid_price_limit bs ps pri" for x m
    by (simp add: ladder_bid_price_def)
  have ask_ge: "ask_price_limit bs ps pri \<le> ladder_ask_price bs ps pri x i m" for x m
    by (simp add: ladder_ask_price_def)
  have b: "\<forall>e \<in> set (bid_place_orders (ladder_step bs ps pri pos i d)). ?bid e"
    using assms bid_le unfolding ladder_inv_def ladder_step_def Let_def
    by (auto dest!: mem_om_put split: if_splits)
  have a: "\<forall>e \<in> set (ask_place_orders (ladder_step bs ps pri pos i d)). ?ask e"
    using assms ask_ge unfolding ladder_inv_def ladder_step_def Let_def
    by (auto dest!: mem_om_put split: if_splits)
  show ?thesis
    using assms a b unfolding ladder_inv_def
    by (auto simp: ladder_step_def Let_def om_inv_intros)
qed

lemma ladder_keeps_inv: "ladder_inv bs ps pri pos d \<Longrightarrow> ladder_inv bs ps pri pos (ladder bs ps pri pos d)"
  unfolding ladder_def
  by (rule fold_invariant [where Q = "\<lambda>_. True"]) (simp_all add: ladder_step_inv)

lemma ladder_inv_init [simp]: "ladder_inv bs ps pri pos decision_init"
  by (simp add: ladder_inv_def)

text \<open>The fields of a refreshed decision, one side at a time.\<close>

definition buffer_of :: "geuant_params \<Rightarrow> bool \<Rightarrow> dbl" where
  "buffer_of ps is_liquidate = (if is_liquidate then Fin 0 else order_buffer_bp ps)"

lemma choose_orders_to_cancel_sides:
  "bid_cancel_orders (choose_orders_to_cancel ps os liq d) = bid_cancel_orders d
     @ fst (snd (match_side (order_tolerance (buffer_of ps liq)) (side_orders True os) (bid_place_orders d)))"
  "ask_cancel_orders (choose_orders_to_cancel ps os liq d) = ask_cancel_orders d
     @ fst (snd (match_side (order_tolerance (buffer_of ps liq)) (side_orders False os) (ask_place_orders d)))"
  "bid_place_orders (choose_orders_to_cancel ps os liq d) =
     snd (snd (match_side (order_tolerance (buffer_of ps liq)) (side_orders True os) (bid_place_orders d)))"
  "ask_place_orders (choose_orders_to_cancel ps os liq d) =
     snd (snd (match_side (order_tolerance (buffer_of ps liq)) (side_orders False os) (ask_place_orders d)))"
  by (simp_all add: choose_orders_to_cancel_def buffer_of_def refresh_orders_sides case_prod_unfold)

definition wanted :: "base_strategy \<Rightarrow> geuant_params \<Rightarrow> price_info \<Rightarrow> bool \<Rightarrow> int \<Rightarrow> decision" where
  "wanted bs ps pri liq pos =
     (if liq then liquidation_quote bs pri pos decision_init else ladder bs ps pri pos decision_init)"

lemma make_decision_wanted:
  "make_decision bs ps pri liq pos os decision_init =
     (if isnan (mid_price pri) then decision_init
      else choose_orders_to_cancel ps os liq (wanted bs ps pri liq pos))"
  by (simp add: make_decision_def wanted_def)

lemma wanted_no_cancels:
  "bid_cancel_orders (wanted bs ps pri liq pos) = []" "ask_cancel_orders (wanted bs ps pri liq pos) = []"
proof -
  have keep: "bid_cancel_orders (ladder_step bs ps pri pos i d) = bid_cancel_orders d
      \<and> ask_cancel_orders (ladder_step bs ps pri pos i d) = ask_cancel_orders d" for i d
    by (simp add: ladder_step_def Let_def)
  have fold_keep: "bid_cancel_orders (fold (ladder_step bs ps pri pos) is d) = bid_cancel_orders d
      \<and> ask_cancel_orders (fold (ladder_step bs ps pri pos) is d) = ask_cancel_orders d" for "is" d
    by (induction "is" arbitrary: d) (simp_all add: keep)
  show "bid_cancel_orders (wanted bs ps pri liq pos) = []" "ask_cancel_orders (wanted bs ps pri liq pos) = []"
    by (auto simp: wanted_def liquidation_quote_def ladder_def fold_keep)
qed

lemma wanted_ordered: "om_inv (bid_place_orders (wanted bs ps pri liq pos))"
  "om_inv (ask_place_orders (wanted bs ps pri liq pos))"
  using ladder_keeps_inv [OF ladder_inv_init, of bs ps pri pos]
  by (simp_all add: wanted_def ladder_inv_def liquidation_quote_def om_inv_def)

lemma geuant_side_cancels:
  assumes "om_inv os"
  shows "set (fst (snd (match_side tol (side_orders b os) m))) \<subseteq> side_ids b os
    \<and> distinct (fst (snd (match_side tol (side_orders b os) m)))"
  using match_side_cancels [of tol "side_orders b os" m] side_orders_mem [of _ b os]
    match_side_distinct [OF side_orders_distinct [OF assms]]
  unfolding side_ids_def by blast

interpretation geuant: strategy_contract "make_decision bs ps"
proof (unfold_locales, goal_cases)
  case (1 os pri liq pos)
  then show ?case
    using geuant_side_cancels
    by (simp add: make_decision_wanted choose_orders_to_cancel_sides wanted_no_cancels)
next
  case (2 os pri liq pos)
  then show ?case
    using geuant_side_cancels
    by (simp add: make_decision_wanted choose_orders_to_cancel_sides wanted_no_cancels)
next
  case (3 pri liq pos os)
  show ?case
    using match_side_rest wanted_ordered
    by (simp add: make_decision_wanted choose_orders_to_cancel_sides)
qed

lemma order_tolerance_zero [simp]: "order_tolerance (Fin 0) p = 0"
  by (simp add: order_tolerance_def)

text \<open>The caps that hold a quote inside the touch.\<close>

lemma cast_small_int: "\<bar>n\<bar> \<le> 2 ^ 43 \<Longrightarrow> fl (of_int n) = Fin (of_int n) \<and> cast_i64 (Fin (of_int n)) = n"
  by (auto simp: fl_of_int)

lemma cast_floor_less:
  assumes "- (2 ^ 43) \<le> y" "y < of_int k" "\<bar>k\<bar> \<le> 2 ^ 40"
  shows "cast_i64 (d_floor (Fin y)) < k"
proof -
  define n where "n = \<lfloor>y\<rfloor>"
  have "n < k" "- (2 ^ 43) \<le> n" using assms(1,2) by (simp_all add: n_def floor_less_iff le_floor_iff)
  then show ?thesis using cast_small_int [of n] assms(3) by (simp add: d_floor_def n_def [symmetric])
qed

lemma cast_ceil_greater:
  assumes "y \<le> 2 ^ 43" "of_int k < y" "\<bar>k\<bar> \<le> 2 ^ 40"
  shows "k < cast_i64 (d_ceil (Fin y))"
proof -
  define n where "n = \<lceil>y\<rceil>"
  have "k < n" "n \<le> 2 ^ 43" using assms(1,2) by (simp_all add: n_def less_ceiling_iff ceiling_le_iff)
  then show ?thesis using cast_small_int [of n] assms(3) by (simp add: d_ceil_def n_def [symmetric])
qed

definition sane_tick :: "base_strategy \<Rightarrow> price_info \<Rightarrow> bool" where
  "sane_tick bs pri \<longleftrightarrow> bs_tick_func bs = None
     \<and> (case bs_min_tick_size bs of
          Fin t \<Rightarrow> 2 powi (- 200) \<le> t \<and> t \<le> 2 ^ 200
            \<and> (case tick_size pri of Fin s \<Rightarrow> s \<le> 0 \<or> t \<le> s \<and> s \<le> 2 ^ 20 * t | _ \<Rightarrow> False)
        | _ \<Rightarrow> False)"

lemma sane_tick_local:
  assumes "sane_tick bs pri"
  obtains t s where "bs_tick_func bs = None" "bs_min_tick_size bs = Fin t" "local_tick_size bs pri = Fin s"
    "2 powi (- 200) \<le> t" "t \<le> 2 ^ 200" "t \<le> s" "s \<le> 2 ^ 20 * t"
proof -
  from assms obtain t s where *: "bs_tick_func bs = None" "bs_min_tick_size bs = Fin t" "tick_size pri = Fin s"
    "2 powi (- 200) \<le> t" "t \<le> 2 ^ 200" "s \<le> 0 \<or> t \<le> s \<and> s \<le> 2 ^ 20 * t"
    by (auto simp: sane_tick_def split: dbl.splits)
  have "0 < t" using *(4) powi_2_pos less_le_trans by blast
  then show thesis
    using that * by (cases "0 < s") (auto simp: local_tick_size_def)
qed

lemma bid_limit_below_ask:
  assumes "sane_tick bs pri" "\<not> use_bbo_cap_buffer ps" "\<bar>bask_price_in_min_ticks pri\<bar> \<le> 2 ^ 40"
  shows "bid_price_limit bs ps pri < bask_price_in_min_ticks pri"
proof -
  obtain t s where ts: "bs_tick_func bs = None" "bs_min_tick_size bs = Fin t" "local_tick_size bs pri = Fin s"
    and r: "2 powi (- 200) \<le> t" "t \<le> 2 ^ 200" "t \<le> s" "s \<le> 2 ^ 20 * t"
    using sane_tick_local [OF assms(1)] by blast
  obtain y where "d_add (d_div (d_sub (d_mul (d_of_int (bask_price_in_min_ticks pri)) (Fin t)) (Fin s)) (Fin t))
      (fl (1 / 100000000)) = Fin y" "- (2 ^ 43) \<le> y" "y < of_int (bask_price_in_min_ticks pri)"
    using floor_below_touch [OF r assms(3)] by blast
  then show ?thesis
    using cast_floor_less assms(2,3) ts
    by (simp add: bid_price_limit_def floor_price_in_min_ticks_def to_double_price_def eps_ticks_def)
qed

lemma ask_limit_above_bid:
  assumes "sane_tick bs pri" "\<not> use_bbo_cap_buffer ps" "\<bar>bbid_price_in_min_ticks pri\<bar> \<le> 2 ^ 40"
  shows "bbid_price_in_min_ticks pri < ask_price_limit bs ps pri"
proof -
  obtain t s where ts: "bs_tick_func bs = None" "bs_min_tick_size bs = Fin t" "local_tick_size bs pri = Fin s"
    and r: "2 powi (- 200) \<le> t" "t \<le> 2 ^ 200" "t \<le> s" "s \<le> 2 ^ 20 * t"
    using sane_tick_local [OF assms(1)] by blast
  obtain y where "d_sub (d_div (d_add (d_mul (d_of_int (bbid_price_in_min_ticks pri)) (Fin t)) (Fin s)) (Fin t))
      (fl (1 / 100000000)) = Fin y" "y \<le> 2 ^ 43" "of_int (bbid_price_in_min_ticks pri) < y"
    using ceil_above_touch [OF r assms(3)] by blast
  then show ?thesis
    using cast_ceil_greater assms(2,3) ts
    by (simp add: ask_price_limit_def ceil_price_in_min_ticks_def to_double_price_def eps_ticks_def)
qed

lemma decision_in_wanted:
  "set (bid_place_orders (make_decision bs ps pri liq pos os decision_init))
     \<subseteq> set (bid_place_orders (wanted bs ps pri liq pos))"
  "set (ask_place_orders (make_decision bs ps pri liq pos os decision_init))
     \<subseteq> set (ask_place_orders (wanted bs ps pri liq pos))"
  using match_side_rest by (simp_all add: make_decision_wanted choose_orders_to_cancel_sides)

section \<open>Properties\<close>

text \<open>
  C30. Refreshing the quotes pairs resting orders with wanted prices on each side: every resting order
  is either cancelled or claims exactly one wanted price, no two orders claim the same price, a
  claimed price lies within the order's tolerance, exactly the unclaimed wanted prices are left
  to be placed with their quantities, and no cancelled order was near enough to stand in for any
  price that is placed.
\<close>

theorem refresh_pairs_orders_with_prices:
  assumes "om_inv (bid_place_orders d)" "om_inv (ask_place_orders d)"
    "\<forall>k \<in> fst ` set (bid_place_orders d) \<union> fst ` set (ask_place_orders d). in_ticks k"
    "\<forall>e \<in> set os. in_ticks (oo_price_in_min_ticks (snd e))"
    "bid_cancel_orders d = []" "ask_cancel_orders d = []"
  shows "side_matched (order_tolerance (if liq then Fin 0 else order_buffer_bp ps))
      (side_orders True os) (bid_place_orders d)
      (bid_cancel_orders (choose_orders_to_cancel ps os liq d))
      (bid_place_orders (choose_orders_to_cancel ps os liq d))
    \<and> side_matched (order_tolerance (if liq then Fin 0 else order_buffer_bp ps))
      (side_orders False os) (ask_place_orders d)
      (ask_cancel_orders (choose_orders_to_cancel ps os liq d))
      (ask_place_orders (choose_orders_to_cancel ps os liq d))"
proof -
  have prices: "\<forall>p \<in> snd ` set (side_orders b os). in_ticks p" for b
    using assms(4) by (auto simp: side_orders_def)
  have keys: "\<forall>k \<in> fst ` set (bid_place_orders d). in_ticks k" "\<forall>k \<in> fst ` set (ask_place_orders d). in_ticks k"
    using assms(3) by auto
  show ?thesis
    using match_side_side_matched [OF assms(1) keys(1) prices]
      match_side_side_matched [OF assms(2) keys(2) prices]
    unfolding choose_orders_to_cancel_sides assms(5,6) append_Nil buffer_of_def by blast
qed

theorem refresh_pairs_orders_with_prices_witness:
  "side_matched (order_tolerance (Fin 0))
     (side_orders True [(1, \<lparr>oo_price_in_min_ticks = 99, oo_qty_in_lots = 1, oo_is_bid = True\<rparr>),
                        (2, \<lparr>oo_price_in_min_ticks = 97, oo_qty_in_lots = 1, oo_is_bid = True\<rparr>)])
     [(98, 1), (99, 1)] [2] [(98, 1)]"
  using refresh_pairs_orders_with_prices [of "decision_init\<lparr>bid_place_orders := [(98, 1), (99, 1)]\<rparr>"
      "[(1, \<lparr>oo_price_in_min_ticks = 99, oo_qty_in_lots = 1, oo_is_bid = True\<rparr>),
        (2, \<lparr>oo_price_in_min_ticks = 97, oo_qty_in_lots = 1, oo_is_bid = True\<rparr>)]" True geuant_params_init]
  by (simp add: om_inv_def in_ticks_def choose_orders_to_cancel_def refresh_order_def
      claimed_price_def nearest_candidate_def om_below_def om_from_def om_erase_def s64_id
      order_tolerance_def side_orders_def)

text \<open>
  With no order buffer configured, or while liquidating, an order keeps its place only on an exact
  price match: when the resting prices of a side are distinct, the cancelled orders are exactly
  those whose price is not wanted, and the prices placed are exactly the wanted ones that no
  order rests at.
\<close>

theorem zero_buffer_is_price_difference:
  assumes "om_inv (bid_place_orders d)" "\<forall>k \<in> fst ` set (bid_place_orders d). in_ticks k"
    "om_inv (ask_place_orders d)" "\<forall>k \<in> fst ` set (ask_place_orders d). in_ticks k"
    "\<forall>e \<in> set os. in_ticks (oo_price_in_min_ticks (snd e))"
    "distinct (map snd (side_orders True os))" "distinct (map snd (side_orders False os))"
    "liq \<or> order_buffer_bp ps = Fin 0"
  shows "choose_orders_to_cancel ps os liq d = d\<lparr>
      bid_place_orders := filter (\<lambda>e. fst e \<notin> snd ` set (side_orders True os)) (bid_place_orders d),
      ask_place_orders := filter (\<lambda>e. fst e \<notin> snd ` set (side_orders False os)) (ask_place_orders d),
      bid_cancel_orders := bid_cancel_orders d
        @ map fst (filter (\<lambda>r. snd r \<notin> fst ` set (bid_place_orders d)) (side_orders True os)),
      ask_cancel_orders := ask_cancel_orders d
        @ map fst (filter (\<lambda>r. snd r \<notin> fst ` set (ask_place_orders d)) (side_orders False os))\<rparr>"
proof -
  have prices: "\<forall>p \<in> snd ` set (side_orders b os). in_ticks p" for b
    using assms(5) by (auto simp: side_orders_def)
  have b: "(if liq then Fin 0 else order_buffer_bp ps) = Fin 0" using assms(8) by auto
  have tol: "\<forall>p. order_tolerance (Fin 0) p = 0" by simp
  have "snd (match_side (order_tolerance (Fin 0)) (side_orders True os) (bid_place_orders d)) =
      (map fst (filter (\<lambda>r. snd r \<notin> fst ` set (bid_place_orders d)) (side_orders True os)),
       filter (\<lambda>e. fst e \<notin> snd ` set (side_orders True os)) (bid_place_orders d))"
    "snd (match_side (order_tolerance (Fin 0)) (side_orders False os) (ask_place_orders d)) =
      (map fst (filter (\<lambda>r. snd r \<notin> fst ` set (ask_place_orders d)) (side_orders False os)),
       filter (\<lambda>e. fst e \<notin> snd ` set (side_orders False os)) (ask_place_orders d))"
    by (rule match_side_exact [OF assms(1,2) prices assms(6) tol])
      (rule match_side_exact [OF assms(3,4) prices assms(7) tol])
  then show ?thesis
    by (simp add: choose_orders_to_cancel_def b refresh_orders_sides case_prod_unfold)
qed

theorem zero_buffer_is_price_difference_witness:
  "bid_cancel_orders (choose_orders_to_cancel geuant_params_init
     [(1, \<lparr>oo_price_in_min_ticks = 99, oo_qty_in_lots = 1, oo_is_bid = True\<rparr>),
      (2, \<lparr>oo_price_in_min_ticks = 97, oo_qty_in_lots = 1, oo_is_bid = True\<rparr>)] False
     (decision_init\<lparr>bid_place_orders := [(98, 1), (99, 1)]\<rparr>)) = [2]"
  using zero_buffer_is_price_difference [of "decision_init\<lparr>bid_place_orders := [(98, 1), (99, 1)]\<rparr>"
     "[(1, \<lparr>oo_price_in_min_ticks = 99, oo_qty_in_lots = 1, oo_is_bid = True\<rparr>),
       (2, \<lparr>oo_price_in_min_ticks = 97, oo_qty_in_lots = 1, oo_is_bid = True\<rparr>)]" False geuant_params_init]
  by (simp add: om_inv_def in_ticks_def side_orders_def geuant_params_init_def)

text \<open>
  C3. Which side of the touch a decision quotes, to the last bit, with the default cap (no best-bid/offer
  buffer), no tick function, and prices up to \<open>2 ^ 40\<close> min ticks.  Without liquidation every bid is
  strictly below the best ask and every ask strictly above the best bid, whatever the fair price, the
  spread and the ladder parameters are, although each price went through four roundings of double
  arithmetic.  A liquidation quotes the other way: its ask is strictly below the best ask and its bid
  strictly above the best bid, so it is at the top of its side or, when the spread is one tick, at the
  other side's touch (\<open>liquidation_reaches_touch\<close>).  The tick may be any double in the stated range, at
  least as coarse as the global one.
\<close>

theorem quotes_never_cross:
  assumes "sane_tick bs pri" "\<not> use_bbo_cap_buffer ps"
    "\<bar>bbid_price_in_min_ticks pri\<bar> \<le> 2 ^ 40" "\<bar>bask_price_in_min_ticks pri\<bar> \<le> 2 ^ 40"
  shows "(\<forall>(p, q) \<in> set (bid_place_orders (make_decision bs ps pri False pos os decision_init)).
            p < bask_price_in_min_ticks pri)
       \<and> (\<forall>(p, q) \<in> set (ask_place_orders (make_decision bs ps pri False pos os decision_init)).
            bbid_price_in_min_ticks pri < p)
       \<and> (\<forall>(p, q) \<in> set (bid_place_orders (make_decision bs ps pri True pos os decision_init)).
            bbid_price_in_min_ticks pri < p)
       \<and> (\<forall>(p, q) \<in> set (ask_place_orders (make_decision bs ps pri True pos os decision_init)).
            p < bask_price_in_min_ticks pri)"
proof -
  have ladder: "ladder_inv bs ps pri pos (wanted bs ps pri False pos)"
    using ladder_keeps_inv [OF ladder_inv_init] by (simp add: wanted_def)
  have liquidation: "\<forall>(p, q) \<in> set (bid_place_orders (wanted bs ps pri True pos)). p = ask_price_limit bs ps pri"
    "\<forall>(p, q) \<in> set (ask_place_orders (wanted bs ps pri True pos)). p = bid_price_limit bs ps pri"
    using assms(2) by (simp_all add: wanted_def liquidation_quote_def bid_price_limit_def ask_price_limit_def)
  note limits = bid_limit_below_ask [OF assms(1,2,4)] ask_limit_above_bid [OF assms(1,2,3)]
  show ?thesis
  proof (intro conjI)
    show "\<forall>(p, q) \<in> set (bid_place_orders (make_decision bs ps pri False pos os decision_init)). p < bask_price_in_min_ticks pri"
      "\<forall>(p, q) \<in> set (ask_place_orders (make_decision bs ps pri False pos os decision_init)). bbid_price_in_min_ticks pri < p"
      using ladder limits decision_in_wanted [of bs ps pri False pos os] unfolding ladder_inv_def by fastforce+
    show "\<forall>(p, q) \<in> set (bid_place_orders (make_decision bs ps pri True pos os decision_init)). bbid_price_in_min_ticks pri < p"
      "\<forall>(p, q) \<in> set (ask_place_orders (make_decision bs ps pri True pos os decision_init)). p < bask_price_in_min_ticks pri"
      using liquidation limits decision_in_wanted [of bs ps pri True pos os] by fastforce+
  qed
qed

theorem quotes_never_cross_witness:
  "list_all (\<lambda>(p, q). p < 101) (bid_place_orders (make_decision
       \<lparr>bs_min_tick_size = Fin 1, bs_default_lot_size = Fin 1, bs_tick_func = None,
        bs_short_sell_unable = False\<rparr>
       (geuant_params_init\<lparr>order_num := 3, order_lots := 2, position_limit_in_lots := 10\<rparr>)
       \<lparr>bbid_price_in_min_ticks = 100, bask_price_in_min_ticks = 101, mid_price = Fin (201 / 2),
        fair_price = Fin 105, applied_factor = NaN, forward_vol_bp = Fin 1, tick_size = Fin 1\<rparr>
       False 0 [] decision_init))"
  using quotes_never_cross [of "\<lparr>bs_min_tick_size = Fin 1, bs_default_lot_size = Fin 1,
        bs_tick_func = None, bs_short_sell_unable = False\<rparr>"
       "\<lparr>bbid_price_in_min_ticks = 100, bask_price_in_min_ticks = 101, mid_price = Fin (201 / 2),
        fair_price = Fin 105, applied_factor = NaN, forward_vol_bp = Fin 1, tick_size = Fin 1\<rparr>"
       "geuant_params_init\<lparr>order_num := 3, order_lots := 2, position_limit_in_lots := 10\<rparr>" 0 "[]"]
  by (simp add: sane_tick_def geuant_params_init_def power_int_minus_divide list_all_iff)

text \<open>
  C29. No single order can take the position past its limit: a bid carries at most the limit minus the
  position, an ask at most the position plus the limit, and where short selling is not allowed
  at most the position itself; a side without capacity is not quoted at all.
\<close>

theorem orders_within_capacity:
  assumes "\<bar>position_limit bs ps pri - pos\<bar> < 2 ^ 31" "\<bar>position_limit bs ps pri + pos\<bar> < 2 ^ 31"
  shows "(\<forall>(p, q) \<in> set (bid_place_orders (make_decision bs ps pri False pos os decision_init)).
            pos + q \<le> position_limit bs ps pri \<and> pos < position_limit bs ps pri)
       \<and> (\<forall>(p, q) \<in> set (ask_place_orders (make_decision bs ps pri False pos os decision_init)).
            - position_limit bs ps pri \<le> pos - q \<and> - position_limit bs ps pri < pos
            \<and> (bs_short_sell_unable bs \<longrightarrow> q \<le> pos))"
proof -
  have inv: "ladder_inv bs ps pri pos (wanted bs ps pri False pos)"
    using ladder_keeps_inv [OF ladder_inv_init] by (simp add: wanted_def)
  have bl: "bid_qty_limit bs ps pri pos = position_limit bs ps pri - pos"
    using assms(1) by (simp add: bid_qty_limit_def s32_id)
  have al: "ask_qty_limit bs ps pri pos =
      min (if bs_short_sell_unable bs then pos else 2 ^ 31 - 1) (pos + position_limit bs ps pri)"
    using assms(2) by (simp add: ask_qty_limit_def s32_id add.commute)
  have b: "\<forall>(p, q) \<in> set (bid_place_orders (wanted bs ps pri False pos)).
      pos + q \<le> position_limit bs ps pri \<and> pos < position_limit bs ps pri"
    using inv unfolding ladder_inv_def bl get_order_qty_in_lots_def by auto
  have a: "\<forall>(p, q) \<in> set (ask_place_orders (wanted bs ps pri False pos)).
      - position_limit bs ps pri \<le> pos - q \<and> - position_limit bs ps pri < pos
      \<and> (bs_short_sell_unable bs \<longrightarrow> q \<le> pos)"
    using inv unfolding ladder_inv_def al get_order_qty_in_lots_def by auto
  show ?thesis using decision_in_wanted [of bs ps pri False pos os] a b by blast
qed

theorem orders_within_capacity_witness:
  "list_all (\<lambda>(p, q). 7 + q \<le> 10) (bid_place_orders (make_decision
       \<lparr>bs_min_tick_size = Fin 1, bs_default_lot_size = Fin 1, bs_tick_func = None,
        bs_short_sell_unable = True\<rparr>
       (geuant_params_init\<lparr>order_num := 1, order_lots := 50, position_limit_in_lots := 10\<rparr>)
       \<lparr>bbid_price_in_min_ticks = 100, bask_price_in_min_ticks = 101, mid_price = Fin (201 / 2),
        fair_price = Fin 105, applied_factor = NaN, forward_vol_bp = Fin 1, tick_size = Fin 1\<rparr>
       False 7 [] decision_init))"
  using orders_within_capacity [of "\<lparr>bs_min_tick_size = Fin 1, bs_default_lot_size = Fin 1,
        bs_tick_func = None, bs_short_sell_unable = True\<rparr>"
       "geuant_params_init\<lparr>order_num := 1, order_lots := 50, position_limit_in_lots := 10\<rparr>"
       "\<lparr>bbid_price_in_min_ticks = 100, bask_price_in_min_ticks = 101, mid_price = Fin (201 / 2),
        fair_price = Fin 105, applied_factor = NaN, forward_vol_bp = Fin 1, tick_size = Fin 1\<rparr>" 7 "[]"]
  by (simp add: position_limit_def geuant_params_init_def case_prod_unfold list_all_iff)

text \<open>
  Liquidating asks for one order at most, on the side that reduces the position, for exactly the
  position, one tick inside the touch; a flat book asks for none and every resting order is
  cancelled, and nothing is decided without a mid price.
\<close>

theorem liquidation_flattens:
  "(isnan (mid_price pri) \<longrightarrow> make_decision bs ps pri liq pos os decision_init = decision_init)
   \<and> (\<not> isnan (mid_price pri) \<longrightarrow>
       set (bid_place_orders (make_decision bs ps pri True pos os decision_init)) \<subseteq>
         (if pos < 0 then {(ceil_price_in_min_ticks bs (d_add (to_double_price bs (bbid_price_in_min_ticks pri))
            (local_tick_size bs pri)), s32 (- pos))} else {})
     \<and> set (ask_place_orders (make_decision bs ps pri True pos os decision_init)) \<subseteq>
         (if 0 < pos then {(floor_price_in_min_ticks bs (d_sub (to_double_price bs (bask_price_in_min_ticks pri))
            (local_tick_size bs pri)), pos)} else {})
     \<and> (pos = 0 \<longrightarrow>
          bid_cancel_orders (make_decision bs ps pri True pos os decision_init) = map fst (side_orders True os)
        \<and> ask_cancel_orders (make_decision bs ps pri True pos os decision_init) = map fst (side_orders False os)))"
proof -
  have none: "match_side tol rs [] = ([], map fst rs, [])" for tol rs
    by (induction rs) (auto simp: claimed_price_def nearest_candidate_def om_below_def om_from_def)
  have w: "bid_place_orders (wanted bs ps pri True pos) = (if pos < 0 then
          [(ceil_price_in_min_ticks bs (d_add (to_double_price bs (bbid_price_in_min_ticks pri))
            (local_tick_size bs pri)), s32 (- pos))] else [])"
    "ask_place_orders (wanted bs ps pri True pos) = (if 0 < pos then
          [(floor_price_in_min_ticks bs (d_sub (to_double_price bs (bask_price_in_min_ticks pri))
            (local_tick_size bs pri)), pos)] else [])"
    by (simp_all add: wanted_def liquidation_quote_def)
  show ?thesis
  proof (intro conjI impI)
    show "isnan (mid_price pri) \<Longrightarrow> make_decision bs ps pri liq pos os decision_init = decision_init"
      by (simp add: make_decision_def)
  next
    assume "\<not> isnan (mid_price pri)" "pos = 0"
    then show
      "bid_cancel_orders (make_decision bs ps pri True pos os decision_init) = map fst (side_orders True os)"
      "ask_cancel_orders (make_decision bs ps pri True pos os decision_init) = map fst (side_orders False os)"
      using w none by (simp_all add: make_decision_wanted choose_orders_to_cancel_sides wanted_no_cancels)
  qed (use decision_in_wanted [of bs ps pri True pos os, unfolded w] in \<open>auto split: if_splits\<close>)
qed

theorem liquidation_flattens_witness:
  "ask_place_orders (make_decision
       \<lparr>bs_min_tick_size = Fin 1, bs_default_lot_size = Fin 1, bs_tick_func = None,
        bs_short_sell_unable = True\<rparr> geuant_params_init
       \<lparr>bbid_price_in_min_ticks = 100, bask_price_in_min_ticks = 101, mid_price = Fin (201 / 2),
        fair_price = Fin 105, applied_factor = NaN, forward_vol_bp = Fin 1, tick_size = Fin 1\<rparr>
       True (- 7) [] decision_init) = []"
  using liquidation_flattens [of "\<lparr>bbid_price_in_min_ticks = 100, bask_price_in_min_ticks = 101,
        mid_price = Fin (201 / 2), fair_price = Fin 105, applied_factor = NaN,
        forward_vol_bp = Fin 1, tick_size = Fin 1\<rparr>"
      "\<lparr>bs_min_tick_size = Fin 1, bs_default_lot_size = Fin 1, bs_tick_func = None,
        bs_short_sell_unable = True\<rparr>" geuant_params_init True "- 7" "[]"]
  by (simp add: isnan_def)

text \<open>
  On a spread of one tick there is no level inside it: a liquidation of a long position, meant to be
  passive, asks for the best bid itself.
\<close>

lemma liquidation_reaches_touch:
  "ask_place_orders (make_decision
       \<lparr>bs_min_tick_size = Fin 1, bs_default_lot_size = Fin 1, bs_tick_func = None, bs_short_sell_unable = True\<rparr>
       geuant_params_init
       \<lparr>bbid_price_in_min_ticks = 100, bask_price_in_min_ticks = 101, mid_price = Fin (201 / 2),
        fair_price = Fin 105, applied_factor = NaN, forward_vol_bp = Fin 1, tick_size = Fin 1\<rparr>
       True 7 [] decision_init) = [(100, 7)]"
proof -
  have "d_le (fl 0) (fl (1 / 100000000))" "d_le (fl (1 / 100000000)) (fl (1 / 2))" by (intro fl_mono; simp)+
  then obtain e where e: "fl (1 / 100000000) = Fin e" "0 \<le> e" "e \<le> 1 / 2" by (cases "fl (1 / 100000000)") (auto simp: d_le_def)
  have "d_le (fl 100) (fl (100 + e))" "d_le (fl (100 + e)) (fl (201 / 2))" using e by (intro fl_mono; simp)+
  then obtain y where y: "fl (100 + e) = Fin y" "100 \<le> y" "y \<le> 201 / 2" by (cases "fl (100 + e)") (auto simp: d_le_def)
  have "\<lfloor>y\<rfloor> = 100" using y(2,3) by (simp add: floor_eq_iff)
  then show ?thesis
    using e(1) y(1)
    by (simp add: make_decision_def liquidation_quote_def choose_orders_to_cancel_def floor_price_in_min_ticks_def
        to_double_price_def local_tick_size_def eps_ticks_def d_of_int_def d_floor_def d_sub_def decision_init_def isnan_def)
qed

text \<open>
  The half-spread is never negative and never past the configured cap, whatever the volatility
  multiplier and the inventory skew evaluate to, a NaN included (which quotes at zero spread).
\<close>

theorem half_spread_clipped:
  assumes "d_le (Fin 0) (spread_cap_bp ps)"
  shows "d_le (Fin 0) (clip_delta ps x) \<and> (use_spread_cap ps \<longrightarrow> d_le (clip_delta ps x) (spread_cap_bp ps))
    \<and> (isnan x \<longrightarrow> clip_delta ps x = Fin 0)
    \<and> (d_le (Fin 0) x \<and> (use_spread_cap ps \<longrightarrow> d_le x (spread_cap_bp ps)) \<longrightarrow> clip_delta ps x = x)"
  using assms
  by (cases x; cases "spread_cap_bp ps")
    (auto simp: clip_delta_def d_min_def d_max_def d_le_def isnan_def split: if_splits)

theorem half_spread_clipped_witness:
  "d_le (delta_bid (geuant_params_init\<lparr>use_spread_cap := True, spread_cap_bp := Fin 5\<rparr>) NaN PInf) (Fin 5)"
  using half_spread_clipped [of "geuant_params_init\<lparr>use_spread_cap := True, spread_cap_bp := Fin 5\<rparr>"]
  by (simp add: delta_bid_def)

end
