(* ===== verification/Order_Handler.thy ===== *)
theory Order_Handler
  imports Strategy
begin

text \<open>
  The trader's order handler (\<open>trader/order_handler/order_handler.cpp\<close>): the per-product state,
  one definition per event handler, order submission, and the dispatch of the task queue.

  The handler's members are the record \<open>order_handler\<close>, its constants the record \<open>handler_env\<close>,
  which also carries the two things the handler calls out to: the strategy (\<open>decide\<close>, a virtual
  method in the source) and the clock.  Every call of \<open>get_curr_tstamp_ns\<close> consumes the next
  reading of \<open>clk\<close>; no monotonicity is assumed.  Calls into the gateway and subscriptions on the
  feed clients are appended to \<open>oh_sent\<close> and \<open>oh_subscribed\<close> in call order, the rows of the two
  CSV records to \<open>oh_order_rows\<close> and \<open>oh_decision_rows\<close>; replies come back as tasks.  Process
  log lines are not modelled.
\<close>

section \<open>Data\<close>

record trader_config =
  tc_name :: string
  tc_exchange :: string
  tc_strategy_name :: string
  tc_region :: string
  tc_market_type :: string
  tc_trade_products :: "product list"
  tc_subscribe_same_products :: bool
  tc_subscribe_products :: "product_spec list"
  tc_broadcast_host_address :: string
  tc_broadcast_port :: int
  tc_pricer_host_address :: string
  tc_pricer_port :: int
  tc_fair_price_max_age_ms :: int
  tc_domain_type :: string
  tc_order_update_interval_ms :: int
  tc_flatten_on_shutdown :: bool
  tc_shutdown_cancel_timeout_ms :: int
  tc_shutdown_flatten_timeout_ms :: int
  tc_shutdown_market_flatten :: bool
  tc_shutdown_reduce_only :: bool
  tc_order_record_save_path :: string
  tc_order_decision_save_path :: string
  tc_timezone_minute_offset :: int
  tc_market_end_intraday_minute :: int
  tc_log_base_path :: string
  tc_log_path :: string

record pending_order_record =
  pr_product :: product
  pr_type :: string
  pr_is_bid :: bool
  pr_price :: dbl
  pr_qty :: dbl

record product_state =
  st_product_info :: product_info_data
  st_l1 :: l1
  st_fair_price :: fair_price_state
  st_position_in_lots :: int
  st_outstanding_orders :: outstanding_map
  st_cid_to_order_no :: "(cid, string) omap"
  st_order_no_to_cid :: "(string, cid) omap"
  st_waiting_place :: "cid list"
  st_waiting_cancel :: "cid list"
  st_waiting_since_ns :: int

definition product_state_init :: product_state where
  "product_state_init = \<lparr>st_product_info = product_info_init, st_l1 = l1_init,
     st_fair_price = fair_price_state_init, st_position_in_lots = 0, st_outstanding_orders = [],
     st_cid_to_order_no = [], st_order_no_to_cid = [], st_waiting_place = [],
     st_waiting_cancel = [], st_waiting_since_ns = 0\<rparr>"

definition no_waiting_orders :: "product_state \<Rightarrow> bool" where
  "no_waiting_orders st \<longleftrightarrow> st_waiting_place st = [] \<and> st_waiting_cancel st = []"

datatype gateway_request =
    PlaceOrder order_place_info
  | CancelOrder order_cancel_info
  | SetProductGrid product dbl dbl

datatype feed_link = ListenerLink | PricerLink

record order_record_row =
  row_tstamp :: int
  row_server_tstamp :: dbl
  row_product :: product
  row_cid :: cid
  row_order_no :: string
  row_type :: string
  row_side :: string
  row_success :: bool
  row_price :: dbl
  row_qty :: dbl
  row_msg :: string

record order_decision_row =
  drow_tstamp :: int
  drow_product :: product
  drow_bbid :: dbl
  drow_bask :: dbl
  drow_mid :: dbl
  drow_fair :: dbl
  drow_factor :: dbl
  drow_forward_vol_bp :: dbl
  drow_position_lots :: int
  drow_outstanding :: nat
  drow_bid_price :: dbl
  drow_ask_price :: dbl

record handler_env =
  ev_exchange :: string
  ev_min_tick_size :: dbl
  ev_default_lot_size :: dbl
  ev_tick_func :: "(dbl \<Rightarrow> dbl) option"
  ev_trade_products :: "product list"
  ev_subscribe_products :: "product_spec list"
  ev_fair_price_max_age_ns :: int
  ev_order_update_interval_ns :: int
  ev_flatten_on_shutdown :: bool
  ev_shutdown_cancel_timeout_ns :: int
  ev_shutdown_flatten_timeout_ns :: int
  ev_shutdown_market_flatten :: bool
  ev_shutdown_reduce_only :: bool
  ev_order_response_timeout_ns :: int
  ev_order_record_save_path :: string
  ev_order_decision_save_path :: string
  ev_decide :: "price_info \<Rightarrow> bool \<Rightarrow> int \<Rightarrow> outstanding_map \<Rightarrow> decision \<Rightarrow> decision"
  ev_clk :: "nat \<Rightarrow> int"

record order_handler =
  oh_product_states :: "(product, product_state) omap"
  oh_order_no_to_product :: "(string, product) omap"
  oh_last_cid :: int
  oh_cid_to_product :: "(cid, product) omap"
  oh_positions :: "(product, position_data) omap"
  oh_pending_order_records :: "(cid, pending_order_record) omap"
  oh_listener_connecting :: bool
  oh_listener_connected :: bool
  oh_pricer_connected :: bool
  oh_shutting_down :: bool
  oh_shutdown_done :: bool
  oh_clock_reads :: nat
  oh_sent :: "gateway_request list"
  oh_subscribed :: "(feed_link \<times> product \<times> category) list"
  oh_order_rows :: "order_record_row list"
  oh_decision_rows :: "order_decision_row list"

datatype handler_error = UnsupportedExchange string | UnitsNotPositive | BadVariantAccess

datatype gateway_kind = BinanceGateway | KisGateway | CustomGateway

datatype trader_task =
    ListenerStatusTask feed_status
  | ListenerSubscribeTask feed_subscribe
  | MarketDataTask market_data_response
  | PricerStatusTask feed_status
  | PricerSubscribeTask feed_subscribe
  | FairPriceTask fair_price_response
  | OrderUpdateTask product
  | OrderResponseTask order_response

section \<open>Construction\<close>

definition create_order_gateway :: "trader_config \<Rightarrow> handler_error + gateway_kind" where
  "create_order_gateway tc =
     (if tc_exchange tc = ''binance'' then Inr BinanceGateway
      else if tc_exchange tc = ''kis'' then Inr KisGateway
      else Inl (UnsupportedExchange (tc_exchange tc)))"

definition env_of ::
  "market_config \<Rightarrow> (price_info \<Rightarrow> bool \<Rightarrow> int \<Rightarrow> outstanding_map \<Rightarrow> decision \<Rightarrow> decision)
    \<Rightarrow> trader_config \<Rightarrow> (nat \<Rightarrow> int) \<Rightarrow> handler_env" where
  "env_of mc strategy tc clk =
     \<lparr>ev_exchange = tc_exchange tc, ev_min_tick_size = mc_min_tick_size mc,
      ev_default_lot_size = mc_default_lot_size mc, ev_tick_func = mc_tick_func mc,
      ev_trade_products = tc_trade_products tc, ev_subscribe_products = tc_subscribe_products tc,
      ev_fair_price_max_age_ns = s64 (tc_fair_price_max_age_ms tc * 1000000),
      ev_order_update_interval_ns = s64 (tc_order_update_interval_ms tc * 1000000),
      ev_flatten_on_shutdown = tc_flatten_on_shutdown tc,
      ev_shutdown_cancel_timeout_ns = s64 (tc_shutdown_cancel_timeout_ms tc * 1000000),
      ev_shutdown_flatten_timeout_ns = s64 (tc_shutdown_flatten_timeout_ms tc * 1000000),
      ev_shutdown_market_flatten = tc_shutdown_market_flatten tc,
      ev_shutdown_reduce_only = tc_shutdown_reduce_only tc,
      ev_order_response_timeout_ns = 5 * 1000000000,
      ev_order_record_save_path = tc_order_record_save_path tc,
      ev_order_decision_save_path = tc_order_decision_save_path tc,
      ev_decide = strategy, ev_clk = clk\<rparr>"

definition order_handler_init :: "product list \<Rightarrow> order_handler" where
  "order_handler_init products =
     \<lparr>oh_product_states = fold (\<lambda>p m. if om_has m p then m else om_put p product_state_init m) products [],
      oh_order_no_to_product = [], oh_last_cid = 0, oh_cid_to_product = [], oh_positions = [],
      oh_pending_order_records = [], oh_listener_connecting = False, oh_listener_connected = False,
      oh_pricer_connected = False, oh_shutting_down = False, oh_shutdown_done = False,
      oh_clock_reads = 0, oh_sent = [], oh_subscribed = [], oh_order_rows = [], oh_decision_rows = []\<rparr>"

definition make_order_handler ::
  "market_config \<Rightarrow> (price_info \<Rightarrow> bool \<Rightarrow> int \<Rightarrow> outstanding_map \<Rightarrow> decision \<Rightarrow> decision)
    \<Rightarrow> trader_config \<Rightarrow> bool \<Rightarrow> (nat \<Rightarrow> int) \<Rightarrow> handler_error + (handler_env \<times> order_handler)" where
  "make_order_handler mc strategy tc has_make_gateway clk =
     (case (if has_make_gateway then Inr CustomGateway else create_order_gateway tc) of
        Inl e \<Rightarrow> Inl e
      | Inr _ \<Rightarrow>
          if d_le (mc_min_tick_size mc) (Fin 0) \<or> d_le (mc_default_lot_size mc) (Fin 0)
          then Inl UnitsNotPositive
          else Inr (env_of mc strategy tc clk, order_handler_init (tc_trade_products tc)))"

section \<open>Access to the state\<close>

text \<open>\<open>get_curr_tstamp_ns()\<close>: the next reading of the clock.\<close>

definition now_ns :: "handler_env \<Rightarrow> order_handler \<Rightarrow> int \<times> order_handler" where
  "now_ns ev s = (ev_clk ev (oh_clock_reads s), s\<lparr>oh_clock_reads := Suc (oh_clock_reads s)\<rparr>)"

definition state_of :: "order_handler \<Rightarrow> product \<Rightarrow> product_state" where
  "state_of s p = om_at product_state_init (oh_product_states s) p"

definition set_state :: "product \<Rightarrow> product_state \<Rightarrow> order_handler \<Rightarrow> order_handler" where
  "set_state p st s = s\<lparr>oh_product_states := om_put p st (oh_product_states s)\<rparr>"

definition upd_state :: "product \<Rightarrow> (product_state \<Rightarrow> product_state) \<Rightarrow> order_handler \<Rightarrow> order_handler" where
  "upd_state p f s = set_state p (f (state_of s p)) s"

definition send_request :: "gateway_request \<Rightarrow> order_handler \<Rightarrow> order_handler" where
  "send_request r s = s\<lparr>oh_sent := oh_sent s @ [r]\<rparr>"

section \<open>Units and grids\<close>

definition to_price_in_min_ticks :: "handler_env \<Rightarrow> dbl \<Rightarrow> int" where
  "to_price_in_min_ticks ev price = cast_i64 (d_round (d_div price (ev_min_tick_size ev)))"

definition to_qty_in_lots :: "handler_env \<Rightarrow> dbl \<Rightarrow> int" where
  "to_qty_in_lots ev qty = cast_i32 (d_round (d_div qty (ev_default_lot_size ev)))"

definition oh_double_price :: "handler_env \<Rightarrow> int \<Rightarrow> dbl" where
  "oh_double_price ev p = d_mul (d_of_int p) (ev_min_tick_size ev)"

definition oh_double_qty :: "handler_env \<Rightarrow> int \<Rightarrow> dbl" where
  "oh_double_qty ev q = d_mul (d_of_int q) (ev_default_lot_size ev)"

definition value_or :: "'a option \<Rightarrow> 'a \<Rightarrow> 'a" where
  "value_or x d = (case x of None \<Rightarrow> d | Some v \<Rightarrow> v)"

definition snap_qty_to_product_grid :: "product_info_data \<Rightarrow> dbl \<Rightarrow> bool \<times> dbl" where
  "snap_qty_to_product_grid info qty =
     (let qty' = (case pi_lot_size info of
                    Some lot \<Rightarrow> if d_lt (Fin 0) lot then d_mul (d_round (d_div qty lot)) lot else qty
                  | None \<Rightarrow> qty)
      in (d_lt (Fin 0) qty', qty'))"

definition snap_to_product_grid :: "product_info_data \<Rightarrow> bool \<Rightarrow> dbl \<Rightarrow> dbl \<Rightarrow> bool \<times> dbl \<times> dbl" where
  "snap_to_product_grid info is_bid price qty =
     (let price' = (case pi_tick_size info of
                      Some tick \<Rightarrow> if d_lt (Fin 0) tick then d_mul (d_round (d_div price tick)) tick else price
                    | None \<Rightarrow> price)
      in case snap_qty_to_product_grid info qty of
           (qty_ok, qty') \<Rightarrow> (qty_ok \<and> d_lt (Fin 0) price', price', qty'))"

section \<open>Link status and market data\<close>

definition on_listener_status :: "handler_env \<Rightarrow> feed_status \<Rightarrow> order_handler \<Rightarrow> order_handler" where
  "on_listener_status ev r s =
     (let s1 = (if \<not> oh_listener_connected s \<and> fs_connected r
                then s\<lparr>oh_subscribed := oh_subscribed s
                     @ map (\<lambda>spec. (ListenerLink, ps_product spec, ps_category spec)) (ev_subscribe_products ev)\<rparr>
                else s)
      in s1\<lparr>oh_listener_connecting := fs_connecting r, oh_listener_connected := fs_connected r\<rparr>)"

definition on_pricer_status :: "handler_env \<Rightarrow> feed_status \<Rightarrow> order_handler \<Rightarrow> order_handler" where
  "on_pricer_status ev r s =
     (let s1 = (if \<not> oh_pricer_connected s \<and> fs_connected r
                then s\<lparr>oh_subscribed := oh_subscribed s
                     @ map (\<lambda>p. (PricerLink, p, futures)) (ev_trade_products ev)\<rparr>
                else s)
      in s1\<lparr>oh_pricer_connected := fs_connected r\<rparr>)"

definition on_listener_subscribe :: "feed_subscribe \<Rightarrow> order_handler \<Rightarrow> order_handler" where
  "on_listener_subscribe r s = s"

definition best_of :: "handler_env \<Rightarrow> orderbook_level list \<Rightarrow> int \<times> int" where
  "best_of ev book =
     (case book of
        [] \<Rightarrow> (- 1, 0)
      | lv # _ \<Rightarrow> (case ol_price lv of
                     None \<Rightarrow> (- 1, 0)
                   | Some price \<Rightarrow> (to_price_in_min_ticks ev price,
                                   to_qty_in_lots ev (value_or (ol_qty lv) (Fin 0)))))"

definition on_orderbook ::
  "handler_env \<Rightarrow> product \<Rightarrow> orderbook_data \<Rightarrow> order_handler \<Rightarrow> order_handler" where
  "on_orderbook ev product data s =
     (if \<not> om_has (oh_product_states s) product then s
      else upd_state product (\<lambda>st. st\<lparr>st_l1 :=
             \<lparr>l1_bbid_price_in_min_ticks = fst (best_of ev (bid_book data)),
              l1_bask_price_in_min_ticks = fst (best_of ev (ask_book data)),
              l1_bbid_qty_in_lots = snd (best_of ev (bid_book data)),
              l1_bask_qty_in_lots = snd (best_of ev (ask_book data))\<rparr>\<rparr>) s)"

section \<open>Order identities\<close>

definition reserve_cid :: "handler_env \<Rightarrow> product \<Rightarrow> order_handler \<Rightarrow> cid \<times> order_handler" where
  "reserve_cid ev product s =
     (case now_ns ev s of (t, s1) \<Rightarrow>
        let c0 = u64 t;
            c = (if c0 \<le> oh_last_cid s1 then u64 (oh_last_cid s1 + 1) else c0)
        in (c, s1\<lparr>oh_last_cid := c, oh_cid_to_product := om_put c product (oh_cid_to_product s1)\<rparr>))"

definition forget_order :: "product \<Rightarrow> cid \<Rightarrow> order_handler \<Rightarrow> order_handler" where
  "forget_order p c s =
     (let st = state_of s p;
          s1 = (case map_of (st_cid_to_order_no st) c of
                  None \<Rightarrow> s
                | Some order_no \<Rightarrow>
                    set_state p (st\<lparr>st_order_no_to_cid := om_erase order_no (st_order_no_to_cid st),
                                    st_cid_to_order_no := om_erase c (st_cid_to_order_no st)\<rparr>)
                      (s\<lparr>oh_order_no_to_product := om_erase order_no (oh_order_no_to_product s)\<rparr>))
      in upd_state p (\<lambda>st. st\<lparr>st_outstanding_orders := om_erase c (st_outstanding_orders st)\<rparr>)
           (s1\<lparr>oh_cid_to_product := om_erase c (oh_cid_to_product s1)\<rparr>))"

definition bind_order_no :: "string \<Rightarrow> product \<Rightarrow> cid \<Rightarrow> order_handler \<Rightarrow> order_handler" where
  "bind_order_no order_no p c s =
     (if order_no = [] then s
      else upd_state p (\<lambda>st. st\<lparr>st_cid_to_order_no := om_put c order_no (st_cid_to_order_no st),
                               st_order_no_to_cid := om_put order_no c (st_order_no_to_cid st)\<rparr>)
             (s\<lparr>oh_order_no_to_product := om_put order_no p (oh_order_no_to_product s)\<rparr>))"

definition clear_waiting_if_idle :: "product \<Rightarrow> order_handler \<Rightarrow> order_handler" where
  "clear_waiting_if_idle p s =
     upd_state p (\<lambda>st. if no_waiting_orders st then st\<lparr>st_waiting_since_ns := 0\<rparr> else st) s"

definition erase_waiting_place :: "product \<Rightarrow> cid \<Rightarrow> order_handler \<Rightarrow> order_handler" where
  "erase_waiting_place p c s =
     upd_state p (\<lambda>st. st\<lparr>st_waiting_place := os_erase c (st_waiting_place st)\<rparr>) s"

definition erase_waiting_cancel :: "product \<Rightarrow> cid \<Rightarrow> order_handler \<Rightarrow> order_handler" where
  "erase_waiting_cancel p c s =
     upd_state p (\<lambda>st. st\<lparr>st_waiting_cancel := os_erase c (st_waiting_cancel st)\<rparr>) s"

section \<open>Executions\<close>

text \<open>
  The routing of an execution: by client order id, else by exchange order number, else by the
  product of the message.  The result is the product, whose state exists, and the client order
  id if one is known; \<open>None\<close> is an early return.
\<close>

definition route_execution ::
  "product \<Rightarrow> execution_data \<Rightarrow> order_handler \<Rightarrow> (product \<times> cid option) option" where
  "route_execution product data s =
     (let by_cid = (if ed_client_order_id data = [] then None
                    else case stoull (ed_client_order_id data) of
                           None \<Rightarrow> None
                         | Some parsed \<Rightarrow> (case map_of (oh_cid_to_product s) parsed of
                                             None \<Rightarrow> None
                                           | Some p \<Rightarrow> Some (parsed, p)));
          target0 = (case by_cid of None \<Rightarrow> [] | Some (_, p) \<Rightarrow> p);
          target = (if target0 = []
                    then value_or (map_of (oh_order_no_to_product s) (ed_order_no data)) product
                    else target0)
      in if target = [] then None
         else case map_of (oh_product_states s) target of
                None \<Rightarrow> None
              | Some st \<Rightarrow>
                  Some (target, case by_cid of
                                  Some (c, _) \<Rightarrow> Some c
                                | None \<Rightarrow> map_of (st_order_no_to_cid st) (ed_order_no data)))"

definition on_reject :: "product \<Rightarrow> cid option \<Rightarrow> order_handler \<Rightarrow> order_handler" where
  "on_reject p oc s =
     (case oc of
        None \<Rightarrow> s
      | Some c \<Rightarrow> clear_waiting_if_idle p (forget_order p c
                   (erase_waiting_cancel p c (erase_waiting_place p c s))))"

definition on_cancelled :: "product \<Rightarrow> cid option \<Rightarrow> order_handler \<Rightarrow> order_handler" where
  "on_cancelled p oc s =
     (case oc of
        None \<Rightarrow> s
      | Some c \<Rightarrow> clear_waiting_if_idle p (forget_order p c (erase_waiting_cancel p c s)))"

definition on_accepted ::
  "handler_env \<Rightarrow> product \<Rightarrow> cid option \<Rightarrow> execution_data \<Rightarrow> order_handler \<Rightarrow> order_handler" where
  "on_accepted ev p oc data s =
     (case oc of
        Some c \<Rightarrow> clear_waiting_if_idle p (erase_waiting_place p c (bind_order_no (ed_order_no data) p c s))
      | None \<Rightarrow>
          if d_lt (Fin 0) (value_or (ed_order_qty data) (Fin 0))
          then (case reserve_cid ev p s of (new_cid, s1) \<Rightarrow>
                  bind_order_no (ed_order_no data) p new_cid
                    (upd_state p (\<lambda>st. st\<lparr>st_outstanding_orders := om_put new_cid
                        \<lparr>oo_price_in_min_ticks = to_price_in_min_ticks ev (value_or (ed_order_price data) NaN),
                         oo_qty_in_lots = to_qty_in_lots ev (value_or (ed_order_qty data) (Fin 0)),
                         oo_is_bid = ed_is_bid data\<rparr> (st_outstanding_orders st)\<rparr>) s1))
          else s)"

definition on_fill ::
  "handler_env \<Rightarrow> product \<Rightarrow> cid option \<Rightarrow> execution_data \<Rightarrow> order_handler \<Rightarrow> order_handler" where
  "on_fill ev p oc data s =
     (let exec_qty_in_lots = to_qty_in_lots ev (value_or (ed_execute_qty data) (Fin 0));
          s1 = (case oc of
                  None \<Rightarrow> s
                | Some c \<Rightarrow>
                    (let oo = om_at \<lparr>oo_price_in_min_ticks = 0, oo_qty_in_lots = 0, oo_is_bid = False\<rparr>
                                (st_outstanding_orders (state_of s p)) c;
                         left = s32 (oo_qty_in_lots oo - exec_qty_in_lots);
                         s' = upd_state p (\<lambda>st. st\<lparr>st_outstanding_orders :=
                                om_put c (oo\<lparr>oo_qty_in_lots := left\<rparr>) (st_outstanding_orders st)\<rparr>) s
                     in if left \<le> 0
                        then clear_waiting_if_idle p (forget_order p c
                               (erase_waiting_cancel p c (erase_waiting_place p c s')))
                        else s'))
      in if ed_update_position_on_fill data
         then upd_state p (\<lambda>st. st\<lparr>st_position_in_lots := s32 (st_position_in_lots st +
                (if ed_is_bid data then exec_qty_in_lots else s32 (- exec_qty_in_lots)))\<rparr>) s1
         else s1)"

definition on_execution ::
  "handler_env \<Rightarrow> product \<Rightarrow> execution_data \<Rightarrow> order_handler \<Rightarrow> order_handler" where
  "on_execution ev product data s =
     (case route_execution product data s of
        None \<Rightarrow> s
      | Some (p, oc) \<Rightarrow>
          if ed_is_accept_data data
          then (if ed_is_rejected data then on_reject p oc s
                else if ed_is_cancel data then on_cancelled p oc s
                else if ed_is_place data \<and> ed_is_accepted data then on_accepted ev p oc data s
                else s)
          else if ed_is_executed data \<and> d_lt (Fin 0) (value_or (ed_execute_qty data) (Fin 0))
          then on_fill ev p oc data s
          else s)"

section \<open>Records\<close>

definition csv_safe :: "string \<Rightarrow> string" where
  "csv_safe text = map (\<lambda>c. if c = CHR '','' then CHR '';''
     else if c = CHR 0x0A \<or> c = CHR 0x0D then CHR '' '' else c) text"

definition mark_pending_record ::
  "cid \<Rightarrow> product \<Rightarrow> string \<Rightarrow> bool \<Rightarrow> dbl \<Rightarrow> dbl \<Rightarrow> order_handler \<Rightarrow> order_handler" where
  "mark_pending_record c product type is_bid price qty s =
     s\<lparr>oh_pending_order_records := om_put c
         \<lparr>pr_product = product, pr_type = type, pr_is_bid = is_bid, pr_price = price, pr_qty = qty\<rparr>
         (oh_pending_order_records s)\<rparr>"

definition log_order_record ::
  "handler_env \<Rightarrow> product \<Rightarrow> cid \<Rightarrow> string \<Rightarrow> string \<Rightarrow> bool \<Rightarrow> int option \<Rightarrow> string
    \<Rightarrow> order_handler \<Rightarrow> order_handler" where
  "log_order_record ev product c order_no type success server_tstamp_ms msg s =
     (let pending = map_of (oh_pending_order_records s) c;
          s1 = s\<lparr>oh_pending_order_records := om_erase c (oh_pending_order_records s)\<rparr>
      in if ev_order_record_save_path ev = [] then s1
         else case now_ns ev s1 of (t, s2) \<Rightarrow>
           s2\<lparr>oh_order_rows := oh_order_rows s2 @ [
             \<lparr>row_tstamp = t,
              row_server_tstamp = (case server_tstamp_ms of None \<Rightarrow> NaN | Some ms \<Rightarrow> d_of_int ms),
              row_product = product, row_cid = c,
              row_order_no = (if order_no = [] then ''-'' else order_no),
              row_type = (case pending of Some r \<Rightarrow> pr_type r | None \<Rightarrow> type),
              row_side = (case pending of Some r \<Rightarrow> (if pr_is_bid r then ''bid'' else ''ask'') | None \<Rightarrow> ''-''),
              row_success = success,
              row_price = (case pending of Some r \<Rightarrow> pr_price r | None \<Rightarrow> NaN),
              row_qty = (case pending of Some r \<Rightarrow> pr_qty r | None \<Rightarrow> NaN),
              row_msg = (if msg = [] then ''-'' else csv_safe msg)\<rparr>]\<rparr>)"

definition log_order_decision ::
  "handler_env \<Rightarrow> product \<Rightarrow> price_info \<Rightarrow> product_state \<Rightarrow> place_map \<Rightarrow> place_map
    \<Rightarrow> order_handler \<Rightarrow> order_handler" where
  "log_order_decision ev product pri st bids asks s =
     (if ev_order_decision_save_path ev = [] then s
      else case now_ns ev s of (t, s1) \<Rightarrow>
        s1\<lparr>oh_decision_rows := oh_decision_rows s1 @ [
          \<lparr>drow_tstamp = t, drow_product = product,
           drow_bbid = oh_double_price ev (bbid_price_in_min_ticks pri),
           drow_bask = oh_double_price ev (bask_price_in_min_ticks pri),
           drow_mid = mid_price pri, drow_fair = fair_price pri, drow_factor = applied_factor pri,
           drow_forward_vol_bp = forward_vol_bp pri, drow_position_lots = st_position_in_lots st,
           drow_outstanding = length (st_outstanding_orders st),
           drow_bid_price = (if bids = [] then NaN else oh_double_price ev (fst (last bids))),
           drow_ask_price = (if asks = [] then NaN else oh_double_price ev (fst (hd asks)))\<rparr>]\<rparr>)"

section \<open>Gateway replies\<close>

definition on_order_response :: "handler_env \<Rightarrow> order_response \<Rightarrow> order_handler \<Rightarrow> order_handler" where
  "on_order_response ev r s =
     (case map_of (oh_cid_to_product s) (or_cid r) of
        None \<Rightarrow>
          (case map_of (oh_pending_order_records s) (or_cid r) of
             None \<Rightarrow> s
           | Some pending \<Rightarrow> log_order_record ev (pr_product pending) (or_cid r) (or_order_no r)
                (pr_type pending) (or_success r) (or_server_tstamp_ms r) (or_msg r) s)
      | Some product \<Rightarrow>
          (let was_place = or_cid r \<in> set (st_waiting_place (state_of s product));
               was_cancel = or_cid r \<in> set (st_waiting_cancel (state_of s product));
               s1 = clear_waiting_if_idle product
                      (erase_waiting_cancel product (or_cid r) (erase_waiting_place product (or_cid r) s))
           in if was_cancel
              then (let s2 = log_order_record ev product (or_cid r) (or_order_no r) ''cancel'' (or_success r)
                               (or_server_tstamp_ms r) (or_msg r) s1
                    in if or_success r \<or> or_order_gone r then forget_order product (or_cid r) s2 else s2)
              else (let s2 = log_order_record ev product (or_cid r) (or_order_no r) ''place'' (or_success r)
                               (or_server_tstamp_ms r) (or_msg r) s1
                    in if or_success r then bind_order_no (or_order_no r) product (or_cid r) s2
                       else if was_place then forget_order product (or_cid r) s2
                       else s2)))"

section \<open>Position, grid and fair price\<close>

definition on_position ::
  "handler_env \<Rightarrow> product \<Rightarrow> position_data \<Rightarrow> order_handler \<Rightarrow> order_handler" where
  "on_position ev product data s =
     (case pd_balance data of
        None \<Rightarrow> s
      | Some balance \<Rightarrow>
          (let pos = om_at \<lparr>pd_balance = None, pd_available_balance = None\<rparr> (oh_positions s) product;
               pos' = \<lparr>pd_balance = Some balance,
                       pd_available_balance = (case pd_available_balance data of
                          Some a \<Rightarrow> Some a | None \<Rightarrow> pd_available_balance pos)\<rparr>;
               s1 = s\<lparr>oh_positions := om_put product pos' (oh_positions s)\<rparr>
           in if om_has (oh_product_states s1) product
              then upd_state product (\<lambda>st. st\<lparr>st_position_in_lots := to_qty_in_lots ev balance\<rparr>) s1
              else s1))"

definition on_product_info :: "product \<Rightarrow> product_info_data \<Rightarrow> order_handler \<Rightarrow> order_handler" where
  "on_product_info product data s =
     (case (pi_tick_size data, pi_lot_size data) of
        (Some tick, Some lot) \<Rightarrow>
          if d_le tick (Fin 0) \<or> d_le lot (Fin 0) then s
          else if \<not> om_has (oh_product_states s) product then s
          else send_request (SetProductGrid product tick lot)
                 (upd_state product (\<lambda>st. st\<lparr>st_product_info :=
                    \<lparr>pi_tick_size = Some tick, pi_lot_size = Some lot\<rparr>\<rparr>) s)
      | _ \<Rightarrow> s)"

definition on_fair_price :: "product \<Rightarrow> fair_price_data \<Rightarrow> order_handler \<Rightarrow> order_handler" where
  "on_fair_price product data s =
     (if \<not> om_has (oh_product_states s) product then s
      else let vol_usable = (isfinite (fp_forward_vol_bp data) \<and> d_lt (Fin 0) (fp_forward_vol_bp data))
           in upd_state product (\<lambda>st. st\<lparr>st_fair_price :=
                \<lparr>fps_ts = fp_ts data, fps_fair_price = value_or (fp_fair_price data) NaN,
                 fps_factor = value_or (fp_factor data) NaN,
                 fps_forward_vol_bp = (if vol_usable then fp_forward_vol_bp data else Fin 1)\<rparr>\<rparr>) s)"

text \<open>The clock is read only when the fair price is a number and ageing is on (short circuit).\<close>

definition fair_price_usable ::
  "handler_env \<Rightarrow> product_state \<Rightarrow> order_handler \<Rightarrow> bool \<times> order_handler" where
  "fair_price_usable ev st s =
     (if isnan (fps_fair_price (st_fair_price st)) then (False, s)
      else if ev_fair_price_max_age_ns ev \<le> 0 then (True, s)
      else case now_ns ev s of (t, s1) \<Rightarrow>
        (s64 (t - fps_ts (st_fair_price st)) \<le> ev_fair_price_max_age_ns ev, s1))"

definition build_price_info ::
  "handler_env \<Rightarrow> product_state \<Rightarrow> order_handler \<Rightarrow> price_info \<times> order_handler" where
  "build_price_info ev st s =
     (let bbid = l1_bbid_price_in_min_ticks (st_l1 st);
          bask = l1_bask_price_in_min_ticks (st_l1 st);
          product_tick = value_or (pi_tick_size (st_product_info st)) (Fin 0);
          base = \<lparr>bbid_price_in_min_ticks = bbid, bask_price_in_min_ticks = bask,
                  mid_price = NaN, fair_price = NaN, applied_factor = NaN, forward_vol_bp = Fin 1,
                  tick_size = (if d_lt (Fin 0) product_tick then product_tick else ev_min_tick_size ev)\<rparr>
      in if bbid = - 1 \<or> bask = - 1 then (base, s)
         else let mid = d_div (oh_double_price ev (s64 (bbid + bask))) (Fin 2) in
           case fair_price_usable ev st s of (usable, s1) \<Rightarrow>
             if usable \<and> isfinite (fps_factor (st_fair_price st))
             then (base\<lparr>mid_price := mid, applied_factor := fps_factor (st_fair_price st),
                        fair_price := d_mul (fps_factor (st_fair_price st)) mid,
                        forward_vol_bp := fps_forward_vol_bp (st_fair_price st)\<rparr>, s1)
             else (base\<lparr>mid_price := mid, fair_price := mid\<rparr>, s1))"

section \<open>Order submission\<close>

definition mark_waiting_since :: "handler_env \<Rightarrow> product \<Rightarrow> order_handler \<Rightarrow> order_handler" where
  "mark_waiting_since ev p s =
     (if no_waiting_orders (state_of s p)
      then (case now_ns ev s of (t, s1) \<Rightarrow> upd_state p (\<lambda>st. st\<lparr>st_waiting_since_ns := t\<rparr>) s1)
      else s)"

definition mark_waiting_place :: "handler_env \<Rightarrow> product \<Rightarrow> cid \<Rightarrow> order_handler \<Rightarrow> order_handler" where
  "mark_waiting_place ev p c s =
     upd_state p (\<lambda>st. st\<lparr>st_waiting_place := os_insert c (st_waiting_place st)\<rparr>) (mark_waiting_since ev p s)"

definition mark_waiting_cancel :: "handler_env \<Rightarrow> product \<Rightarrow> cid \<Rightarrow> order_handler \<Rightarrow> order_handler" where
  "mark_waiting_cancel ev p c s =
     upd_state p (\<lambda>st. st\<lparr>st_waiting_cancel := os_insert c (st_waiting_cancel st)\<rparr>) (mark_waiting_since ev p s)"

definition submit_cancel :: "handler_env \<Rightarrow> product \<Rightarrow> cid \<Rightarrow> order_handler \<Rightarrow> order_handler" where
  "submit_cancel ev p c s =
     (case map_of (st_cid_to_order_no (state_of s p)) c of
        None \<Rightarrow> s
      | Some order_no \<Rightarrow>
          (let s1 = (case map_of (st_outstanding_orders (state_of s p)) c of
                       None \<Rightarrow> s
                     | Some oo \<Rightarrow> mark_pending_record c p ''cancel'' (oo_is_bid oo)
                                   (oh_double_price ev (oo_price_in_min_ticks oo))
                                   (oh_double_qty ev (oo_qty_in_lots oo)) s)
           in send_request (CancelOrder \<lparr>oc_order_no = order_no, oc_cancel_all = True, oc_is_limit = True,
                  oc_qty = Fin 0, oc_product = p, oc_cid = c\<rparr>)
                (mark_waiting_cancel ev p c s1)))"

definition submit_place ::
  "handler_env \<Rightarrow> product \<Rightarrow> bool \<Rightarrow> int \<Rightarrow> int \<Rightarrow> bool \<Rightarrow> bool \<Rightarrow> order_handler \<Rightarrow> order_handler" where
  "submit_place ev p is_bid price_in_min_ticks qty_in_lots is_limit reduce_only s =
     (if qty_in_lots \<le> 0 then s
      else let info = st_product_info (state_of s p);
               price0 = oh_double_price ev price_in_min_ticks;
               qty0 = oh_double_qty ev qty_in_lots in
        case (if is_limit then snap_to_product_grid info is_bid price0 qty0
              else case snap_qty_to_product_grid info qty0 of (ok, q) \<Rightarrow> (ok, Fin 0, q)) of
          (ok, price, qty) \<Rightarrow>
            if \<not> ok then s
            else case reserve_cid ev p s of (c, s1) \<Rightarrow>
              (let s2 = (if is_limit
                         then upd_state p (\<lambda>st. st\<lparr>st_outstanding_orders := om_put c
                                \<lparr>oo_price_in_min_ticks = price_in_min_ticks, oo_qty_in_lots = qty_in_lots,
                                 oo_is_bid = is_bid\<rparr> (st_outstanding_orders st)\<rparr>) s1
                         else s1);
                   s3 = mark_waiting_place ev p c s2;
                   s4 = mark_pending_record c p ''place'' is_bid (if is_limit then price else NaN) qty s3
               in send_request (PlaceOrder \<lparr>op_is_limit = is_limit, op_is_bid = is_bid, op_price = price,
                    op_qty = qty, op_product = p, op_cid = c, op_reduce_only = reduce_only\<rparr>) s4))"

section \<open>The decision tick\<close>

fun record_timed_out :: "handler_env \<Rightarrow> product \<Rightarrow> string \<Rightarrow> cid list \<Rightarrow> order_handler \<Rightarrow> order_handler" where
  "record_timed_out ev p type [] s = s"
| "record_timed_out ev p type (c # cs) s =
     record_timed_out ev p type cs
       (log_order_record ev p c (value_or (map_of (st_cid_to_order_no (state_of s p)) c) []) type False
          None ''no response within order_response_timeout'' s)"

definition clear_timed_out :: "handler_env \<Rightarrow> product \<Rightarrow> order_handler \<Rightarrow> order_handler" where
  "clear_timed_out ev p s =
     (let s1 = record_timed_out ev p ''place'' (st_waiting_place (state_of s p)) s;
          s2 = record_timed_out ev p ''cancel'' (st_waiting_cancel (state_of s1 p)) s1
      in upd_state p (\<lambda>st. st\<lparr>st_waiting_place := [], st_waiting_cancel := [], st_waiting_since_ns := 0\<rparr>) s2)"

text \<open>The wait for replies: proceed (\<open>Some\<close>), possibly after a timeout, or skip (\<open>None\<close> with the state).\<close>

definition await_responses :: "handler_env \<Rightarrow> product \<Rightarrow> order_handler \<Rightarrow> bool \<times> order_handler" where
  "await_responses ev p s =
     (if no_waiting_orders (state_of s p) then (True, s)
      else case now_ns ev s of (t, s1) \<Rightarrow>
        if 0 < st_waiting_since_ns (state_of s1 p)
           \<and> ev_order_response_timeout_ns ev < s64 (t - st_waiting_since_ns (state_of s1 p))
        then (True, clear_timed_out ev p s1)
        else (False, s1))"

fun submit_cancels :: "handler_env \<Rightarrow> product \<Rightarrow> cid list \<Rightarrow> order_handler \<Rightarrow> order_handler" where
  "submit_cancels ev p [] s = s"
| "submit_cancels ev p (c # cs) s = submit_cancels ev p cs (submit_cancel ev p c s)"

fun submit_places :: "handler_env \<Rightarrow> product \<Rightarrow> bool \<Rightarrow> place_map \<Rightarrow> order_handler \<Rightarrow> order_handler" where
  "submit_places ev p is_bid [] s = s"
| "submit_places ev p is_bid ((price, qty) # m) s =
     submit_places ev p is_bid m (submit_place ev p is_bid price qty True False s)"

definition act_on_decision ::
  "handler_env \<Rightarrow> product \<Rightarrow> price_info \<Rightarrow> bool \<Rightarrow> order_handler \<Rightarrow> order_handler" where
  "act_on_decision ev p pri do_liquidate s =
     (let st = state_of s p;
          d = ev_decide ev pri do_liquidate (st_position_in_lots st) (st_outstanding_orders st) decision_init;
          s1 = log_order_decision ev p pri st (bid_place_orders d) (ask_place_orders d) s;
          s2 = submit_cancels ev p (bid_cancel_orders d) s1;
          s3 = submit_cancels ev p (ask_cancel_orders d) s2;
          s4 = submit_places ev p True (bid_place_orders d) s3
      in submit_places ev p False (ask_place_orders d) s4)"

definition update_orders :: "handler_env \<Rightarrow> product \<Rightarrow> bool \<Rightarrow> order_handler \<Rightarrow> order_handler" where
  "update_orders ev p do_liquidate s =
     (if oh_shutting_down s \<and> \<not> do_liquidate then s
      else if \<not> om_has (oh_product_states s) p then s
      else if \<not> oh_listener_connected s then s
      else if ev_tick_func ev = None \<and> pi_tick_size (st_product_info (state_of s p)) = None then s
      else case await_responses ev p s of (go, s1) \<Rightarrow>
        if \<not> go then s1
        else case build_price_info ev (state_of s1 p) s1 of (pri, s2) \<Rightarrow>
          if isnan (mid_price pri) then s2
          else act_on_decision ev p pri do_liquidate s2)"

section \<open>Dispatch\<close>

definition process_market_data ::
  "handler_env \<Rightarrow> market_data_response \<Rightarrow> order_handler \<Rightarrow> handler_error + order_handler" where
  "process_market_data ev r s =
     (case md_feed r of
        FeedOrderbook \<Rightarrow> (case md_data r of POrderbook d \<Rightarrow> Inr (on_orderbook ev (md_product r) d s)
                          | _ \<Rightarrow> Inl BadVariantAccess)
      | FeedTrade \<Rightarrow> Inr s
      | FeedExecution \<Rightarrow> (case md_data r of PExecution d \<Rightarrow> Inr (on_execution ev (md_product r) d s)
                          | _ \<Rightarrow> Inl BadVariantAccess)
      | FeedPosition \<Rightarrow> (case md_data r of PPosition d \<Rightarrow> Inr (on_position ev (md_product r) d s)
                         | _ \<Rightarrow> Inl BadVariantAccess)
      | FeedProductInfo \<Rightarrow> (case md_data r of PProductInfo d \<Rightarrow> Inr (on_product_info (md_product r) d s)
                            | _ \<Rightarrow> Inl BadVariantAccess)
      | FeedError \<Rightarrow> Inr s)"

definition handle_task ::
  "handler_env \<Rightarrow> trader_task \<Rightarrow> order_handler \<Rightarrow> handler_error + order_handler" where
  "handle_task ev t s =
     (case t of
        ListenerStatusTask r \<Rightarrow> Inr (on_listener_status ev r s)
      | ListenerSubscribeTask r \<Rightarrow> Inr (on_listener_subscribe r s)
      | MarketDataTask r \<Rightarrow> process_market_data ev r s
      | PricerStatusTask r \<Rightarrow> Inr (on_pricer_status ev r s)
      | PricerSubscribeTask r \<Rightarrow> Inr s
      | FairPriceTask r \<Rightarrow> Inr (on_fair_price (fr_product r) (fr_data r) s)
      | OrderUpdateTask p \<Rightarrow> Inr (update_orders ev p False s)
      | OrderResponseTask r \<Rightarrow> Inr (on_order_response ev r s))"

end
