(* ===== verification/Handler_Invariant.thy ===== *)
theory Handler_Invariant
  imports Order_Handler
begin

text \<open>
  The structural invariant of the order handler and its preservation by every event handler:
  which product owns a client order id, that ids are never reused, that every resting order is
  routable, and that the containers stay ordered.  \<open>handler_run\<close> is the dispatch of a whole
  sequence of tasks.
\<close>

section \<open>Primitive updates\<close>

lemma state_of_set_state [simp]:
  "state_of (set_state p st s) q = (if q = p then st else state_of s q)"
  by (simp add: state_of_def set_state_def om_at_def om_simps)

lemma state_of_upd_state [simp]:
  "state_of (upd_state p f s) q = (if q = p then f (state_of s p) else state_of s q)"
  by (simp add: upd_state_def)

lemma upd_state_sel [simp]:
  "oh_order_no_to_product (upd_state p f s) = oh_order_no_to_product s"
  "oh_last_cid (upd_state p f s) = oh_last_cid s"
  "oh_cid_to_product (upd_state p f s) = oh_cid_to_product s"
  "oh_positions (upd_state p f s) = oh_positions s"
  "oh_pending_order_records (upd_state p f s) = oh_pending_order_records s"
  "oh_listener_connected (upd_state p f s) = oh_listener_connected s"
  "oh_shutting_down (upd_state p f s) = oh_shutting_down s"
  "oh_clock_reads (upd_state p f s) = oh_clock_reads s"
  "oh_sent (upd_state p f s) = oh_sent s"
  "oh_product_states (upd_state p f s) = om_put p (f (state_of s p)) (oh_product_states s)"
  by (simp_all add: upd_state_def set_state_def)

text \<open>Updates of the other members leave the product states alone.\<close>

lemma state_of_other [simp]:
  "state_of (s\<lparr>oh_clock_reads := n\<rparr>) q = state_of s q"
  "state_of (s\<lparr>oh_sent := xs\<rparr>) q = state_of s q"
  "state_of (s\<lparr>oh_order_rows := rs\<rparr>) q = state_of s q"
  "state_of (s\<lparr>oh_decision_rows := ds\<rparr>) q = state_of s q"
  "state_of (s\<lparr>oh_pending_order_records := ps\<rparr>) q = state_of s q"
  "state_of (s\<lparr>oh_cid_to_product := cp\<rparr>) q = state_of s q"
  "state_of (s\<lparr>oh_order_no_to_product := op\<rparr>) q = state_of s q"
  "state_of (s\<lparr>oh_last_cid := c, oh_cid_to_product := cp\<rparr>) q = state_of s q"
  "state_of (s\<lparr>oh_last_cid := c\<rparr>) q = state_of s q"
  "state_of (s\<lparr>oh_positions := pos\<rparr>) q = state_of s q"
  "state_of (s\<lparr>oh_subscribed := sub\<rparr>) q = state_of s q"
  "state_of (s\<lparr>oh_listener_connecting := b\<rparr>) q = state_of s q"
  "state_of (s\<lparr>oh_listener_connected := b\<rparr>) q = state_of s q"
  "state_of (s\<lparr>oh_pricer_connected := b\<rparr>) q = state_of s q"
  "state_of (s\<lparr>oh_shutting_down := b\<rparr>) q = state_of s q"
  "state_of (s\<lparr>oh_shutdown_done := b\<rparr>) q = state_of s q"
  by (simp_all add: state_of_def)

section \<open>The invariant\<close>

text \<open>Ids a product's state refers to belong to that product, or to no order any more.\<close>

definition state_ids :: "product_state \<Rightarrow> cid set" where
  "state_ids st = snd ` set (st_order_no_to_cid st) \<union> fst ` set (st_cid_to_order_no st)
     \<union> set (st_waiting_place st) \<union> set (st_waiting_cancel st)"

definition state_ok :: "(cid \<Rightarrow> product option) \<Rightarrow> int \<Rightarrow> product \<Rightarrow> product_state \<Rightarrow> bool" where
  "state_ok owner last_id p st \<longleftrightarrow>
     om_inv (st_outstanding_orders st) \<and> om_inv (st_cid_to_order_no st) \<and> om_inv (st_order_no_to_cid st)
     \<and> (\<forall>c \<in> fst ` set (st_outstanding_orders st). owner c = Some p)
     \<and> (\<forall>c \<in> state_ids st. c \<le> last_id \<and> owner c \<in> {None, Some p})"

definition place_cids :: "gateway_request list \<Rightarrow> cid list" where
  "place_cids rs = concat (map (\<lambda>r. case r of PlaceOrder i \<Rightarrow> [op_cid i] | _ \<Rightarrow> []) rs)"

definition sound_request :: "gateway_request \<Rightarrow> bool" where
  "sound_request r \<longleftrightarrow> (case r of
      PlaceOrder i \<Rightarrow> d_lt (Fin 0) (op_qty i) \<and> (if op_is_limit i then d_lt (Fin 0) (op_price i) else op_price i = Fin 0)
    | _ \<Rightarrow> True)"

definition handler_inv :: "handler_env \<Rightarrow> order_handler \<Rightarrow> bool" where
  "handler_inv ev s \<longleftrightarrow>
     om_inv (oh_product_states s) \<and> fst ` set (oh_product_states s) = set (ev_trade_products ev)
     \<and> om_inv (oh_cid_to_product s) \<and> om_inv (oh_order_no_to_product s)
     \<and> om_inv (oh_pending_order_records s) \<and> om_inv (oh_positions s)
     \<and> (\<forall>c p. map_of (oh_cid_to_product s) c = Some p \<longrightarrow> c \<le> oh_last_cid s \<and> p \<in> set (ev_trade_products ev))
     \<and> 0 \<le> oh_last_cid s \<and> oh_last_cid s \<le> 2 ^ 63 + int (oh_clock_reads s)
     \<and> (\<forall>p. state_ok (map_of (oh_cid_to_product s)) (oh_last_cid s) p (state_of s p))
     \<and> sorted_wrt (<) (place_cids (oh_sent s)) \<and> (\<forall>c \<in> set (place_cids (oh_sent s)). c \<le> oh_last_cid s)
     \<and> (\<forall>r \<in> set (oh_sent s). sound_request r)"

definition env_ok :: "handler_env \<Rightarrow> bool" where
  "env_ok ev \<longleftrightarrow> [] \<notin> set (ev_trade_products ev) \<and> (\<forall>n. 0 \<le> ev_clk ev n \<and> ev_clk ev n < 2 ^ 63)
     \<and> \<not> d_le (ev_default_lot_size ev) (Fin 0)"

lemma handler_inv_has: "handler_inv ev s \<Longrightarrow> om_has (oh_product_states s) p \<longleftrightarrow> p \<in> set (ev_trade_products ev)"
  by (simp add: handler_inv_def om_has_iff)

lemma handler_inv_owner:
  "handler_inv ev s \<Longrightarrow> map_of (oh_cid_to_product s) c = Some p \<Longrightarrow> c \<le> oh_last_cid s \<and> p \<in> set (ev_trade_products ev)"
  by (simp add: handler_inv_def)

lemma handler_inv_state: "handler_inv ev s \<Longrightarrow> state_ok (map_of (oh_cid_to_product s)) (oh_last_cid s) p (state_of s p)"
  by (simp add: handler_inv_def)

text \<open>Changing one product's state keeps the invariant when the new state is sound.\<close>

lemma handler_inv_upd:
  assumes "handler_inv ev s" "p \<in> set (ev_trade_products ev)"
    "state_ok (map_of (oh_cid_to_product s)) (oh_last_cid s) p (f (state_of s p))"
  shows "handler_inv ev (upd_state p f s)"
  using assms by (simp add: handler_inv_def om_inv_intros insert_absorb)

lemma handler_inv_now: "handler_inv ev s \<Longrightarrow> handler_inv ev (snd (now_ns ev s))"
  by (simp add: handler_inv_def now_ns_def)

lemma handler_inv_frame:
  "handler_inv ev s \<Longrightarrow> handler_inv ev (s\<lparr>oh_order_rows := rs\<rparr>)"
  "handler_inv ev s \<Longrightarrow> handler_inv ev (s\<lparr>oh_decision_rows := ds\<rparr>)"
  "handler_inv ev s \<Longrightarrow> handler_inv ev (s\<lparr>oh_subscribed := sub\<rparr>)"
  "handler_inv ev s \<Longrightarrow> handler_inv ev (s\<lparr>oh_listener_connecting := b\<rparr>)"
  "handler_inv ev s \<Longrightarrow> handler_inv ev (s\<lparr>oh_listener_connected := b\<rparr>)"
  "handler_inv ev s \<Longrightarrow> handler_inv ev (s\<lparr>oh_pricer_connected := b\<rparr>)"
  "handler_inv ev s \<Longrightarrow> handler_inv ev (s\<lparr>oh_shutting_down := b\<rparr>)"
  "handler_inv ev s \<Longrightarrow> handler_inv ev (s\<lparr>oh_shutdown_done := b\<rparr>)"
  "handler_inv ev s \<Longrightarrow> om_inv ps \<Longrightarrow> handler_inv ev (s\<lparr>oh_pending_order_records := ps\<rparr>)"
  "handler_inv ev s \<Longrightarrow> om_inv pos \<Longrightarrow> handler_inv ev (s\<lparr>oh_positions := pos\<rparr>)"
  "handler_inv ev s \<Longrightarrow> om_inv op \<Longrightarrow> handler_inv ev (s\<lparr>oh_order_no_to_product := op\<rparr>)"
  by (simp_all add: handler_inv_def)

lemma handler_inv_pending: "handler_inv ev s \<Longrightarrow> om_inv (oh_pending_order_records s)"
  by (simp add: handler_inv_def)

lemma handler_inv_order_no: "handler_inv ev s \<Longrightarrow> om_inv (oh_order_no_to_product s)"
  by (simp add: handler_inv_def)

section \<open>Preservation by the building blocks\<close>

text \<open>A state that refers to fewer ids and drops outstanding orders stays sound.\<close>

lemma state_ok_shrink:
  assumes "state_ok owner last_id p st" "state_ids st' \<subseteq> state_ids st"
    "fst ` set (st_outstanding_orders st') \<subseteq> fst ` set (st_outstanding_orders st)"
    "om_inv (st_outstanding_orders st')" "om_inv (st_cid_to_order_no st')" "om_inv (st_order_no_to_cid st')"
  shows "state_ok owner last_id p st'"
  using assms unfolding state_ok_def by blast

lemma state_ok_maps:
  "state_ok owner last_id p st \<Longrightarrow>
     om_inv (st_outstanding_orders st) \<and> om_inv (st_cid_to_order_no st) \<and> om_inv (st_order_no_to_cid st)"
  by (simp add: state_ok_def)

text \<open>Updates of fields that hold no ids.\<close>

lemma state_ok_plain [simp]:
  "state_ok ow l p (st\<lparr>st_waiting_since_ns := t\<rparr>) = state_ok ow l p st"
  "state_ok ow l p (st\<lparr>st_l1 := b\<rparr>) = state_ok ow l p st"
  "state_ok ow l p (st\<lparr>st_fair_price := fp\<rparr>) = state_ok ow l p st"
  "state_ok ow l p (st\<lparr>st_product_info := pin\<rparr>) = state_ok ow l p st"
  "state_ok ow l p (st\<lparr>st_position_in_lots := n\<rparr>) = state_ok ow l p st"
  by (simp_all add: state_ok_def state_ids_def)

lemma state_ok_waiting:
  "state_ok ow l p st \<Longrightarrow> set w \<subseteq> state_ids st \<Longrightarrow> state_ok ow l p (st\<lparr>st_waiting_place := w\<rparr>)"
  "state_ok ow l p st \<Longrightarrow> set w \<subseteq> state_ids st \<Longrightarrow> state_ok ow l p (st\<lparr>st_waiting_cancel := w\<rparr>)"
  by (auto simp: state_ok_def state_ids_def)

lemma inv_erase_waiting_place:
  "handler_inv ev s \<Longrightarrow> p \<in> set (ev_trade_products ev) \<Longrightarrow> handler_inv ev (erase_waiting_place p c s)"
  unfolding erase_waiting_place_def
  by (intro handler_inv_upd state_ok_waiting handler_inv_state) (auto simp: state_ids_def)

lemma inv_erase_waiting_cancel:
  "handler_inv ev s \<Longrightarrow> p \<in> set (ev_trade_products ev) \<Longrightarrow> handler_inv ev (erase_waiting_cancel p c s)"
  unfolding erase_waiting_cancel_def
  by (intro handler_inv_upd state_ok_waiting handler_inv_state) (auto simp: state_ids_def)

lemma inv_clear_waiting_if_idle:
  "handler_inv ev s \<Longrightarrow> p \<in> set (ev_trade_products ev) \<Longrightarrow> handler_inv ev (clear_waiting_if_idle p s)"
  unfolding clear_waiting_if_idle_def by (rule handler_inv_upd) (simp_all add: handler_inv_state)

lemma inv_mark_waiting_since:
  "handler_inv ev s \<Longrightarrow> p \<in> set (ev_trade_products ev) \<Longrightarrow> handler_inv ev (mark_waiting_since ev p s)"
proof -
  assume s: "handler_inv ev s" and p: "p \<in> set (ev_trade_products ev)"
  have "handler_inv ev (upd_state p (\<lambda>st. st\<lparr>st_waiting_since_ns := t\<rparr>) (snd (now_ns ev s)))" for t
    using handler_inv_now [OF s] p by (intro handler_inv_upd) (simp_all add: handler_inv_state)
  then show ?thesis using s by (simp add: mark_waiting_since_def case_prod_unfold)
qed

lemma mark_waiting_since_sel [simp]:
  "oh_cid_to_product (mark_waiting_since ev p s) = oh_cid_to_product s"
  "oh_last_cid (mark_waiting_since ev p s) = oh_last_cid s"
  "oh_sent (mark_waiting_since ev p s) = oh_sent s"
  "oh_pending_order_records (mark_waiting_since ev p s) = oh_pending_order_records s"
  by (simp_all add: mark_waiting_since_def now_ns_def)

lemma state_of_mark_waiting_since:
  "state_of (mark_waiting_since ev p s) q =
     (if q = p \<and> no_waiting_orders (state_of s p)
      then (state_of s p)\<lparr>st_waiting_since_ns := ev_clk ev (oh_clock_reads s)\<rparr> else state_of s q)"
  by (simp add: mark_waiting_since_def now_ns_def)

text \<open>Ids that a product's state may newly refer to.\<close>

definition may_refer :: "order_handler \<Rightarrow> product \<Rightarrow> cid \<Rightarrow> bool" where
  "may_refer s p c \<longleftrightarrow> c \<le> oh_last_cid s \<and> map_of (oh_cid_to_product s) c \<in> {None, Some p}"

lemma state_ok_new_waiting:
  "state_ok ow l p st \<Longrightarrow> c \<le> l \<Longrightarrow> ow c \<in> {None, Some p}
     \<Longrightarrow> state_ok ow l p (st\<lparr>st_waiting_place := os_insert c (st_waiting_place st)\<rparr>)"
  "state_ok ow l p st \<Longrightarrow> c \<le> l \<Longrightarrow> ow c \<in> {None, Some p}
     \<Longrightarrow> state_ok ow l p (st\<lparr>st_waiting_cancel := os_insert c (st_waiting_cancel st)\<rparr>)"
  by (auto simp: state_ok_def state_ids_def)

lemma inv_mark_waiting:
  assumes "handler_inv ev s" "p \<in> set (ev_trade_products ev)" "may_refer s p c"
  shows "handler_inv ev (mark_waiting_place ev p c s)" "handler_inv ev (mark_waiting_cancel ev p c s)"
  using assms inv_mark_waiting_since [OF assms(1,2)] handler_inv_state [of ev "mark_waiting_since ev p s" p]
  unfolding mark_waiting_place_def mark_waiting_cancel_def may_refer_def
  by (auto intro!: handler_inv_upd state_ok_new_waiting)

lemma inv_put_outstanding:
  assumes "handler_inv ev s" "map_of (oh_cid_to_product s) c = Some p"
  shows "handler_inv ev (upd_state p (\<lambda>st. st\<lparr>st_outstanding_orders := om_put c oo (st_outstanding_orders st)\<rparr>) s)"
proof (rule handler_inv_upd)
  show "p \<in> set (ev_trade_products ev)" using handler_inv_owner [OF assms] by simp
  show "state_ok (map_of (oh_cid_to_product s)) (oh_last_cid s) p
      ((state_of s p)\<lparr>st_outstanding_orders := om_put c oo (st_outstanding_orders (state_of s p))\<rparr>)"
    using handler_inv_state [OF assms(1), of p] assms(2)
    by (simp add: state_ok_def state_ids_def om_inv_intros)
qed (rule assms(1))

lemma snd_om_put_subset: "snd ` set (om_put k v m) \<subseteq> insert v (snd ` set m)"
  by (induction k v m rule: om_put.induct) auto

lemma inv_bind_order_no:
  assumes "handler_inv ev s" "p \<in> set (ev_trade_products ev)" "may_refer s p c"
  shows "handler_inv ev (bind_order_no o_no p c s)"
proof (cases "o_no = []")
  case True
  with assms show ?thesis by (simp add: bind_order_no_def)
next
  case False
  let ?s = "s\<lparr>oh_order_no_to_product := om_put o_no p (oh_order_no_to_product s)\<rparr>"
  let ?f = "\<lambda>st. st\<lparr>st_cid_to_order_no := om_put c o_no (st_cid_to_order_no st),
      st_order_no_to_cid := om_put o_no c (st_order_no_to_cid st)\<rparr>"
  have s: "handler_inv ev ?s"
    using assms(1) handler_inv_order_no by (intro handler_inv_frame) (auto intro: om_inv_intros)
  have ids: "state_ids (?f st) \<subseteq> insert c (state_ids st)" for st
    using snd_om_put_subset [of o_no c "st_order_no_to_cid st"] by (auto simp: state_ids_def)
  have "state_ok (map_of (oh_cid_to_product s)) (oh_last_cid s) p (?f (state_of s p))"
    using handler_inv_state [OF assms(1), of p] assms(3) ids [of "state_of s p"]
    unfolding state_ok_def may_refer_def by (auto intro: om_inv_intros)
  then show ?thesis
    using False assms(2) handler_inv_upd [OF s, of p ?f] by (simp add: bind_order_no_def)
qed

lemma bind_order_no_sel [simp]:
  "oh_cid_to_product (bind_order_no o_no p c s) = oh_cid_to_product s"
  "oh_last_cid (bind_order_no o_no p c s) = oh_last_cid s"
  "oh_sent (bind_order_no o_no p c s) = oh_sent s"
  by (simp_all add: bind_order_no_def)

lemma forget_order_sel [simp]:
  "oh_cid_to_product (forget_order p c s) = om_erase c (oh_cid_to_product s)"
  "oh_last_cid (forget_order p c s) = oh_last_cid s"
  "oh_sent (forget_order p c s) = oh_sent s"
  "oh_clock_reads (forget_order p c s) = oh_clock_reads s"
  "oh_positions (forget_order p c s) = oh_positions s"
  "oh_pending_order_records (forget_order p c s) = oh_pending_order_records s"
  "oh_order_no_to_product (forget_order p c s) =
     (case map_of (st_cid_to_order_no (state_of s p)) c of
        None \<Rightarrow> oh_order_no_to_product s | Some o_no \<Rightarrow> om_erase o_no (oh_order_no_to_product s))"
  by (simp_all add: forget_order_def set_state_def Let_def split: option.splits)

text \<open>Forgetting an order removes it from every index of its product and from the routing.\<close>

lemma state_of_forget_order:
  "state_of (forget_order p c s) q =
     (if q = p then (state_of s p)\<lparr>
          st_order_no_to_cid := (case map_of (st_cid_to_order_no (state_of s p)) c of
             None \<Rightarrow> st_order_no_to_cid (state_of s p)
           | Some o_no \<Rightarrow> om_erase o_no (st_order_no_to_cid (state_of s p))),
          st_cid_to_order_no := om_erase c (st_cid_to_order_no (state_of s p)),
          st_outstanding_orders := om_erase c (st_outstanding_orders (state_of s p))\<rparr>
      else state_of s q)"
proof -
  have absent: "map_of m c = None \<Longrightarrow> om_erase c m = m" for m :: "(cid, string) omap"
    by (auto simp: om_erase_def filter_id_conv map_of_eq_None_iff)
  show ?thesis
    by (auto simp: forget_order_def Let_def absent split: option.splits)
qed

lemma forget_order_keys:
  "om_inv (oh_product_states s) \<Longrightarrow> om_inv (oh_product_states (forget_order p c s))"
  "fst ` set (oh_product_states (forget_order p c s)) = insert p (fst ` set (oh_product_states s))"
  by (auto simp: forget_order_def set_state_def Let_def om_inv_intros split: option.splits)

lemma set_om_erase: "set (om_erase k m) = {e \<in> set m. fst e \<noteq> k}"
  by (auto simp: om_erase_def)

lemma om_erase_sub: "fst ` set (om_erase k m) \<subseteq> fst ` set m" "snd ` set (om_erase k m) \<subseteq> snd ` set m"
  by (auto simp: set_om_erase)

lemma state_ok_forget:
  assumes "state_ok ow l q st" "ow c \<in> {None, Some p}" "q = p \<Longrightarrow> c \<notin> fst ` set (st_outstanding_orders st)"
  shows "state_ok (ow(c := None)) l q st"
  using assms unfolding state_ok_def by (metis fun_upd_apply insertCI insertE option.inject option.distinct(1) singletonD)

lemma inv_forget_order:
  assumes "handler_inv ev s" "p \<in> set (ev_trade_products ev)" "map_of (oh_cid_to_product s) c \<in> {None, Some p}"
  shows "handler_inv ev (forget_order p c s)"
proof -
  let ?t = "forget_order p c s"
  note inv = assms(1) [unfolded handler_inv_def]
  have st: "state_ok (map_of (oh_cid_to_product s)) (oh_last_cid s) q (state_of ?t q)" for q
  proof (cases "q = p")
    case True
    have m: "om_inv (st_outstanding_orders (state_of s p))" "om_inv (st_cid_to_order_no (state_of s p))"
      "om_inv (st_order_no_to_cid (state_of s p))"
      using state_ok_maps [OF handler_inv_state [OF assms(1), of p]] by auto
    show ?thesis
      by (rule state_ok_shrink [OF handler_inv_state [OF assms(1), of q]])
        (use True m in \<open>auto simp: state_of_forget_order state_ids_def set_om_erase om_inv_intros split: option.splits\<close>)
  qed (simp add: state_of_forget_order handler_inv_state [OF assms(1)])
  have "state_ok (map_of (oh_cid_to_product ?t)) (oh_last_cid ?t) q (state_of ?t q)" for q
  proof -
    have "q = p \<Longrightarrow> c \<notin> fst ` set (st_outstanding_orders (state_of ?t q))"
      by (auto simp: state_of_forget_order set_om_erase)
    then show ?thesis
      using state_ok_forget [OF st assms(3), of q] unfolding forget_order_sel map_of_om_erase by blast
  qed
  moreover have "om_inv (oh_order_no_to_product ?t)" using inv by (auto intro: om_inv_intros split: option.splits)
  moreover have "om_inv (oh_product_states ?t)" "fst ` set (oh_product_states ?t) = set (ev_trade_products ev)"
    using inv assms(2) forget_order_keys by (auto simp: insert_absorb)
  moreover have "\<forall>d q. map_of (oh_cid_to_product ?t) d = Some q \<longrightarrow> d \<le> oh_last_cid ?t \<and> q \<in> set (ev_trade_products ev)"
    using inv by (auto simp: map_of_om_erase)
  ultimately show ?thesis
    using inv unfolding handler_inv_def by (simp add: om_inv_intros)
qed

text \<open>A reserved id is new, owned by its product, and above every earlier one.\<close>

lemma reserve_cid_fresh:
  assumes "handler_inv ev s" "env_ok ev" "oh_clock_reads s < 2 ^ 62"
  shows "oh_last_cid s < fst (reserve_cid ev p s)"
    and "fst (reserve_cid ev p s) \<le> 2 ^ 63 + int (Suc (oh_clock_reads s))"
    and "oh_last_cid (snd (reserve_cid ev p s)) = fst (reserve_cid ev p s)"
proof -
  let ?t = "ev_clk ev (oh_clock_reads s)"
  have t: "0 \<le> ?t" "?t < 2 ^ 63" using assms(2) by (auto simp: env_ok_def)
  have l: "0 \<le> oh_last_cid s" "oh_last_cid s \<le> 2 ^ 63 + int (oh_clock_reads s)"
    using assms(1) by (auto simp: handler_inv_def)
  have r: "int (oh_clock_reads s) < 2 ^ 62" using assms(3) by (metis of_nat_less_iff of_nat_numeral of_nat_power)
  have u: "u64 ?t = ?t" "u64 (oh_last_cid s + 1) = oh_last_cid s + 1"
    using t l r by (auto intro!: u64_id)
  show "oh_last_cid s < fst (reserve_cid ev p s)"
    "fst (reserve_cid ev p s) \<le> 2 ^ 63 + int (Suc (oh_clock_reads s))"
    "oh_last_cid (snd (reserve_cid ev p s)) = fst (reserve_cid ev p s)"
    using t l r by (auto simp: reserve_cid_def now_ns_def u Let_def)
qed

lemma reserve_cid_sel [simp]:
  "oh_cid_to_product (snd (reserve_cid ev p s)) = om_put (fst (reserve_cid ev p s)) p (oh_cid_to_product s)"
  "oh_sent (snd (reserve_cid ev p s)) = oh_sent s"
  "oh_clock_reads (snd (reserve_cid ev p s)) = Suc (oh_clock_reads s)"
  "state_of (snd (reserve_cid ev p s)) q = state_of s q"
  "oh_product_states (snd (reserve_cid ev p s)) = oh_product_states s"
  "oh_order_no_to_product (snd (reserve_cid ev p s)) = oh_order_no_to_product s"
  "oh_pending_order_records (snd (reserve_cid ev p s)) = oh_pending_order_records s"
  "oh_positions (snd (reserve_cid ev p s)) = oh_positions s"
  by (simp_all add: reserve_cid_def now_ns_def Let_def)

lemma state_ok_extend:
  assumes "state_ok ow l q st" "c \<notin> state_ids st" "c \<notin> fst ` set (st_outstanding_orders st)" "l \<le> l'"
  shows "state_ok (ow(c \<mapsto> p)) l' q st"
proof -
  have "(ow(c \<mapsto> p)) d = ow d" if "d \<in> state_ids st \<union> fst ` set (st_outstanding_orders st)" for d
    using that assms(2,3) by auto
  moreover have "d \<le> l'" if "d \<le> l" for d using that assms(4) by simp
  ultimately show ?thesis using assms(1) unfolding state_ok_def by (metis UnCI)
qed

lemma inv_reserve_cid:
  assumes "handler_inv ev s" "env_ok ev" "oh_clock_reads s < 2 ^ 62" "p \<in> set (ev_trade_products ev)"
  shows "handler_inv ev (snd (reserve_cid ev p s))"
proof -
  let ?c = "fst (reserve_cid ev p s)" and ?t = "snd (reserve_cid ev p s)"
  note inv = assms(1) [unfolded handler_inv_def]
  note fresh = reserve_cid_fresh [OF assms(1-3), of p]
  have new: "map_of (oh_cid_to_product s) ?c = None"
    using inv fresh(1) by (metis linorder_not_less option.exhaust)
  have "state_ok (map_of (oh_cid_to_product ?t)) (oh_last_cid ?t) q (state_of ?t q)" for q
  proof -
    have ok: "state_ok (map_of (oh_cid_to_product s)) (oh_last_cid s) q (state_of s q)" using inv by blast
    have "?c \<notin> state_ids (state_of s q)" using ok fresh(1) unfolding state_ok_def by force
    moreover have "?c \<notin> fst ` set (st_outstanding_orders (state_of s q))"
      using ok new unfolding state_ok_def by force
    ultimately show ?thesis
      using state_ok_extend [OF ok] fresh(1) by (simp add: map_of_om_put fresh(3))
  qed
  moreover have "\<forall>c q. map_of (oh_cid_to_product ?t) c = Some q \<longrightarrow> c \<le> oh_last_cid ?t \<and> q \<in> set (ev_trade_products ev)"
    using inv fresh(1) assms(4) by (auto simp: map_of_om_put fresh(3)) force
  moreover have "\<forall>c \<in> set (place_cids (oh_sent ?t)). c \<le> oh_last_cid ?t" using inv fresh(1,3) by force
  moreover have "0 \<le> oh_last_cid ?t" "oh_last_cid ?t \<le> 2 ^ 63 + int (oh_clock_reads ?t)"
    using inv fresh by simp_all
  ultimately show ?thesis using inv unfolding handler_inv_def by (simp add: om_inv_intros)
qed

lemma inv_log_order_record:
  "handler_inv ev s \<Longrightarrow> handler_inv ev (log_order_record ev p c o_no ty ok ts msg s)"
proof -
  assume s: "handler_inv ev s"
  let ?s = "s\<lparr>oh_pending_order_records := om_erase c (oh_pending_order_records s)\<rparr>"
  have "handler_inv ev ?s"
    using s by (intro handler_inv_frame) (auto intro: om_inv_intros handler_inv_pending)
  then show ?thesis
    using handler_inv_frame(1) [OF handler_inv_now [of ev ?s]]
    by (simp add: log_order_record_def Let_def now_ns_def)
qed

lemma log_order_record_sel [simp]:
  "oh_cid_to_product (log_order_record ev p c o_no ty ok ts msg s) = oh_cid_to_product s"
  "oh_last_cid (log_order_record ev p c o_no ty ok ts msg s) = oh_last_cid s"
  "oh_sent (log_order_record ev p c o_no ty ok ts msg s) = oh_sent s"
  "oh_positions (log_order_record ev p c o_no ty ok ts msg s) = oh_positions s"
  "oh_product_states (log_order_record ev p c o_no ty ok ts msg s) = oh_product_states s"
  "oh_listener_connected (log_order_record ev p c o_no ty ok ts msg s) = oh_listener_connected s"
  "oh_order_no_to_product (log_order_record ev p c o_no ty ok ts msg s) = oh_order_no_to_product s"
  "state_of (log_order_record ev p c o_no ty ok ts msg s) q = state_of s q"
  by (simp_all add: log_order_record_def now_ns_def Let_def state_of_def)

lemma inv_mark_pending_record:
  "handler_inv ev s \<Longrightarrow> handler_inv ev (mark_pending_record c p ty b px q s)"
  unfolding mark_pending_record_def
  by (intro handler_inv_frame) (auto intro: om_inv_intros handler_inv_pending)

lemma place_cids_append [simp]: "place_cids (xs @ ys) = place_cids xs @ place_cids ys"
  by (simp add: place_cids_def)

lemma inv_send_request:
  assumes "handler_inv ev s" "sound_request r"
    "\<forall>c \<in> set (place_cids [r]). c \<le> oh_last_cid s \<and> (\<forall>d \<in> set (place_cids (oh_sent s)). d < c)"
  shows "handler_inv ev (send_request r s)"
  using assms unfolding handler_inv_def send_request_def
  by (cases r) (auto simp: sorted_wrt_append place_cids_def)

section \<open>Preservation by the event handlers\<close>

lemma waiting_ops_sel [simp]:
  "oh_cid_to_product (erase_waiting_place p c s) = oh_cid_to_product s"
  "oh_cid_to_product (erase_waiting_cancel p c s) = oh_cid_to_product s"
  "oh_cid_to_product (clear_waiting_if_idle p s) = oh_cid_to_product s"
  "oh_cid_to_product (mark_waiting_place ev p c s) = oh_cid_to_product s"
  "oh_cid_to_product (mark_waiting_cancel ev p c s) = oh_cid_to_product s"
  "oh_last_cid (erase_waiting_place p c s) = oh_last_cid s"
  "oh_last_cid (erase_waiting_cancel p c s) = oh_last_cid s"
  "oh_last_cid (clear_waiting_if_idle p s) = oh_last_cid s"
  "oh_last_cid (mark_waiting_place ev p c s) = oh_last_cid s"
  "oh_last_cid (mark_waiting_cancel ev p c s) = oh_last_cid s"
  "oh_sent (erase_waiting_place p c s) = oh_sent s"
  "oh_sent (erase_waiting_cancel p c s) = oh_sent s"
  "oh_sent (clear_waiting_if_idle p s) = oh_sent s"
  "oh_sent (mark_waiting_place ev p c s) = oh_sent s"
  "oh_sent (mark_waiting_cancel ev p c s) = oh_sent s"
  "oh_clock_reads (erase_waiting_place p c s) = oh_clock_reads s"
  "oh_clock_reads (erase_waiting_cancel p c s) = oh_clock_reads s"
  "oh_clock_reads (clear_waiting_if_idle p s) = oh_clock_reads s"
  by (simp_all add: erase_waiting_place_def erase_waiting_cancel_def clear_waiting_if_idle_def
      mark_waiting_place_def mark_waiting_cancel_def)

lemma mark_pending_record_sel [simp]:
  "oh_cid_to_product (mark_pending_record c p ty b px q s) = oh_cid_to_product s"
  "oh_last_cid (mark_pending_record c p ty b px q s) = oh_last_cid s"
  "oh_sent (mark_pending_record c p ty b px q s) = oh_sent s"
  "oh_clock_reads (mark_pending_record c p ty b px q s) = oh_clock_reads s"
  "state_of (mark_pending_record c p ty b px q s) r = state_of s r"
  by (simp_all add: mark_pending_record_def)

lemma send_request_sel [simp]:
  "oh_cid_to_product (send_request r s) = oh_cid_to_product s"
  "oh_last_cid (send_request r s) = oh_last_cid s"
  "oh_sent (send_request r s) = oh_sent s @ [r]"
  "oh_clock_reads (send_request r s) = oh_clock_reads s"
  "state_of (send_request r s) q = state_of s q"
  by (simp_all add: send_request_def)

lemma inv_drop_order:
  assumes "handler_inv ev s" "p \<in> set (ev_trade_products ev)" "map_of (oh_cid_to_product s) c \<in> {None, Some p}"
  shows "handler_inv ev (clear_waiting_if_idle p (forget_order p c
      (erase_waiting_cancel p c (erase_waiting_place p c s))))"
    and "handler_inv ev (clear_waiting_if_idle p (forget_order p c (erase_waiting_cancel p c s)))"
  using assms by (auto intro!: inv_clear_waiting_if_idle inv_forget_order inv_erase_waiting_cancel inv_erase_waiting_place)

lemma om_put_put: "om_put k v (om_put k w m) = om_put k v m"
  by (induction k w m rule: om_put.induct) auto

lemma upd_upd_state: "upd_state p f (upd_state p g s) = upd_state p (\<lambda>st. f (g st)) s"
  by (simp add: upd_state_def set_state_def state_of_def om_at_def om_simps om_put_put)

lemma om_erase_put: "om_erase k (om_put k v m) = om_erase k m"
  by (induction k v m rule: om_put.induct) (auto simp: om_erase_def)

text \<open>Filling an order completely forgets it, whether or not it was outstanding before.\<close>

lemma forget_order_after_put:
  "forget_order p c (upd_state p (\<lambda>st. st\<lparr>st_outstanding_orders := om_put c oo (st_outstanding_orders st)\<rparr>) s)
     = forget_order p c s"
proof -
  have swap: "(upd_state p f s)\<lparr>oh_order_no_to_product := x\<rparr> = upd_state p f (s\<lparr>oh_order_no_to_product := x\<rparr>)"
    "(upd_state p f s)\<lparr>oh_cid_to_product := y\<rparr> = upd_state p f (s\<lparr>oh_cid_to_product := y\<rparr>)"
    "set_state p st s = upd_state p (\<lambda>_. st) s" for f x y st s
    by (simp_all add: upd_state_def set_state_def)
  show ?thesis
    by (auto simp: forget_order_def Let_def swap upd_upd_state om_erase_put split: option.splits)
qed

lemma erase_waiting_upd_outstanding:
  "erase_waiting_cancel p c (erase_waiting_place p c
      (upd_state p (\<lambda>st. st\<lparr>st_outstanding_orders := f (st_outstanding_orders st)\<rparr>) s))
   = upd_state p (\<lambda>st. st\<lparr>st_outstanding_orders := f (st_outstanding_orders st)\<rparr>)
      (erase_waiting_cancel p c (erase_waiting_place p c s))"
  by (cases "state_of s p")
    (simp add: erase_waiting_cancel_def erase_waiting_place_def upd_upd_state, simp add: upd_state_def)

lemma route_execution_sound:
  assumes "handler_inv ev s" "env_ok ev" "route_execution product data s = Some (p, oc)"
  shows "p \<in> set (ev_trade_products ev)" "oc = Some c \<Longrightarrow> may_refer s p c"
proof -
  have st: "\<exists>st. map_of (oh_product_states s) p = Some st"
    using assms(3) by (auto simp: route_execution_def Let_def split: if_splits option.splits prod.splits)
  then show p: "p \<in> set (ev_trade_products ev)"
    using handler_inv_has [OF assms(1), of p] by (auto simp: om_has_def)
  assume oc: "oc = Some c"
  have nonempty: "map_of (oh_cid_to_product s) d = Some q \<Longrightarrow> q \<noteq> []" for d q
    using handler_inv_owner [OF assms(1)] assms(2) by (auto simp: env_ok_def)
  from st obtain st where st: "map_of (oh_product_states s) p = Some st" by blast
  then have sp: "state_of s p = st" by (simp add: state_of_def om_at_def)
  consider "map_of (oh_cid_to_product s) c = Some p" | "map_of (st_order_no_to_cid st) (ed_order_no data) = Some c"
    using assms(3) oc nonempty st
    by (auto simp: route_execution_def Let_def split: if_splits option.splits prod.splits)
  then show "may_refer s p c"
  proof cases
    case 1
    then show ?thesis using handler_inv_owner [OF assms(1)] by (auto simp: may_refer_def)
  next
    case 2
    then have "c \<in> state_ids st" by (auto simp: state_ids_def dest!: map_of_SomeD) force
    then show ?thesis
      using handler_inv_state [OF assms(1), of p] unfolding sp state_ok_def may_refer_def by blast
  qed
qed

lemma inv_on_accepted:
  assumes "handler_inv ev s" "env_ok ev" "oh_clock_reads s < 2 ^ 62" "p \<in> set (ev_trade_products ev)"
    "\<And>c. oc = Some c \<Longrightarrow> may_refer s p c"
  shows "handler_inv ev (on_accepted ev p oc data s)"
proof (cases oc)
  case (Some c)
  then show ?thesis
    using assms by (auto simp: on_accepted_def intro!: inv_clear_waiting_if_idle inv_erase_waiting_place inv_bind_order_no)
next
  case None
  let ?c = "fst (reserve_cid ev p s)" and ?t = "snd (reserve_cid ev p s)"
  have t: "handler_inv ev ?t" using assms(1-4) by (rule inv_reserve_cid)
  have own: "map_of (oh_cid_to_product ?t) ?c = Some p" by (simp add: map_of_om_put)
  show ?thesis
    using None assms(1,4) inv_put_outstanding [OF t own] own reserve_cid_fresh(3) [OF assms(1-3)]
    by (auto simp: on_accepted_def case_prod_unfold may_refer_def intro!: inv_bind_order_no)
qed

lemma fl_nonneg: "0 \<le> x \<Longrightarrow> fl x = PInf \<or> (\<exists>y. fl x = Fin y \<and> 0 \<le> y)"
  using flr_nonneg [of x] f64_limit_pos by (auto simp: fl_def Let_def)

lemma s32_neg_nonpos: "0 \<le> n \<or> n = - (2 ^ 31) \<Longrightarrow> n < 2 ^ 31 \<Longrightarrow> s32 (- n) \<le> 0"
  by (auto simp: s32_id) (simp add: s32_def)

lemma exec_lots_sign:
  assumes "\<not> d_le lot (Fin 0)" "d_lt (Fin 0) q"
  shows "0 \<le> cast_i32 (d_round (d_div q lot)) \<or> cast_i32 (d_round (d_div q lot)) = - (2 ^ 31)"
proof -
  define pos where "pos = (\<lambda>d. d = NaN \<or> d = PInf \<or> (\<exists>z. d = Fin z \<and> 0 \<le> z))"
  have div: "pos (d_div q lot)"
    using assms fl_nonneg unfolding pos_def by (cases q; cases lot) (auto simp: d_inf_def d_le_def)
  have "0 \<le> z \<Longrightarrow> 0 \<le> round_away z" for z :: rat by (simp add: round_away_def)
  then have step: "pos (fl (of_int (round_away z)))" if "0 \<le> z" for z
    using that fl_nonneg [of "of_int (round_away z)"] unfolding pos_def by simp
  have "pos (d_round (d_div q lot))"
  proof (cases "d_div q lot")
    case (Fin z)
    with div have "0 \<le> z" by (simp add: pos_def)
    then show ?thesis by (simp add: d_round_def Fin step)
  qed (use div in \<open>simp_all add: pos_def d_round_def\<close>)
  moreover have "0 \<le> z \<Longrightarrow> 0 \<le> trunc_rat z" for z by (simp add: trunc_rat_def)
  ultimately show ?thesis unfolding pos_def by (auto split: if_splits)
qed

lemma inv_on_fill:
  assumes "handler_inv ev s" "env_ok ev" "p \<in> set (ev_trade_products ev)"
    "\<And>c. oc = Some c \<Longrightarrow> may_refer s p c" "d_lt (Fin 0) (value_or (ed_execute_qty data) (Fin 0))"
  shows "handler_inv ev (on_fill ev p oc data s)"
proof -
  let ?exec = "to_qty_in_lots ev (value_or (ed_execute_qty data) (Fin 0))"
  let ?oo = "\<lambda>c. om_at \<lparr>oo_price_in_min_ticks = 0, oo_qty_in_lots = 0, oo_is_bid = False\<rparr>
      (st_outstanding_orders (state_of s p)) c"
  let ?left = "\<lambda>c. s32 (oo_qty_in_lots (?oo c) - ?exec)"
  let ?put = "\<lambda>c. upd_state p (\<lambda>st. st\<lparr>st_outstanding_orders :=
      om_put c ((?oo c)\<lparr>oo_qty_in_lots := ?left c\<rparr>) (st_outstanding_orders st)\<rparr>) s"
  have gone: "handler_inv ev (clear_waiting_if_idle p (forget_order p c
      (erase_waiting_cancel p c (erase_waiting_place p c (?put c)))))" if "oc = Some c" for c
    using inv_drop_order(1) [OF assms(1,3), of c] assms(4) [OF that]
    by (simp add: erase_waiting_upd_outstanding forget_order_after_put may_refer_def)
  have kept: "handler_inv ev (?put c)" if "oc = Some c" "\<not> ?left c \<le> 0" for c
  proof -
    have "s32 (- ?exec) \<le> 0"
      unfolding to_qty_in_lots_def using assms(2,5)
      by (intro s32_neg_nonpos exec_lots_sign cast_i32_range) (simp_all add: env_ok_def)
    then have "map_of (st_outstanding_orders (state_of s p)) c \<noteq> None"
      using that(2) by (auto simp: om_at_def split: option.splits)
    then have "c \<in> fst ` set (st_outstanding_orders (state_of s p))" by (simp add: map_of_eq_None_iff)
    then have "map_of (oh_cid_to_product s) c = Some p"
      using handler_inv_state [OF assms(1), of p] by (auto simp: state_ok_def)
    then show ?thesis using inv_put_outstanding [OF assms(1)] by blast
  qed
  have pos: "handler_inv ev t \<Longrightarrow> handler_inv ev (upd_state p (\<lambda>st. st\<lparr>st_position_in_lots := g st\<rparr>) t)" for t g
    using assms(3) by (intro handler_inv_upd) (simp_all add: handler_inv_state)
  show ?thesis
    unfolding on_fill_def Let_def using assms(1) gone kept pos by (cases oc) auto
qed

lemma inv_on_execution:
  assumes "handler_inv ev s" "env_ok ev" "oh_clock_reads s < 2 ^ 62"
  shows "handler_inv ev (on_execution ev product data s)"
proof (cases "route_execution product data s")
  case None
  with assms show ?thesis by (simp add: on_execution_def)
next
  case (Some r)
  obtain p oc where r: "r = (p, oc)" by (cases r)
  note route = route_execution_sound [OF assms(1,2), of product data p oc, folded r, OF Some]
  have ref: "oc = Some c \<Longrightarrow> map_of (oh_cid_to_product s) c \<in> {None, Some p}" for c
    using route(2) by (auto simp: may_refer_def)
  have drop: "handler_inv ev (on_reject p oc s)" "handler_inv ev (on_cancelled p oc s)"
    using inv_drop_order [OF assms(1) route(1)] ref assms(1)
    by (simp_all add: on_reject_def on_cancelled_def split: option.splits)
  have acc: "handler_inv ev (on_accepted ev p oc data s)" by (rule inv_on_accepted [OF assms route])
  have fill: "d_lt (Fin 0) (value_or (ed_execute_qty data) (Fin 0)) \<Longrightarrow> handler_inv ev (on_fill ev p oc data s)"
    by (rule inv_on_fill [OF assms(1,2) route])
  show ?thesis
    using drop acc fill assms(1) unfolding on_execution_def Some r option.case prod.case by simp
qed

lemma inv_on_order_response:
  assumes "handler_inv ev s"
  shows "handler_inv ev (on_order_response ev r s)"
proof (cases "map_of (oh_cid_to_product s) (or_cid r)")
  case None
  then show ?thesis
    using assms by (auto simp: on_order_response_def inv_log_order_record split: option.splits)
next
  case (Some p)
  note own = handler_inv_owner [OF assms Some]
  let ?s1 = "clear_waiting_if_idle p (erase_waiting_cancel p (or_cid r) (erase_waiting_place p (or_cid r) s))"
  have s1: "handler_inv ev ?s1"
    using assms own by (intro inv_clear_waiting_if_idle inv_erase_waiting_cancel inv_erase_waiting_place) auto
  have s2: "handler_inv ev (log_order_record ev p c o_no ty ok ts msg ?s1)" for c o_no ty ok ts msg
    using s1 by (rule inv_log_order_record)
  show ?thesis
    using s2 own Some
    by (auto simp: on_order_response_def Let_def may_refer_def intro!: inv_forget_order inv_bind_order_no)
qed

lemma inv_submit_cancel:
  assumes "handler_inv ev s" "p \<in> set (ev_trade_products ev)"
  shows "handler_inv ev (submit_cancel ev p c s)"
proof (cases "map_of (st_cid_to_order_no (state_of s p)) c")
  case None
  with assms show ?thesis by (simp add: submit_cancel_def)
next
  case (Some o_no)
  have "c \<in> state_ids (state_of s p)" using Some by (auto simp: state_ids_def dest!: map_of_SomeD) force
  then have ref: "may_refer s p c"
    using handler_inv_state [OF assms(1), of p] by (auto simp: state_ok_def may_refer_def)
  have wait: "handler_inv ev (mark_waiting_cancel ev p c s)"
    by (rule inv_mark_waiting(2) [OF assms ref])
  have wait': "handler_inv ev (mark_waiting_cancel ev p c (mark_pending_record c p ty b px q s))" for ty b px q
    using ref by (intro inv_mark_waiting(2) inv_mark_pending_record assms) (simp add: may_refer_def)
  have send: "handler_inv ev s' \<Longrightarrow> handler_inv ev (send_request (CancelOrder i) s')" for s' i
    by (rule inv_send_request) (simp_all add: sound_request_def place_cids_def)
  show ?thesis
    using Some wait wait' by (auto simp: submit_cancel_def Let_def intro!: send split: option.splits)
qed

lemma submit_place_cases:
  assumes "0 < q" "(if is_lim then snap_to_product_grid (st_product_info (state_of s p)) b
        (oh_double_price ev px) (oh_double_qty ev q)
      else case snap_qty_to_product_grid (st_product_info (state_of s p)) (oh_double_qty ev q) of
        (ok, r) \<Rightarrow> (ok, Fin 0, r)) = (ok, price, qty)"
  shows "ok \<Longrightarrow> d_lt (Fin 0) qty \<and> (if is_lim then d_lt (Fin 0) price else price = Fin 0)"
  using assms(2)
  by (auto simp: snap_to_product_grid_def snap_qty_to_product_grid_def Let_def split: if_splits prod.splits)

lemma inv_submit_place:
  assumes "handler_inv ev s" "env_ok ev" "oh_clock_reads s < 2 ^ 62" "p \<in> set (ev_trade_products ev)"
  shows "handler_inv ev (submit_place ev p b px q is_lim ro s)"
proof (cases "0 < q")
  case False
  then show ?thesis using assms(1) by (simp add: submit_place_def)
next
  case True
  let ?c = "fst (reserve_cid ev p s)" and ?s1 = "snd (reserve_cid ev p s)"
  obtain ok price qty where snap: "(if is_lim then snap_to_product_grid (st_product_info (state_of s p)) b
        (oh_double_price ev px) (oh_double_qty ev q)
      else case snap_qty_to_product_grid (st_product_info (state_of s p)) (oh_double_qty ev q) of
        (ok, r) \<Rightarrow> (ok, Fin 0, r)) = (ok, price, qty)" using prod_cases3 by blast
  define s2 where "s2 = (if is_lim then upd_state p (\<lambda>st. st\<lparr>st_outstanding_orders := om_put ?c
      \<lparr>oo_price_in_min_ticks = px, oo_qty_in_lots = q, oo_is_bid = b\<rparr> (st_outstanding_orders st)\<rparr>) ?s1 else ?s1)"
  have s1: "handler_inv ev ?s1" by (rule inv_reserve_cid [OF assms])
  have own: "map_of (oh_cid_to_product ?s1) ?c = Some p" by (simp add: map_of_om_put)
  have s2: "handler_inv ev s2" using s1 inv_put_outstanding [OF s1 own] by (simp add: s2_def)
  have sel2: "oh_last_cid s2 = ?c" "oh_sent s2 = oh_sent s" "map_of (oh_cid_to_product s2) ?c = Some p"
    using own reserve_cid_fresh(3) [OF assms(1-3), of p] by (simp_all add: s2_def)
  have s3: "handler_inv ev (mark_waiting_place ev p ?c s2)"
    using inv_mark_waiting(1) [OF s2 assms(4)] sel2 by (simp add: may_refer_def)
  have old: "\<forall>d \<in> set (place_cids (oh_sent s)). d < ?c"
    using assms(1) reserve_cid_fresh(1) [OF assms(1-3), of p] by (force simp: handler_inv_def)
  have "handler_inv ev (send_request (PlaceOrder \<lparr>op_is_limit = is_lim, op_is_bid = b, op_price = price,
      op_qty = qty, op_product = p, op_cid = ?c, op_reduce_only = ro\<rparr>)
      (mark_pending_record ?c p ''place'' b (if is_lim then price else NaN) qty (mark_waiting_place ev p ?c s2)))" if ok
    using that submit_place_cases [OF True snap] s3 sel2 old
    by (intro inv_send_request inv_mark_pending_record) (simp_all add: sound_request_def place_cids_def)
  then show ?thesis
    using True assms(1) unfolding submit_place_def Let_def snap prod.case
    by (simp add: case_prod_unfold s2_def)
qed

subsection \<open>The decision tick\<close>

text \<open>The clock is only ever read forwards.\<close>

lemma reads_log_order_record: "oh_clock_reads s \<le> oh_clock_reads (log_order_record ev p c o_no ty ok ts msg s)"
  by (simp add: log_order_record_def Let_def now_ns_def)

lemma reads_mark_waiting:
  "oh_clock_reads s \<le> oh_clock_reads (mark_waiting_place ev p c s)"
  "oh_clock_reads s \<le> oh_clock_reads (mark_waiting_cancel ev p c s)"
  by (simp_all add: mark_waiting_place_def mark_waiting_cancel_def mark_waiting_since_def now_ns_def)

lemma reads_submit_cancel: "oh_clock_reads s \<le> oh_clock_reads (submit_cancel ev p c s)"
  using reads_mark_waiting(2) [of s ev p c]
    reads_mark_waiting(2) [of "mark_pending_record c p ty b px q s" ev p c for ty b px q]
  by (auto simp: submit_cancel_def Let_def split: option.splits)

lemma reads_submit_place: "oh_clock_reads s \<le> oh_clock_reads (submit_place ev p b px q is_lim ro s)"
proof -
  have *: "oh_clock_reads s \<le> oh_clock_reads (mark_waiting_place ev p c (snd (reserve_cid ev p s)))"
    "oh_clock_reads s \<le> oh_clock_reads (mark_waiting_place ev p c (upd_state p f (snd (reserve_cid ev p s))))" for c f
    using reads_mark_waiting(1) [of "snd (reserve_cid ev p s)" ev p c]
      reads_mark_waiting(1) [of "upd_state p f (snd (reserve_cid ev p s))" ev p c]
    by simp_all
  show ?thesis
    by (auto simp: submit_place_def Let_def case_prod_unfold *)
qed

lemma reads_submit_cancels: "oh_clock_reads s \<le> oh_clock_reads (submit_cancels ev p cs s)"
  by (induction ev p cs s rule: submit_cancels.induct) (auto intro: order_trans [OF reads_submit_cancel])

lemma reads_submit_places: "oh_clock_reads s \<le> oh_clock_reads (submit_places ev p b m s)"
  by (induction ev p b m s rule: submit_places.induct) (auto intro: order_trans [OF reads_submit_place])

lemma reads_log_order_decision: "oh_clock_reads s \<le> oh_clock_reads (log_order_decision ev p pri st bs as s)"
  by (simp add: log_order_decision_def now_ns_def)

lemma reads_record_timed_out: "oh_clock_reads s \<le> oh_clock_reads (record_timed_out ev p ty cs s)"
  by (induction ev p ty cs s rule: record_timed_out.induct) (auto intro: order_trans [OF reads_log_order_record])

lemma reads_await_responses: "oh_clock_reads s \<le> oh_clock_reads (snd (await_responses ev p s))"
proof -
  have "oh_clock_reads t \<le> oh_clock_reads (clear_timed_out ev p t)" for t
    unfolding clear_timed_out_def Let_def upd_state_sel
    by (rule order_trans [OF reads_record_timed_out reads_record_timed_out])
  from this [of "snd (now_ns ev s)"] show ?thesis
    by (simp add: await_responses_def now_ns_def case_prod_unfold)
qed

lemma build_price_info_state:
  "snd (build_price_info ev st s) = s \<or> snd (build_price_info ev st s) = snd (now_ns ev s)"
  by (simp add: build_price_info_def fair_price_usable_def Let_def now_ns_def case_prod_unfold)

lemma reads_build_price_info: "oh_clock_reads s \<le> oh_clock_reads (snd (build_price_info ev st s))"
  using build_price_info_state [of ev st s] by (auto simp: now_ns_def)

lemma reads_act_on_decision: "oh_clock_reads s \<le> oh_clock_reads (act_on_decision ev p pri liq s)"
  unfolding act_on_decision_def Let_def
  by (rule order_trans [OF reads_log_order_decision order_trans [OF reads_submit_cancels
      order_trans [OF reads_submit_cancels order_trans [OF reads_submit_places reads_submit_places]]]])

lemma inv_submit_cancels:
  "handler_inv ev s \<Longrightarrow> p \<in> set (ev_trade_products ev) \<Longrightarrow> handler_inv ev (submit_cancels ev p cs s)"
  by (induction ev p cs s rule: submit_cancels.induct) (simp_all add: inv_submit_cancel)

lemma inv_submit_places:
  "handler_inv ev s \<Longrightarrow> env_ok ev \<Longrightarrow> p \<in> set (ev_trade_products ev)
    \<Longrightarrow> oh_clock_reads (submit_places ev p b m s) < 2 ^ 62 \<Longrightarrow> handler_inv ev (submit_places ev p b m s)"
proof (induction ev p b m s rule: submit_places.induct)
  case (2 ev p b px q m s)
  let ?t = "submit_place ev p b px q True False s"
  have "oh_clock_reads s < 2 ^ 62"
    using 2(5) reads_submit_place [of s ev p b px q True False] reads_submit_places [of ?t ev p b m] by simp
  then show ?case using 2 inv_submit_place by simp
qed simp

lemma inv_record_timed_out: "handler_inv ev s \<Longrightarrow> handler_inv ev (record_timed_out ev p ty cs s)"
  by (induction ev p ty cs s rule: record_timed_out.induct) (simp_all add: inv_log_order_record)

lemma inv_await_responses:
  assumes "handler_inv ev s" "p \<in> set (ev_trade_products ev)"
  shows "handler_inv ev (snd (await_responses ev p s))"
proof -
  have "handler_inv ev (clear_timed_out ev p t)" if t: "handler_inv ev t" for t
  proof -
    let ?u = "record_timed_out ev p ''place'' (st_waiting_place (state_of t p)) t"
    let ?v = "record_timed_out ev p ''cancel'' (st_waiting_cancel (state_of ?u p)) ?u"
    have v: "handler_inv ev ?v" using t by (intro inv_record_timed_out)
    have "state_ok (map_of (oh_cid_to_product ?v)) (oh_last_cid ?v) p
        ((state_of ?v p)\<lparr>st_waiting_place := [], st_waiting_cancel := []\<rparr>)"
      using handler_inv_state [OF v, of p] by (auto simp: state_ok_def state_ids_def)
    then show ?thesis
      using handler_inv_upd [OF v assms(2)] by (simp add: clear_timed_out_def Let_def)
  qed
  then show ?thesis
    using handler_inv_now [OF assms(1)] assms(1) by (simp add: await_responses_def case_prod_unfold)
qed

lemma inv_act_on_decision:
  assumes "handler_inv ev s" "env_ok ev" "p \<in> set (ev_trade_products ev)"
    "oh_clock_reads (act_on_decision ev p pri liq s) < 2 ^ 62"
  shows "handler_inv ev (act_on_decision ev p pri liq s)"
proof -
  let ?d = "ev_decide ev pri liq (st_position_in_lots (state_of s p)) (st_outstanding_orders (state_of s p)) decision_init"
  let ?s1 = "log_order_decision ev p pri (state_of s p) (bid_place_orders ?d) (ask_place_orders ?d) s"
  let ?s3 = "submit_cancels ev p (ask_cancel_orders ?d) (submit_cancels ev p (bid_cancel_orders ?d) ?s1)"
  let ?s4 = "submit_places ev p True (bid_place_orders ?d) ?s3"
  have act: "act_on_decision ev p pri liq s = submit_places ev p False (ask_place_orders ?d) ?s4"
    by (simp add: act_on_decision_def Let_def)
  have s1: "handler_inv ev ?s1"
    using assms(1) handler_inv_frame(2) [OF handler_inv_now [OF assms(1)]]
    by (simp add: log_order_decision_def now_ns_def)
  have s3: "handler_inv ev ?s3" using s1 assms(3) by (intro inv_submit_cancels)
  have "oh_clock_reads ?s4 < 2 ^ 62" using assms(4) reads_submit_places unfolding act by (rule le_less_trans [rotated])
  then have s4: "handler_inv ev ?s4" by (rule inv_submit_places [OF s3 assms(2,3)])
  then show ?thesis using assms(2-4) unfolding act by (rule inv_submit_places)
qed

lemma inv_update_orders:
  assumes "handler_inv ev s" "env_ok ev" "oh_clock_reads (update_orders ev p liq s) < 2 ^ 62"
  shows "handler_inv ev (update_orders ev p liq s)"
proof (cases "om_has (oh_product_states s) p")
  case True
  then have p: "p \<in> set (ev_trade_products ev)" using handler_inv_has [OF assms(1)] by simp
  let ?s1 = "snd (await_responses ev p s)"
  let ?s2 = "snd (build_price_info ev (state_of ?s1 p) ?s1)"
  have s1: "handler_inv ev ?s1" by (rule inv_await_responses [OF assms(1) p])
  have s2: "handler_inv ev ?s2"
    using build_price_info_state [of ev "state_of ?s1 p" ?s1] s1 handler_inv_now [OF s1] by auto
  show ?thesis
    using assms s1 s2 inv_act_on_decision [OF s2 assms(2) p]
    by (auto simp: update_orders_def case_prod_unfold split: if_splits)
qed (use assms in \<open>simp add: update_orders_def\<close>)

lemma reads_update_orders: "oh_clock_reads s \<le> oh_clock_reads (update_orders ev p liq s)"
proof -
  let ?s1 = "snd (await_responses ev p s)"
  let ?s2 = "snd (build_price_info ev (state_of ?s1 p) ?s1)"
  have 1: "oh_clock_reads s \<le> oh_clock_reads ?s1" by (rule reads_await_responses)
  have 2: "oh_clock_reads s \<le> oh_clock_reads ?s2" by (rule order_trans [OF 1 reads_build_price_info])
  have "oh_clock_reads s \<le> oh_clock_reads (act_on_decision ev p pri liq ?s2)" for pri
    by (rule order_trans [OF 2 reads_act_on_decision])
  with 1 2 show ?thesis by (simp add: update_orders_def case_prod_unfold)
qed

subsection \<open>Dispatch\<close>

lemma inv_plain_handlers:
  assumes "handler_inv ev s"
  shows "handler_inv ev (on_listener_status ev r s)" "handler_inv ev (on_pricer_status ev r s)"
    "handler_inv ev (on_orderbook ev p ob s)" "handler_inv ev (on_position ev p pos s)"
    "handler_inv ev (on_product_info p info s)" "handler_inv ev (on_fair_price p fp s)"
proof -
  have upd: "handler_inv ev (upd_state p f t)"
    if "handler_inv ev t" "om_has (oh_product_states t) p"
      "\<And>st. state_ok (map_of (oh_cid_to_product t)) (oh_last_cid t) p st
         \<Longrightarrow> state_ok (map_of (oh_cid_to_product t)) (oh_last_cid t) p (f st)" for p f t
    using that handler_inv_has [OF that(1)] handler_inv_state [OF that(1), of p] by (intro handler_inv_upd) auto
  show "handler_inv ev (on_listener_status ev r s)" "handler_inv ev (on_pricer_status ev r s)"
    using assms by (auto simp: on_listener_status_def on_pricer_status_def Let_def intro: handler_inv_frame)
  show "handler_inv ev (on_orderbook ev p ob s)"
    using assms by (auto simp: on_orderbook_def intro!: upd)
  show "handler_inv ev (on_position ev p pos s)"
  proof (cases "pd_balance pos")
    case (Some b)
    have "handler_inv ev (s\<lparr>oh_positions := om_put p x (oh_positions s)\<rparr>)" for x
      using assms by (intro handler_inv_frame) (auto simp: handler_inv_def intro: om_inv_intros)
    then show ?thesis by (auto simp: on_position_def Some Let_def intro!: upd)
  qed (use assms in \<open>simp add: on_position_def\<close>)
  show "handler_inv ev (on_fair_price p fp s)"
    using assms by (auto simp: on_fair_price_def Let_def intro!: upd)
  have grid: "handler_inv ev t \<Longrightarrow> handler_inv ev (send_request (SetProductGrid q x y) t)" for t q x y
    by (rule inv_send_request) (simp_all add: sound_request_def place_cids_def)
  show "handler_inv ev (on_product_info p info s)"
    using assms by (auto simp: on_product_info_def intro!: grid upd split: option.splits)
qed

text \<open>One turn of \<open>run()\<close> handles the dequeued task, or nothing when the wait timed out.\<close>

definition run_once :: "handler_env \<Rightarrow> trader_task option \<Rightarrow> order_handler \<Rightarrow> handler_error + order_handler" where
  "run_once ev dequeued s = (case dequeued of None \<Rightarrow> Inr s | Some t \<Rightarrow> handle_task ev t s)"

fun run_tasks :: "handler_env \<Rightarrow> trader_task list \<Rightarrow> order_handler \<Rightarrow> handler_error + order_handler" where
  "run_tasks ev [] s = Inr s"
| "run_tasks ev (t # ts) s = (case handle_task ev t s of Inl e \<Rightarrow> Inl e | Inr s' \<Rightarrow> run_tasks ev ts s')"

lemma reads_on_execution: "oh_clock_reads s \<le> oh_clock_reads (on_execution ev p data s)"
  by (auto simp: on_execution_def on_reject_def on_cancelled_def on_accepted_def on_fill_def bind_order_no_def
      Let_def case_prod_unfold split: option.splits)

lemma reads_on_order_response: "oh_clock_reads s \<le> oh_clock_reads (on_order_response ev r s)"
proof -
  have log: "oh_clock_reads s \<le> oh_clock_reads (log_order_record ev p c o_no ty ok ts msg (clear_waiting_if_idle p
      (erase_waiting_cancel p c' (erase_waiting_place p c' s))))" for p c c' o_no ty ok ts msg
    by (rule order_trans [OF _ reads_log_order_record]) simp
  have bind: "oh_clock_reads (bind_order_no o_no p c t) = oh_clock_reads t" for o_no p c t
    by (simp add: bind_order_no_def)
  show ?thesis
    using log by (auto simp: on_order_response_def Let_def bind reads_log_order_record split: option.splits)
qed

lemma reads_handle_task: "handle_task ev t s = Inr s' \<Longrightarrow> oh_clock_reads s \<le> oh_clock_reads s'"
  by (auto simp: handle_task_def process_market_data_def on_listener_status_def on_pricer_status_def
      on_listener_subscribe_def on_orderbook_def on_position_def on_product_info_def on_fair_price_def Let_def
      reads_on_execution reads_on_order_response reads_update_orders
      split: trader_task.splits feed_kind.splits feed_payload.splits option.splits if_splits)

lemma inv_handle_task:
  assumes "handler_inv ev s" "env_ok ev" "handle_task ev t s = Inr s'" "oh_clock_reads s' < 2 ^ 62"
  shows "handler_inv ev s'"
proof -
  have r: "oh_clock_reads s < 2 ^ 62" using reads_handle_task [OF assms(3)] assms(4) by simp
  show ?thesis
    using assms inv_plain_handlers [OF assms(1)] inv_on_execution [OF assms(1,2) r]
      inv_on_order_response [OF assms(1)] inv_update_orders [OF assms(1,2)]
    by (auto simp: handle_task_def process_market_data_def on_listener_subscribe_def
        split: trader_task.splits feed_kind.splits feed_payload.splits)
qed

lemma reads_run_tasks: "run_tasks ev ts s = Inr s' \<Longrightarrow> oh_clock_reads s \<le> oh_clock_reads s'"
  by (induction ev ts s rule: run_tasks.induct) (auto dest: reads_handle_task split: sum.splits)

lemma inv_run_tasks:
  "run_tasks ev ts s = Inr s' \<Longrightarrow> handler_inv ev s \<Longrightarrow> env_ok ev \<Longrightarrow> oh_clock_reads s' < 2 ^ 62
     \<Longrightarrow> handler_inv ev s'"
proof (induction ev ts s rule: run_tasks.induct)
  case (2 ev t ts s)
  then obtain s1 where s1: "handle_task ev t s = Inr s1" "run_tasks ev ts s1 = Inr s'" by (auto split: sum.splits)
  have "oh_clock_reads s1 < 2 ^ 62" using reads_run_tasks [OF s1(2)] 2(5) by simp
  then show ?case using 2 s1 inv_handle_task by blast
qed simp

lemma state_of_init [simp]: "state_of (order_handler_init ps) q = product_state_init"
proof -
  let ?f = "\<lambda>p m. if om_has m p then m else om_put p product_state_init m"
  have "\<forall>p st. map_of m p = Some st \<longrightarrow> st = product_state_init
      \<Longrightarrow> \<forall>p st. map_of (fold ?f ps m) p = Some st \<longrightarrow> st = product_state_init" for m ps
    by (rule fold_invariant [where Q = "\<lambda>_. True"]) (simp_all add: om_simps)
  from this [of "[]" ps] show ?thesis
    by (auto simp: state_of_def om_at_def order_handler_init_def split: option.splits)
qed

lemma inv_init:
  assumes "ev_trade_products ev = ps"
  shows "handler_inv ev (order_handler_init ps)"
proof -
  let ?f = "\<lambda>p m. if om_has m p then m else om_put p product_state_init m"
  have keys: "fst ` set (fold ?f ps m) = fst ` set m \<union> set ps" for m ps
    by (induction ps arbitrary: m) (auto simp: om_has_iff)
  have inv: "om_inv m \<Longrightarrow> om_inv (fold ?f ps m)" for m ps
    by (induction ps arbitrary: m) (auto intro: om_inv_intros)
  show ?thesis
    using keys [of ps "[]"] inv [of "[]" ps] assms
    unfolding handler_inv_def state_of_init
    by (simp add: order_handler_init_def state_ok_def state_ids_def product_state_init_def place_cids_def)
qed

end
