(* ===== verification/Handler_Properties.thy ===== *)
theory Handler_Properties
  imports Handler_Invariant
begin

text \<open>
  What the order handler promises beyond its structure: the wait for replies always has a start
  time (so that the response timeout can release it), what each event does to the position and
  to the orders, when a decision tick sends anything, and in which order.
\<close>

section \<open>The wait for replies\<close>

definition wait_ok :: "product_state \<Rightarrow> bool" where
  "wait_ok st \<longleftrightarrow> (if no_waiting_orders st then st_waiting_since_ns st = 0 else 0 < st_waiting_since_ns st)"

definition wait_weak :: "product_state \<Rightarrow> bool" where
  "wait_weak st \<longleftrightarrow> (no_waiting_orders st \<or> 0 < st_waiting_since_ns st)"

definition waits_ok :: "order_handler \<Rightarrow> bool" where
  "waits_ok s \<longleftrightarrow> (\<forall>q. wait_ok (state_of s q))"

text \<open>\<open>waits_but s p\<close>: sound for every other product, and for \<open>p\<close> up to a pending reset.\<close>

definition waits_but :: "order_handler \<Rightarrow> product \<Rightarrow> bool" where
  "waits_but s p \<longleftrightarrow> (\<forall>q. q \<noteq> p \<longrightarrow> wait_ok (state_of s q)) \<and> wait_weak (state_of s p)"

lemma waits_ok_but: "waits_ok s \<Longrightarrow> waits_but s p"
  by (auto simp: waits_ok_def waits_but_def wait_ok_def wait_weak_def split: if_splits)

lemma os_erase_nonempty: "os_erase c xs \<noteq> [] \<Longrightarrow> xs \<noteq> []"
  by auto

lemma waits_but_erase:
  "waits_but s p \<Longrightarrow> waits_but (erase_waiting_place p c s) p"
  "waits_but s p \<Longrightarrow> waits_but (erase_waiting_cancel p c s) p"
  by (auto simp: waits_but_def wait_weak_def no_waiting_orders_def erase_waiting_place_def erase_waiting_cancel_def)

lemma wait_forget [simp]: "wait_ok (state_of (forget_order p c s) q) = wait_ok (state_of s q)"
  "wait_weak (state_of (forget_order p c s) q) = wait_weak (state_of s q)"
  by (auto simp: state_of_forget_order wait_ok_def wait_weak_def no_waiting_orders_def)

lemma wait_bind [simp]: "wait_ok (state_of (bind_order_no o_no p c s) q) = wait_ok (state_of s q)"
  "wait_weak (state_of (bind_order_no o_no p c s) q) = wait_weak (state_of s q)"
  by (auto simp: bind_order_no_def wait_ok_def wait_weak_def no_waiting_orders_def)

lemma waits_forget [simp]: "waits_ok (forget_order p c s) = waits_ok s" "waits_but (forget_order p c s) q = waits_but s q"
  by (simp_all add: waits_ok_def waits_but_def)

lemma waits_bind [simp]: "waits_ok (bind_order_no o_no p c s) = waits_ok s" "waits_but (bind_order_no o_no p c s) q = waits_but s q"
  by (simp_all add: waits_ok_def waits_but_def)

lemma waits_clear: "waits_but s p \<Longrightarrow> waits_ok (clear_waiting_if_idle p s)"
  by (auto simp: waits_ok_def waits_but_def wait_ok_def wait_weak_def clear_waiting_if_idle_def no_waiting_orders_def)

lemma waits_upd:
  assumes "waits_ok s" "\<And>st. no_waiting_orders (f st) = no_waiting_orders st"
    "\<And>st. st_waiting_since_ns (f st) = st_waiting_since_ns st"
  shows "waits_ok (upd_state p f s)"
  using assms by (simp add: waits_ok_def wait_ok_def)

lemma waits_mark:
  assumes "waits_ok s" "0 < ev_clk ev (oh_clock_reads s)"
  shows "waits_ok (mark_waiting_place ev p c s)" "waits_ok (mark_waiting_cancel ev p c s)"
proof -
  have "wait_ok (state_of (mark_waiting_place ev p c s) q) \<and> wait_ok (state_of (mark_waiting_cancel ev p c s) q)" for q
    using assms waits_ok_def [of s]
    by (cases "q = p"; cases "no_waiting_orders (state_of s p)")
      (auto simp: mark_waiting_place_def mark_waiting_cancel_def state_of_mark_waiting_since wait_ok_def no_waiting_orders_def)
  then show "waits_ok (mark_waiting_place ev p c s)" "waits_ok (mark_waiting_cancel ev p c s)"
    by (simp_all add: waits_ok_def)
qed

lemma waits_frame [simp]:
  "waits_ok (log_order_record ev p c o_no ty ok ts msg s) = waits_ok s"
  "waits_ok (mark_pending_record c p ty b px q s) = waits_ok s"
  "waits_ok (send_request r s) = waits_ok s"
  "waits_ok (snd (reserve_cid ev p s)) = waits_ok s"
  "waits_ok (snd (now_ns ev s)) = waits_ok s"
  "waits_ok (log_order_decision ev p pri st bs as s) = waits_ok s"
  by (simp_all add: waits_ok_def now_ns_def log_order_decision_def case_prod_unfold)

lemma waits_drop:
  assumes "waits_ok s"
  shows "waits_ok (clear_waiting_if_idle p (forget_order p c (erase_waiting_cancel p c (erase_waiting_place p c s))))"
    "waits_ok (clear_waiting_if_idle p (forget_order p c (erase_waiting_cancel p c s)))"
    "waits_ok (clear_waiting_if_idle p (erase_waiting_cancel p c (erase_waiting_place p c s)))"
    "waits_ok (clear_waiting_if_idle p (erase_waiting_place p c s))"
  using assms by (simp_all add: waits_clear waits_but_erase waits_ok_but)

lemma waits_on_execution:
  assumes "waits_ok s"
  shows "waits_ok (on_execution ev product data s)"
proof -
  have put: "waits_ok (upd_state p (\<lambda>st. st\<lparr>st_outstanding_orders := f st\<rparr>) t)"
    "waits_ok (upd_state p (\<lambda>st. st\<lparr>st_position_in_lots := g st\<rparr>) t)" if "waits_ok t" for p f g t
    using that by (auto intro!: waits_upd simp: no_waiting_orders_def)
  have fill: "waits_ok (on_fill ev p oc data s)" for p oc
    using assms by (auto simp: on_fill_def Let_def intro!: put waits_drop(1) split: option.splits)
  have acc: "waits_ok (on_accepted ev p oc data s)" for p oc
    using assms by (auto simp: on_accepted_def case_prod_unfold intro!: put waits_drop(4) split: option.splits)
  show ?thesis
    using assms fill acc
    by (auto simp: on_execution_def on_reject_def on_cancelled_def waits_drop(1,2) split: option.splits)
qed

lemma waits_on_order_response: "waits_ok s \<Longrightarrow> waits_ok (on_order_response ev r s)"
  by (auto simp: on_order_response_def Let_def waits_drop(3) split: option.splits)

lemma waits_submit_cancel:
  assumes "waits_ok s" "\<And>n. 0 < ev_clk ev n" shows "waits_ok (submit_cancel ev p c s)"
  using assms by (auto simp: submit_cancel_def Let_def intro!: waits_mark split: option.splits)

lemma waits_submit_place:
  assumes "waits_ok s" "\<And>n. 0 < ev_clk ev n" shows "waits_ok (submit_place ev p b px q is_lim ro s)"
proof -
  have "waits_ok (upd_state p (\<lambda>st. st\<lparr>st_outstanding_orders := f st\<rparr>) (snd (reserve_cid ev p s)))" for f
    using assms(1) by (intro waits_upd) (auto simp: no_waiting_orders_def)
  then show ?thesis
    using assms by (auto simp: submit_place_def Let_def case_prod_unfold intro!: waits_mark)
qed

lemma state_of_record_timed_out [simp]: "state_of (record_timed_out ev p ty cs s) q = state_of s q"
  by (induction ev p ty cs s rule: record_timed_out.induct) simp_all

lemma waits_await_responses: "waits_ok s \<Longrightarrow> waits_ok (snd (await_responses ev p s))"
  by (auto simp: await_responses_def now_ns_def clear_timed_out_def Let_def waits_ok_def wait_ok_def no_waiting_orders_def)

lemma waits_update_orders:
  assumes "waits_ok s" "\<And>n. 0 < ev_clk ev n" shows "waits_ok (update_orders ev p liq s)"
proof -
  have cs: "waits_ok t \<Longrightarrow> waits_ok (submit_cancels ev p cs t)" for cs t
    by (induction cs arbitrary: t) (simp_all add: waits_submit_cancel assms(2))
  have ps: "waits_ok t \<Longrightarrow> waits_ok (submit_places ev p b m t)" for b m t
    by (induction m arbitrary: t) (auto simp: waits_submit_place assms(2))
  have act: "waits_ok t \<Longrightarrow> waits_ok (act_on_decision ev p pri liq t)" for pri t
    by (simp add: act_on_decision_def Let_def cs ps)
  have info: "waits_ok t \<Longrightarrow> waits_ok (snd (build_price_info ev st t))" for st t
    using build_price_info_state [of ev st t] by auto
  show ?thesis
    using assms(1) by (auto simp: update_orders_def case_prod_unfold intro!: act info waits_await_responses)
qed

lemma waits_handle_task:
  assumes "waits_ok s" "\<And>n. 0 < ev_clk ev n" "handle_task ev t s = Inr s'"
  shows "waits_ok s'"
proof -
  have frame: "waits_ok (s\<lparr>oh_subscribed := sub\<rparr>) = waits_ok s" "waits_ok (s\<lparr>oh_positions := ps\<rparr>) = waits_ok s"
    "waits_ok (s\<lparr>oh_listener_connecting := b, oh_listener_connected := b'\<rparr>) = waits_ok s"
    "waits_ok (s\<lparr>oh_pricer_connected := b\<rparr>) = waits_ok s" for s sub ps b b'
    by (simp_all add: waits_ok_def)
  have plain: "waits_ok (on_listener_status ev r s)" "waits_ok (on_pricer_status ev r s)"
    "waits_ok (on_orderbook ev p ob s)" "waits_ok (on_position ev p pos s)"
    "waits_ok (on_product_info p info s)" "waits_ok (on_fair_price p fp s)" for r p ob pos info fp
    using assms(1)
    by (auto simp: on_listener_status_def on_pricer_status_def on_orderbook_def on_position_def on_product_info_def
        on_fair_price_def Let_def frame no_waiting_orders_def intro!: waits_upd split: option.splits)
  show ?thesis
    using assms plain waits_on_execution waits_on_order_response waits_update_orders
    by (auto simp: handle_task_def process_market_data_def on_listener_subscribe_def
        split: trader_task.splits feed_kind.splits feed_payload.splits)
qed

lemma waits_run_tasks:
  "run_tasks ev ts s = Inr s' \<Longrightarrow> waits_ok s \<Longrightarrow> (\<And>n. 0 < ev_clk ev n) \<Longrightarrow> waits_ok s'"
  by (induction ev ts s rule: run_tasks.induct) (auto split: sum.splits intro: waits_handle_task)

section \<open>What a decision sends\<close>

definition cancel_requests :: "product_state \<Rightarrow> product \<Rightarrow> cid list \<Rightarrow> gateway_request list" where
  "cancel_requests st p cs = concat (map (\<lambda>c. case map_of (st_cid_to_order_no st) c of
       None \<Rightarrow> []
     | Some order_no \<Rightarrow> [CancelOrder \<lparr>oc_order_no = order_no, oc_cancel_all = True, oc_is_limit = True,
         oc_qty = Fin 0, oc_product = p, oc_cid = c\<rparr>]) cs)"

lemma cid_to_order_no_mark [simp]:
  "st_cid_to_order_no (state_of (mark_waiting_cancel ev p c s) q) = st_cid_to_order_no (state_of s q)"
  "st_cid_to_order_no (state_of (mark_waiting_place ev p c s) q) = st_cid_to_order_no (state_of s q)"
  by (simp_all add: mark_waiting_cancel_def mark_waiting_place_def state_of_mark_waiting_since)

lemma submit_cancel_sent:
  "oh_sent (submit_cancel ev p c s) = oh_sent s @ cancel_requests (state_of s p) p [c]"
  "st_cid_to_order_no (state_of (submit_cancel ev p c s) q) = st_cid_to_order_no (state_of s q)"
  by (simp_all add: submit_cancel_def cancel_requests_def Let_def split: option.splits)

lemma submit_cancels_sent:
  "oh_sent (submit_cancels ev p cs s) = oh_sent s @ cancel_requests (state_of s p) p cs"
proof (induction cs arbitrary: s)
  case Nil
  then show ?case by (simp add: cancel_requests_def)
next
  case (Cons c cs)
  then show ?case by (simp add: submit_cancel_sent cancel_requests_def)
qed

definition quote_for :: "product \<Rightarrow> bool \<Rightarrow> gateway_request \<Rightarrow> bool" where
  "quote_for p b r \<longleftrightarrow> (\<exists>i. r = PlaceOrder i \<and> op_product i = p \<and> op_is_bid i = b \<and> op_is_limit i \<and> \<not> op_reduce_only i)"

lemma submit_place_sent:
  "\<exists>rs. oh_sent (submit_place ev p b px q True False s) = oh_sent s @ rs \<and> length rs \<le> 1 \<and> (\<forall>r \<in> set rs. quote_for p b r)"
  by (auto simp: submit_place_def Let_def case_prod_unfold quote_for_def)

lemma submit_places_sent:
  "\<exists>rs. oh_sent (submit_places ev p b m s) = oh_sent s @ rs \<and> length rs \<le> length m \<and> (\<forall>r \<in> set rs. quote_for p b r)"
proof (induction ev p b m s rule: submit_places.induct)
  case (2 ev p b px q m s)
  obtain rs where rs: "oh_sent (submit_place ev p b px q True False s) = oh_sent s @ rs" "length rs \<le> 1"
    "\<forall>r \<in> set rs. quote_for p b r" using submit_place_sent by blast
  obtain rs' where rs': "oh_sent (submit_places ev p b m (submit_place ev p b px q True False s))
      = (oh_sent s @ rs) @ rs'" "length rs' \<le> length m" "\<forall>r \<in> set rs'. quote_for p b r"
    using 2 rs(1) by auto
  show ?case using rs rs' by (intro exI [of _ "rs @ rs'"]) auto
qed simp

lemma act_on_decision_sent:
  assumes "ev_decide ev pri liq (st_position_in_lots (state_of s p)) (st_outstanding_orders (state_of s p)) decision_init = d"
  shows "\<exists>bids asks. oh_sent (act_on_decision ev p pri liq s) = oh_sent s
      @ cancel_requests (state_of s p) p (bid_cancel_orders d @ ask_cancel_orders d) @ bids @ asks
    \<and> length bids \<le> length (bid_place_orders d) \<and> length asks \<le> length (ask_place_orders d)
    \<and> (\<forall>r \<in> set bids. quote_for p True r) \<and> (\<forall>r \<in> set asks. quote_for p False r)"
proof -
  let ?s1 = "log_order_decision ev p pri (state_of s p) (bid_place_orders d) (ask_place_orders d) s"
  let ?s2 = "submit_cancels ev p (bid_cancel_orders d) ?s1"
  let ?s3 = "submit_cancels ev p (ask_cancel_orders d) ?s2"
  let ?s4 = "submit_places ev p True (bid_place_orders d) ?s3"
  have log: "oh_sent ?s1 = oh_sent s" "state_of ?s1 p = state_of s p"
    by (simp_all add: log_order_decision_def now_ns_def)
  have same: "st_cid_to_order_no (state_of (submit_cancels ev p cs t) p) = st_cid_to_order_no (state_of t p)" for cs t
    by (induction cs arbitrary: t) (simp_all add: submit_cancel_sent)
  have app: "cancel_requests st p (xs @ ys) = cancel_requests st p xs @ cancel_requests st p ys" for st xs ys
    by (simp add: cancel_requests_def)
  have cong: "cancel_requests (state_of ?s2 p) p xs = cancel_requests (state_of s p) p xs" for xs
    by (simp add: cancel_requests_def same log)
  have s3: "oh_sent ?s3 = oh_sent s @ cancel_requests (state_of s p) p (bid_cancel_orders d @ ask_cancel_orders d)"
    by (simp add: submit_cancels_sent log cong app)
  obtain bids where b: "oh_sent ?s4 = oh_sent ?s3 @ bids" "length bids \<le> length (bid_place_orders d)"
    "\<forall>r \<in> set bids. quote_for p True r" using submit_places_sent by blast
  obtain asks where a: "oh_sent (submit_places ev p False (ask_place_orders d) ?s4) = oh_sent ?s4 @ asks"
    "length asks \<le> length (ask_place_orders d)" "\<forall>r \<in> set asks. quote_for p False r"
    using submit_places_sent by blast
  show ?thesis
    using a b s3 assms by (intro exI [of _ bids] exI [of _ asks]) (simp add: act_on_decision_def Let_def)
qed

text \<open>
  For any strategy that keeps its contract, the cancels of a decision name resting orders of the
  product, each once, under the exchange's number for them.
\<close>

definition names_resting :: "product_state \<Rightarrow> product \<Rightarrow> gateway_request \<Rightarrow> bool" where
  "names_resting st p r \<longleftrightarrow> (\<exists>i. r = CancelOrder i \<and> oc_product i = p \<and> om_has (st_outstanding_orders st) (oc_cid i)
     \<and> map_of (st_cid_to_order_no st) (oc_cid i) = Some (oc_order_no i))"

definition cancel_cid :: "gateway_request \<Rightarrow> cid" where
  "cancel_cid r = (case r of CancelOrder i \<Rightarrow> oc_cid i | _ \<Rightarrow> 0)"

context strategy_contract
begin

lemma decision_sends:
  assumes "ev_decide ev = decide" "om_inv (st_outstanding_orders (state_of s p))"
  shows "\<exists>cancels places. oh_sent (act_on_decision ev p pri liq s) = oh_sent s @ cancels @ places
    \<and> (\<forall>r \<in> set cancels. names_resting (state_of s p) p r) \<and> distinct (map cancel_cid cancels)
    \<and> (\<forall>r \<in> set places. quote_for p True r \<or> quote_for p False r)"
proof -
  let ?os = "st_outstanding_orders (state_of s p)"
  define d where "d = decide pri liq (st_position_in_lots (state_of s p)) ?os decision_init"
  let ?cs = "bid_cancel_orders d @ ask_cancel_orders d"
  have once: "distinct ?cs" using cancels_once [OF assms(2)] unfolding d_def by blast
  have known: "om_has ?os c" if "c \<in> set ?cs" for c
    using cancels_known [OF assms(2), of c pri liq "st_position_in_lots (state_of s p)"] that
    unfolding d_def by simp
  have rest: "\<forall>r \<in> set (cancel_requests (state_of s p) p cs). names_resting (state_of s p) p r"
    if "\<And>c. c \<in> set cs \<Longrightarrow> om_has ?os c" for cs
    using that by (auto simp: cancel_requests_def names_resting_def split: option.splits)
  have ids: "map cancel_cid (cancel_requests (state_of s p) p cs) =
      filter (\<lambda>c. map_of (st_cid_to_order_no (state_of s p)) c \<noteq> None) cs" for cs
    by (induction cs) (auto simp: cancel_requests_def cancel_cid_def split: option.splits)
  have "ev_decide ev pri liq (st_position_in_lots (state_of s p)) ?os decision_init = d"
    by (simp add: d_def assms(1))
  from act_on_decision_sent [OF this] obtain bids asks where
    sent: "oh_sent (act_on_decision ev p pri liq s) = oh_sent s @ cancel_requests (state_of s p) p ?cs @ bids @ asks"
    "\<forall>r \<in> set bids. quote_for p True r" "\<forall>r \<in> set asks. quote_for p False r" by blast
  show ?thesis
    using sent rest [of ?cs] known once ids [of ?cs]
    by (intro exI [of _ "cancel_requests (state_of s p) p ?cs"] exI [of _ "bids @ asks"]) auto
qed

end

section \<open>What the order flow leaves alone\<close>

text \<open>
  The grid, the book and the fair price of a product come from the feeds only: no execution,
  reply or decision touches them.
\<close>

definition feed_view :: "product_state \<Rightarrow> product_info_data \<times> l1 \<times> fair_price_state" where
  "feed_view st = (st_product_info st, st_l1 st, st_fair_price st)"

lemma feed_view_upd [simp]:
  "feed_view (st\<lparr>st_outstanding_orders := x\<rparr>) = feed_view st"
  "feed_view (st\<lparr>st_position_in_lots := n\<rparr>) = feed_view st"
  by (simp_all add: feed_view_def)

lemma feed_view_ops [simp]:
  "feed_view (state_of (erase_waiting_place p c s) q) = feed_view (state_of s q)"
  "feed_view (state_of (erase_waiting_cancel p c s) q) = feed_view (state_of s q)"
  "feed_view (state_of (clear_waiting_if_idle p s) q) = feed_view (state_of s q)"
  "feed_view (state_of (forget_order p c s) q) = feed_view (state_of s q)"
  "feed_view (state_of (bind_order_no o_no p c s) q) = feed_view (state_of s q)"
  "feed_view (state_of (mark_waiting_place ev p c s) q) = feed_view (state_of s q)"
  "feed_view (state_of (mark_waiting_cancel ev p c s) q) = feed_view (state_of s q)"
  "feed_view (state_of (upd_state p (\<lambda>st. st\<lparr>st_outstanding_orders := f st\<rparr>) s) q) = feed_view (state_of s q)"
  "feed_view (state_of (upd_state p (\<lambda>st. st\<lparr>st_position_in_lots := g st\<rparr>) s) q) = feed_view (state_of s q)"
  by (auto simp: feed_view_def erase_waiting_place_def erase_waiting_cancel_def clear_waiting_if_idle_def
      state_of_forget_order bind_order_no_def mark_waiting_place_def mark_waiting_cancel_def state_of_mark_waiting_since)

lemma feed_view_on_execution: "feed_view (state_of (on_execution ev p data s) q) = feed_view (state_of s q)"
  by (auto simp: on_execution_def on_reject_def on_cancelled_def on_accepted_def on_fill_def Let_def
      case_prod_unfold split: option.splits)

lemma feed_view_on_order_response: "feed_view (state_of (on_order_response ev r s) q) = feed_view (state_of s q)"
  by (auto simp: on_order_response_def Let_def split: option.splits)

lemma feed_view_submit [simp]:
  "feed_view (state_of (submit_cancel ev p c s) q) = feed_view (state_of s q)"
  "feed_view (state_of (submit_place ev p b px n is_lim ro s) q) = feed_view (state_of s q)"
  by (auto simp: submit_cancel_def submit_place_def Let_def case_prod_unfold split: option.splits)

lemma feed_view_submits [simp]:
  "feed_view (state_of (submit_cancels ev p cs s) q) = feed_view (state_of s q)"
  "feed_view (state_of (submit_places ev p b m s) q) = feed_view (state_of s q)"
proof -
  show "feed_view (state_of (submit_cancels ev p cs s) q) = feed_view (state_of s q)"
    by (induction cs arbitrary: s) simp_all
  show "feed_view (state_of (submit_places ev p b m s) q) = feed_view (state_of s q)"
    by (induction m arbitrary: s) auto
qed

lemma state_of_log_order_decision [simp]: "state_of (log_order_decision ev p pri st bs as s) q = state_of s q"
  by (simp add: log_order_decision_def now_ns_def)

lemma state_of_build_price_info [simp]: "state_of (snd (build_price_info ev st s)) q = state_of s q"
  using build_price_info_state [of ev st s] by (auto simp: now_ns_def)

lemma feed_view_await [simp]: "feed_view (state_of (snd (await_responses ev p s)) q) = feed_view (state_of s q)"
  by (auto simp: await_responses_def now_ns_def clear_timed_out_def Let_def feed_view_def)

lemma feed_view_update_orders: "feed_view (state_of (update_orders ev p liq s) q) = feed_view (state_of s q)"
  by (auto simp: update_orders_def act_on_decision_def Let_def case_prod_unfold)

lemma oh_sent_build_price_info [simp]: "oh_sent (snd (build_price_info ev st s)) = oh_sent s"
  using build_price_info_state [of ev st s] by (auto simp: now_ns_def)

lemma oh_sent_record_timed_out [simp]: "oh_sent (record_timed_out ev p ty cs s) = oh_sent s"
  by (induction ev p ty cs s rule: record_timed_out.induct) simp_all

lemma oh_sent_await [simp]: "oh_sent (snd (await_responses ev p s)) = oh_sent s"
  by (auto simp: await_responses_def now_ns_def clear_timed_out_def Let_def)

lemma oh_sent_on_execution: "oh_sent (on_execution ev p data s) = oh_sent s"
  by (auto simp: on_execution_def on_reject_def on_cancelled_def on_accepted_def on_fill_def Let_def
      case_prod_unfold split: option.splits)

lemma oh_sent_on_order_response: "oh_sent (on_order_response ev r s) = oh_sent s"
  by (auto simp: on_order_response_def Let_def split: option.splits)

section \<open>A small session\<close>

text \<open>
  A concrete configuration and task sequence for the examples: one product, unit tick and lot, a
  strategy that always wants one bid, and the events that bring the handler to its first order.
\<close>

definition demo_config :: trader_config where
  "demo_config = \<lparr>tc_name = [], tc_exchange = ''binance'', tc_strategy_name = ''Geuant'', tc_region = [],
     tc_market_type = ''derivatives'', tc_trade_products = [''A''], tc_subscribe_same_products = True,
     tc_subscribe_products = [\<lparr>ps_product = ''A'', ps_category = futures\<rparr>],
     tc_broadcast_host_address = ''0.0.0.0'', tc_broadcast_port = 8888,
     tc_pricer_host_address = ''0.0.0.0'', tc_pricer_port = 8889, tc_fair_price_max_age_ms = 1000,
     tc_domain_type = ''real'', tc_order_update_interval_ms = 1000, tc_flatten_on_shutdown = True,
     tc_shutdown_cancel_timeout_ms = 5000, tc_shutdown_flatten_timeout_ms = 5000,
     tc_shutdown_market_flatten = True, tc_shutdown_reduce_only = True,
     tc_order_record_save_path = [], tc_order_decision_save_path = [], tc_timezone_minute_offset = 0,
     tc_market_end_intraday_minute = - 1, tc_log_base_path = [], tc_log_path = []\<rparr>"

definition demo_market :: market_config where
  "demo_market = \<lparr>mc_name = [], mc_min_tick_size = Fin 1, mc_default_lot_size = Fin 1, mc_exchange = ''binance'',
     mc_tick_func = get_tick_func ''binance'', mc_short_sell_unable = False\<rparr>"

definition demo_decide :: "price_info \<Rightarrow> bool \<Rightarrow> int \<Rightarrow> outstanding_map \<Rightarrow> decision \<Rightarrow> decision" where
  "demo_decide pri liq pos os d = d\<lparr>bid_place_orders := [(100, 2)]\<rparr>"

definition demo_clock :: "nat \<Rightarrow> int" where
  "demo_clock n = 1000"

definition demo_env :: handler_env where
  "demo_env = env_of demo_market demo_decide demo_config demo_clock"

definition demo_tasks :: "trader_task list" where
  "demo_tasks =
     [ListenerStatusTask \<lparr>fs_connecting = False, fs_connected = True\<rparr>,
      MarketDataTask \<lparr>md_feed = FeedProductInfo, md_product = ''A'',
        md_data = PProductInfo \<lparr>pi_tick_size = Some (Fin 1), pi_lot_size = Some (Fin 1)\<rparr>\<rparr>,
      MarketDataTask \<lparr>md_feed = FeedOrderbook, md_product = ''A'',
        md_data = POrderbook \<lparr>bid_book = [\<lparr>ol_price = Some (Fin 100), ol_qty = Some (Fin 3)\<rparr>],
          ask_book = [\<lparr>ol_price = Some (Fin 102), ol_qty = Some (Fin 3)\<rparr>], ob_server_tstamp_ms = None\<rparr>\<rparr>,
      OrderUpdateTask ''A'']"

definition demo_resting :: order_handler where
  "demo_resting = upd_state ''A'' (\<lambda>st. st\<lparr>
      st_outstanding_orders := [(5, \<lparr>oo_price_in_min_ticks = 99, oo_qty_in_lots = 1, oo_is_bid = True\<rparr>)],
      st_cid_to_order_no := [(5, ''X'')], st_order_no_to_cid := [(''X'', 5)],
      st_waiting_place := [5], st_waiting_since_ns := 1000\<rparr>)
    ((order_handler_init [''A''])\<lparr>oh_cid_to_product := [(5, ''A'')], oh_last_cid := 5\<rparr>)"

definition demo_price :: price_info where
  "demo_price = \<lparr>bbid_price_in_min_ticks = 100, bask_price_in_min_ticks = 102, mid_price = Fin 101,
     fair_price = Fin 101, applied_factor = NaN, forward_vol_bp = Fin 1, tick_size = Fin 1\<rparr>"

definition demo_geuant_env :: handler_env where
  "demo_geuant_env = demo_env\<lparr>ev_decide := make_decision (base_strategy_of demo_market) geuant_params_init\<rparr>"

definition demo_execution :: execution_data where
  "demo_execution = execution_data_init\<lparr>ed_order_no := ''X'', ed_is_bid := True\<rparr>"

lemma demo_route: "ed_order_no data = ''X'' \<Longrightarrow> ed_client_order_id data = []
    \<Longrightarrow> route_execution ''A'' data demo_resting = Some (''A'', Some 5)"
  by (simp add: route_execution_def demo_resting_def order_handler_init_def om_has_def om_simps value_or_def)

lemma demo_resting_state: "state_of demo_resting ''A'' = product_state_init\<lparr>
      st_outstanding_orders := [(5, \<lparr>oo_price_in_min_ticks = 99, oo_qty_in_lots = 1, oo_is_bid = True\<rparr>)],
      st_cid_to_order_no := [(5, ''X'')], st_order_no_to_cid := [(''X'', 5)],
      st_waiting_place := [5], st_waiting_since_ns := 1000\<rparr>"
  by (simp add: demo_resting_def)

lemma demo_handler:
  "make_order_handler demo_market demo_decide demo_config False demo_clock
     = Inr (demo_env, order_handler_init [''A''])"
  by (simp add: make_order_handler_def create_order_gateway_def demo_env_def demo_config_def demo_market_def)

lemma demo_env_sel [simp]:
  "ev_min_tick_size demo_env = Fin 1" "ev_default_lot_size demo_env = Fin 1" "ev_tick_func demo_env = None"
  "ev_clk demo_env = demo_clock" "ev_decide demo_env = demo_decide" "ev_order_decision_save_path demo_env = []"
  "ev_subscribe_products demo_env = [\<lparr>ps_product = ''A'', ps_category = futures\<rparr>]"
  "ev_trade_products demo_env = [''A'']" "ev_order_record_save_path demo_env = []"
  by (simp_all add: demo_env_def env_of_def demo_market_def demo_config_def get_tick_func_def)

lemmas handler_eval = handle_task_def process_market_data_def on_listener_status_def on_product_info_def
  order_handler_init_def om_has_def upd_state_def set_state_def state_of_def om_at_def send_request_def
  on_orderbook_def best_of_def to_price_in_min_ticks_def to_qty_in_lots_def d_round_def value_or_def
  update_orders_def await_responses_def no_waiting_orders_def build_price_info_def product_state_init_def
  product_info_init_def s64_id oh_double_price_def d_of_int_def isnan_def fair_price_usable_def
  fair_price_state_init_def act_on_decision_def log_order_decision_def submit_place_def
  snap_to_product_grid_def snap_qty_to_product_grid_def oh_double_qty_def reserve_cid_def now_ns_def
  u64_id mark_waiting_place_def mark_waiting_since_def mark_pending_record_def place_cids_def Let_def

lemma demo_run: "\<exists>s. run_tasks demo_env demo_tasks (order_handler_init [''A'']) = Inr s
    \<and> oh_clock_reads s = 2 \<and> place_cids (oh_sent s) = [1000]
    \<and> map_of (st_outstanding_orders (state_of s ''A'')) 1000 =
        Some \<lparr>oo_price_in_min_ticks = 100, oo_qty_in_lots = 2, oo_is_bid = True\<rparr>"
  by (simp add: demo_tasks_def demo_decide_def demo_clock_def handler_eval)

section \<open>Gateway replies\<close>

lemma log_order_record_fields:
  "oh_product_states (log_order_record ev p c o_no ty ok ts msg s) = oh_product_states s"
  "oh_cid_to_product (log_order_record ev p c o_no ty ok ts msg s) = oh_cid_to_product s"
  "oh_order_no_to_product (log_order_record ev p c o_no ty ok ts msg s) = oh_order_no_to_product s"
  "oh_positions (log_order_record ev p c o_no ty ok ts msg s) = oh_positions s"
  "oh_sent (log_order_record ev p c o_no ty ok ts msg s) = oh_sent s"
  "oh_pending_order_records (log_order_record ev p c o_no ty ok ts msg s) = om_erase c (oh_pending_order_records s)"
  by (simp_all add: log_order_record_def now_ns_def Let_def)

lemma waiting_fields:
  "oh_sent (clear_waiting_if_idle p s) = oh_sent s" "oh_sent (erase_waiting_place p c s) = oh_sent s"
  "oh_sent (erase_waiting_cancel p c s) = oh_sent s" "oh_sent (forget_order p c s) = oh_sent s"
  "oh_sent (bind_order_no o_no p c s) = oh_sent s"
  "oh_pending_order_records (forget_order p c s) = oh_pending_order_records s"
  "oh_pending_order_records (bind_order_no o_no p c s) = oh_pending_order_records s"
  by (simp_all add: clear_waiting_if_idle_def erase_waiting_place_def erase_waiting_cancel_def forget_order_def bind_order_no_def
      upd_state_def set_state_def Let_def split: option.splits)

lemma unrouted_reply:
  assumes "map_of (oh_cid_to_product s) (or_cid r) = None" "s' = on_order_response ev r s"
  shows "map_of (oh_pending_order_records s') (or_cid r) = None \<and> oh_sent s' = oh_sent s
    \<and> oh_product_states s' = oh_product_states s \<and> oh_cid_to_product s' = oh_cid_to_product s
    \<and> oh_order_no_to_product s' = oh_order_no_to_product s \<and> oh_positions s' = oh_positions s
    \<and> (case map_of (oh_pending_order_records s) (or_cid r) of
         Some pending \<Rightarrow> if ev_order_record_save_path ev = [] then oh_order_rows s' = oh_order_rows s
           else (\<exists>row. oh_order_rows s' = oh_order_rows s @ [row] \<and> row_product row = pr_product pending
                \<and> row_cid row = or_cid r \<and> row_type row = pr_type pending \<and> row_success row = or_success r)
       | None \<Rightarrow> s' = s)"
proof (cases "map_of (oh_pending_order_records s) (or_cid r)")
  case None
  then show ?thesis using assms by (simp add: on_order_response_def)
next
  case (Some pending)
  then have "s' = log_order_record ev (pr_product pending) (or_cid r) (or_order_no r) (pr_type pending) (or_success r)
      (or_server_tstamp_ms r) (or_msg r) s"
    using assms by (simp add: on_order_response_def)
  then show ?thesis using Some by (simp add: log_order_record_fields om_simps) (simp add: log_order_record_def now_ns_def Let_def)
qed

lemma routed_reply:
  assumes "map_of (oh_cid_to_product s) c = Some p" "or_cid r = c"
    "st = state_of s p" "s' = on_order_response ev r s" "st' = state_of s' p"
  shows "c \<notin> set (st_waiting_place st') \<and> c \<notin> set (st_waiting_cancel st')
    \<and> st_waiting_place st' = os_erase c (st_waiting_place st) \<and> st_waiting_cancel st' = os_erase c (st_waiting_cancel st)
    \<and> st_position_in_lots st' = st_position_in_lots st \<and> (\<forall>q. q \<noteq> p \<longrightarrow> state_of s' q = state_of s q)
    \<and> (if (if c \<in> set (st_waiting_cancel st) then or_success r \<or> or_order_gone r
           else \<not> or_success r \<and> c \<in> set (st_waiting_place st))
       then st_outstanding_orders st' = om_erase c (st_outstanding_orders st) \<and> map_of (oh_cid_to_product s') c = None
       else st_outstanding_orders st' = st_outstanding_orders st \<and> oh_cid_to_product s' = oh_cid_to_product s)
    \<and> (c \<notin> set (st_waiting_cancel st) \<and> or_success r \<and> or_order_no r \<noteq> [] \<longrightarrow>
         map_of (st_cid_to_order_no st') c = Some (or_order_no r) \<and> map_of (st_order_no_to_cid st') (or_order_no r) = Some c)"
  unfolding assms(5,4,3) using assms(1,2)
  by (auto simp: on_order_response_def Let_def om_simps state_of_forget_order erase_waiting_place_def
      erase_waiting_cancel_def clear_waiting_if_idle_def bind_order_no_def)

lemma routed_reply_record:
  assumes "map_of (oh_cid_to_product s) c = Some p" "or_cid r = c" "s' = on_order_response ev r s"
  shows "map_of (oh_pending_order_records s') c = None \<and> oh_sent s' = oh_sent s"
proof -
  define s1 where "s1 = clear_waiting_if_idle p (erase_waiting_cancel p c (erase_waiting_place p c s))"
  have s1: "oh_sent s1 = oh_sent s" by (simp add: s1_def waiting_fields)
  show ?thesis
    using assms s1 by (simp add: on_order_response_def Let_def waiting_fields log_order_record_fields om_simps flip: s1_def)
qed

section \<open>Properties\<close>

lemma make_order_handler_ok:
  assumes "make_order_handler mc strategy tc custom clk = Inr (ev, s0)"
  shows "ev = env_of mc strategy tc clk" "s0 = order_handler_init (tc_trade_products tc)"
    "\<not> d_le (ev_default_lot_size ev) (Fin 0)" "handler_inv ev s0"
proof -
  show ev: "ev = env_of mc strategy tc clk" and s0: "s0 = order_handler_init (tc_trade_products tc)"
    and "\<not> d_le (ev_default_lot_size ev) (Fin 0)"
    using assms by (auto simp: make_order_handler_def env_of_def split: sum.splits if_splits)
  show "handler_inv ev s0" unfolding s0 by (rule inv_init) (simp add: ev env_of_def)
qed

lemma run_from_start:
  assumes "make_order_handler mc strategy tc custom clk = Inr (ev, s0)" "[] \<notin> set (tc_trade_products tc)"
    "\<forall>n. 0 < clk n \<and> clk n < 2 ^ 63" "run_tasks ev ts s0 = Inr s" "oh_clock_reads s < 2 ^ 62"
  shows "handler_inv ev s" "waits_ok s" "ev_trade_products ev = tc_trade_products tc"
proof -
  note mk = make_order_handler_ok [OF assms(1)]
  have ok: "env_ok ev" using assms(2,3) mk(3) by (auto simp: env_ok_def mk(1) env_of_def less_imp_le)
  show "handler_inv ev s" by (rule inv_run_tasks [OF assms(4) mk(4) ok assms(5)])
  show "ev_trade_products ev = tc_trade_products tc" by (simp add: mk(1) env_of_def)
  have "waits_ok s0"
    by (simp add: mk(2) waits_ok_def wait_ok_def no_waiting_orders_def product_state_init_def)
  then show "waits_ok s" using waits_run_tasks [OF assms(4)] assms(3) by (simp add: mk(1) env_of_def)
qed

text \<open>
  C10. From construction on, after any sequence of feed, pricer, timer and gateway events: the handler
  has a state for exactly the traded products; every order it believes resting is routed back to
  its own product by its client id, and so is every id its indexes or waits refer to, unless
  the order has been forgotten; no id in use is above the last one handed out; and every
  container is strictly ordered.
\<close>

theorem handler_runs_keep_routing:
  assumes "make_order_handler mc strategy tc custom clk = Inr (ev, s0)" "[] \<notin> set (tc_trade_products tc)"
    "\<forall>n. 0 < clk n \<and> clk n < 2 ^ 63" "run_tasks ev ts s0 = Inr s" "oh_clock_reads s < 2 ^ 62"
  shows "fst ` set (oh_product_states s) = set (tc_trade_products tc)
    \<and> (\<forall>p c. om_has (st_outstanding_orders (state_of s p)) c \<longrightarrow> map_of (oh_cid_to_product s) c = Some p)
    \<and> (\<forall>p. \<forall>c \<in> state_ids (state_of s p). c \<le> oh_last_cid s \<and> map_of (oh_cid_to_product s) c \<in> {None, Some p})
    \<and> (\<forall>c p. map_of (oh_cid_to_product s) c = Some p \<longrightarrow> c \<le> oh_last_cid s \<and> p \<in> set (tc_trade_products tc))
    \<and> om_inv (oh_product_states s) \<and> om_inv (oh_cid_to_product s) \<and> om_inv (oh_order_no_to_product s)
    \<and> (\<forall>p. om_inv (st_outstanding_orders (state_of s p)))"
  using run_from_start [OF assms]
  unfolding handler_inv_def state_ok_def by (auto simp: om_has_iff)

theorem handler_runs_keep_routing_witness:
  "\<exists>s. run_tasks demo_env demo_tasks (order_handler_init [''A'']) = Inr s \<and> map_of (oh_cid_to_product s) 1000 = Some ''A''"
proof -
  obtain s where s: "run_tasks demo_env demo_tasks (order_handler_init [''A'']) = Inr s" "oh_clock_reads s = 2"
    "map_of (st_outstanding_orders (state_of s ''A'')) 1000 =
        Some \<lparr>oo_price_in_min_ticks = 100, oo_qty_in_lots = 2, oo_is_bid = True\<rparr>"
    using demo_run by auto
  have "oh_clock_reads s < 2 ^ 62" using s(2) by simp
  from handler_runs_keep_routing [OF demo_handler _ _ s(1) this] s show ?thesis
    by (auto simp: demo_config_def demo_clock_def om_has_def)
qed

text \<open>
  C1. The client ids of the orders sent are strictly increasing over the whole session, so no id is
  ever reused even if the clock stands still or jumps back; and every order sent has a positive
  size, a limit order a positive price, a market order no price.
\<close>

theorem orders_sent_are_fresh_and_sound:
  assumes "make_order_handler mc strategy tc custom clk = Inr (ev, s0)" "[] \<notin> set (tc_trade_products tc)"
    "\<forall>n. 0 < clk n \<and> clk n < 2 ^ 63" "run_tasks ev ts s0 = Inr s" "oh_clock_reads s < 2 ^ 62"
  shows "sorted_wrt (<) (place_cids (oh_sent s))
    \<and> (\<forall>i. PlaceOrder i \<in> set (oh_sent s) \<longrightarrow> d_lt (Fin 0) (op_qty i)
        \<and> (if op_is_limit i then d_lt (Fin 0) (op_price i) else op_price i = Fin 0))"
proof -
  note inv = run_from_start(1) [OF assms, unfolded handler_inv_def]
  then have "sound_request (PlaceOrder i)" if "PlaceOrder i \<in> set (oh_sent s)" for i using that by blast
  then show ?thesis using inv by (simp add: sound_request_def)
qed

theorem orders_sent_are_fresh_and_sound_witness:
  "\<exists>s. run_tasks demo_env demo_tasks (order_handler_init [''A'']) = Inr s \<and> sorted_wrt (<) (place_cids (oh_sent s)) \<and> place_cids (oh_sent s) = [1000]"
proof -
  obtain s where s: "run_tasks demo_env demo_tasks (order_handler_init [''A'']) = Inr s" "oh_clock_reads s = 2"
    "place_cids (oh_sent s) = [1000]"
    using demo_run by auto
  have "oh_clock_reads s < 2 ^ 62" using s(2) by simp
  from orders_sent_are_fresh_and_sound [OF demo_handler _ _ s(1) this] s show ?thesis
    by (auto simp: demo_config_def demo_clock_def om_has_def)
qed

text \<open>
  C31. No product waits for a reply without a start time, so the response timeout can always release it:
  at any reachable state a product that waits has a positive start time and one that does not
  wait has none, and once the clock is past the timeout the next decision tick clears both waits
  and goes on, leaving the resting orders as they were.
\<close>

theorem waits_are_released:
  assumes "make_order_handler mc strategy tc custom clk = Inr (ev, s0)" "[] \<notin> set (tc_trade_products tc)"
    "\<forall>n. 0 < clk n \<and> clk n < 2 ^ 63" "run_tasks ev ts s0 = Inr s" "oh_clock_reads s < 2 ^ 62"
  shows "(no_waiting_orders (state_of s p) \<longleftrightarrow> st_waiting_since_ns (state_of s p) = 0)
    \<and> (5 * 1000000000 < s64 (clk (oh_clock_reads s) - st_waiting_since_ns (state_of s p)) \<longrightarrow>
        fst (await_responses ev p s)
        \<and> no_waiting_orders (state_of (snd (await_responses ev p s)) p)
        \<and> st_outstanding_orders (state_of (snd (await_responses ev p s)) p) = st_outstanding_orders (state_of s p))"
proof -
  have w: "wait_ok (state_of s p)" using run_from_start(2) [OF assms] by (simp add: waits_ok_def)
  have ev: "ev_clk ev = clk" "ev_order_response_timeout_ns ev = 5 * 1000000000"
    using make_order_handler_ok(1) [OF assms(1)] by (simp_all add: env_of_def)
  show ?thesis
    using w
    by (auto simp: wait_ok_def await_responses_def now_ns_def ev clear_timed_out_def Let_def
        no_waiting_orders_def split: if_splits)
qed

theorem waits_are_released_witness:
  "\<exists>s. run_tasks demo_env demo_tasks (order_handler_init [''A'']) = Inr s \<and> (no_waiting_orders (state_of s ''A'') \<longleftrightarrow> st_waiting_since_ns (state_of s ''A'') = 0)"
proof -
  obtain s where s: "run_tasks demo_env demo_tasks (order_handler_init [''A'']) = Inr s" "oh_clock_reads s = 2"
    "place_cids (oh_sent s) = [1000]"
    using demo_run by auto
  have "oh_clock_reads s < 2 ^ 62" using s(2) by simp
  from waits_are_released [OF demo_handler _ _ s(1) this] s show ?thesis
    by (auto simp: demo_config_def demo_clock_def om_has_def)
qed

text \<open>
  C8. A decision tick sends something only when it may: not behind a shutdown (liquidation excepted),
  only for a traded product, with the listener connected, the product's real tick known (or a
  tick function present), a two-sided book, and no reply outstanding, or one outstanding for
  longer than the response timeout.
\<close>

theorem decisions_are_guarded:
  assumes "oh_sent (update_orders ev p liq s) \<noteq> oh_sent s"
  shows "(\<not> oh_shutting_down s \<or> liq) \<and> om_has (oh_product_states s) p \<and> oh_listener_connected s
    \<and> (ev_tick_func ev \<noteq> None \<or> pi_tick_size (st_product_info (state_of s p)) \<noteq> None)
    \<and> l1_bbid_price_in_min_ticks (st_l1 (state_of s p)) \<noteq> - 1 \<and> l1_bask_price_in_min_ticks (st_l1 (state_of s p)) \<noteq> - 1
    \<and> (no_waiting_orders (state_of s p)
       \<or> ev_order_response_timeout_ns ev < s64 (ev_clk ev (oh_clock_reads s) - st_waiting_since_ns (state_of s p)))"
proof -
  have go: "fst (await_responses ev p s)"
    and two: "\<not> isnan (mid_price (fst (build_price_info ev (state_of (snd (await_responses ev p s)) p)
        (snd (await_responses ev p s)))))"
    and rest: "(\<not> oh_shutting_down s \<or> liq) \<and> om_has (oh_product_states s) p \<and> oh_listener_connected s
        \<and> (ev_tick_func ev \<noteq> None \<or> pi_tick_size (st_product_info (state_of s p)) \<noteq> None)"
    using assms by (auto simp: update_orders_def case_prod_unfold split: if_splits)
  have "st_l1 (state_of (snd (await_responses ev p s)) p) = st_l1 (state_of s p)"
    using feed_view_await [of ev p s p] by (simp add: feed_view_def)
  then have "l1_bbid_price_in_min_ticks (st_l1 (state_of s p)) \<noteq> - 1" "l1_bask_price_in_min_ticks (st_l1 (state_of s p)) \<noteq> - 1"
    using two by (auto simp: build_price_info_def isnan_def Let_def split: if_splits)
  then show ?thesis
    using rest go by (auto simp: await_responses_def now_ns_def split: if_splits)
qed

theorem decisions_are_guarded_witness:
  "\<exists>s. run_tasks demo_env (take 3 demo_tasks) (order_handler_init [''A'']) = Inr s \<and> oh_listener_connected s"
proof -
  have "\<exists>s. run_tasks demo_env (take 3 demo_tasks) (order_handler_init [''A'']) = Inr s
      \<and> oh_sent (update_orders demo_env ''A'' False s) \<noteq> oh_sent s"
    by (simp add: demo_tasks_def demo_decide_def demo_clock_def handler_eval)
  then show ?thesis using decisions_are_guarded by blast
qed

text \<open>
  C32. With the Geuant strategy, everything a decision sends is a block of cancels followed by a block
  of new limit orders for that product, never the other way round; every cancel names an order
  the handler holds as resting, under the exchange's number for it, and no order is cancelled
  twice.
\<close>

theorem cancels_go_first:
  assumes "ev_decide ev = make_decision bs ps" "om_inv (st_outstanding_orders (state_of s p))"
  shows "\<exists>cancels places. oh_sent (act_on_decision ev p pri liq s) = oh_sent s @ cancels @ places
    \<and> (\<forall>r \<in> set cancels. names_resting (state_of s p) p r) \<and> distinct (map cancel_cid cancels)
    \<and> (\<forall>r \<in> set places. quote_for p True r \<or> quote_for p False r)"
  by (rule geuant.decision_sends [OF assms])

theorem cancels_go_first_witness:
  "\<exists>cancels places. oh_sent (act_on_decision demo_geuant_env ''A'' demo_price True demo_resting) = cancels @ places
     \<and> list_all (names_resting (state_of demo_resting ''A'') ''A'') cancels"
proof -
  have "om_inv (st_outstanding_orders (state_of demo_resting ''A''))" "oh_sent demo_resting = []"
    by (simp_all add: demo_resting_def om_inv_def order_handler_init_def)
  moreover have "ev_decide demo_geuant_env = make_decision (base_strategy_of demo_market) geuant_params_init"
    by (simp add: demo_geuant_env_def)
  ultimately show ?thesis
    using cancels_go_first [of demo_geuant_env "base_strategy_of demo_market" geuant_params_init demo_resting "''A''"
        demo_price True] by (auto simp: list_all_iff)
qed

definition fair_ok :: "product_state \<Rightarrow> bool" where
  "fair_ok st \<longleftrightarrow> isfinite (fps_forward_vol_bp (st_fair_price st)) \<and> d_lt (Fin 0) (fps_forward_vol_bp (st_fair_price st))"

lemma fair_ok_handle_task:
  assumes "\<forall>q. fair_ok (state_of s q)" "handle_task ev t s = Inr s'"
  shows "\<forall>q. fair_ok (state_of s' q)"
proof -
  have view: "feed_view st = feed_view st' \<Longrightarrow> fair_ok st = fair_ok st'" for st st'
    by (simp add: feed_view_def fair_ok_def)
  have flow: "fair_ok (state_of (on_execution ev p data s) q)" "fair_ok (state_of (on_order_response ev r s) q)"
    "fair_ok (state_of (update_orders ev p liq s) q)" for p data r liq q
    using assms(1) view feed_view_on_execution feed_view_on_order_response feed_view_update_orders by metis+
  have feed: "fair_ok (state_of (on_listener_status ev r s) q)" "fair_ok (state_of (on_pricer_status ev r s) q)"
    "fair_ok (state_of (on_orderbook ev p ob s) q)" "fair_ok (state_of (on_position ev p pos s) q)"
    "fair_ok (state_of (on_product_info p info s) q)" "fair_ok (state_of (on_fair_price p fp s) q)" for r p ob pos info fp q
    using assms(1)
    by (auto simp: on_listener_status_def on_pricer_status_def on_orderbook_def on_position_def on_product_info_def
        on_fair_price_def Let_def fair_ok_def split: option.splits)
  show ?thesis
    using assms flow feed
    by (auto simp: handle_task_def process_market_data_def on_listener_subscribe_def
        split: trader_task.splits feed_kind.splits feed_payload.splits)
qed

lemma fair_ok_run_tasks:
  "run_tasks ev ts s = Inr s' \<Longrightarrow> \<forall>q. fair_ok (state_of s q) \<Longrightarrow> \<forall>q. fair_ok (state_of s' q)"
  by (induction ev ts s rule: run_tasks.induct) (auto split: sum.splits dest: fair_ok_handle_task)

text \<open>
  Whatever arrives on the pricer link, the spread multiplier handed to the strategy is a finite
  positive number, and the fair price is either the mid or a finite factor times the mid; with a
  value older than the configured age, or none, it is exactly the mid at multiplier one.
\<close>

theorem price_info_is_sane:
  assumes "run_tasks ev ts (order_handler_init products) = Inr s"
    "pri = fst (build_price_info ev (state_of s p) s)"
  shows "isfinite (forward_vol_bp pri) \<and> d_lt (Fin 0) (forward_vol_bp pri)
    \<and> (fair_price pri = mid_price pri
       \<or> isfinite (applied_factor pri) \<and> fair_price pri = d_mul (applied_factor pri) (mid_price pri))
    \<and> (isnan (fps_fair_price (st_fair_price (state_of s p)))
       \<or> 0 < ev_fair_price_max_age_ns ev
          \<and> ev_fair_price_max_age_ns ev < s64 (ev_clk ev (oh_clock_reads s) - fps_ts (st_fair_price (state_of s p)))
       \<longrightarrow> fair_price pri = mid_price pri \<and> forward_vol_bp pri = Fin 1)"
proof -
  have "\<forall>q. fair_ok (state_of s q)"
    by (rule fair_ok_run_tasks [OF assms(1)]) (simp add: fair_ok_def product_state_init_def fair_price_state_init_def)
  then show ?thesis
    by (auto simp: assms(2) build_price_info_def fair_price_usable_def Let_def now_ns_def fair_ok_def)
qed

theorem price_info_is_sane_witness:
  "forward_vol_bp (fst (build_price_info demo_env (state_of (order_handler_init [''A'']) ''A'')
     (order_handler_init [''A'']))) = Fin 1"
  using price_info_is_sane [of demo_env "[]" "[''A'']" "order_handler_init [''A'']" _ "''A''", OF _ refl]
  by (simp add: product_state_init_def fair_price_state_init_def isnan_def)

text \<open>A fair price published without a factor is never used: the strategy sees the mid and the neutral multiplier.\<close>

lemma fair_price_without_factor_ignored:
  assumes "fp_factor data = None" "om_has (oh_product_states s) p"
    "pri = fst (build_price_info ev (state_of (on_fair_price p data s) p) t)"
  shows "fair_price pri = mid_price pri \<and> forward_vol_bp pri = Fin 1 \<and> applied_factor pri = NaN"
  using assms(1,2)
  by (simp add: assms(3) on_fair_price_def build_price_info_def Let_def value_or_def case_prod_unfold)

text \<open>
  C26. A fill moves the position by exactly the executed lots, in the order's direction, when the venue
  leaves the position to the fills, and not at all when it publishes positions itself; it takes
  the executed lots off the order, and an order with nothing left disappears from the resting
  orders, from the routing and from both waits; no other order and no other product changes.
\<close>

theorem fill_accounting:
  assumes "route_execution product data s = Some (p, oc)" "\<not> ed_is_accept_data data" "ed_is_executed data"
    "d_lt (Fin 0) (value_or (ed_execute_qty data) (Fin 0))"
    "lots = to_qty_in_lots ev (value_or (ed_execute_qty data) (Fin 0))"
    "st = state_of s p" "s' = on_execution ev product data s"
  shows "st_position_in_lots (state_of s' p) = (if ed_update_position_on_fill data
        then s32 (st_position_in_lots st + (if ed_is_bid data then lots else s32 (- lots))) else st_position_in_lots st)
    \<and> (\<forall>q. q \<noteq> p \<longrightarrow> state_of s' q = state_of s q)
    \<and> (\<forall>c oo. oc = Some c \<longrightarrow> map_of (st_outstanding_orders st) c = Some oo \<longrightarrow>
        (if s32 (oo_qty_in_lots oo - lots) \<le> 0
         then map_of (st_outstanding_orders (state_of s' p)) c = None \<and> map_of (oh_cid_to_product s') c = None
           \<and> c \<notin> set (st_waiting_place (state_of s' p)) \<and> c \<notin> set (st_waiting_cancel (state_of s' p))
         else map_of (st_outstanding_orders (state_of s' p)) c = Some (oo\<lparr>oo_qty_in_lots := s32 (oo_qty_in_lots oo - lots)\<rparr>)
           \<and> oh_cid_to_product s' = oh_cid_to_product s))
    \<and> (\<forall>c. oc \<noteq> Some c \<longrightarrow> map_of (st_outstanding_orders (state_of s' p)) c = map_of (st_outstanding_orders st) c)"
proof -
  have s': "s' = on_fill ev p oc data s"
    using assms by (simp add: on_execution_def)
  show ?thesis
    unfolding s' assms(5,6)
    by (auto simp: on_fill_def Let_def om_at_def om_simps state_of_forget_order erase_waiting_place_def
        erase_waiting_cancel_def clear_waiting_if_idle_def split: option.splits)
qed

theorem fill_accounting_witness:
  "st_position_in_lots (state_of (on_execution demo_env ''A''
     (demo_execution\<lparr>ed_is_executed := True, ed_execute_qty := Some (Fin 1)\<rparr>) demo_resting) ''A'') = 1
   \<and> map_of (st_outstanding_orders (state_of (on_execution demo_env ''A''
     (demo_execution\<lparr>ed_is_executed := True, ed_execute_qty := Some (Fin 1)\<rparr>) demo_resting) ''A'')) 5 = None"
  using fill_accounting [of "''A''" "demo_execution\<lparr>ed_is_executed := True, ed_execute_qty := Some (Fin 1)\<rparr>"
      demo_resting "''A''" "Some 5" 1 demo_env, OF demo_route _ _ _ _ refl refl]
  by (simp add: demo_execution_def execution_data_init_def value_or_def to_qty_in_lots_def d_round_def
      demo_resting_state product_state_init_def s32_id)

text \<open>
  C27. What a gateway reply does, on every branch.  In any case the request's pending record is closed and
  nothing is sent.  A reply whose client id is not routed (unknown, or its order was forgotten)
  changes no product, no routing and no position, so it ends no wait either; it adds the row of its
  pending record when there is one and the record is on.  A reply whose client id is routed ends both
  waits for that id, of its product alone, and leaves the position: a failed cancel keeps the order
  unless the venue said it is gone, a successful cancel or a failed place that was waited for drops
  it with its routing, and a successful place binds the exchange's number both ways.
\<close>

theorem reply_accounting:
  assumes "c = or_cid r" "s' = on_order_response ev r s"
  shows "map_of (oh_pending_order_records s') c = None \<and> oh_sent s' = oh_sent s
    \<and> (case map_of (oh_cid_to_product s) c of
         None \<Rightarrow>
           oh_product_states s' = oh_product_states s \<and> oh_cid_to_product s' = oh_cid_to_product s
           \<and> oh_order_no_to_product s' = oh_order_no_to_product s \<and> oh_positions s' = oh_positions s
           \<and> (case map_of (oh_pending_order_records s) c of
                Some pending \<Rightarrow> if ev_order_record_save_path ev = [] then oh_order_rows s' = oh_order_rows s
                  else (\<exists>row. oh_order_rows s' = oh_order_rows s @ [row] \<and> row_product row = pr_product pending
                       \<and> row_cid row = c \<and> row_type row = pr_type pending \<and> row_success row = or_success r)
              | None \<Rightarrow> s' = s)
       | Some p \<Rightarrow>
           (let st = state_of s p; st' = state_of s' p in
            c \<notin> set (st_waiting_place st') \<and> c \<notin> set (st_waiting_cancel st')
            \<and> st_waiting_place st' = os_erase c (st_waiting_place st) \<and> st_waiting_cancel st' = os_erase c (st_waiting_cancel st)
            \<and> st_position_in_lots st' = st_position_in_lots st \<and> (\<forall>q. q \<noteq> p \<longrightarrow> state_of s' q = state_of s q)
            \<and> (if (if c \<in> set (st_waiting_cancel st) then or_success r \<or> or_order_gone r
                   else \<not> or_success r \<and> c \<in> set (st_waiting_place st))
               then st_outstanding_orders st' = om_erase c (st_outstanding_orders st) \<and> map_of (oh_cid_to_product s') c = None
               else st_outstanding_orders st' = st_outstanding_orders st \<and> oh_cid_to_product s' = oh_cid_to_product s)
            \<and> (c \<notin> set (st_waiting_cancel st) \<and> or_success r \<and> or_order_no r \<noteq> [] \<longrightarrow>
                 map_of (st_cid_to_order_no st') c = Some (or_order_no r)
                 \<and> map_of (st_order_no_to_cid st') (or_order_no r) = Some c)))"
proof (cases "map_of (oh_cid_to_product s) c")
  case None
  have none: "map_of (oh_cid_to_product s) (or_cid r) = None" using None assms(1) by simp
  from unrouted_reply [OF none assms(2)] show ?thesis
    unfolding assms(1) none option.case by blast
next
  case (Some p)
  note routed = routed_reply [OF Some assms(1) [symmetric] refl assms(2) refl]
    and closed = routed_reply_record [OF Some assms(1) [symmetric] assms(2)]
  show ?thesis unfolding Some option.case Let_def
    by (rule conjI [OF conjunct1 [OF closed] conjI [OF conjunct2 [OF closed] routed]])
qed

theorem reply_accounting_witness:
  "st_outstanding_orders (state_of (on_order_response demo_env (order_response_init\<lparr>or_cid := 5\<rparr>) demo_resting) ''A'') = []
    \<and> oh_product_states (on_order_response demo_env (order_response_init\<lparr>or_cid := 6\<rparr>) demo_resting) = oh_product_states demo_resting"
proof -
  have "map_of (oh_cid_to_product demo_resting) 5 = Some ''A''" "map_of (oh_cid_to_product demo_resting) 6 = None"
    by (simp_all add: demo_resting_def)
  define s5 where "s5 = on_order_response demo_env (order_response_init\<lparr>or_cid := 5\<rparr>) demo_resting"
  have "st_outstanding_orders (state_of s5 ''A'') = []"
    using reply_accounting [OF _ s5_def, of 5] \<open>map_of (oh_cid_to_product demo_resting) 5 = Some ''A''\<close>
    by (simp add: demo_resting_state product_state_init_def order_response_init_def om_erase_def Let_def)
  moreover define s6 where "s6 = on_order_response demo_env (order_response_init\<lparr>or_cid := 6\<rparr>) demo_resting"
  have "oh_product_states s6 = oh_product_states demo_resting"
    using reply_accounting [OF _ s6_def, of 6] \<open>map_of (oh_cid_to_product demo_resting) 6 = None\<close> by simp
  ultimately show ?thesis by (simp add: s5_def s6_def)
qed

text \<open>
  An order the venue reports as cancelled or expired before the reply to its place has arrived is
  forgotten, but stays in the place wait; the reply, when it comes, no longer finds the order
  and does not end the wait either.  Only the response timeout releases the product.
\<close>

theorem cancelled_before_reply_keeps_waiting:
  assumes "route_execution product data s = Some (p, Some c)" "ed_is_accept_data data" "\<not> ed_is_rejected data"
    "ed_is_cancel data" "c \<in> set (st_waiting_place (state_of s p))" "or_cid r = c"
  shows "map_of (oh_cid_to_product (on_execution ev product data s)) c = None
    \<and> c \<in> set (st_waiting_place (state_of (on_execution ev product data s) p))
    \<and> c \<in> set (st_waiting_place (state_of (on_order_response ev r (on_execution ev product data s)) p))"
  using assms
  by (auto simp: on_execution_def on_cancelled_def on_order_response_def om_simps state_of_forget_order
      erase_waiting_cancel_def clear_waiting_if_idle_def split: option.splits)

theorem cancelled_before_reply_keeps_waiting_witness:
  "5 \<in> set (st_waiting_place (state_of (on_order_response demo_env (order_response_init\<lparr>or_cid := 5\<rparr>)
     (on_execution demo_env ''A'' (demo_execution\<lparr>ed_is_accept_data := True, ed_is_cancel := True\<rparr>) demo_resting)) ''A''))"
  using cancelled_before_reply_keeps_waiting [of "''A''" "demo_execution\<lparr>ed_is_accept_data := True, ed_is_cancel := True\<rparr>"
      demo_resting "''A''" 5 "order_response_init\<lparr>or_cid := 5\<rparr>" demo_env, OF demo_route]
  by (simp add: demo_execution_def execution_data_init_def demo_resting_state order_response_init_def)

definition tickless :: "order_handler \<Rightarrow> bool" where
  "tickless s \<longleftrightarrow> (\<forall>q. pi_tick_size (st_product_info (state_of s q)) = None) \<and> oh_sent s = []"

lemma tickless_handle_task:
  assumes "tickless s" "ev_tick_func ev = None" "handle_task ev t s = Inr s'"
    "\<And>r. t = MarketDataTask r \<Longrightarrow> md_feed r \<noteq> FeedProductInfo"
  shows "tickless s'"
proof -
  have tick: "pi_tick_size (st_product_info (state_of s q)) = None" for q
    using assms(1) by (simp add: tickless_def)
  have view: "feed_view st = feed_view st' \<Longrightarrow> st_product_info st = st_product_info st'" for st st'
    by (simp add: feed_view_def)
  have upd: "update_orders ev p False s = s" for p
    using tick assms(2) by (simp add: update_orders_def)
  have exec: "tickless (on_execution ev p data s)" "tickless (on_order_response ev r s)" for p data r
    using assms(1) view [OF feed_view_on_execution] view [OF feed_view_on_order_response]
    by (simp_all add: tickless_def oh_sent_on_execution oh_sent_on_order_response)
  have feed: "tickless (on_listener_status ev r s)" "tickless (on_pricer_status ev r s)"
    "tickless (on_orderbook ev p ob s)" "tickless (on_position ev p pos s)" "tickless (on_fair_price p fp s)"
    for r p ob pos fp
    using assms(1)
    by (auto simp: on_listener_status_def on_pricer_status_def on_orderbook_def on_position_def
        on_fair_price_def Let_def tickless_def split: option.splits)
  show ?thesis
    using assms exec feed upd
    by (auto simp: handle_task_def process_market_data_def on_listener_subscribe_def
        split: trader_task.splits feed_kind.splits feed_payload.splits)
qed

text \<open>
  On an exchange whose listener publishes no product info the trader never sends an order: with the
  tick function of the sources, which is absent for every exchange, any run without a product
  info message leaves the gateway untouched.
\<close>

theorem no_product_info_no_orders:
  assumes "make_order_handler mc strategy tc custom clk = Inr (ev, s0)" "mc_tick_func mc = get_tick_func (mc_exchange mc)"
    "\<forall>r. MarketDataTask r \<in> set ts \<longrightarrow> md_feed r \<noteq> FeedProductInfo" "run_tasks ev ts s0 = Inr s"
  shows "oh_sent s = []"
proof -
  have tf: "ev_tick_func ev = None"
    using make_order_handler_ok(1) [OF assms(1)] assms(2) by (simp add: env_of_def get_tick_func_def)
  have run: "tickless t \<Longrightarrow> \<forall>r. MarketDataTask r \<in> set ts \<longrightarrow> md_feed r \<noteq> FeedProductInfo
      \<Longrightarrow> run_tasks ev ts t = Inr t' \<Longrightarrow> tickless t'" for ts t t'
  proof (induction ts arbitrary: t)
    case (Cons a ts)
    then obtain t1 where t1: "handle_task ev a t = Inr t1" "run_tasks ev ts t1 = Inr t'"
      by (auto split: sum.splits)
    have "tickless t1" using tickless_handle_task [OF Cons.prems(1) tf t1(1)] Cons.prems(2) by auto
    then show ?case using Cons t1(2) by auto
  qed simp
  have "tickless s0"
    unfolding make_order_handler_ok(2) [OF assms(1)]
    by (simp add: tickless_def product_state_init_def product_info_init_def) (simp add: order_handler_init_def)
  then show ?thesis using run [OF _ assms(3,4)] by (simp add: tickless_def)
qed

theorem no_product_info_no_orders_witness:
  "\<exists>s. run_tasks demo_env [hd demo_tasks, OrderUpdateTask ''A''] (order_handler_init [''A'']) = Inr s \<and> oh_sent s = []"
proof -
  obtain s where s: "run_tasks demo_env [hd demo_tasks, OrderUpdateTask ''A''] (order_handler_init [''A'']) = Inr s"
    by (simp add: demo_tasks_def handle_task_def)
  from no_product_info_no_orders [OF demo_handler _ _ s] s show ?thesis
    by (simp add: demo_market_def demo_tasks_def)
qed

end
