(* ===== verification/Shutdown.thy ===== *)
theory Shutdown
  imports Handler_Properties
begin

text \<open>
  The shutdown sequence of the order handler (\<open>pump_until\<close>, \<open>cancel_all_orders\<close>,
  \<open>flatten_positions\<close>, \<open>submit_market_flatten\<close> and \<open>shutdown\<close> of
  \<open>trader/order_handler/order_handler.cpp\<close>).

  The loops wait on the task queue: \<open>arr n\<close> is what the \<open>n\<close>-th timed wait dequeues, \<open>None\<close> when it
  times out, so a theorem for every \<open>arr\<close> covers every interleaving of replies, fills and feed
  events with the sequence.  The loops carry fuel; \<open>None\<close> is running out of it, and the
  termination lemmas show that on a clock that passes every deadline some fuel is enough.  Sums
  of timestamps and timeouts are exact: epoch nanoseconds stay below \<open>2 ^ 63\<close> until the year
  2262.
\<close>

type_synonym pump_state = "order_handler \<times> nat"
type_synonym pump_result = "(handler_error + pump_state) option"

definition no_orders_outstanding :: "order_handler \<Rightarrow> bool" where
  "no_orders_outstanding s \<longleftrightarrow> list_all (\<lambda>e. st_outstanding_orders (snd e) = []) (oh_product_states s)"

definition any_cancellable :: "order_handler \<Rightarrow> bool" where
  "any_cancellable s \<longleftrightarrow> list_ex (\<lambda>e. list_ex (\<lambda>o'. fst o' \<notin> set (st_waiting_cancel (snd e))
      \<and> om_has (st_cid_to_order_no (snd e)) (fst o')) (st_outstanding_orders (snd e))) (oh_product_states s)"

definition all_flat :: "order_handler \<Rightarrow> bool" where
  "all_flat s \<longleftrightarrow> list_all (\<lambda>e. st_position_in_lots (snd e) = 0) (oh_product_states s)"

definition residual_caveat :: "order_handler \<Rightarrow> string" where
  "residual_caveat s =
     (if oh_listener_connected s \<or> (no_orders_outstanding s \<and> all_flat s) then []
      else '' (listener link is down -- this is the last state we were told, not confirmed)'')"

fun pump_until ::
  "handler_env \<Rightarrow> (nat \<Rightarrow> trader_task option) \<Rightarrow> (order_handler \<Rightarrow> bool) \<Rightarrow> int \<Rightarrow> nat \<Rightarrow> pump_state \<Rightarrow> pump_result" where
  "pump_until ev arr done_cond deadline 0 x = None"
| "pump_until ev arr done_cond deadline (Suc f) (s, n) =
     (if done_cond s then Some (Inr (s, n))
      else case now_ns ev s of (t, s1) \<Rightarrow>
        if deadline - t \<le> 0 then Some (Inr (s1, n))
        else case arr n of
          None \<Rightarrow> pump_until ev arr done_cond deadline f (s1, Suc n)
        | Some task \<Rightarrow>
            (case handle_task ev task s1 of
               Inl e \<Rightarrow> Some (Inl e)
             | Inr s2 \<Rightarrow> pump_until ev arr done_cond deadline f (s2, Suc n)))"

fun cancel_cids :: "handler_env \<Rightarrow> product \<Rightarrow> cid list \<Rightarrow> order_handler \<Rightarrow> order_handler" where
  "cancel_cids ev p [] s = s"
| "cancel_cids ev p (c # cs) s =
     cancel_cids ev p cs
       (if c \<in> set (st_waiting_cancel (state_of s p)) then s
        else if \<not> om_has (st_cid_to_order_no (state_of s p)) c then s
        else submit_cancel ev p c s)"

fun cancel_round :: "handler_env \<Rightarrow> product list \<Rightarrow> order_handler \<Rightarrow> order_handler" where
  "cancel_round ev [] s = s"
| "cancel_round ev (p # ps) s =
     cancel_round ev ps (cancel_cids ev p (om_keys (st_outstanding_orders (state_of s p))) s)"

fun cancel_all_orders ::
  "handler_env \<Rightarrow> (nat \<Rightarrow> trader_task option) \<Rightarrow> int \<Rightarrow> nat \<Rightarrow> pump_state \<Rightarrow> pump_result" where
  "cancel_all_orders ev arr deadline 0 x = None"
| "cancel_all_orders ev arr deadline (Suc f) (s, n) =
     (if no_orders_outstanding s then Some (Inr (s, n))
      else case now_ns ev s of (t, s1) \<Rightarrow>
        if \<not> t < deadline then Some (Inr (s1, n))
        else let s2 = cancel_round ev (om_keys (oh_product_states s1)) s1 in
          case now_ns ev s2 of (t2, s3) \<Rightarrow>
            (case pump_until ev arr (\<lambda>s. no_orders_outstanding s \<or> any_cancellable s)
                    (min (t2 + 200 * 1000000) deadline) f (s3, n) of
               None \<Rightarrow> None
             | Some (Inl e) \<Rightarrow> Some (Inl e)
             | Some (Inr x) \<Rightarrow> cancel_all_orders ev arr deadline f x))"

definition submit_market_flatten :: "handler_env \<Rightarrow> product \<Rightarrow> order_handler \<Rightarrow> order_handler" where
  "submit_market_flatten ev p s =
     (let position = st_position_in_lots (state_of s p) in
      if position = 0 then s
      else submit_place ev p (position < 0) 0 (if 0 < position then position else s32 (- position))
             False (ev_shutdown_reduce_only ev) s)"

fun liquidate_products :: "handler_env \<Rightarrow> product list \<Rightarrow> order_handler \<Rightarrow> order_handler" where
  "liquidate_products ev [] s = s"
| "liquidate_products ev (p # ps) s = liquidate_products ev ps (update_orders ev p True s)"

fun passive_flatten ::
  "handler_env \<Rightarrow> (nat \<Rightarrow> trader_task option) \<Rightarrow> int \<Rightarrow> nat \<Rightarrow> pump_state \<Rightarrow> pump_result" where
  "passive_flatten ev arr deadline 0 x = None"
| "passive_flatten ev arr deadline (Suc f) (s, n) =
     (if all_flat s then Some (Inr (s, n))
      else case now_ns ev s of (t, s1) \<Rightarrow>
        if \<not> t < deadline then Some (Inr (s1, n))
        else let s2 = liquidate_products ev (ev_trade_products ev) s1 in
          case now_ns ev s2 of (t2, s3) \<Rightarrow>
            (case pump_until ev arr all_flat (min (t2 + ev_order_update_interval_ns ev) deadline) f (s3, n) of
               None \<Rightarrow> None
             | Some (Inl e) \<Rightarrow> Some (Inl e)
             | Some (Inr x) \<Rightarrow> passive_flatten ev arr deadline f x))"

fun market_flatten_all :: "handler_env \<Rightarrow> product list \<Rightarrow> order_handler \<Rightarrow> order_handler" where
  "market_flatten_all ev [] s = s"
| "market_flatten_all ev (p # ps) s = market_flatten_all ev ps (submit_market_flatten ev p s)"

text \<open>Sequencing of steps that can throw or run out of fuel.\<close>

definition then_do :: "pump_result \<Rightarrow> (pump_state \<Rightarrow> pump_result) \<Rightarrow> pump_result" where
  "then_do r k = (case r of None \<Rightarrow> None | Some (Inl e) \<Rightarrow> Some (Inl e) | Some (Inr x) \<Rightarrow> k x)"

definition market_flatten ::
  "handler_env \<Rightarrow> (nat \<Rightarrow> trader_task option) \<Rightarrow> nat \<Rightarrow> pump_state \<Rightarrow> pump_result" where
  "market_flatten ev arr f = (\<lambda>(s, n).
     case now_ns ev s of (t, s1) \<Rightarrow>
       then_do (cancel_all_orders ev arr (t + ev_shutdown_cancel_timeout_ns ev) f (s1, n)) (\<lambda>(s2, n2).
         let s3 = market_flatten_all ev (om_keys (oh_product_states s2)) s2 in
         case now_ns ev s3 of (t2, s4) \<Rightarrow>
           pump_until ev arr all_flat (t2 + ev_shutdown_flatten_timeout_ns ev) f (s4, n2)))"

definition flatten_positions ::
  "handler_env \<Rightarrow> (nat \<Rightarrow> trader_task option) \<Rightarrow> int \<Rightarrow> nat \<Rightarrow> pump_state \<Rightarrow> pump_result" where
  "flatten_positions ev arr deadline f = (\<lambda>(s, n).
     if all_flat s then Some (Inr (s, n))
     else then_do (passive_flatten ev arr deadline f (s, n)) (\<lambda>(s1, n1).
       if all_flat s1 then Some (Inr (s1, n1))
       else if \<not> ev_shutdown_market_flatten ev then Some (Inr (s1, n1))
       else market_flatten ev arr f (s1, n1)))"

definition shutdown ::
  "handler_env \<Rightarrow> (nat \<Rightarrow> trader_task option) \<Rightarrow> nat \<Rightarrow> pump_state \<Rightarrow> pump_result" where
  "shutdown ev arr f = (\<lambda>(s, n).
     if oh_shutdown_done s then Some (Inr (s, n))
     else let s0 = s\<lparr>oh_shutdown_done := True, oh_shutting_down := True\<rparr> in
       case now_ns ev s0 of (t, s1) \<Rightarrow>
         then_do (cancel_all_orders ev arr (t + ev_shutdown_cancel_timeout_ns ev) f (s1, n)) (\<lambda>(s2, n2).
           if \<not> ev_flatten_on_shutdown ev then Some (Inr (s2, n2))
           else case now_ns ev s2 of (t2, s3) \<Rightarrow>
             then_do (flatten_positions ev arr (t2 + ev_shutdown_flatten_timeout_ns ev) f (s3, n2)) (\<lambda>(s4, n4).
               if no_orders_outstanding s4 then Some (Inr (s4, n4))
               else case now_ns ev s4 of (t4, s5) \<Rightarrow>
                 cancel_all_orders ev arr (t4 + ev_shutdown_cancel_timeout_ns ev) f (s5, n4))))"

section \<open>The clock only moves forwards through the sequence\<close>

lemma reads_now [simp]: "oh_clock_reads (snd (now_ns ev s)) = Suc (oh_clock_reads s)"
  by (simp add: now_ns_def)

lemma fst_now [simp]: "fst (now_ns ev s) = ev_clk ev (oh_clock_reads s)"
  by (simp add: now_ns_def)

lemma reads_cancel_cids: "oh_clock_reads s \<le> oh_clock_reads (cancel_cids ev p cs s)"
  by (induction ev p cs s rule: cancel_cids.induct)
    (auto intro: order_trans [OF reads_submit_cancel] split: if_splits)

lemma reads_cancel_round: "oh_clock_reads s \<le> oh_clock_reads (cancel_round ev ps s)"
  by (induction ev ps s rule: cancel_round.induct) (auto intro: order_trans [OF reads_cancel_cids])

lemma reads_liquidate: "oh_clock_reads s \<le> oh_clock_reads (liquidate_products ev ps s)"
  by (induction ev ps s rule: liquidate_products.induct) (auto intro: order_trans [OF reads_update_orders])

lemma reads_pump: "pump_until ev arr c dl f (s, n) = Some (Inr (s', n')) \<Longrightarrow> oh_clock_reads s \<le> oh_clock_reads s'"
proof (induction f arbitrary: s n)
  case (Suc f)
  have "oh_clock_reads s \<le> oh_clock_reads (snd (now_ns ev s))" by simp
  then show ?case
    using Suc by (fastforce simp: case_prod_unfold split: if_splits option.splits sum.splits dest!: reads_handle_task)
qed simp

section \<open>Termination\<close>

text \<open>\<open>passed_by ev N d\<close>: from the \<open>N\<close>-th reading on the clock is at or past \<open>d\<close>.\<close>

definition passed_by :: "handler_env \<Rightarrow> nat \<Rightarrow> int \<Rightarrow> bool" where
  "passed_by ev N d \<longleftrightarrow> (\<forall>n \<ge> N. d \<le> ev_clk ev n)"

lemma passed_by_le: "passed_by ev N d \<Longrightarrow> d' \<le> d \<Longrightarrow> passed_by ev N d'"
  by (auto simp: passed_by_def intro: order_trans)

lemma pump_terminates:
  "passed_by ev N dl \<Longrightarrow> N - oh_clock_reads s < f \<Longrightarrow> pump_until ev arr c dl f (s, n) \<noteq> None"
proof (induction f arbitrary: s n)
  case (Suc f)
  show ?case
  proof (cases "dl \<le> ev_clk ev (oh_clock_reads s)")
    case True
    then show ?thesis by (simp add: case_prod_unfold)
  next
    case False
    then have "oh_clock_reads s < N" using Suc.prems(1) by (auto simp: passed_by_def not_le [symmetric])
    then have less: "oh_clock_reads s < oh_clock_reads s' \<Longrightarrow> N - oh_clock_reads s' < f" for s' using Suc.prems(2) by linarith
    have "handle_task ev t (snd (now_ns ev s)) = Inr s' \<Longrightarrow> oh_clock_reads s < oh_clock_reads s'" for t s'
      using reads_handle_task [of ev t "snd (now_ns ev s)" s'] by simp
    then show ?thesis
      using Suc.IH [OF Suc.prems(1) less] by (auto simp: case_prod_unfold split: option.splits sum.splits)
  qed
qed simp

lemma pump_step_bound:
  assumes "passed_by ev N dl" "ev_clk ev (oh_clock_reads s) < dl" "N - oh_clock_reads s < Suc f"
    "Suc (oh_clock_reads s) \<le> oh_clock_reads s'"
  shows "N - oh_clock_reads s' < f"
proof -
  have "\<not> N \<le> oh_clock_reads s"
    using assms(1) [unfolded passed_by_def, rule_format, of "oh_clock_reads s"] assms(2) by linarith
  then show ?thesis using assms(3,4) by linarith
qed

lemma cancel_all_terminates:
  "passed_by ev N dl \<Longrightarrow> N - oh_clock_reads s < f \<Longrightarrow> cancel_all_orders ev arr dl f (s, n) \<noteq> None"
proof (induction f arbitrary: s n)
  case (Suc f)
  let ?s2 = "cancel_round ev (om_keys (oh_product_states (snd (now_ns ev s)))) (snd (now_ns ev s))"
  let ?s3 = "snd (now_ns ev ?s2)"
  have r: "Suc (oh_clock_reads s) \<le> oh_clock_reads ?s3"
    using reads_cancel_round [of "snd (now_ns ev s)" ev] by (simp add: le_Suc_eq)
  note bound = pump_step_bound [OF Suc.prems(1) _ Suc.prems(2)]
  have pump: "pump_until ev arr c (min d dl) f (?s3, n) \<noteq> None" if "ev_clk ev (oh_clock_reads s) < dl" for c d
    by (rule pump_terminates [OF passed_by_le [OF Suc.prems(1)] bound [OF that r]]) simp
  have rec: "cancel_all_orders ev arr dl f (s', n') \<noteq> None"
    if "ev_clk ev (oh_clock_reads s) < dl" "pump_until ev arr c d f (?s3, n) = Some (Inr (s', n'))" for c d s' n'
    using Suc.IH [OF Suc.prems(1) bound [OF that(1)]] r reads_pump [OF that(2)] order_trans by blast
  show ?case
    by (auto simp: case_prod_unfold Let_def split: option.splits sum.splits dest: rec dest!: pump [THEN notE, rotated])
qed simp

lemma passive_terminates:
  "passed_by ev N dl \<Longrightarrow> N - oh_clock_reads s < f \<Longrightarrow> passive_flatten ev arr dl f (s, n) \<noteq> None"
proof (induction f arbitrary: s n)
  case (Suc f)
  let ?s2 = "liquidate_products ev (ev_trade_products ev) (snd (now_ns ev s))"
  let ?s3 = "snd (now_ns ev ?s2)"
  have r: "Suc (oh_clock_reads s) \<le> oh_clock_reads ?s3"
    using reads_liquidate [of "snd (now_ns ev s)" ev] by (simp add: le_Suc_eq)
  note bound = pump_step_bound [OF Suc.prems(1) _ Suc.prems(2)]
  have pump: "pump_until ev arr c (min d dl) f (?s3, n) \<noteq> None" if "ev_clk ev (oh_clock_reads s) < dl" for c d
    by (rule pump_terminates [OF passed_by_le [OF Suc.prems(1)] bound [OF that r]]) simp
  have rec: "passive_flatten ev arr dl f (s', n') \<noteq> None"
    if "ev_clk ev (oh_clock_reads s) < dl" "pump_until ev arr c d f (?s3, n) = Some (Inr (s', n'))" for c d s' n'
    using Suc.IH [OF Suc.prems(1) bound [OF that(1)]] r reads_pump [OF that(2)] order_trans by blast
  show ?case
    by (auto simp: case_prod_unfold Let_def split: option.splits sum.splits dest: rec dest!: pump [THEN notE, rotated])
qed simp

subsection \<open>More fuel changes nothing\<close>

lemma pump_mono: "pump_until ev arr c dl f x = Some r \<Longrightarrow> f \<le> f' \<Longrightarrow> pump_until ev arr c dl f' x = Some r"
proof (induction f arbitrary: f' x)
  case (Suc f)
  obtain s n where x: "x = (s, n)" by (cases x)
  obtain g where f': "f' = Suc g" "f \<le> g" using Suc.prems(2) by (cases f') auto
  show ?case
    using Suc.prems(1) Suc.IH [OF _ f'(2)] unfolding x f'(1)
    by (auto simp: case_prod_unfold split: if_splits option.splits sum.splits)
qed simp

lemma cancel_all_mono:
  "cancel_all_orders ev arr dl f x = Some r \<Longrightarrow> f \<le> f' \<Longrightarrow> cancel_all_orders ev arr dl f' x = Some r"
proof (induction f arbitrary: f' x)
  case (Suc f)
  obtain s n where x: "x = (s, n)" by (cases x)
  obtain g where f': "f' = Suc g" "f \<le> g" using Suc.prems(2) by (cases f') auto
  show ?case
    using Suc.prems(1) Suc.IH [OF _ f'(2)] pump_mono [OF _ f'(2)] unfolding x f'(1)
    by (auto simp: case_prod_unfold Let_def split: if_splits option.splits sum.splits)
qed simp

lemma passive_mono:
  "passive_flatten ev arr dl f x = Some r \<Longrightarrow> f \<le> f' \<Longrightarrow> passive_flatten ev arr dl f' x = Some r"
proof (induction f arbitrary: f' x)
  case (Suc f)
  obtain s n where x: "x = (s, n)" by (cases x)
  obtain g where f': "f' = Suc g" "f \<le> g" using Suc.prems(2) by (cases f') auto
  show ?case
    using Suc.prems(1) Suc.IH [OF _ f'(2)] pump_mono [OF _ f'(2)] unfolding x f'(1)
    by (auto simp: case_prod_unfold Let_def split: if_splits option.splits sum.splits)
qed simp

text \<open>A step settles when, from some fuel on, it returns one and the same result.\<close>

definition settles :: "(nat \<Rightarrow> pump_result) \<Rightarrow> bool" where
  "settles F \<longleftrightarrow> (\<exists>f0 r. \<forall>f \<ge> f0. F f = Some r)"

definition time_passes :: "handler_env \<Rightarrow> bool" where
  "time_passes ev \<longleftrightarrow> (\<forall>d. \<exists>N. passed_by ev N d)"

lemma settles_const [simp]: "settles (\<lambda>f. Some r)"
  by (auto simp: settles_def)

lemma settles_mono:
  assumes "F k \<noteq> None" "\<And>f f' r. F f = Some r \<Longrightarrow> f \<le> f' \<Longrightarrow> F f' = Some r"
  shows "settles F"
  using assms unfolding settles_def by (metis not_None_eq)

lemma settles_pump: assumes "time_passes ev" shows "settles (\<lambda>f. pump_until ev arr c dl f x)"
proof -
  obtain N where N: "passed_by ev N dl" using assms by (auto simp: time_passes_def)
  obtain s n where x: "x = (s, n)" by (cases x)
  have "pump_until ev arr c dl (Suc (N - oh_clock_reads s)) x \<noteq> None"
    unfolding x by (rule pump_terminates [OF N]) simp
  then show ?thesis by (rule settles_mono) (rule pump_mono)
qed

lemma settles_cancel_all: assumes "time_passes ev" shows "settles (\<lambda>f. cancel_all_orders ev arr dl f x)"
proof -
  obtain N where N: "passed_by ev N dl" using assms by (auto simp: time_passes_def)
  obtain s n where x: "x = (s, n)" by (cases x)
  have "cancel_all_orders ev arr dl (Suc (N - oh_clock_reads s)) x \<noteq> None"
    unfolding x by (rule cancel_all_terminates [OF N]) simp
  then show ?thesis by (rule settles_mono) (rule cancel_all_mono)
qed

lemma settles_passive: assumes "time_passes ev" shows "settles (\<lambda>f. passive_flatten ev arr dl f x)"
proof -
  obtain N where N: "passed_by ev N dl" using assms by (auto simp: time_passes_def)
  obtain s n where x: "x = (s, n)" by (cases x)
  have "passive_flatten ev arr dl (Suc (N - oh_clock_reads s)) x \<noteq> None"
    unfolding x by (rule passive_terminates [OF N]) simp
  then show ?thesis by (rule settles_mono) (rule passive_mono)
qed

lemma settles_then_do:
  assumes "settles F" "\<And>x. settles (\<lambda>f. K f x)"
  shows "settles (\<lambda>f. then_do (F f) (K f))"
proof -
  obtain k r where F: "\<forall>f \<ge> k. F f = Some r" using assms(1) by (auto simp: settles_def)
  show ?thesis
  proof (cases r)
    case (Inl e)
    with F have "\<forall>f \<ge> k. then_do (F f) (K f) = Some (Inl e)" by (simp add: then_do_def)
    then show ?thesis unfolding settles_def by blast
  next
    case (Inr x)
    obtain l q where K: "\<forall>f \<ge> l. K f x = Some q" using assms(2) [of x] by (auto simp: settles_def)
    have "\<forall>f \<ge> max k l. then_do (F f) (K f) = Some q" using F K Inr by (simp add: then_do_def)
    then show ?thesis unfolding settles_def by blast
  qed
qed

lemma settles_if: "(b \<Longrightarrow> settles F) \<Longrightarrow> (\<not> b \<Longrightarrow> settles G) \<Longrightarrow> settles (\<lambda>f. if b then F f else G f)"
  by (cases b) simp_all

lemma settles_market_flatten: "time_passes ev \<Longrightarrow> settles (\<lambda>f. market_flatten ev arr f x)"
  by (simp add: market_flatten_def case_prod_unfold Let_def settles_then_do settles_cancel_all settles_pump)

lemma settles_flatten: "time_passes ev \<Longrightarrow> settles (\<lambda>f. flatten_positions ev arr dl f x)"
  by (simp add: flatten_positions_def case_prod_unfold settles_if settles_then_do settles_passive settles_market_flatten)

lemma settles_shutdown: "time_passes ev \<Longrightarrow> settles (\<lambda>f. shutdown ev arr f x)"
  by (simp add: shutdown_def case_prod_unfold Let_def settles_if settles_then_do settles_cancel_all settles_flatten)

section \<open>The sequence as steps\<close>

text \<open>
  Every state the sequence goes through is reached by steps of five kinds.  While it drains orders it
  only reads the clock, handles queued tasks and sends cancels; while it flattens it also runs
  liquidating decision ticks and sends market orders.
\<close>

inductive drain_step :: "handler_env \<Rightarrow> order_handler \<Rightarrow> order_handler \<Rightarrow> bool" for ev where
  clock: "drain_step ev s (snd (now_ns ev s))"
| task: "handle_task ev t s = Inr s' \<Longrightarrow> drain_step ev s s'"
| cancel: "om_has (oh_product_states s) p \<Longrightarrow> drain_step ev s (submit_cancel ev p c s)"

inductive shut_step :: "handler_env \<Rightarrow> order_handler \<Rightarrow> order_handler \<Rightarrow> bool" for ev where
  drain: "drain_step ev s s' \<Longrightarrow> shut_step ev s s'"
| liquidate: "shut_step ev s (update_orders ev p True s)"
| market: "om_has (oh_product_states s) p \<Longrightarrow> shut_step ev s (submit_market_flatten ev p s)"

abbreviation drains :: "handler_env \<Rightarrow> order_handler \<Rightarrow> order_handler \<Rightarrow> bool" where
  "drains ev \<equiv> (drain_step ev)\<^sup>*\<^sup>*"

abbreviation shuts :: "handler_env \<Rightarrow> order_handler \<Rightarrow> order_handler \<Rightarrow> bool" where
  "shuts ev \<equiv> (shut_step ev)\<^sup>*\<^sup>*"

lemma drains_shuts: "drains ev s s' \<Longrightarrow> shuts ev s s'"
  by (induction rule: rtranclp_induct) (auto intro: shut_step.drain rtranclp.rtrancl_into_rtrancl)

lemma drains_clock: "drains ev (snd (now_ns ev s)) s' \<Longrightarrow> drains ev s s'"
  using converse_rtranclp_into_rtranclp [of "drain_step ev"] drain_step.clock by metis

lemma shuts_clock: "shuts ev (snd (now_ns ev s)) s' \<Longrightarrow> shuts ev s s'"
  using converse_rtranclp_into_rtranclp [of "shut_step ev"] shut_step.drain [OF drain_step.clock] by metis

lemma drains_pump: "pump_until ev arr c dl f (s, n) = Some (Inr (s', n')) \<Longrightarrow> drains ev s s'"
proof (induction f arbitrary: s n)
  case (Suc f)
  have task: "drains ev s s'" if "handle_task ev t (snd (now_ns ev s)) = Inr s2" "drains ev s2 s'" for t s2
    using drains_clock converse_rtranclp_into_rtranclp [of "drain_step ev", OF drain_step.task [OF that(1)] that(2)] by blast
  show ?case
    using Suc.prems by (auto simp: case_prod_unfold split: if_splits option.splits sum.splits
        intro: drains_clock Suc.IH task)
qed simp

lemma has_submit_cancel:
  assumes "om_has (oh_product_states s) p"
  shows "om_has (oh_product_states (submit_cancel ev p c s)) q = om_has (oh_product_states s) q"
  using assms
  by (auto simp: submit_cancel_def Let_def mark_waiting_cancel_def mark_waiting_since_def send_request_def
      mark_pending_record_def now_ns_def om_has_iff split: option.splits)

lemma drains_cancel_cids:
  "om_has (oh_product_states s) p \<Longrightarrow> drains ev s (cancel_cids ev p cs s)
     \<and> (\<forall>q. om_has (oh_product_states (cancel_cids ev p cs s)) q = om_has (oh_product_states s) q)"
proof (induction cs arbitrary: s)
  case (Cons c cs)
  let ?t = "submit_cancel ev p c s"
  have t: "drains ev ?t (cancel_cids ev p cs ?t)
      \<and> (\<forall>q. om_has (oh_product_states (cancel_cids ev p cs ?t)) q = om_has (oh_product_states s) q)"
    using Cons has_submit_cancel [OF Cons.prems] by simp
  then have "drains ev s (cancel_cids ev p cs ?t)"
    using converse_rtranclp_into_rtranclp [of "drain_step ev", OF drain_step.cancel [OF Cons.prems]] by blast
  then show ?case using Cons t by simp
qed simp

lemma drains_cancel_round:
  "\<forall>p \<in> set ps. om_has (oh_product_states s) p \<Longrightarrow> drains ev s (cancel_round ev ps s)"
proof (induction ev ps s rule: cancel_round.induct)
  case (2 ev p ps s)
  then show ?case using drains_cancel_cids [of s p ev] by (auto intro: rtranclp_trans)
qed simp

lemma drains_cancel_all:
  "cancel_all_orders ev arr dl f (s, n) = Some (Inr (s', n')) \<Longrightarrow> drains ev s s'"
proof (induction f arbitrary: s n)
  case (Suc f)
  let ?s1 = "snd (now_ns ev s)"
  let ?s2 = "cancel_round ev (om_keys (oh_product_states ?s1)) ?s1"
  have "drains ev ?s1 ?s2" by (rule drains_cancel_round) (simp add: om_has_iff om_keys_def)
  then have to: "drains ev s s''" if "drains ev (snd (now_ns ev ?s2)) s''" for s''
    using drains_clock [OF that] by (blast intro: drains_clock rtranclp_trans)
  show ?case
    using Suc.prems by (auto simp: case_prod_unfold Let_def split: if_splits option.splits sum.splits
        dest!: drains_pump Suc.IH dest: to [OF rtranclp_trans] intro: drains_clock)
qed simp

lemma shuts_liquidate: "shuts ev s (liquidate_products ev ps s)"
  by (induction ev ps s rule: liquidate_products.induct)
    (auto intro: shut_step.liquidate converse_rtranclp_into_rtranclp)

lemma shuts_passive: "passive_flatten ev arr dl f (s, n) = Some (Inr (s', n')) \<Longrightarrow> shuts ev s s'"
proof (induction f arbitrary: s n)
  case (Suc f)
  have to: "shuts ev s s''"
    if "shuts ev (snd (now_ns ev (liquidate_products ev (ev_trade_products ev) (snd (now_ns ev s))))) s''" for s''
    using shuts_clock [OF that] shuts_liquidate by (blast intro: shuts_clock rtranclp_trans)
  show ?case
    using Suc.prems by (auto simp: case_prod_unfold Let_def split: if_splits option.splits sum.splits
        dest!: drains_pump drains_shuts Suc.IH dest: to [OF rtranclp_trans] intro: shuts_clock)
qed simp

lemma shuts_market_all:
  "\<forall>p \<in> set ps. om_has (oh_product_states s) p \<Longrightarrow> shuts ev s (market_flatten_all ev ps s)"
proof (induction ps arbitrary: s)
  case (Cons p ps)
  let ?t = "submit_market_flatten ev p s"
  have "\<forall>q \<in> set ps. om_has (oh_product_states ?t) q"
    using Cons.prems
    by (auto simp: submit_market_flatten_def submit_place_def mark_waiting_place_def mark_waiting_since_def
        mark_pending_record_def send_request_def now_ns_def om_has_iff Let_def case_prod_unfold)
  then show ?case
    using converse_rtranclp_into_rtranclp [of "shut_step ev", OF shut_step.market [of s p ev] Cons.IH [of ?t]] Cons.prems
    by simp
qed simp

lemma then_do_returns:
  "then_do r k = Some (Inr y) \<longleftrightarrow> (\<exists>x. r = Some (Inr x) \<and> k x = Some (Inr y))"
  by (auto simp: then_do_def split: option.splits sum.splits)

lemma shuts_market_flatten:
  assumes "market_flatten ev arr f (s, n) = Some (Inr (s', n'))" shows "shuts ev s s'"
proof -
  obtain s2 n2 where c: "cancel_all_orders ev arr (ev_clk ev (oh_clock_reads s) + ev_shutdown_cancel_timeout_ns ev) f
      (snd (now_ns ev s), n) = Some (Inr (s2, n2))"
    and p: "drains ev (snd (now_ns ev (market_flatten_all ev (om_keys (oh_product_states s2)) s2))) s'"
    using assms by (auto simp: market_flatten_def case_prod_unfold Let_def then_do_returns dest: drains_pump)
  have "shuts ev s s2" using drains_clock [OF drains_cancel_all [OF c]] by (rule drains_shuts)
  moreover have "shuts ev s2 (market_flatten_all ev (om_keys (oh_product_states s2)) s2)"
    by (rule shuts_market_all) (simp add: om_has_iff om_keys_def)
  ultimately show ?thesis using shuts_clock [OF drains_shuts [OF p]] by (auto intro: rtranclp_trans)
qed

lemma shuts_flatten:
  assumes "flatten_positions ev arr dl f (s, n) = Some (Inr (s', n'))" shows "shuts ev s s'"
  using assms
  by (auto simp: flatten_positions_def then_do_returns split: if_splits
      dest!: shuts_passive shuts_market_flatten intro: rtranclp_trans)

abbreviation stopping :: "order_handler \<Rightarrow> order_handler" where
  "stopping s \<equiv> s\<lparr>oh_shutdown_done := True, oh_shutting_down := True\<rparr>"

lemma now_split: "(case now_ns ev s of (t, s1) \<Rightarrow> g t s1) = g (ev_clk ev (oh_clock_reads s)) (snd (now_ns ev s))"
  by (simp add: case_prod_unfold)

text \<open>The phases of a shutdown that runs: the cancel phase, the flatten phase when configured, the final pull.\<close>

lemma shutdown_phases:
  assumes "shutdown ev arr f (s, n) = Some (Inr (s', n'))" "\<not> oh_shutdown_done s"
  obtains s2 n2 where
    "cancel_all_orders ev arr (ev_clk ev (oh_clock_reads s) + ev_shutdown_cancel_timeout_ns ev) f
       (snd (now_ns ev (stopping s)), n) = Some (Inr (s2, n2))"
    "\<not> ev_flatten_on_shutdown ev \<Longrightarrow> s' = s2"
    "ev_flatten_on_shutdown ev \<Longrightarrow> \<exists>s4 n4.
       flatten_positions ev arr (ev_clk ev (oh_clock_reads s2) + ev_shutdown_flatten_timeout_ns ev) f
         (snd (now_ns ev s2), n2) = Some (Inr (s4, n4))
       \<and> (if no_orders_outstanding s4 then s' = s4
          else cancel_all_orders ev arr (ev_clk ev (oh_clock_reads s4) + ev_shutdown_cancel_timeout_ns ev) f
            (snd (now_ns ev s4), n4) = Some (Inr (s', n')))"
proof -
  from assms obtain s2 n2 where c:
    "cancel_all_orders ev arr (ev_clk ev (oh_clock_reads s) + ev_shutdown_cancel_timeout_ns ev) f
       (snd (now_ns ev (stopping s)), n) = Some (Inr (s2, n2))" and r:
    "(if \<not> ev_flatten_on_shutdown ev then Some (Inr (s2, n2))
      else then_do (flatten_positions ev arr (ev_clk ev (oh_clock_reads s2) + ev_shutdown_flatten_timeout_ns ev) f
         (snd (now_ns ev s2), n2)) (\<lambda>(s4, n4). if no_orders_outstanding s4 then Some (Inr (s4, n4))
            else cancel_all_orders ev arr (ev_clk ev (oh_clock_reads s4) + ev_shutdown_cancel_timeout_ns ev) f
               (snd (now_ns ev s4), n4))) = Some (Inr (s', n'))"
    by (auto simp: shutdown_def now_split Let_def then_do_returns cong: if_cong)
  show ?thesis by (rule that [OF c]) (use r in \<open>auto simp: then_do_returns split: if_splits\<close>)
qed

lemma shuts_shutdown:
  assumes "shutdown ev arr f (s, n) = Some (Inr (s', n'))" "\<not> oh_shutdown_done s"
  shows "shuts ev (stopping s) s'" "\<not> ev_flatten_on_shutdown ev \<Longrightarrow> drains ev (stopping s) s'"
proof -
  have final: "shuts ev s s'" if "cancel_all_orders ev arr d f (snd (now_ns ev s), m) = Some (Inr (s', n'))" for s d m
    using drains_clock [OF drains_cancel_all [OF that]] by (rule drains_shuts)
  have flat: "shuts ev s s4" if "flatten_positions ev arr d f (snd (now_ns ev s), m) = Some (Inr (s4, n4))" for s d m s4 n4
    using shuts_clock [OF shuts_flatten [OF that]] .
  obtain s2 n2 where c: "cancel_all_orders ev arr (ev_clk ev (oh_clock_reads s) + ev_shutdown_cancel_timeout_ns ev) f
       (snd (now_ns ev (stopping s)), n) = Some (Inr (s2, n2))"
    and off: "\<not> ev_flatten_on_shutdown ev \<Longrightarrow> s' = s2"
    and on: "ev_flatten_on_shutdown ev \<Longrightarrow> shuts ev s2 s'"
    using shutdown_phases [OF assms] by (metis flat final rtranclp_trans)
  have "drains ev (stopping s) s2" using drains_clock [OF drains_cancel_all [OF c]] .
  then show "shuts ev (stopping s) s'" "\<not> ev_flatten_on_shutdown ev \<Longrightarrow> drains ev (stopping s) s'"
    using on off by (auto dest: drains_shuts intro: rtranclp_trans)
qed

section \<open>What every step keeps\<close>

text \<open>No step of the sequence, and no task handled in it, clears the shutdown flags.\<close>

definition stop_flags :: "order_handler \<Rightarrow> bool \<times> bool" where
  "stop_flags s = (oh_shutting_down s, oh_shutdown_done s)"

lemma flags_basic [simp]:
  "stop_flags (snd (now_ns ev s)) = stop_flags s" "stop_flags (upd_state p g s) = stop_flags s"
  "stop_flags (set_state p st s) = stop_flags s"
  "stop_flags (s\<lparr>oh_clock_reads := n\<rparr>) = stop_flags s" "stop_flags (s\<lparr>oh_sent := xs\<rparr>) = stop_flags s"
  "stop_flags (s\<lparr>oh_positions := ps\<rparr>) = stop_flags s" "stop_flags (s\<lparr>oh_subscribed := sub\<rparr>) = stop_flags s"
  "stop_flags (s\<lparr>oh_pricer_connected := b\<rparr>) = stop_flags s"
  "stop_flags (s\<lparr>oh_listener_connecting := b, oh_listener_connected := b'\<rparr>) = stop_flags s"
  "stop_flags (s\<lparr>oh_cid_to_product := cp\<rparr>) = stop_flags s" "stop_flags (s\<lparr>oh_order_no_to_product := np\<rparr>) = stop_flags s"
  "stop_flags (s\<lparr>oh_last_cid := c, oh_cid_to_product := cp\<rparr>) = stop_flags s"
  "stop_flags (s\<lparr>oh_pending_order_records := prs\<rparr>) = stop_flags s"
  "stop_flags (s\<lparr>oh_order_rows := rs\<rparr>) = stop_flags s" "stop_flags (s\<lparr>oh_decision_rows := ds\<rparr>) = stop_flags s"
  by (simp_all add: stop_flags_def now_ns_def upd_state_def set_state_def)

lemma flags_orders [simp]:
  "stop_flags (mark_waiting_place ev p c s) = stop_flags s" "stop_flags (mark_waiting_cancel ev p c s) = stop_flags s"
  "stop_flags (erase_waiting_place p c s) = stop_flags s" "stop_flags (erase_waiting_cancel p c s) = stop_flags s"
  "stop_flags (clear_waiting_if_idle p s) = stop_flags s" "stop_flags (forget_order p c s) = stop_flags s"
  "stop_flags (bind_order_no o_no p c s) = stop_flags s" "stop_flags (snd (reserve_cid ev p s)) = stop_flags s"
  "stop_flags (mark_pending_record c p ty b px q s) = stop_flags s" "stop_flags (send_request r s) = stop_flags s"
  "stop_flags (log_order_record ev p c o_no ty ok ts msg s) = stop_flags s"
  "stop_flags (log_order_decision ev p pri st bs as s) = stop_flags s"
  by (simp_all add: mark_waiting_place_def mark_waiting_cancel_def mark_waiting_since_def erase_waiting_place_def
      erase_waiting_cancel_def clear_waiting_if_idle_def forget_order_def bind_order_no_def reserve_cid_def
      mark_pending_record_def send_request_def log_order_record_def log_order_decision_def now_ns_def Let_def
      stop_flags_def upd_state_def set_state_def split: option.splits)

lemma flags_submit [simp]:
  "stop_flags (submit_cancel ev p c s) = stop_flags s" "stop_flags (submit_place ev p b px q is_lim ro s) = stop_flags s"
  "stop_flags (submit_market_flatten ev p s) = stop_flags s"
  by (simp_all add: submit_cancel_def submit_place_def submit_market_flatten_def Let_def case_prod_unfold split: option.splits)

lemma flags_loops [simp]:
  "stop_flags (submit_cancels ev p cs s) = stop_flags s" "stop_flags (submit_places ev p b m s) = stop_flags s"
  "stop_flags (record_timed_out ev p ty cs s) = stop_flags s"
proof -
  show "stop_flags (submit_cancels ev p cs s) = stop_flags s"
    by (induction ev p cs s rule: submit_cancels.induct) simp_all
  show "stop_flags (submit_places ev p b m s) = stop_flags s"
    by (induction ev p b m s rule: submit_places.induct) simp_all
  show "stop_flags (record_timed_out ev p ty cs s) = stop_flags s"
    by (induction ev p ty cs s rule: record_timed_out.induct) simp_all
qed

lemma flags_update_orders: "stop_flags (update_orders ev p liq s) = stop_flags s"
proof -
  have info: "stop_flags (snd (build_price_info ev st s)) = stop_flags s" for st s
    using build_price_info_state [of ev st s] by auto
  have wait: "stop_flags (snd (await_responses ev p s)) = stop_flags s" for s
    by (simp add: await_responses_def clear_timed_out_def Let_def case_prod_unfold)
  show ?thesis
    by (simp add: update_orders_def act_on_decision_def Let_def case_prod_unfold info wait)
qed

lemma flags_handle_task: "handle_task ev t s = Inr s' \<Longrightarrow> stop_flags s' = stop_flags s"
  by (auto simp: handle_task_def process_market_data_def on_listener_status_def on_pricer_status_def
      on_listener_subscribe_def on_orderbook_def on_position_def on_product_info_def on_fair_price_def
      on_execution_def on_reject_def on_cancelled_def on_accepted_def on_fill_def on_order_response_def
      flags_update_orders Let_def case_prod_unfold
      split: trader_task.splits feed_kind.splits feed_payload.splits option.splits if_splits)

lemma flags_shut_step: "shut_step ev s s' \<Longrightarrow> stop_flags s' = stop_flags s"
  by (auto elim!: shut_step.cases drain_step.cases dest: flags_handle_task simp: flags_update_orders)

lemma flags_shuts: "shuts ev s s' \<Longrightarrow> stop_flags s' = stop_flags s"
  by (induction rule: rtranclp_induct) (simp_all add: flags_shut_step)

text \<open>The handler invariant survives the sequence.\<close>

lemma reads_shut_step: "shut_step ev s s' \<Longrightarrow> oh_clock_reads s \<le> oh_clock_reads s'"
  by (auto elim!: shut_step.cases drain_step.cases dest: reads_handle_task
      simp: reads_submit_cancel reads_update_orders submit_market_flatten_def reads_submit_place Let_def)

lemma reads_shuts: "shuts ev s s' \<Longrightarrow> oh_clock_reads s \<le> oh_clock_reads s'"
  by (induction rule: rtranclp_induct) (auto dest: reads_shut_step)

lemma inv_shut_step:
  assumes "shut_step ev s s'" "handler_inv ev s" "env_ok ev" "oh_clock_reads s' < 2 ^ 62"
  shows "handler_inv ev s'"
proof -
  have r: "oh_clock_reads s < 2 ^ 62" using reads_shut_step [OF assms(1)] assms(4) by simp
  have market: "handler_inv ev (submit_market_flatten ev p s)" if "om_has (oh_product_states s) p" for p
    using that inv_submit_place [OF assms(2,3) r] handler_inv_has [OF assms(2)] assms(2)
    by (simp add: submit_market_flatten_def Let_def)
  have drain: "handler_inv ev s'" if "drain_step ev s s'"
    using that
  proof cases
    case clock
    then show ?thesis using handler_inv_now [OF assms(2)] by simp
  next
    case (task t)
    then show ?thesis using inv_handle_task [OF assms(2,3) _ assms(4)] by blast
  next
    case (cancel p c)
    then show ?thesis using inv_submit_cancel [OF assms(2)] handler_inv_has [OF assms(2)] by simp
  qed
  show ?thesis
    using assms(1)
  proof cases
    case (liquidate p)
    then show ?thesis using inv_update_orders [OF assms(2,3)] assms(4) by simp
  qed (use drain market in auto)
qed

lemma inv_shuts: "shuts ev s s' \<Longrightarrow> handler_inv ev s \<Longrightarrow> env_ok ev \<Longrightarrow> oh_clock_reads s' < 2 ^ 62 \<Longrightarrow> handler_inv ev s'"
proof (induction rule: rtranclp_induct)
  case (step t u)
  then show ?case using reads_shut_step [OF step(2)] inv_shut_step [OF step(2)] by simp
qed simp

lemma waits_shuts:
  assumes "shuts ev s s'" "waits_ok s" "\<And>n. 0 < ev_clk ev n" shows "waits_ok s'"
  using assms(1,2)
proof (induction rule: rtranclp_induct)
  case (step t u)
  have now: "waits_ok (snd (now_ns ev t))" using step by (simp add: now_ns_def waits_ok_def)
  have market: "waits_ok (submit_market_flatten ev p t)" for p
    using step waits_submit_place [OF _ assms(3)] by (simp add: submit_market_flatten_def Let_def)
  from step(2) show ?case
  proof cases
    case drain
    then show ?thesis
      using step(3) now waits_handle_task [OF _ assms(3)] waits_submit_cancel [OF _ assms(3)]
      by (auto elim!: drain_step.cases)
  next
    case (liquidate p)
    then show ?thesis using waits_update_orders [OF step(3)] assms(3) step by simp
  qed (simp add: market)
qed simp

text \<open>While only draining, the sequence places no order.\<close>

lemma drain_step_places_nothing:
  assumes "drain_step ev s s'" "oh_shutting_down s"
  shows "place_cids (oh_sent s') = place_cids (oh_sent s)"
  using assms(1)
proof cases
  case (task t)
  have tick: "update_orders ev p False s = s" for p using assms(2) by (simp add: update_orders_def)
  show ?thesis
    using task
    by (auto simp: handle_task_def process_market_data_def on_listener_status_def on_pricer_status_def
        on_listener_subscribe_def on_orderbook_def on_position_def on_product_info_def on_fair_price_def
        oh_sent_on_execution oh_sent_on_order_response tick Let_def place_cids_def send_request_def
        split: trader_task.splits feed_kind.splits feed_payload.splits option.splits if_splits)
next
  case (cancel p c)
  then show ?thesis by (auto simp: submit_cancel_sent cancel_requests_def place_cids_def split: option.splits)
qed (simp add: now_ns_def)

lemma drains_places_nothing:
  assumes "drains ev s s'" "oh_shutting_down s"
  shows "place_cids (oh_sent s') = place_cids (oh_sent s)"
  using assms(1)
proof (induction rule: rtranclp_induct)
  case (step t u)
  have "oh_shutting_down t" using flags_shuts [OF drains_shuts [OF step(1)]] assms(2) by (simp add: stop_flags_def)
  then show ?case using step(3) drain_step_places_nothing [OF step(2)] by simp
qed simp

section \<open>What the cancel phase achieves\<close>

text \<open>The cancel loop ends with nothing outstanding or after a reading of the clock at or past its deadline.\<close>

definition read_past :: "handler_env \<Rightarrow> int \<Rightarrow> order_handler \<Rightarrow> order_handler \<Rightarrow> bool" where
  "read_past ev dl s s' \<longleftrightarrow> (\<exists>k. oh_clock_reads s \<le> k \<and> k < oh_clock_reads s' \<and> dl \<le> ev_clk ev k)"

lemma cancel_all_outcome:
  "cancel_all_orders ev arr dl f (s, n) = Some (Inr (s', n')) \<Longrightarrow> no_orders_outstanding s' \<or> read_past ev dl s s'"
proof (induction f arbitrary: s n)
  case (Suc f)
  have later: "read_past ev dl s s'" if "read_past ev dl t s'" "oh_clock_reads s \<le> oh_clock_reads t" for t
    using that by (auto simp: read_past_def intro: order_trans)
  have now: "read_past ev dl s (snd (now_ns ev s))" if "\<not> ev_clk ev (oh_clock_reads s) < dl"
    using that by (auto simp: read_past_def)
  have r: "oh_clock_reads s \<le> oh_clock_reads t"
    if "pump_until ev arr c d f (snd (now_ns ev (cancel_round ev ps (snd (now_ns ev s)))), n) = Some (Inr (t, m))" for c d ps t m
    using reads_pump [OF that] reads_cancel_round [of "snd (now_ns ev s)" ev ps] by simp
  show ?case
    using Suc.prems now by (auto simp: case_prod_unfold Let_def split: if_splits option.splits sum.splits
        dest!: Suc.IH intro: later r)
qed simp

end
