(* ===== verification/Shutdown_Properties.thy ===== *)
theory Shutdown_Properties
  imports Shutdown
begin

text \<open>
  The properties of the shutdown sequence: it ends on every clock that passes every deadline,
  whatever arrives while it runs; it keeps the handler's invariants; a cancel round reaches every
  order that can be cancelled; orders are left behind only after a full cancel timeout.
\<close>

section \<open>A cancel round\<close>

lemma submit_cancel_state:
  "st_outstanding_orders (state_of (submit_cancel ev p c s) q) = st_outstanding_orders (state_of s q)"
  "set (st_waiting_cancel (state_of (submit_cancel ev p c s) q)) =
     (if q = p \<and> om_has (st_cid_to_order_no (state_of s p)) c then insert c (set (st_waiting_cancel (state_of s p)))
      else set (st_waiting_cancel (state_of s q)))"
  by (simp_all add: submit_cancel_def Let_def mark_waiting_cancel_def state_of_mark_waiting_since om_has_def
      split: option.splits)

lemma cancel_requests_append: "cancel_requests st p (cs @ ds) = cancel_requests st p cs @ cancel_requests st p ds"
  by (simp add: cancel_requests_def)

lemma cancel_requests_cong:
  "st_cid_to_order_no st = st_cid_to_order_no st' \<Longrightarrow> cancel_requests st p cs = cancel_requests st' p cs"
  by (simp add: cancel_requests_def)

lemma cancel_requests_absent: "\<not> om_has (st_cid_to_order_no st) c \<Longrightarrow> cancel_requests st p (c # cs) = cancel_requests st p cs"
  by (simp add: cancel_requests_def om_has_def)

text \<open>The orders of a product that still need a cancel.\<close>

definition to_cancel :: "product_state \<Rightarrow> cid list \<Rightarrow> cid list" where
  "to_cancel st cs = filter (\<lambda>c. c \<notin> set (st_waiting_cancel st)) cs"

lemma cancel_cids_effect:
  "st_outstanding_orders (state_of (cancel_cids ev p cs s) q) = st_outstanding_orders (state_of s q)
   \<and> st_cid_to_order_no (state_of (cancel_cids ev p cs s) q) = st_cid_to_order_no (state_of s q)
   \<and> set (st_waiting_cancel (state_of (cancel_cids ev p cs s) q)) = set (st_waiting_cancel (state_of s q))
       \<union> (if q = p then {c \<in> set cs. om_has (st_cid_to_order_no (state_of s p)) c} else {})"
proof (induction cs arbitrary: s)
  case (Cons c cs)
  then show ?case by (auto simp: submit_cancel_state submit_cancel_sent)
qed simp

lemma cancel_cids_sent:
  "distinct cs \<Longrightarrow> oh_sent (cancel_cids ev p cs s) = oh_sent s @ cancel_requests (state_of s p) p (to_cancel (state_of s p) cs)"
proof (induction cs arbitrary: s)
  case Nil
  then show ?case by (simp add: cancel_requests_def to_cancel_def)
next
  case (Cons c cs)
  let ?t = "submit_cancel ev p c s"
  have filt: "to_cancel (state_of ?t p) cs = to_cancel (state_of s p) cs"
    using Cons.prems by (auto simp: to_cancel_def submit_cancel_state intro!: filter_cong)
  have "cancel_requests (state_of ?t p) p cs' = cancel_requests (state_of s p) p cs'" for cs'
    by (rule cancel_requests_cong) (simp add: submit_cancel_sent)
  then have "oh_sent (cancel_cids ev p cs ?t) = oh_sent s @ cancel_requests (state_of s p) p [c]
      @ cancel_requests (state_of s p) p (to_cancel (state_of s p) cs)"
    using Cons.IH [of ?t] Cons.prems by (simp add: submit_cancel_sent filt)
  then have sent: "oh_sent (cancel_cids ev p cs ?t) = oh_sent s @ cancel_requests (state_of s p) p (c # to_cancel (state_of s p) cs)"
    unfolding cancel_requests_append [symmetric] by simp
  show ?case
    using Cons.IH [of s] Cons.prems sent cancel_requests_absent [of "state_of s p" c p "to_cancel (state_of s p) cs"]
    by (simp add: to_cancel_def)
qed

lemma cancel_round_effect:
  "distinct ps \<Longrightarrow> st_outstanding_orders (state_of (cancel_round ev ps s) q) = st_outstanding_orders (state_of s q)
   \<and> st_cid_to_order_no (state_of (cancel_round ev ps s) q) = st_cid_to_order_no (state_of s q)
   \<and> set (st_waiting_cancel (state_of (cancel_round ev ps s) q)) = set (st_waiting_cancel (state_of s q))
       \<union> (if q \<in> set ps then {c \<in> set (om_keys (st_outstanding_orders (state_of s q))).
            om_has (st_cid_to_order_no (state_of s q)) c} else {})"
proof (induction ps arbitrary: s)
  case (Cons p ps)
  let ?t = "cancel_cids ev p (om_keys (st_outstanding_orders (state_of s p))) s"
  have other: "q \<noteq> p \<or> q \<notin> set ps" using Cons.prems by auto
  show ?case
    using Cons.IH [of ?t] Cons.prems other cancel_cids_effect [of ev p _ s q] by auto
qed simp

lemma state_of_cancel_cids_other: "q \<noteq> p \<Longrightarrow> state_of (cancel_cids ev p cs s) q = state_of s q"
proof (induction cs arbitrary: s)
  case (Cons c cs)
  have "state_of (submit_cancel ev p c s) q = state_of s q"
    using Cons.prems by (simp add: submit_cancel_def Let_def mark_waiting_cancel_def state_of_mark_waiting_since split: option.splits)
  then show ?case using Cons by simp
qed simp

definition round_requests :: "order_handler \<Rightarrow> product \<Rightarrow> gateway_request list" where
  "round_requests s p = cancel_requests (state_of s p) p
     (to_cancel (state_of s p) (om_keys (st_outstanding_orders (state_of s p))))"

lemma cancel_round_sent:
  "distinct ps \<Longrightarrow> \<forall>p. distinct (om_keys (st_outstanding_orders (state_of s p)))
    \<Longrightarrow> oh_sent (cancel_round ev ps s) = oh_sent s @ concat (map (round_requests s) ps)"
proof (induction ps arbitrary: s)
  case (Cons p ps)
  let ?t = "cancel_cids ev p (om_keys (st_outstanding_orders (state_of s p))) s"
  have "state_of ?t q = state_of s q" if "q \<in> set ps" for q
    using that Cons.prems(1) by (intro state_of_cancel_cids_other) auto
  then have same: "map (round_requests ?t) ps = map (round_requests s) ps"
    by (simp add: round_requests_def)
  have "\<forall>q. distinct (om_keys (st_outstanding_orders (state_of ?t q)))"
    using Cons.prems(2) cancel_cids_effect by simp
  then have "oh_sent (cancel_round ev ps ?t) = oh_sent ?t @ concat (map (round_requests s) ps)"
    using Cons.IH [of ?t] Cons.prems(1) unfolding same by simp
  moreover have "oh_sent ?t = oh_sent s @ round_requests s p"
    using Cons.prems(2) by (simp add: cancel_cids_sent round_requests_def)
  ultimately show ?case by simp
qed simp

lemma om_inv_distinct_keys: "om_inv m \<Longrightarrow> distinct (om_keys m)"
  by (auto simp: om_inv_def om_keys_def strict_sorted_iff)

lemma inv_distinct:
  assumes "handler_inv ev s"
  shows "distinct (om_keys (oh_product_states s))" "\<forall>p. distinct (om_keys (st_outstanding_orders (state_of s p)))"
  using assms handler_inv_state [OF assms] by (auto simp: handler_inv_def state_ok_def intro: om_inv_distinct_keys)

lemma inv_cancel_cids:
  "handler_inv ev s \<Longrightarrow> p \<in> set (ev_trade_products ev) \<Longrightarrow> handler_inv ev (cancel_cids ev p cs s)"
  by (induction cs arbitrary: s) (simp_all add: inv_submit_cancel)

lemma inv_cancel_round:
  "handler_inv ev s \<Longrightarrow> set ps \<subseteq> set (ev_trade_products ev) \<Longrightarrow> handler_inv ev (cancel_round ev ps s)"
  by (induction ps arbitrary: s) (simp_all add: inv_cancel_cids)

lemma any_cancellable_state:
  assumes "handler_inv ev s" "any_cancellable s"
  obtains p c where "om_has (oh_product_states s) p" "om_has (st_outstanding_orders (state_of s p)) c"
    "om_has (st_cid_to_order_no (state_of s p)) c" "c \<notin> set (st_waiting_cancel (state_of s p))"
proof -
  obtain p st c oo where e: "(p, st) \<in> set (oh_product_states s)" "(c, oo) \<in> set (st_outstanding_orders st)"
    "om_has (st_cid_to_order_no st) c" "c \<notin> set (st_waiting_cancel st)"
    using assms(2) by (auto simp: any_cancellable_def list_ex_iff)
  have "om_inv (oh_product_states s)" using assms(1) by (simp add: handler_inv_def)
  then have "distinct (map fst (oh_product_states s))" using om_inv_distinct_keys om_keys_def by metis
  then have st: "state_of s p = st" using e(1) by (simp add: state_of_def om_at_def)
  show ?thesis by (rule that [of p c]) (use e st in \<open>auto simp: om_has_iff image_iff intro: bexI [rotated]\<close>)
qed

section \<open>An example environment\<close>

text \<open>One product, a clock that moves by ten seconds per reading.\<close>

definition stop_env :: handler_env where
  "stop_env = demo_env\<lparr>ev_clk := \<lambda>n. 10000000000 * (int n + 1)\<rparr>"

lemma time_passes_stop_env: "time_passes stop_env"
proof -
  have "d \<le> 10000000000 * (int n + 1)" if "nat d \<le> n" for d n
  proof -
    have "d \<le> int n" using that by linarith
    also have "int n \<le> 10000000000 * (int n + 1)" by simp
    finally show ?thesis .
  qed
  then show ?thesis by (auto simp: time_passes_def passed_by_def stop_env_def)
qed

lemma stop_env_sel [simp]:
  "ev_shutdown_cancel_timeout_ns stop_env = 5000000000" "ev_shutdown_flatten_timeout_ns stop_env = 5000000000"
  "ev_flatten_on_shutdown stop_env" "ev_shutdown_market_flatten stop_env" "ev_shutdown_reduce_only stop_env"
  "ev_trade_products stop_env = [''A'']" "ev_clk stop_env n = 10000000000 * (int n + 1)"
  "ev_default_lot_size stop_env = Fin 1" "ev_min_tick_size stop_env = Fin 1"
  by (simp_all add: stop_env_def demo_env_def env_of_def demo_config_def demo_market_def s64_id)

lemma demo_resting_inv: "handler_inv stop_env demo_resting"
  by (auto simp: handler_inv_def demo_resting_def order_handler_init_def om_inv_def om_has_def upd_state_def set_state_def
      state_ok_def state_ids_def place_cids_def state_of_def om_at_def product_state_init_def)

lemmas stop_eval = shutdown_def now_split Let_def then_do_def flatten_positions_def no_orders_outstanding_def
  all_flat_def demo_resting_def order_handler_init_def upd_state_def set_state_def om_has_def state_of_def om_at_def
  product_state_init_def now_ns_def

lemma stop_run: "\<exists>s n. shutdown stop_env arr 1 (demo_resting, 0) = Some (Inr (s, n))
    \<and> oh_clock_reads s = 5 \<and> \<not> no_orders_outstanding s"
  by (simp add: stop_eval)

section \<open>What a shutdown leaves\<close>

lemma shutdown_outcome:
  assumes "shutdown ev arr f (s, n) = Some (Inr (s', n'))" "\<not> oh_shutdown_done s"
  shows "no_orders_outstanding s' \<or> (\<exists>j k. oh_clock_reads s \<le> j \<and> j < k \<and> k < oh_clock_reads s'
      \<and> ev_clk ev j + ev_shutdown_cancel_timeout_ns ev \<le> ev_clk ev k)"
proof -
  let ?elapsed = "\<exists>j k. oh_clock_reads s \<le> j \<and> j < k \<and> k < oh_clock_reads s'
      \<and> ev_clk ev j + ev_shutdown_cancel_timeout_ns ev \<le> ev_clk ev k"
  obtain s2 n2 where c: "cancel_all_orders ev arr (ev_clk ev (oh_clock_reads s) + ev_shutdown_cancel_timeout_ns ev) f
       (snd (now_ns ev (stopping s)), n) = Some (Inr (s2, n2))"
    and off: "\<not> ev_flatten_on_shutdown ev \<Longrightarrow> s' = s2"
    and on: "ev_flatten_on_shutdown ev \<Longrightarrow> \<exists>s4 n4.
       flatten_positions ev arr (ev_clk ev (oh_clock_reads s2) + ev_shutdown_flatten_timeout_ns ev) f
         (snd (now_ns ev s2), n2) = Some (Inr (s4, n4))
       \<and> (if no_orders_outstanding s4 then s' = s4
          else cancel_all_orders ev arr (ev_clk ev (oh_clock_reads s4) + ev_shutdown_cancel_timeout_ns ev) f
            (snd (now_ns ev s4), n4) = Some (Inr (s', n')))"
    using shutdown_phases [OF assms] by blast
  have r2: "Suc (oh_clock_reads s) \<le> oh_clock_reads s2"
    using reads_shuts [OF drains_shuts [OF drains_cancel_all [OF c]]] by simp
  show ?thesis
  proof (cases "ev_flatten_on_shutdown ev")
    case False
    then show ?thesis using cancel_all_outcome [OF c] off unfolding read_past_def by fastforce
  next
    case True
    then obtain s4 n4 where f4: "flatten_positions ev arr (ev_clk ev (oh_clock_reads s2) + ev_shutdown_flatten_timeout_ns ev) f
         (snd (now_ns ev s2), n2) = Some (Inr (s4, n4))"
      and c4: "if no_orders_outstanding s4 then s' = s4
          else cancel_all_orders ev arr (ev_clk ev (oh_clock_reads s4) + ev_shutdown_cancel_timeout_ns ev) f
            (snd (now_ns ev s4), n4) = Some (Inr (s', n'))"
      using on by blast
    have "oh_clock_reads s \<le> oh_clock_reads s4" using reads_shuts [OF shuts_flatten [OF f4]] r2 by simp
    then show ?thesis using c4 cancel_all_outcome unfolding read_past_def by (fastforce split: if_splits)
  qed
qed

section \<open>Properties\<close>

text \<open>
  C4. Shutdown always ends: on a clock that passes every deadline there is a result that every
  sufficiently large amount of fuel yields, whatever tasks arrive while the sequence waits.
\<close>

theorem shutdown_terminates:
  assumes "time_passes ev"
  shows "\<exists>k r. \<forall>f \<ge> k. shutdown ev arr f (s, n) = Some r"
  using settles_shutdown [OF assms] by (auto simp: settles_def)

theorem shutdown_terminates_witness: "\<exists>f r. shutdown stop_env (\<lambda>n. Some (OrderUpdateTask ''A'')) f (demo_resting, 0) = Some r"
  using shutdown_terminates [OF time_passes_stop_env] by blast

text \<open>
  C7. A shutdown leaves an order behind only after waiting for it: when it returns, either no order is
  outstanding, or the clock was read at least one full cancel timeout after an earlier reading.
\<close>

theorem shutdown_orders_gone_or_timeout:
  assumes "shutdown ev arr f (s, n) = Some (Inr (s', n'))" "\<not> oh_shutdown_done s"
  shows "no_orders_outstanding s' \<or> (\<exists>j k. oh_clock_reads s \<le> j \<and> j < k \<and> k < oh_clock_reads s'
      \<and> ev_clk ev j + ev_shutdown_cancel_timeout_ns ev \<le> ev_clk ev k)"
  by (rule shutdown_outcome [OF assms])

theorem shutdown_orders_gone_or_timeout_witness:
  "\<exists>s n. shutdown stop_env (\<lambda>n. None) 1 (demo_resting, 0) = Some (Inr (s, n)) \<and> \<not> no_orders_outstanding s
     \<and> (\<exists>j k. j < k \<and> k < oh_clock_reads s \<and> ev_clk stop_env j + 5000000000 \<le> ev_clk stop_env k)"
proof -
  obtain s n where s: "shutdown stop_env (\<lambda>n. None) 1 (demo_resting, 0) = Some (Inr (s, n))" "\<not> no_orders_outstanding s"
    using stop_run by blast
  show ?thesis
    using shutdown_orders_gone_or_timeout [OF s(1)] s
    by (simp add: demo_resting_def order_handler_init_def upd_state_def set_state_def)
qed

text \<open>
  C36. Every task handled and every order sent during a shutdown keeps the handler's invariants: routing
  and fresh, sound orders, and waits that have a start time.  The handler stays marked as shut down,
  and a second call does nothing.
\<close>

theorem shutdown_keeps_handler_sound:
  assumes "shutdown ev arr f (s, n) = Some (Inr (s', n'))" "handler_inv ev s" "waits_ok s" "env_ok ev"
    "\<forall>n. 0 < ev_clk ev n" "oh_clock_reads s' < 2 ^ 62"
  shows "handler_inv ev s' \<and> waits_ok s' \<and> oh_shutdown_done s'
    \<and> shutdown ev arr' f' (s', m) = Some (Inr (s', m))"
proof (cases "oh_shutdown_done s")
  case True
  then show ?thesis using assms by (simp add: shutdown_def)
next
  case False
  note reach = shuts_shutdown(1) [OF assms(1) False]
  have start: "handler_inv ev (stopping s)" "waits_ok (stopping s)"
    using assms(2,3) by (simp_all add: handler_inv_def waits_ok_def state_of_def)
  have "oh_shutdown_done s'" using flags_shuts [OF reach] by (simp add: stop_flags_def)
  then show ?thesis
    using inv_shuts [OF reach start(1) assms(4,6)] waits_shuts [OF reach start(2)] assms(5)
    by (simp add: shutdown_def)
qed

theorem shutdown_keeps_handler_sound_witness:
  "\<exists>s n. shutdown (stop_env\<lparr>ev_clk := demo_clock\<rparr>) (\<lambda>n. None) 1 (order_handler_init [''A''], 0) = Some (Inr (s, n))
     \<and> handler_inv (stop_env\<lparr>ev_clk := demo_clock\<rparr>) s \<and> oh_shutdown_done s"
proof -
  let ?ev = "stop_env\<lparr>ev_clk := demo_clock\<rparr>" and ?s = "order_handler_init [''A'']"
  obtain s n where s: "shutdown ?ev (\<lambda>n. None) 1 (?s, 0) = Some (Inr (s, n))" "oh_clock_reads s = 2"
    by (simp add: stop_eval)
  have "handler_inv ?ev ?s" by (rule inv_init) simp
  moreover have "waits_ok ?s" by (simp add: waits_ok_def wait_ok_def no_waiting_orders_def product_state_init_def)
  moreover have "env_ok ?ev" by (simp add: env_ok_def demo_clock_def)
  ultimately have "handler_inv ?ev s \<and> waits_ok s \<and> oh_shutdown_done s
      \<and> shutdown ?ev (\<lambda>n. None) 1 (s, 0) = Some (Inr (s, 0))"
    using s(2) by (intro shutdown_keeps_handler_sound [OF s(1)]) (simp_all add: demo_clock_def)
  then show ?thesis using s by blast
qed

text \<open>
  C40. One cancel round sends one cancel for every resting order whose exchange number is known and that
  has no cancel in flight, in the order of products and client ids, and nothing else; afterwards no
  order is left that could be cancelled.
\<close>

theorem cancel_round_complete:
  assumes "handler_inv ev s"
  shows "oh_sent (cancel_round ev (om_keys (oh_product_states s)) s)
      = oh_sent s @ concat (map (\<lambda>p. cancel_requests (state_of s p) p
          (filter (\<lambda>c. c \<notin> set (st_waiting_cancel (state_of s p))) (om_keys (st_outstanding_orders (state_of s p)))))
        (om_keys (oh_product_states s)))
    \<and> \<not> any_cancellable (cancel_round ev (om_keys (oh_product_states s)) s)"
proof
  show "oh_sent (cancel_round ev (om_keys (oh_product_states s)) s)
      = oh_sent s @ concat (map (\<lambda>p. cancel_requests (state_of s p) p
          (filter (\<lambda>c. c \<notin> set (st_waiting_cancel (state_of s p))) (om_keys (st_outstanding_orders (state_of s p)))))
        (om_keys (oh_product_states s)))"
    using cancel_round_sent [OF inv_distinct [OF assms], of ev] unfolding round_requests_def to_cancel_def .
  let ?t = "cancel_round ev (om_keys (oh_product_states s)) s"
  have keys: "set (om_keys (oh_product_states s)) = set (ev_trade_products ev)"
    using handler_inv_has [OF assms] by (auto simp: om_has_iff om_keys_def)
  have t: "handler_inv ev ?t" using inv_cancel_round [OF assms] keys by simp
  show "\<not> any_cancellable ?t"
  proof
    assume "any_cancellable ?t"
    then obtain p c where "om_has (oh_product_states ?t) p" "om_has (st_outstanding_orders (state_of ?t p)) c"
      "om_has (st_cid_to_order_no (state_of ?t p)) c" "c \<notin> set (st_waiting_cancel (state_of ?t p))"
      using any_cancellable_state [OF t] by blast
    then show False
      using cancel_round_effect [OF inv_distinct(1) [OF assms], of ev s p] handler_inv_has [OF t] keys
      by (simp add: om_has_iff om_keys_def)
  qed
qed

theorem cancel_round_complete_witness:
  "oh_sent (cancel_round stop_env [''A''] demo_resting) =
     [CancelOrder \<lparr>oc_order_no = ''X'', oc_cancel_all = True, oc_is_limit = True, oc_qty = Fin 0,
        oc_product = ''A'', oc_cid = 5\<rparr>]"
proof -
  have k: "om_keys (oh_product_states demo_resting) = [''A'']"
    by (simp add: demo_resting_def order_handler_init_def upd_state_def set_state_def om_has_def om_keys_def)
  show ?thesis
    using cancel_round_complete [OF demo_resting_inv, unfolded k] demo_resting_state
    by (simp add: cancel_requests_def om_keys_def product_state_init_def)
      (simp add: demo_resting_def order_handler_init_def)
qed

text \<open>
  With flattening switched off a shutdown places no order at all, whatever decision ticks were
  still queued: only cancels and the notifications the handled tasks cause reach the gateway.
\<close>

theorem shutdown_without_flatten_places_nothing:
  assumes "shutdown ev arr f (s, n) = Some (Inr (s', n'))" "\<not> oh_shutdown_done s" "\<not> ev_flatten_on_shutdown ev"
  shows "place_cids (oh_sent s') = place_cids (oh_sent s)"
  using drains_places_nothing [OF shuts_shutdown(2) [OF assms]] by simp

theorem shutdown_without_flatten_places_nothing_witness:
  "\<exists>s n. shutdown (stop_env\<lparr>ev_flatten_on_shutdown := False\<rparr>) (\<lambda>n. Some (OrderUpdateTask ''A'')) 1 (demo_resting, 0)
     = Some (Inr (s, n)) \<and> place_cids (oh_sent s) = []"
proof -
  obtain s n where s: "shutdown (stop_env\<lparr>ev_flatten_on_shutdown := False\<rparr>) (\<lambda>n. Some (OrderUpdateTask ''A'')) 1 (demo_resting, 0)
     = Some (Inr (s, n))"
    by (simp add: stop_eval)
  show ?thesis
    using shutdown_without_flatten_places_nothing [OF s] s
    by (simp add: demo_resting_def order_handler_init_def upd_state_def set_state_def place_cids_def)
qed

text \<open>
  The market order that closes a position is on the reducing side, for the whole position, never
  enters the outstanding orders, and carries the configured reduce-only flag; it is withheld when
  the position is flat or its size does not fit the product's quantity grid.
\<close>

theorem market_flatten_closes_position:
  assumes "- (2 ^ 31) < st_position_in_lots (state_of s p)" "st_position_in_lots (state_of s p) < 2 ^ 31"
  shows "st_outstanding_orders (state_of (submit_market_flatten ev p s) q) = st_outstanding_orders (state_of s q)
    \<and> (oh_sent (submit_market_flatten ev p s) = oh_sent s
       \<and> (st_position_in_lots (state_of s p) = 0
          \<or> fst (snap_qty_to_product_grid (st_product_info (state_of s p))
               (oh_double_qty ev \<bar>st_position_in_lots (state_of s p)\<bar>)) = False)
     \<or> (\<exists>c. oh_sent (submit_market_flatten ev p s) = oh_sent s @ [PlaceOrder \<lparr>op_is_limit = False,
           op_is_bid = (st_position_in_lots (state_of s p) < 0), op_price = Fin 0,
           op_qty = snd (snap_qty_to_product_grid (st_product_info (state_of s p))
             (oh_double_qty ev \<bar>st_position_in_lots (state_of s p)\<bar>)),
           op_product = p, op_cid = c, op_reduce_only = ev_shutdown_reduce_only ev\<rparr>]))"
proof -
  let ?pos = "st_position_in_lots (state_of s p)"
  have size: "(if 0 < ?pos then ?pos else s32 (- ?pos)) = \<bar>?pos\<bar>" using assms by (auto simp: s32_id)
  show ?thesis
    unfolding submit_market_flatten_def size Let_def
    by (auto simp: submit_place_def Let_def case_prod_unfold mark_waiting_place_def state_of_mark_waiting_since)
qed

theorem market_flatten_closes_position_witness:
  "\<exists>c. oh_sent (submit_market_flatten stop_env ''A'' (upd_state ''A'' (\<lambda>st. st\<lparr>st_position_in_lots := - 3\<rparr>) demo_resting))
     = [PlaceOrder \<lparr>op_is_limit = False, op_is_bid = True, op_price = Fin 0, op_qty = Fin 3, op_product = ''A'',
          op_cid = c, op_reduce_only = True\<rparr>]"
proof -
  let ?s = "upd_state ''A'' (\<lambda>st. st\<lparr>st_position_in_lots := - 3\<rparr>) demo_resting"
  have q: "snap_qty_to_product_grid (st_product_info product_state_init) (oh_double_qty stop_env 3) = (True, Fin 3)"
    by (simp add: product_state_init_def product_info_init_def snap_qty_to_product_grid_def
        oh_double_qty_def d_of_int_def value_or_def)
  have sent: "oh_sent ?s = []" by (simp add: demo_resting_def order_handler_init_def)
  show ?thesis
    using market_flatten_closes_position [of ?s "''A''" stop_env] by (simp add: demo_resting_state q sent [simplified])
qed

end
