(* ===== verification/Stop_Signal.thy ===== *)
theory Stop_Signal
  imports Prelude
begin

text \<open>
  The process-wide stop flag and its signal handler (\<open>utils/shutdown.cpp\<close>).  The two atomics are
  the state, with the lines written to the console and the signal re-raised under its default
  action; a signal carries the second its handler reads from the monotonic clock.  The first
  branch of the handler is two stores, modelled apart, since a handler can be interrupted by the
  other signal or run beside it on another thread.
\<close>

datatype stop_line = Stopping | AlreadyRunning | Forced

datatype stop_signal = SIGINT | SIGTERM

record stop_state =
  ss_requested :: bool
  ss_first_sec :: int
  ss_console :: "stop_line list"
  ss_raised :: "stop_signal option"

definition stop_state_init :: stop_state where
  "stop_state_init = \<lparr>ss_requested = False, ss_first_sec = 0, ss_console = [], ss_raised = None\<rparr>"

definition SHUTDOWN_GRACE_SEC :: int where
  "SHUTDOWN_GRACE_SEC = 5"

definition say :: "stop_line \<Rightarrow> stop_state \<Rightarrow> stop_state" where
  "say msg s = s\<lparr>ss_console := ss_console s @ [msg]\<rparr>"

definition exchange_requested :: "stop_state \<Rightarrow> bool \<times> stop_state" where
  "exchange_requested s = (ss_requested s, s\<lparr>ss_requested := True\<rparr>)"

definition store_first :: "int \<Rightarrow> stop_state \<Rightarrow> stop_state" where
  "store_first now s = say Stopping (s\<lparr>ss_first_sec := now\<rparr>)"

definition repeat_signal :: "stop_signal \<Rightarrow> int \<Rightarrow> stop_state \<Rightarrow> stop_state" where
  "repeat_signal sig now s =
     (if now - ss_first_sec s < SHUTDOWN_GRACE_SEC then say AlreadyRunning s
      else (say Forced s)\<lparr>ss_raised := Some sig\<rparr>)"

definition on_shutdown_signal :: "stop_signal \<Rightarrow> int \<Rightarrow> stop_state \<Rightarrow> stop_state" where
  "on_shutdown_signal sig now s =
     (case exchange_requested s of (was, s1) \<Rightarrow>
        if \<not> was then store_first now s1 else repeat_signal sig now s1)"

definition request_shutdown :: "int \<Rightarrow> stop_state \<Rightarrow> stop_state" where
  "request_shutdown now s =
     (case exchange_requested s of (was, s1) \<Rightarrow> if \<not> was then s1\<lparr>ss_first_sec := now\<rparr> else s1)"

definition shutdown_requested :: "stop_state \<Rightarrow> bool" where
  "shutdown_requested s = ss_requested s"

lemmas stop_defs = on_shutdown_signal_def request_shutdown_def exchange_requested_def store_first_def repeat_signal_def
  say_def SHUTDOWN_GRACE_SEC_def

section \<open>Handlers that run one after the other\<close>

fun signals :: "(stop_signal \<times> int) list \<Rightarrow> stop_state \<Rightarrow> stop_state" where
  "signals [] s = s"
| "signals ((sig, now) # rest) s = signals rest (on_shutdown_signal sig now s)"

lemma signals_keep_first:
  "ss_requested s \<Longrightarrow> ss_requested (signals xs s) \<and> ss_first_sec (signals xs s) = ss_first_sec s"
  by (induction xs s rule: signals.induct) (simp_all add: stop_defs)

lemma signals_early_harmless:
  assumes "ss_requested s" "list_all (\<lambda>(sig, now). now < ss_first_sec s + SHUTDOWN_GRACE_SEC) xs"
  shows "ss_raised (signals xs s) = ss_raised s"
  using assms by (induction xs s rule: signals.induct) (simp_all add: stop_defs)

text \<open>
  The first signal requests the shutdown; repeats less than five seconds later do not end the process,
  whatever their number, and the first one after that does.
\<close>

lemma grace_period:
  assumes "list_all (\<lambda>(sig, now). now < t0 + 5) early" "t0 + 5 \<le> t1"
  shows "shutdown_requested (signals ((sig0, t0) # early) stop_state_init)
    \<and> ss_raised (signals ((sig0, t0) # early) stop_state_init) = None
    \<and> ss_raised (signals [(sig1, t1)] (signals ((sig0, t0) # early) stop_state_init)) = Some sig1"
proof -
  let ?s = "on_shutdown_signal sig0 t0 stop_state_init"
  have s: "ss_requested ?s" "ss_first_sec ?s = t0" "ss_raised ?s = None"
    by (simp_all add: stop_defs stop_state_init_def)
  have "ss_raised (signals early ?s) = None"
    using signals_early_harmless [OF s(1)] s assms(1) by (simp add: SHUTDOWN_GRACE_SEC_def)
  moreover have "ss_requested (signals early ?s)" "ss_first_sec (signals early ?s) = t0"
    using signals_keep_first [OF s(1)] s(2) by simp_all
  ultimately show ?thesis using assms(2) by (simp add: shutdown_requested_def stop_defs)
qed

section \<open>Overlapping handlers\<close>

text \<open>
  A second signal that runs between the two stores of the first one, at any time after the
  fifth second of the clock, reads a first second of 0 and ends the process without a grace period.
\<close>

lemma overlapping_signals_skip_grace:
  assumes "exchange_requested stop_state_init = (False, s)" "5 \<le> now"
  shows "ss_raised (on_shutdown_signal sig now s) = Some sig"
  using assms by (auto simp: stop_defs stop_state_init_def)

section \<open>The console and the clock\<close>

text \<open>\<open>monotonic_sec\<close>: the seconds of \<open>clock_gettime\<close>, which returns \<open>None\<close> when it fails.\<close>

definition monotonic_sec :: "int option \<Rightarrow> int" where
  "monotonic_sec ts = (case ts of None \<Rightarrow> 0 | Some tv_sec \<Rightarrow> tv_sec)"

text \<open>
  The loop of \<open>say\<close>: \<open>write(2)\<close> takes any part of what is left, its results being \<open>w\<close>; the value is what
  reached the console.
\<close>

function say_loop :: "(nat \<Rightarrow> int) \<Rightarrow> nat \<Rightarrow> string \<Rightarrow> string" where
  "say_loop w i left =
     (if left = [] then []
      else if w i \<le> 0 then []
      else take (nat (w i)) left @ say_loop w (Suc i) (drop (nat (w i)) left))"
  by auto

termination
  by (relation "measure (\<lambda>(w, i, left). length left)") auto

declare say_loop.simps [simp del]

text \<open>Nothing is written twice or out of order, and the whole line is when no write fails.\<close>

lemma say_loop_prefix: "\<exists>rest. msg = say_loop w i msg @ rest"
proof (induction w i msg rule: say_loop.induct)
  case (1 w i left)
  show ?case
  proof (cases "left = [] \<or> w i \<le> 0")
    case False
    then obtain rest where rest: "drop (nat (w i)) left = say_loop w (Suc i) (drop (nat (w i)) left) @ rest" using 1 by auto
    have "left = take (nat (w i)) left @ drop (nat (w i)) left" by simp
    also have "\<dots> = (take (nat (w i)) left @ say_loop w (Suc i) (drop (nat (w i)) left)) @ rest"
      by (subst rest) simp
    also have "take (nat (w i)) left @ say_loop w (Suc i) (drop (nat (w i)) left) = say_loop w i left"
      using False by (subst (2) say_loop.simps) simp
    finally show ?thesis by blast
  qed (auto simp: say_loop.simps [of w i left])
qed

lemma say_loop_complete: "\<forall>j. 0 < w j \<Longrightarrow> say_loop w i msg = msg"
proof (induction w i msg rule: say_loop.induct)
  case (1 w i left)
  have "\<not> w i \<le> 0" using 1(2) by (simp add: not_le)
  then show ?case using 1 by (cases "left = []") (simp_all add: say_loop.simps [of w i left] say_loop.simps [of w i "[]"])
qed

end
