(* ===== verification/Pricer.thy ===== *)
theory Pricer
  imports Msg_Types
begin

text \<open>
  The pricer process: the market state it accumulates (\<open>pricer/market_state.hpp\<close>), the factors
  (\<open>pricer/factor\<close>), the fair-price calculator (\<open>pricer/fair_price\<close>) and the service that ties
  them to the listener feed and the publish timer (\<open>pricer/pricer.cpp\<close>).

  \<open>std::pow\<close>, whose results the language leaves to the library's precision, and the JSON writer
  are members of the environment; a failed write is \<open>None\<close>.  The virtual methods of \<open>BaseFactor\<close>
  are the function arguments \<open>fcompute\<close> and \<open>fvol\<close> of the calculator.  Calls on the listener client and on the TCP server are
  recorded in the state, in order.
\<close>

section \<open>Market state\<close>

record market_state =
  ms_ts :: int
  ms_bbid_price :: dbl
  ms_bask_price :: dbl
  ms_bbid_qty :: dbl
  ms_bask_qty :: dbl
  ms_last_trade_price :: dbl
  ms_cum_trade_qty :: dbl
  ms_cum_buy_trade_qty :: dbl

definition market_state_init :: market_state where
  "market_state_init = \<lparr>ms_ts = 0, ms_bbid_price = NaN, ms_bask_price = NaN, ms_bbid_qty = Fin 0,
     ms_bask_qty = Fin 0, ms_last_trade_price = NaN, ms_cum_trade_qty = NaN, ms_cum_buy_trade_qty = NaN\<rparr>"

definition has_two_sided_book :: "market_state \<Rightarrow> bool" where
  "has_two_sided_book m \<longleftrightarrow> \<not> isnan (ms_bbid_price m) \<and> \<not> isnan (ms_bask_price m)
     \<and> d_lt (Fin 0) (ms_bbid_price m) \<and> d_lt (Fin 0) (ms_bask_price m)"

definition ms_mid_price :: "market_state \<Rightarrow> dbl" where
  "ms_mid_price m = d_div (d_add (ms_bbid_price m) (ms_bask_price m)) (Fin 2)"

section \<open>Factors\<close>

record factor_config =
  fc_name :: string
  fc_factor_name :: string
  fc_ema_alpha :: dbl
  fc_cap_bp :: dbl

definition factor_config_init :: factor_config where
  "factor_config_init = \<lparr>fc_name = [], fc_factor_name = ''Microprice'', fc_ema_alpha = Fin 1, fc_cap_bp = Fin 20\<rparr>"

record base_factor =
  bf_ema_alpha :: dbl
  bf_cap_bp :: dbl
  bf_ema_factor :: "dbl option"

definition clamp_factor :: "'a base_factor_scheme \<Rightarrow> dbl \<Rightarrow> dbl" where
  "clamp_factor f x =
     (let cap = d_div (bf_cap_bp f) (Fin 10000) in d_clamp x (d_sub (Fin 1) cap) (d_add (Fin 1) cap))"

definition apply_ema :: "dbl \<Rightarrow> 'a base_factor_scheme \<Rightarrow> dbl \<times> 'a base_factor_scheme" where
  "apply_ema raw f =
     (let v = (case bf_ema_factor f of
                 None \<Rightarrow> raw
               | Some e \<Rightarrow> if d_le (Fin 1) (bf_ema_alpha f) then raw
                   else d_add (d_mul (bf_ema_alpha f) raw) (d_mul (d_sub (Fin 1) (bf_ema_alpha f)) e))
      in (v, f\<lparr>bf_ema_factor := Some v\<rparr>))"

definition base_forward_vol_bp :: "'a base_factor_scheme \<Rightarrow> dbl" where
  "base_forward_vol_bp f = Fin 1"

record microprice_params =
  mp_imbalance_exponent :: dbl

record microprice_factor = base_factor +
  mf_params :: microprice_params

definition make_microprice_factor :: "factor_config \<Rightarrow> microprice_params \<Rightarrow> microprice_factor" where
  "make_microprice_factor c ps = \<lparr>bf_ema_alpha = fc_ema_alpha c, bf_cap_bp = fc_cap_bp c, bf_ema_factor = None,
     mf_params = ps\<rparr>"

definition microprice_compute ::
  "(dbl \<Rightarrow> dbl \<Rightarrow> dbl) \<Rightarrow> microprice_factor \<Rightarrow> market_state \<Rightarrow> dbl option \<times> microprice_factor" where
  "microprice_compute pow f m =
     (if \<not> has_two_sided_book m then (None, f)
      else let mid = ms_mid_price m in
        if d_le mid (Fin 0) then (None, f)
        else let bbid_weight = pow (ms_bask_qty m) (mp_imbalance_exponent (mf_params f));
                 bask_weight = pow (ms_bbid_qty m) (mp_imbalance_exponent (mf_params f));
                 total_weight = d_add bbid_weight bask_weight
          in if \<not> d_lt (Fin 0) total_weight then (None, f)
             else let microprice = d_div (d_add (d_mul (ms_bbid_price m) bbid_weight)
                                              (d_mul (ms_bask_price m) bask_weight)) total_weight
               in case apply_ema (clamp_factor f (d_div microprice mid)) f of (v, f') \<Rightarrow> (Some v, f'))"

definition init_factor :: "factor_config \<Rightarrow> microprice_params \<Rightarrow> microprice_factor option" where
  "init_factor c ps = (if fc_factor_name c = ''Microprice'' then Some (make_microprice_factor c ps) else None)"

section \<open>The fair-price calculator\<close>

datatype fair_price_mode = MID | VWAP | FACTOR

definition fair_price_mode_from_string :: "string \<Rightarrow> fair_price_mode" where
  "fair_price_mode_from_string s = (if s = ''VWAP'' then VWAP else if s = ''FACTOR'' then FACTOR else MID)"

fun fair_price_mode_name :: "fair_price_mode \<Rightarrow> string" where
  "fair_price_mode_name VWAP = ''VWAP''"
| "fair_price_mode_name FACTOR = ''FACTOR''"
| "fair_price_mode_name MID = ''MID''"

record fair_price_result =
  res_mid_price :: dbl
  res_fair_price :: dbl
  res_factor :: dbl
  res_forward_vol_bp :: dbl

definition fair_price_result_init :: fair_price_result where
  "fair_price_result_init = \<lparr>res_mid_price = NaN, res_fair_price = NaN, res_factor = NaN, res_forward_vol_bp = Fin 1\<rparr>"

definition priceable :: "fair_price_result \<Rightarrow> bool" where
  "priceable r \<longleftrightarrow> \<not> isnan (res_fair_price r)"

record 'f fair_price_calculator =
  fpc_mode :: fair_price_mode
  fpc_factor :: "'f option"

definition compute_vwap :: "market_state \<Rightarrow> dbl" where
  "compute_vwap m =
     (let total_qty = d_add (ms_bbid_qty m) (ms_bask_qty m) in
      if \<not> d_lt (Fin 0) total_qty then NaN
      else d_div (d_add (d_mul (ms_bbid_price m) (ms_bask_qty m)) (d_mul (ms_bask_price m) (ms_bbid_qty m))) total_qty)"

definition calculator_compute ::
  "('f \<Rightarrow> market_state \<Rightarrow> dbl option \<times> 'f) \<Rightarrow> ('f \<Rightarrow> dbl) \<Rightarrow> 'f fair_price_calculator \<Rightarrow> market_state
     \<Rightarrow> fair_price_result \<times> 'f fair_price_calculator" where
  "calculator_compute fcompute fvol c m =
     (if \<not> has_two_sided_book m then (fair_price_result_init, c)
      else let r = fair_price_result_init\<lparr>res_mid_price := ms_mid_price m\<rparr> in
        case fpc_mode c of
          MID \<Rightarrow> (r\<lparr>res_fair_price := res_mid_price r\<rparr>, c)
        | VWAP \<Rightarrow> let vwap = compute_vwap m in
            (r\<lparr>res_fair_price := (if isnan vwap then res_mid_price r else vwap)\<rparr>, c)
        | FACTOR \<Rightarrow>
            (case (case fpc_factor c of
                     None \<Rightarrow> (None, None)
                   | Some f \<Rightarrow> (case fcompute f m of (v, f') \<Rightarrow> (v, Some f'))) of
               (factor, fo) \<Rightarrow>
                 (case (factor, fo) of
                    (Some v, Some f') \<Rightarrow>
                      if isfinite v
                      then (r\<lparr>res_factor := v, res_fair_price := d_mul v (res_mid_price r),
                              res_forward_vol_bp :=
                                (if isfinite (fvol f') \<and> d_lt (Fin 0) (fvol f') then fvol f' else res_forward_vol_bp r)\<rparr>,
                            c\<lparr>fpc_factor := fo\<rparr>)
                      else (r\<lparr>res_fair_price := res_mid_price r\<rparr>, c\<lparr>fpc_factor := fo\<rparr>)
                  | _ \<Rightarrow> (r\<lparr>res_fair_price := res_mid_price r\<rparr>, c\<lparr>fpc_factor := fo\<rparr>))))"

section \<open>The service\<close>

record pricer_config =
  pc_name :: string
  pc_mode :: fair_price_mode
  pc_products :: "product_spec list"
  pc_broadcast_host_address :: string
  pc_broadcast_port :: int
  pc_publish_host_address :: string
  pc_publish_port :: int
  pc_publish_interval_ms :: int
  pc_timezone_minute_offset :: int
  pc_market_end_intraday_minute :: int
  pc_no_pricer_log :: bool
  pc_log_path :: string

definition pricer_config_init :: pricer_config where
  "pricer_config_init = \<lparr>pc_name = [], pc_mode = MID, pc_products = [\<lparr>ps_product = ''BTCUSDT'', ps_category = futures\<rparr>],
     pc_broadcast_host_address = ''0.0.0.0'', pc_broadcast_port = 8888, pc_publish_host_address = ''0.0.0.0'',
     pc_publish_port = 8889, pc_publish_interval_ms = 100, pc_timezone_minute_offset = 0,
     pc_market_end_intraday_minute = - 1, pc_no_pricer_log = False, pc_log_path = ''logs/pricer/pricer.log''\<rparr>"

record fair_price_msg =
  fm_product :: product
  fm_fair_price_data :: fair_price_data

record pricer_env =
  pe_config :: pricer_config
  pe_clk :: "nat \<Rightarrow> int"
  pe_pow :: "dbl \<Rightarrow> dbl \<Rightarrow> dbl"
  pe_write_json :: "fair_price_msg \<Rightarrow> string option"

record pricer_product_state =
  pp_market :: market_state
  pp_fair_price :: "microprice_factor fair_price_calculator"
  pp_book_seen :: bool

record pricer =
  pr_product_states :: "(product, pricer_product_state) omap"
  pr_listener_connected :: bool
  pr_clock_reads :: nat
  pr_subscribed :: "product_spec list"
  pr_broadcasts :: "(product \<times> string) list"

datatype pricer_task =
    PtListenerStatus feed_status
  | PtListenerSubscribe feed_subscribe
  | PtMarketData market_data_response
  | PtFairPriceUpdate product

datatype pricer_error = UnknownFactor string | PricerBadVariantAccess

fun add_product_states ::
  "fair_price_mode \<Rightarrow> microprice_factor option \<Rightarrow> product_spec list \<Rightarrow> (product, pricer_product_state) omap
     \<Rightarrow> (product, pricer_product_state) omap option" where
  "add_product_states mode made [] m = Some m"
| "add_product_states mode made (spec # specs) m =
     (if mode = FACTOR \<and> made = None then None
      else add_product_states mode made specs
        (om_put (ps_product spec)
          \<lparr>pp_market = market_state_init,
           pp_fair_price = \<lparr>fpc_mode = mode, fpc_factor = (if mode = FACTOR then made else None)\<rparr>,
           pp_book_seen = False\<rparr> m))"

definition make_pricer :: "pricer_config \<Rightarrow> factor_config \<Rightarrow> microprice_factor option \<Rightarrow> pricer_error + pricer" where
  "make_pricer config fconfig made =
     (case add_product_states (pc_mode config) made (pc_products config) [] of
        None \<Rightarrow> Inl (UnknownFactor (fc_factor_name fconfig))
      | Some m \<Rightarrow> Inr \<lparr>pr_product_states = m, pr_listener_connected = False, pr_clock_reads = 0,
                       pr_subscribed = [], pr_broadcasts = []\<rparr>)"

text \<open>
  The publish timer: \<open>None\<close> when the modulus is zero, where the program divides by zero.  The
  remainder is C++'s, with the sign of the dividend.
\<close>

definition cpp_mod :: "int \<Rightarrow> int \<Rightarrow> int" where
  "cpp_mod a b = sgn a * (\<bar>a\<bar> mod \<bar>b\<bar>)"

definition publish_delay :: "int \<Rightarrow> int \<Rightarrow> int option" where
  "publish_delay publish_interval_ms now =
     (let publish_interval_ns = s64 (publish_interval_ms * 1000000) in
      if publish_interval_ns = 0 then None
      else Some (publish_interval_ns - cpp_mod now publish_interval_ns))"

definition publish_tick :: "pricer_config \<Rightarrow> pricer_task list" where
  "publish_tick config = map (\<lambda>spec. PtFairPriceUpdate (ps_product spec)) (pc_products config)"

definition pr_on_listener_status :: "pricer_env \<Rightarrow> feed_status \<Rightarrow> pricer \<Rightarrow> pricer" where
  "pr_on_listener_status ev r s =
     (let s1 = (if \<not> pr_listener_connected s \<and> fs_connected r
                then s\<lparr>pr_subscribed := pr_subscribed s @ pc_products (pe_config ev)\<rparr> else s)
      in s1\<lparr>pr_listener_connected := fs_connected r\<rparr>)"

text \<open>\<open>book[0]\<close> as the price and quantity of the best level, or NaN and 0.\<close>

definition top_level :: "orderbook_level list \<Rightarrow> dbl \<times> dbl" where
  "top_level book =
     (case book of
        [] \<Rightarrow> (NaN, Fin 0)
      | l # _ \<Rightarrow> (case ol_price l of None \<Rightarrow> (NaN, Fin 0)
                  | Some p \<Rightarrow> (p, (case ol_qty l of None \<Rightarrow> Fin 0 | Some q \<Rightarrow> q))))"

definition pr_on_orderbook :: "pricer_env \<Rightarrow> product \<Rightarrow> orderbook_data \<Rightarrow> pricer \<Rightarrow> pricer" where
  "pr_on_orderbook ev p d s =
     (case map_of (pr_product_states s) p of
        None \<Rightarrow> s
      | Some st \<Rightarrow>
          (case (top_level (bid_book d), top_level (ask_book d)) of ((bp, bq), (ap, aq)) \<Rightarrow>
             s\<lparr>pr_product_states := om_put p (st\<lparr>pp_market := (pp_market st)\<lparr>ms_bbid_price := bp, ms_bbid_qty := bq,
                   ms_bask_price := ap, ms_bask_qty := aq, ms_ts := pe_clk ev (pr_clock_reads s)\<rparr>,
                   pp_book_seen := True\<rparr>) (pr_product_states s),
               pr_clock_reads := Suc (pr_clock_reads s)\<rparr>))"

definition pr_on_trade :: "pricer_env \<Rightarrow> product \<Rightarrow> trade_data \<Rightarrow> pricer \<Rightarrow> pricer" where
  "pr_on_trade ev p d s =
     (case map_of (pr_product_states s) p of
        None \<Rightarrow> s
      | Some st \<Rightarrow>
          (let m = pp_market st in
           s\<lparr>pr_product_states := om_put p (st\<lparr>pp_market := m\<lparr>
                 ms_last_trade_price := (case td_trade_price d of None \<Rightarrow> ms_last_trade_price m | Some x \<Rightarrow> x),
                 ms_cum_trade_qty := (case td_cum_trade_qty d of None \<Rightarrow> ms_cum_trade_qty m | Some x \<Rightarrow> x),
                 ms_cum_buy_trade_qty := (case td_cum_buy_trade_qty d of None \<Rightarrow> ms_cum_buy_trade_qty m | Some x \<Rightarrow> x),
                 ms_ts := pe_clk ev (pr_clock_reads s)\<rparr>\<rparr>) (pr_product_states s),
             pr_clock_reads := Suc (pr_clock_reads s)\<rparr>))"

definition pr_process_market_data :: "pricer_env \<Rightarrow> market_data_response \<Rightarrow> pricer \<Rightarrow> pricer_error + pricer" where
  "pr_process_market_data ev r s =
     (case md_feed r of
        FeedOrderbook \<Rightarrow> (case md_data r of POrderbook d \<Rightarrow> Inr (pr_on_orderbook ev (md_product r) d s)
                          | _ \<Rightarrow> Inl PricerBadVariantAccess)
      | FeedTrade \<Rightarrow> (case md_data r of PTrade d \<Rightarrow> Inr (pr_on_trade ev (md_product r) d s)
                      | _ \<Rightarrow> Inl PricerBadVariantAccess)
      | _ \<Rightarrow> Inr s)"

definition fair_price_msg_of :: "product \<Rightarrow> int \<Rightarrow> fair_price_result \<Rightarrow> fair_price_msg" where
  "fair_price_msg_of p ts r = \<lparr>fm_product = p, fm_fair_price_data =
     \<lparr>fp_ts = ts, fp_fair_price = Some (res_fair_price r),
      fp_factor = (if isnan (res_factor r) then None else Some (res_factor r)),
      fp_forward_vol_bp = res_forward_vol_bp r\<rparr>\<rparr>"

definition publish_fair_price :: "pricer_env \<Rightarrow> product \<Rightarrow> pricer \<Rightarrow> pricer" where
  "publish_fair_price ev p s =
     (case map_of (pr_product_states s) p of
        None \<Rightarrow> s
      | Some st \<Rightarrow>
          if \<not> pr_listener_connected s then s
          else if \<not> pp_book_seen st then s
          else let t = pe_clk ev (pr_clock_reads s);
                   m = (pp_market st)\<lparr>ms_ts := t\<rparr>
            in case calculator_compute (microprice_compute (pe_pow ev)) base_forward_vol_bp (pp_fair_price st) m of
                 (result, calc) \<Rightarrow>
                   (let s1 = s\<lparr>pr_product_states := om_put p (st\<lparr>pp_market := m, pp_fair_price := calc\<rparr>)
                                (pr_product_states s),
                              pr_clock_reads := Suc (pr_clock_reads s)\<rparr>
                    in if \<not> priceable result then s1
                       else case pe_write_json ev (fair_price_msg_of p t result) of
                              None \<Rightarrow> s1
                            | Some json \<Rightarrow> s1\<lparr>pr_broadcasts := pr_broadcasts s1 @ [(p, json)]\<rparr>))"

definition pr_run :: "pricer_env \<Rightarrow> pricer_task \<Rightarrow> pricer \<Rightarrow> pricer_error + pricer" where
  "pr_run ev t s =
     (case t of
        PtListenerStatus r \<Rightarrow> Inr (pr_on_listener_status ev r s)
      | PtListenerSubscribe r \<Rightarrow> Inr s
      | PtMarketData r \<Rightarrow> pr_process_market_data ev r s
      | PtFairPriceUpdate p \<Rightarrow> Inr (publish_fair_price ev p s))"

text \<open>The main loop catches what \<open>run()\<close> throws and goes on with the next task.\<close>

fun pr_main_loop :: "pricer_env \<Rightarrow> pricer_task list \<Rightarrow> pricer \<Rightarrow> pricer" where
  "pr_main_loop ev [] s = s"
| "pr_main_loop ev (t # ts) s = pr_main_loop ev ts (case pr_run ev t s of Inl e \<Rightarrow> s | Inr s' \<Rightarrow> s')"

end
