(* ===== verification/Pricer_Properties.thy ===== *)
theory Pricer_Properties
  imports Pricer
begin

text \<open>
  The contract of a factor as a locale, with what the fair-price calculator gets from it; its
  interpretation on the microprice factor; and the invariant of the pricer service.
\<close>

section \<open>Arithmetic\<close>

lemma d_add_commute: "d_add a b = d_add b a"
  by (cases a; cases b) (simp_all add: add.commute)

lemma fl_Fin_iff: "fl x = Fin y \<Longrightarrow> y = flr x"
  by (auto simp: fl_def Let_def split: if_splits)

lemma is_f64_flr: "is_f64 (flr x)"
proof (cases "x = 0")
  case True
  then show ?thesis by (simp add: is_f64_def)
next
  case False
  let ?k = "ulp_exp x"
  define m where "m = rne (x / 2 powi ?k)"
  have flr: "flr x = of_int m * 2 powi ?k" using False by (simp add: flr_def m_def)
  have k: "- 1074 \<le> ?k" by (simp add: ulp_exp_def)
  have "\<bar>x\<bar> < 2 powi (?k + 53)" using below_binade [of "\<bar>x\<bar>"] False by (simp add: ulp_exp_def)
  then have "\<bar>x / 2 powi ?k\<bar> < 2 ^ 53" by (simp add: power_int_add abs_divide field_simps)
  then have "- (2 ^ 53) \<le> x / 2 powi ?k" "x / 2 powi ?k \<le> 2 ^ 53" by linarith+
  then have "rne (of_int (- (2 ^ 53))) \<le> m" "m \<le> rne (of_int (2 ^ 53))"
    unfolding m_def by (intro rne_mono; simp)+
  then have "\<bar>m\<bar> \<le> 2 ^ 53" unfolding rne_of_int by linarith
  then consider "\<bar>m\<bar> < 2 ^ 53" | "m = 2 ^ 53" | "m = - (2 ^ 53)" by linarith
  then show ?thesis
  proof cases
    case 1
    then show ?thesis using is_f64_scaled [OF 1 k] flr by simp
  next
    case 2
    then show ?thesis using is_f64_scaled [of "2 ^ 52" "?k + 1"] k flr by (simp add: power_int_add)
  next
    case 3
    then show ?thesis using is_f64_scaled [of "- (2 ^ 52)" "?k + 1"] k flr by (simp add: power_int_add)
  qed
qed

text \<open>Doubling is exact, so the mid of two representable prices lies between them.\<close>

lemma flr_double: "is_f64 x \<Longrightarrow> flr (2 * x) = 2 * x"
proof (cases "x = 0")
  case False
  assume x: "is_f64 x"
  let ?k = "ulp_exp x"
  have "x = of_int (rne (x / 2 powi ?k)) * 2 powi ?k" using x False by (simp add: is_f64_def flr_def)
  then obtain m where m: "x = of_int m * 2 powi ?k" by blast
  have "\<bar>x\<bar> < 2 powi (?k + 53)" using below_binade [of "\<bar>x\<bar>"] False by (simp add: ulp_exp_def)
  then have "\<bar>of_int m * 2 powi ?k\<bar> < (2 ^ 53 :: rat) * 2 powi ?k"
    unfolding m [symmetric] by (simp add: power_int_add mult.commute)
  then have "(of_int \<bar>m\<bar> :: rat) < of_int (2 ^ 53)" by (simp add: abs_mult)
  then have "\<bar>m\<bar> < 2 ^ 53" unfolding of_int_less_iff .
  moreover have "- 1074 \<le> ?k + 1" by (simp add: ulp_exp_def)
  ultimately have "is_f64 (of_int m * 2 powi (?k + 1))" by (rule is_f64_scaled)
  moreover have "2 * x = of_int m * 2 powi (?k + 1)" by (subst m) (simp add: power_int_add)
  ultimately show ?thesis by (simp add: is_f64_def)
qed simp

lemma mid_between:
  assumes "is_f64 b" "is_f64 a" "0 < b" "b \<le> a" "a \<le> 2 ^ 999"
  shows "\<exists>x. d_div (d_add (Fin b) (Fin a)) (Fin 2) = Fin x \<and> is_f64 x \<and> b \<le> x \<and> x \<le> a"
proof -
  have s: "\<bar>b + a\<bar> \<le> 2 ^ 1000" using assms by simp
  have sum: "fl (b + a) = Fin (flr (b + a))" "\<bar>flr (b + a)\<bar> \<le> 2 ^ 1000" using fl_bounded [OF s] by simp_all
  have "2 * b \<le> flr (b + a)" "flr (b + a) \<le> 2 * a"
    using flr_mono [of "2 * b" "b + a"] flr_mono [of "b + a" "2 * a"] flr_double assms by simp_all
  then have le: "b \<le> flr (b + a) / 2" "flr (b + a) / 2 \<le> a" by simp_all
  have h: "\<bar>flr (b + a) / 2\<bar> \<le> 2 ^ 1000" using sum(2) by simp
  have "b \<le> flr (flr (b + a) / 2)" "flr (flr (b + a) / 2) \<le> a"
    using flr_between [OF assms(1,2) le] by simp_all
  then show ?thesis using fl_bounded(1) [OF h] is_f64_flr sum(1) by auto
qed

section \<open>The calculator over any factor\<close>

lemma mid_not_nan: "has_two_sided_book m \<Longrightarrow> ms_mid_price m \<noteq> NaN"
  by (cases "ms_bbid_price m"; cases "ms_bask_price m")
    (auto simp: has_two_sided_book_def ms_mid_price_def isnan_def d_inf_def fl_def Let_def)

lemma d_mul_finite: "isfinite a \<Longrightarrow> isfinite b \<Longrightarrow> d_mul a b \<noteq> NaN"
  by (cases a; cases b) simp_all

text \<open>What a factor promises: nothing on a one-sided book, and finite multipliers within its band.\<close>

locale bounded_factor =
  fixes fcompute :: "'f \<Rightarrow> market_state \<Rightarrow> dbl option \<times> 'f"
    and fvol :: "'f \<Rightarrow> dbl"
    and inv :: "'f \<Rightarrow> bool"
    and lo hi :: rat
  assumes one_sided: "\<not> has_two_sided_book m \<Longrightarrow> fst (fcompute f m) = None"
    and keeps: "inv f \<Longrightarrow> inv (snd (fcompute f m))"
    and bounded: "inv f \<Longrightarrow> fcompute f m = (Some (Fin v), f') \<Longrightarrow> lo \<le> v \<and> v \<le> hi"
    and straddles: "inv f \<Longrightarrow> lo \<le> 1 \<and> 1 \<le> hi"
begin

text \<open>The fair price of a FACTOR calculator stays within the band around the mid.\<close>

lemma fair_within_band:
  assumes "has_two_sided_book m" "ms_mid_price m = Fin x" "is_f64 x" "0 \<le> x" "x < f64_limit"
    "fpc_mode c = FACTOR" "fpc_factor c = Some f" "inv f"
  shows "d_le (fl (lo * x)) (res_fair_price (fst (calculator_compute fcompute fvol c m)))
    \<and> d_le (res_fair_price (fst (calculator_compute fcompute fvol c m))) (fl (hi * x))"
proof -
  have x: "fl x = Fin x" using assms(3-5) by (intro fl_representable) auto
  have band: "d_le (fl (lo * x)) (fl (v * x)) \<and> d_le (fl (v * x)) (fl (hi * x))" if "lo \<le> v" "v \<le> hi" for v
    using that assms(4) by (intro conjI fl_mono mult_right_mono) auto
  obtain w f' where w: "fcompute f m = (w, f')" by (cases "fcompute f m")
  show ?thesis
  proof (cases "\<exists>v. w = Some (Fin v)")
    case True
    then obtain v where v: "w = Some (Fin v)" by blast
    then show ?thesis
      using band [of v] bounded [OF assms(8)] assms w
      by (simp add: calculator_compute_def fair_price_result_init_def Let_def)
  next
    case False
    then have "res_fair_price (fst (calculator_compute fcompute fvol c m)) = Fin x"
      using assms w by (cases w) (auto simp: calculator_compute_def fair_price_result_init_def Let_def elim!: isfinite.elims)
    then show ?thesis using band [of 1] straddles [OF assms(8)] x by simp
  qed
qed

text \<open>The calculator keeps the factor's invariant.\<close>

lemma calculator_keeps:
  assumes "fpc_mode c = FACTOR" "fpc_factor c = Some f" "inv f"
  shows "\<exists>f'. fpc_factor (snd (calculator_compute fcompute fvol c m)) = Some f' \<and> inv f'"
  using assms keeps [OF assms(3), of m]
  by (auto simp: calculator_compute_def Let_def case_prod_unfold split: option.splits)

end

section \<open>The microprice factor\<close>

definition cap_lo :: "rat \<Rightarrow> rat" where
  "cap_lo bp = flr (1 - flr (bp / 10000))"

definition cap_hi :: "rat \<Rightarrow> rat" where
  "cap_hi bp = flr (1 + flr (bp / 10000))"

text \<open>An unsmoothed microprice factor with a cap of \<open>bp\<close> basis points.\<close>

definition unsmoothed :: "rat \<Rightarrow> microprice_factor \<Rightarrow> bool" where
  "unsmoothed bp f \<longleftrightarrow> 0 \<le> bp \<and> bp \<le> 10000 \<and> bf_cap_bp f = Fin bp \<and> d_le (Fin 1) (bf_ema_alpha f)"

lemma cap_bounds:
  assumes "0 \<le> bp" "bp \<le> 10000"
  shows "d_sub (Fin 1) (d_div (Fin bp) (Fin 10000)) = Fin (cap_lo bp)"
    and "d_add (Fin 1) (d_div (Fin bp) (Fin 10000)) = Fin (cap_hi bp)"
    and "cap_lo bp \<le> 1" "1 \<le> cap_hi bp"
proof -
  have one: "is_f64 0" "is_f64 1" "is_f64 2" using is_f64_int [of 0] is_f64_int [of 1] is_f64_int [of 2] by simp_all
  have c: "0 \<le> flr (bp / 10000)" "flr (bp / 10000) \<le> 1"
    using flr_between [OF one(1,2), of "bp / 10000"] assms by simp_all
  have cap: "fl (bp / 10000) = Fin (flr (bp / 10000))"
    using fl_bounded(1) [of "bp / 10000" 0] assms by simp
  show "d_sub (Fin 1) (d_div (Fin bp) (Fin 10000)) = Fin (cap_lo bp)"
    using fl_bounded(1) [of "1 - flr (bp / 10000)" 0] c by (simp add: d_sub_def cap cap_lo_def)
  show "d_add (Fin 1) (d_div (Fin bp) (Fin 10000)) = Fin (cap_hi bp)"
    using fl_bounded(1) [of "1 + flr (bp / 10000)" 1] c by (simp add: cap cap_hi_def)
  show "cap_lo bp \<le> 1" "1 \<le> cap_hi bp"
    using flr_between [OF one(1,2), of "1 - flr (bp / 10000)"] flr_between [OF one(2,3), of "1 + flr (bp / 10000)"] c
    by (simp_all add: cap_lo_def cap_hi_def)
qed

lemma unsmoothed_factor:
  assumes "unsmoothed bp f" "microprice_compute pow f m = (Some w, f')"
  shows "w = NaN \<or> (\<exists>v. w = Fin v \<and> cap_lo bp \<le> v \<and> v \<le> cap_hi bp)"
proof -
  note cap = cap_bounds [of bp]
  obtain y where w: "w = clamp_factor f y"
    using assms
    by (auto simp: microprice_compute_def apply_ema_def unsmoothed_def Let_def split: if_splits option.splits)
  have "clamp_factor f y = d_clamp y (Fin (cap_lo bp)) (Fin (cap_hi bp))"
    using assms(1) cap by (simp add: clamp_factor_def unsmoothed_def Let_def)
  moreover have "d_le (Fin (cap_lo bp)) (Fin (cap_hi bp))"
    using assms(1) cap by (simp add: unsmoothed_def)
  ultimately show ?thesis
    using d_clamp_bounds [of "Fin (cap_lo bp)" "Fin (cap_hi bp)" y] w
    by (cases "y = NaN"; cases w) (auto simp: d_clamp_def d_le_def split: if_splits)
qed

interpretation micro: bounded_factor "microprice_compute pow" base_forward_vol_bp "unsmoothed bp" "cap_lo bp" "cap_hi bp"
  for pow bp
proof unfold_locales
  show "fst (microprice_compute pow f m) = None" if "\<not> has_two_sided_book m" for f m
    using that by (simp add: microprice_compute_def)
  show "unsmoothed bp (snd (microprice_compute pow f m))" if "unsmoothed bp f" for f m
    using that by (auto simp: microprice_compute_def unsmoothed_def apply_ema_def Let_def)
  show "cap_lo bp \<le> v \<and> v \<le> cap_hi bp" if "unsmoothed bp f" "microprice_compute pow f m = (Some (Fin v), f')" for f m v f'
    using unsmoothed_factor [OF that] by simp
  show "cap_lo bp \<le> 1 \<and> 1 \<le> cap_hi bp" if "unsmoothed bp f" for f
    using that cap_bounds by (simp add: unsmoothed_def)
qed

section \<open>The service\<close>

text \<open>A broadcast carries a result that could be priced, stamped with a reading of the clock.\<close>

definition broadcast_ok :: "pricer_env \<Rightarrow> nat \<Rightarrow> product \<times> string \<Rightarrow> bool" where
  "broadcast_ok ev n b \<longleftrightarrow> fst b \<in> ps_product ` set (pc_products (pe_config ev))
     \<and> (\<exists>k < n. \<exists>r. pe_write_json ev (fair_price_msg_of (fst b) (pe_clk ev k) r) = Some (snd b) \<and> priceable r
          \<and> isfinite (res_forward_vol_bp r) \<and> d_lt (Fin 0) (res_forward_vol_bp r)
          \<and> (pc_mode (pe_config ev) \<noteq> FACTOR \<longrightarrow> isnan (res_factor r)))"

definition pricer_inv :: "pricer_env \<Rightarrow> pricer \<Rightarrow> bool" where
  "pricer_inv ev s \<longleftrightarrow> om_inv (pr_product_states s)
     \<and> fst ` set (pr_product_states s) = ps_product ` set (pc_products (pe_config ev))
     \<and> (\<forall>p st. map_of (pr_product_states s) p = Some st \<longrightarrow>
          fpc_mode (pp_fair_price st) = pc_mode (pe_config ev)
          \<and> (\<not> pp_book_seen st \<longrightarrow> \<not> has_two_sided_book (pp_market st)))
     \<and> (\<forall>b \<in> set (pr_broadcasts s). broadcast_ok ev (pr_clock_reads s) b)"

lemma broadcast_ok_mono: "broadcast_ok ev n b \<Longrightarrow> n \<le> n' \<Longrightarrow> broadcast_ok ev n' b"
  by (force simp: broadcast_ok_def)

lemma pricer_inv_put:
  assumes "pricer_inv ev s" "map_of (pr_product_states s) p = Some st"
    "fpc_mode (pp_fair_price st') = fpc_mode (pp_fair_price st)" "\<not> pp_book_seen st' \<Longrightarrow> \<not> has_two_sided_book (pp_market st')"
  shows "pricer_inv ev (s\<lparr>pr_product_states := om_put p st' (pr_product_states s), pr_clock_reads := Suc (pr_clock_reads s)\<rparr>)"
proof -
  have "p \<in> fst ` set (pr_product_states s)" using assms(2) by (force dest: map_of_SomeD)
  then show ?thesis
    using assms by (auto simp: pricer_inv_def om_inv_put map_of_om_put intro: broadcast_ok_mono)
qed

lemma calculator_mode [simp]: "fpc_mode (snd (calculator_compute fc fv c m)) = fpc_mode c"
  by (simp add: calculator_compute_def Let_def case_prod_unfold split: fair_price_mode.splits option.splits)

lemma calculator_result:
  "isfinite (res_forward_vol_bp (fst (calculator_compute fc fv c m)))
   \<and> d_lt (Fin 0) (res_forward_vol_bp (fst (calculator_compute fc fv c m)))
   \<and> (fpc_mode c \<noteq> FACTOR \<longrightarrow> isnan (res_factor (fst (calculator_compute fc fv c m))))"
  by (auto simp: calculator_compute_def fair_price_result_init_def isnan_def Let_def case_prod_unfold
      split: fair_price_mode.splits option.splits)

lemma pricer_inv_publish:
  assumes "pricer_inv ev s" shows "pricer_inv ev (publish_fair_price ev p s)"
proof (cases "map_of (pr_product_states s) p")
  case (Some st)
  let ?m = "(pp_market st)\<lparr>ms_ts := pe_clk ev (pr_clock_reads s)\<rparr>"
  let ?c = "calculator_compute (microprice_compute (pe_pow ev)) base_forward_vol_bp (pp_fair_price st) ?m"
  let ?s1 = "s\<lparr>pr_product_states := om_put p (st\<lparr>pp_market := ?m, pp_fair_price := snd ?c\<rparr>) (pr_product_states s),
     pr_clock_reads := Suc (pr_clock_reads s)\<rparr>"
  have keys: "p \<in> fst ` set (pr_product_states s)" using Some by (force dest: map_of_SomeD)
  have st: "fpc_mode (pp_fair_price st) = pc_mode (pe_config ev)" "\<not> pp_book_seen st \<Longrightarrow> \<not> has_two_sided_book (pp_market st)"
    "p \<in> ps_product ` set (pc_products (pe_config ev))"
    using assms Some keys unfolding pricer_inv_def by simp_all
  have s1: "pricer_inv ev ?s1"
    by (rule pricer_inv_put [OF assms Some]) (use st(2) in \<open>simp_all add: has_two_sided_book_def\<close>)
  have "broadcast_ok ev (Suc (pr_clock_reads s)) (p, json)"
    if "pe_write_json ev (fair_price_msg_of p (pe_clk ev (pr_clock_reads s)) (fst ?c)) = Some json" "priceable (fst ?c)" for json
    using that st(1,3) calculator_result [of _ _ "pp_fair_price st" ?m] unfolding broadcast_ok_def
    by (intro conjI exI [of _ "pr_clock_reads s"] exI [of _ "fst ?c"]) simp_all
  then have "pricer_inv ev (?s1\<lparr>pr_broadcasts := pr_broadcasts ?s1 @ [(p, json)]\<rparr>)"
    if "pe_write_json ev (fair_price_msg_of p (pe_clk ev (pr_clock_reads s)) (fst ?c)) = Some json" "priceable (fst ?c)" for json
    using that s1 by (auto simp: pricer_inv_def)
  moreover have "publish_fair_price ev p s = (if \<not> pr_listener_connected s then s else if \<not> pp_book_seen st then s
      else if \<not> priceable (fst ?c) then ?s1
      else case pe_write_json ev (fair_price_msg_of p (pe_clk ev (pr_clock_reads s)) (fst ?c)) of
             None \<Rightarrow> ?s1 | Some json \<Rightarrow> ?s1\<lparr>pr_broadcasts := pr_broadcasts ?s1 @ [(p, json)]\<rparr>)"
    by (simp add: publish_fair_price_def Some Let_def case_prod_unfold)
  ultimately show ?thesis using assms s1 by (simp split: option.splits)
qed (use assms in \<open>simp add: publish_fair_price_def\<close>)

lemma pricer_inv_run: "pricer_inv ev s \<Longrightarrow> pr_run ev t s = Inr s' \<Longrightarrow> pricer_inv ev s'"
proof -
  assume s: "pricer_inv ev s" and run: "pr_run ev t s = Inr s'"
  have status: "pricer_inv ev (pr_on_listener_status ev r s)" for r
    using s by (simp add: pr_on_listener_status_def pricer_inv_def Let_def)
  have book: "pricer_inv ev (pr_on_orderbook ev p d s)" for p d
    using s by (auto simp: pr_on_orderbook_def case_prod_unfold intro!: pricer_inv_put split: option.splits)
  have trade: "pricer_inv ev (pr_on_trade ev p d s)" for p d
  proof (cases "map_of (pr_product_states s) p")
    case (Some st)
    then have "\<not> pp_book_seen st \<Longrightarrow> \<not> has_two_sided_book (pp_market st)" using s by (auto simp: pricer_inv_def)
    then show ?thesis
      using s Some by (auto simp: pr_on_trade_def Let_def has_two_sided_book_def intro!: pricer_inv_put)
  qed (use s in \<open>simp add: pr_on_trade_def\<close>)
  show ?thesis
    using run s status book trade pricer_inv_publish
    by (auto simp: pr_run_def pr_process_market_data_def split: pricer_task.splits feed_kind.splits feed_payload.splits)
qed

lemma pricer_inv_loop: "pricer_inv ev s \<Longrightarrow> pricer_inv ev (pr_main_loop ev ts s)"
  by (induction ev ts s rule: pr_main_loop.induct) (auto split: sum.splits dest: pricer_inv_run)

lemma add_product_states_keys:
  "add_product_states mode made specs m = Some m' \<Longrightarrow> om_inv m \<Longrightarrow>
     om_inv m' \<and> fst ` set m' = fst ` set m \<union> ps_product ` set specs"
  by (induction mode made specs m rule: add_product_states.induct) (auto simp: om_inv_put split: if_splits)

lemma add_product_states_fresh:
  "add_product_states mode made specs m = Some m' \<Longrightarrow> map_of m' p = Some st \<Longrightarrow> map_of m p \<noteq> Some st
     \<Longrightarrow> fpc_mode (pp_fair_price st) = mode \<and> pp_market st = market_state_init"
proof (induction mode made specs m rule: add_product_states.induct)
  case (2 mode made spec specs m)
  let ?st = "\<lparr>pp_market = market_state_init, pp_fair_price = \<lparr>fpc_mode = mode, fpc_factor = (if mode = FACTOR then made else None)\<rparr>,
     pp_book_seen = False\<rparr>"
  have go: "\<not> (mode = FACTOR \<and> made = None)"
    and rest: "add_product_states mode made specs (om_put (ps_product spec) ?st m) = Some m'"
    using "2.prems"(1) by (auto split: if_splits)
  show ?case
  proof (cases "map_of (om_put (ps_product spec) ?st m) p = Some st")
    case True
    then have "st = ?st" using "2.prems"(3) by (auto simp: map_of_om_put split: if_splits)
    then show ?thesis by simp
  qed (use "2.IH" [OF go rest "2.prems"(2)] in simp)
qed simp

lemma make_pricer_inv:
  assumes "make_pricer (pe_config ev) fc made = Inr s" shows "pricer_inv ev s"
proof -
  obtain m where m: "add_product_states (pc_mode (pe_config ev)) made (pc_products (pe_config ev)) [] = Some m"
    and s: "s = \<lparr>pr_product_states = m, pr_listener_connected = False, pr_clock_reads = 0, pr_subscribed = [], pr_broadcasts = []\<rparr>"
    using assms by (auto simp: make_pricer_def split: option.splits)
  show ?thesis
    using add_product_states_keys [OF m] add_product_states_fresh [OF m]
    by (simp add: pricer_inv_def s market_state_init_def has_two_sided_book_def isnan_def)
qed

section \<open>Properties\<close>

text \<open>
  For every factor implementation: the calculator yields a price only on a two-sided book, and always
  does when the mid is finite; a reported factor is finite, comes from FACTOR mode only and the price
  is then the factor times the mid; and the volatility multiplier is always finite and positive.
\<close>

theorem fair_price_defined:
  fixes fcompute :: "'f \<Rightarrow> market_state \<Rightarrow> dbl option \<times> 'f"
  defines "r \<equiv> \<lambda>fvol c m. fst (calculator_compute fcompute fvol c m)"
  shows "(priceable (r fvol c m) \<longrightarrow> has_two_sided_book m)
    \<and> (has_two_sided_book m \<and> isfinite (ms_mid_price m) \<longrightarrow> priceable (r fvol c m))
    \<and> (\<not> isnan (res_factor (r fvol c m)) \<longrightarrow> fpc_mode c = FACTOR \<and> isfinite (res_factor (r fvol c m))
         \<and> res_fair_price (r fvol c m) = d_mul (res_factor (r fvol c m)) (ms_mid_price m))
    \<and> isfinite (res_forward_vol_bp (r fvol c m)) \<and> d_lt (Fin 0) (res_forward_vol_bp (r fvol c m))"
proof -
  have mid: "isfinite (ms_mid_price m) \<Longrightarrow> ms_mid_price m \<noteq> NaN" by auto
  have "priceable (r fvol c m) \<Longrightarrow> has_two_sided_book m"
    by (rule ccontr) (simp add: r_def calculator_compute_def priceable_def fair_price_result_init_def isnan_def)
  moreover have "has_two_sided_book m \<Longrightarrow> isfinite (ms_mid_price m) \<Longrightarrow> priceable (r fvol c m)"
    using mid d_mul_finite
    by (auto simp: r_def calculator_compute_def priceable_def fair_price_result_init_def isnan_def Let_def case_prod_unfold
        split: fair_price_mode.splits option.splits)
  moreover have "\<not> isnan (res_factor (r fvol c m)) \<Longrightarrow> fpc_mode c = FACTOR \<and> isfinite (res_factor (r fvol c m))
      \<and> res_fair_price (r fvol c m) = d_mul (res_factor (r fvol c m)) (ms_mid_price m)"
    by (auto simp: r_def calculator_compute_def fair_price_result_init_def isnan_def Let_def case_prod_unfold
        split: fair_price_mode.splits option.splits if_splits)
  ultimately show ?thesis using calculator_result [of fcompute fvol c m] unfolding r_def by blast
qed

definition demo_market_state :: market_state where
  "demo_market_state = market_state_init\<lparr>ms_bbid_price := Fin 99, ms_bask_price := Fin 101, ms_bbid_qty := Fin 1, ms_bask_qty := Fin 1\<rparr>"

lemma demo_market_book: "has_two_sided_book demo_market_state" "ms_mid_price demo_market_state = Fin 100"
  by (simp_all add: demo_market_state_def market_state_init_def has_two_sided_book_def isnan_def ms_mid_price_def)

theorem fair_price_defined_witness:
  "priceable (fst (calculator_compute (microprice_compute (\<lambda>x e. x)) base_forward_vol_bp
      \<lparr>fpc_mode = VWAP, fpc_factor = None\<rparr> demo_market_state))"
  using fair_price_defined [of "microprice_compute (\<lambda>x e. x)" base_forward_vol_bp "\<lparr>fpc_mode = VWAP, fpc_factor = None\<rparr>"
      demo_market_state] demo_market_book by simp

text \<open>
  C18. The pricer cannot push traders far from the market: on representable prices, bid at or below ask,
  the mid lies between them, and an unsmoothed microprice factor keeps the published fair price
  within its cap around the mid, both ends in binary64.
\<close>

theorem fair_price_bounded:
  assumes "ms_bbid_price m = Fin b" "ms_bask_price m = Fin a" "is_f64 b" "is_f64 a" "0 < b" "b \<le> a" "a \<le> 2 ^ 999"
    "fpc_mode c = FACTOR" "fpc_factor c = Some f" "unsmoothed bp f"
  shows "\<exists>x. ms_mid_price m = Fin x \<and> b \<le> x \<and> x \<le> a
    \<and> d_le (fl (cap_lo bp * x)) (res_fair_price (fst (calculator_compute (microprice_compute pow) base_forward_vol_bp c m)))
    \<and> d_le (res_fair_price (fst (calculator_compute (microprice_compute pow) base_forward_vol_bp c m))) (fl (cap_hi bp * x))"
proof -
  obtain x where x: "ms_mid_price m = Fin x" "is_f64 x" "b \<le> x" "x \<le> a"
    using mid_between [OF assms(3-7)] assms(1,2) by (auto simp: ms_mid_price_def)
  have "(2::rat) ^ 999 < 2 ^ 1024" by (rule power_strict_increasing) simp_all
  then have "x < f64_limit" using x(4) assms(7) unfolding f64_limit_def by linarith
  moreover have "has_two_sided_book m" using assms by (simp add: has_two_sided_book_def isnan_def)
  ultimately show ?thesis using micro.fair_within_band [of m x c f bp pow] x assms by auto
qed

theorem fair_price_bounded_witness:
  "\<exists>x. ms_mid_price demo_market_state = Fin x \<and> 99 \<le> x \<and> x \<le> 101"
proof -
  let ?f = "make_microprice_factor factor_config_init \<lparr>mp_imbalance_exponent = Fin 1\<rparr>"
  have "is_f64 99" "is_f64 101" using is_f64_int [of 99] is_f64_int [of 101] by simp_all
  moreover have "(101::rat) \<le> 2 ^ 999"
  proof -
    have "(101::rat) \<le> 2 ^ 7" by simp
    also have "(2::rat) ^ 7 \<le> 2 ^ 999" by (rule power_increasing) simp_all
    finally show ?thesis .
  qed
  moreover have "unsmoothed 20 ?f" by (simp add: unsmoothed_def make_microprice_factor_def factor_config_init_def)
  ultimately show ?thesis
    using fair_price_bounded [of demo_market_state 99 101 "\<lparr>fpc_mode = FACTOR, fpc_factor = Some ?f\<rparr>" ?f 20]
    by (auto simp: demo_market_state_def)
qed

text \<open>
  C37. With an exponent of 1 and no smoothing the microprice factor is exactly the VWAP fair price over the
  mid, clamped: running VWAP as a factor changes the price only through the clamp and the final product.
\<close>

theorem microprice_is_clamped_vwap:
  assumes "\<forall>x. pow x (Fin 1) = x" "mp_imbalance_exponent (mf_params f) = Fin 1"
    "bf_ema_factor f = None \<or> d_le (Fin 1) (bf_ema_alpha f)"
    "has_two_sided_book m" "d_lt (Fin 0) (ms_mid_price m)" "d_lt (Fin 0) (d_add (ms_bbid_qty m) (ms_bask_qty m))"
  shows "fst (microprice_compute pow f m) = Some (clamp_factor f (d_div (compute_vwap m) (ms_mid_price m)))"
proof -
  have "\<not> d_le (ms_mid_price m) (Fin 0)" using d_le_lt_antisym [OF assms(5)] .
  then show ?thesis
    using assms d_add_commute [of "ms_bask_qty m" "ms_bbid_qty m"]
    by (auto simp: microprice_compute_def compute_vwap_def apply_ema_def Let_def split: option.splits)
qed

theorem microprice_is_clamped_vwap_witness:
  "fst (microprice_compute (\<lambda>x e. x) (make_microprice_factor (factor_config_init\<lparr>fc_cap_bp := Fin 10000\<rparr>)
      \<lparr>mp_imbalance_exponent = Fin 1\<rparr>) demo_market_state) = Some (Fin 1)"
proof -
  let ?f = "make_microprice_factor (factor_config_init\<lparr>fc_cap_bp := Fin 10000\<rparr>) \<lparr>mp_imbalance_exponent = Fin 1\<rparr>"
  have "fst (microprice_compute (\<lambda>x e. x) ?f demo_market_state)
      = Some (clamp_factor ?f (d_div (compute_vwap demo_market_state) (ms_mid_price demo_market_state)))"
    by (rule microprice_is_clamped_vwap) (simp_all add: demo_market_book make_microprice_factor_def,
      simp add: demo_market_state_def market_state_init_def)
  also have "\<dots> = Some (Fin 1)"
    unfolding demo_market_book
    by (simp add: compute_vwap_def demo_market_state_def Let_def market_state_init_def clamp_factor_def
        make_microprice_factor_def factor_config_init_def d_clamp_def d_sub_def)
  finally show ?thesis .
qed

text \<open>
  C35. Whatever the feed and the timer bring, even events that throw, every message the pricer has broadcast
  names a configured product, carries a price that is not NaN and a positive finite volatility multiplier, is stamped with a
  reading of the clock, and names no factor unless the mode is FACTOR.
\<close>

theorem pricer_broadcasts_are_sound:
  assumes "make_pricer (pe_config ev) fc made = Inr s0" "(p, json) \<in> set (pr_broadcasts (pr_main_loop ev ts s0))"
  shows "p \<in> ps_product ` set (pc_products (pe_config ev))
    \<and> (\<exists>k r. pe_write_json ev (fair_price_msg_of p (pe_clk ev k) r) = Some json \<and> priceable r
         \<and> isfinite (res_forward_vol_bp r) \<and> d_lt (Fin 0) (res_forward_vol_bp r)
         \<and> (fp_factor (fm_fair_price_data (fair_price_msg_of p (pe_clk ev k) r)) \<noteq> None
              \<longrightarrow> pc_mode (pe_config ev) = FACTOR))"
proof -
  have "broadcast_ok ev (pr_clock_reads (pr_main_loop ev ts s0)) (p, json)"
    using pricer_inv_loop [OF make_pricer_inv [OF assms(1)], of ts] assms(2) by (auto simp: pricer_inv_def)
  then show ?thesis by (force simp: broadcast_ok_def fair_price_msg_of_def)
qed

definition demo_fair_msg :: fair_price_msg where
  "demo_fair_msg = \<lparr>fm_product = ''A'', fm_fair_price_data = \<lparr>fp_ts = 1000, fp_fair_price = Some (Fin 100),
     fp_factor = None, fp_forward_vol_bp = Fin 1\<rparr>\<rparr>"

definition demo_pricer_env :: pricer_env where
  "demo_pricer_env = \<lparr>pe_config = pricer_config_init\<lparr>pc_products := [\<lparr>ps_product = ''A'', ps_category = futures\<rparr>]\<rparr>, pe_clk = (\<lambda>n. 1000), pe_pow = (\<lambda>x e. x),
     pe_write_json = (\<lambda>m. if m = demo_fair_msg then Some ''fair'' else None)\<rparr>"

definition demo_pricer_tasks :: "pricer_task list" where
  "demo_pricer_tasks = [PtListenerStatus \<lparr>fs_connecting = False, fs_connected = True\<rparr>,
     PtMarketData \<lparr>md_feed = FeedOrderbook, md_product = ''A'',
        md_data = POrderbook \<lparr>bid_book = [\<lparr>ol_price = Some (Fin 99), ol_qty = Some (Fin 1)\<rparr>],
          ask_book = [\<lparr>ol_price = Some (Fin 101), ol_qty = Some (Fin 1)\<rparr>], ob_server_tstamp_ms = None\<rparr>\<rparr>,
     PtFairPriceUpdate ''A'']"

lemma demo_pricer_run:
  "\<exists>s0. make_pricer (pe_config demo_pricer_env) factor_config_init None = Inr s0
     \<and> pr_broadcasts (pr_main_loop demo_pricer_env demo_pricer_tasks s0) = [(''A'', ''fair'')]"
  by (simp add: make_pricer_def demo_pricer_env_def pricer_config_init_def demo_fair_msg_def demo_pricer_tasks_def pr_run_def pr_on_listener_status_def
      pr_process_market_data_def pr_on_orderbook_def top_level_def publish_fair_price_def calculator_compute_def
      has_two_sided_book_def ms_mid_price_def market_state_init_def isnan_def fair_price_result_init_def priceable_def
      fair_price_msg_of_def Let_def)

theorem pricer_broadcasts_are_sound_witness:
  "\<exists>k r. pe_write_json demo_pricer_env (fair_price_msg_of ''A'' (pe_clk demo_pricer_env k) r) = Some ''fair'' \<and> priceable r"
proof -
  obtain s0 where s0: "make_pricer (pe_config demo_pricer_env) factor_config_init None = Inr s0"
    "pr_broadcasts (pr_main_loop demo_pricer_env demo_pricer_tasks s0) = [(''A'', ''fair'')]"
    using demo_pricer_run by blast
  show ?thesis
    using pricer_broadcasts_are_sound [OF s0(1), of "''A''" "''fair''" demo_pricer_tasks] s0(2) by auto
qed

text \<open>
  A publish tick broadcasts only for a configured product with a live listener link and a two-sided
  book already seen; what it sends is priced from the current market at the current clock reading.
  While the link is down a tick changes nothing at all.
\<close>

theorem publish_is_guarded:
  assumes "pr_broadcasts (publish_fair_price ev p s) \<noteq> pr_broadcasts s"
  shows "\<exists>st json. map_of (pr_product_states s) p = Some st \<and> pr_listener_connected s \<and> pp_book_seen st
    \<and> has_two_sided_book (pp_market st)
    \<and> pr_broadcasts (publish_fair_price ev p s) = pr_broadcasts s @ [(p, json)]
    \<and> pe_write_json ev (fair_price_msg_of p (pe_clk ev (pr_clock_reads s))
         (fst (calculator_compute (microprice_compute (pe_pow ev)) base_forward_vol_bp (pp_fair_price st)
            ((pp_market st)\<lparr>ms_ts := pe_clk ev (pr_clock_reads s)\<rparr>)))) = Some json"
proof -
  have two: "priceable (fst (calculator_compute fc fv c (m\<lparr>ms_ts := t\<rparr>))) \<Longrightarrow> has_two_sided_book m" for fc fv c m t
    by (rule ccontr) (simp add: calculator_compute_def priceable_def fair_price_result_init_def isnan_def has_two_sided_book_def)
  show ?thesis
    using assms
    by (auto simp: publish_fair_price_def Let_def case_prod_unfold split: option.splits if_splits dest: two)
qed

theorem publish_is_guarded_witness:
  "\<exists>s st. map_of (pr_product_states s) ''A'' = Some st \<and> has_two_sided_book (pp_market st)
     \<and> pr_broadcasts (publish_fair_price demo_pricer_env ''A'' s) \<noteq> pr_broadcasts s"
proof -
  let ?s = "\<lparr>pr_product_states = [(''A'', \<lparr>pp_market = demo_market_state,
       pp_fair_price = \<lparr>fpc_mode = MID, fpc_factor = None\<rparr>, pp_book_seen = True\<rparr>)], pr_listener_connected = True,
     pr_clock_reads = 0, pr_subscribed = [], pr_broadcasts = []\<rparr>"
  have "pr_broadcasts (publish_fair_price demo_pricer_env ''A'' ?s) \<noteq> pr_broadcasts ?s"
    by (simp add: publish_fair_price_def demo_market_state_def demo_pricer_env_def demo_fair_msg_def calculator_compute_def
      has_two_sided_book_def ms_mid_price_def market_state_init_def isnan_def fair_price_result_init_def priceable_def
      fair_price_msg_of_def Let_def)
  from publish_is_guarded [OF this] this show ?thesis by blast
qed

text \<open>The publish timer fires at the next multiple of the interval, at most one interval away.\<close>

lemma publish_delay_aligned:
  assumes "0 < ms" "ms < 2 ^ 40" "0 \<le> now"
  shows "\<exists>d. publish_delay ms now = Some d \<and> 0 < d \<and> d \<le> ms * 1000000 \<and> (now + d) mod (ms * 1000000) = 0"
proof -
  let ?i = "ms * 1000000"
  have i: "s64 ?i = ?i" using assms by (intro s64_id) simp_all
  have m: "cpp_mod now ?i = now mod ?i" using assms by (auto simp: cpp_mod_def sgn_if)
  have "now + (?i - now mod ?i) = ?i * (now div ?i + 1)" 
    by (simp add: distrib_left minus_mod_eq_mult_div)
  then have "(now + (?i - now mod ?i)) mod ?i = 0" by simp
  moreover have "0 < ?i - now mod ?i" "?i - now mod ?i \<le> ?i" using assms by simp_all
  ultimately show ?thesis using assms by (simp add: publish_delay_def i m Let_def)
qed

end
