(* ===== verification/Tcp_Framing.thy ===== *)
theory Tcp_Framing
  imports Msg_Types
begin

text \<open>
  The line framing both ends of an internal link share: every message is written followed by a newline
  (\<open>TcpSession::do_write\<close>, \<open>TcpClientBase::send_subscribe_request\<close>), and the reader cuts complete
  lines off its buffer after every read of arbitrary size (\<open>TcpSession::do_read\<close>,
  \<open>TcpClientBase::do_read\<close>), skipping empty ones.
\<close>

abbreviation newline :: char where
  "newline \<equiv> CHR 0x0A"

text \<open>The \<open>while (read_message_.find('\n') ...)\<close> loop: the lines taken, empty ones dropped, and what stays buffered.\<close>

function take_lines :: "string \<Rightarrow> string list \<times> string" where
  "take_lines read_message =
     (case dropWhile (\<lambda>c. c \<noteq> newline) read_message of
        [] \<Rightarrow> ([], read_message)
      | _ # rest \<Rightarrow>
          (let line = takeWhile (\<lambda>c. c \<noteq> newline) read_message in
           case take_lines rest of (lines, left) \<Rightarrow> (if line = [] then lines else line # lines, left)))"
  by auto

termination
proof (relation "measure length")
  fix buf rest :: string and c
  assume "dropWhile (\<lambda>c. c \<noteq> newline) buf = c # rest"
  then show "(rest, buf) \<in> measure length"
    using length_dropWhile_le [of "\<lambda>c. c \<noteq> newline" buf] by simp
qed simp

declare take_lines.simps [simp del]

text \<open>One completed read appends its bytes and takes the complete lines.\<close>

definition on_bytes :: "string \<Rightarrow> string \<Rightarrow> string list \<times> string" where
  "on_bytes read_message bytes = take_lines (read_message @ bytes)"

fun read_all :: "string \<Rightarrow> string list \<Rightarrow> string list \<times> string" where
  "read_all buf [] = ([], buf)"
| "read_all buf (chunk # chunks) =
     (case on_bytes buf chunk of (lines, buf1) \<Rightarrow>
        case read_all buf1 chunks of (lines', buf2) \<Rightarrow> (lines @ lines', buf2))"

definition frame :: "string list \<Rightarrow> string" where
  "frame msgs = concat (map (\<lambda>m. m @ [newline]) msgs)"

section \<open>Chunking does not matter\<close>

lemma take_lines_no_newline: "newline \<notin> set buf \<Longrightarrow> take_lines buf = ([], buf)"
proof -
  assume "newline \<notin> set buf"
  then have none: "dropWhile (\<lambda>c. c \<noteq> newline) buf = []" by (simp add: dropWhile_eq_Nil_conv) metis
  show ?thesis unfolding take_lines.simps [of buf] none by simp
qed

lemma take_lines_line:
  "newline \<notin> set line \<Longrightarrow> take_lines (line @ newline # rest) =
     (case take_lines rest of (lines, left) \<Rightarrow> (if line = [] then lines else line # lines, left))"
proof -
  assume line: "newline \<notin> set line"
  then have "dropWhile (\<lambda>c. c \<noteq> newline) (line @ newline # rest) = newline # rest"
    "takeWhile (\<lambda>c. c \<noteq> newline) (line @ newline # rest) = line"
    by (subst dropWhile_append2, auto) (subst takeWhile_append2, auto)
  then show ?thesis by (subst take_lines.simps) simp
qed

lemma buffer_cases:
  obtains (rest) "newline \<notin> set buf" | (line) line rest where "buf = line @ newline # rest" "newline \<notin> set line"
  by (metis split_list_first)

lemma take_lines_left: "newline \<notin> set (snd (take_lines buf))"
proof (induction buf rule: length_induct)
  case (1 buf)
  show ?case
  proof (cases buf rule: buffer_cases)
    case rest
    then show ?thesis by (simp add: take_lines_no_newline)
  next
    case (line line rest)
    then show ?thesis using 1 by (auto simp: take_lines_line case_prod_unfold)
  qed
qed

lemma take_lines_append:
  "take_lines (buf @ ext) =
     (case take_lines buf of (lines, left) \<Rightarrow>
        case take_lines (left @ ext) of (lines', left') \<Rightarrow> (lines @ lines', left'))"
proof (induction buf rule: length_induct)
  case (1 buf)
  show ?case
  proof (cases buf rule: buffer_cases)
    case rest
    then show ?thesis by (simp add: take_lines_no_newline)
  next
    case (line line rest)
    have IH: "take_lines (rest @ ext) = (case take_lines rest of (lines, left) \<Rightarrow>
        case take_lines (left @ ext) of (lines', left') \<Rightarrow> (lines @ lines', left'))"
      using 1 line(1) by simp
    have "take_lines (buf @ ext) = (case take_lines (rest @ ext) of (ls, left) \<Rightarrow> (if line = [] then ls else line # ls, left))"
      using take_lines_line [OF line(2), of "rest @ ext"] by (simp add: line(1))
    then show ?thesis
      using take_lines_line [OF line(2), of rest] by (simp add: line(1) IH case_prod_unfold)
  qed
qed

lemma read_all_concat: "newline \<notin> set buf \<Longrightarrow> read_all buf chunks = take_lines (buf @ concat chunks)"
proof (induction chunks arbitrary: buf)
  case Nil
  then show ?case by (simp add: take_lines_no_newline)
next
  case (Cons chunk chunks)
  have "newline \<notin> set (snd (take_lines (buf @ chunk)))" by (rule take_lines_left)
  then have "read_all (snd (take_lines (buf @ chunk))) chunks = take_lines (snd (take_lines (buf @ chunk)) @ concat chunks)"
    by (rule Cons.IH)
  then show ?case
    using take_lines_append [of "buf @ chunk" "concat chunks"] by (simp add: on_bytes_def case_prod_unfold)
qed

lemma frame_append: "frame (xs @ ys) = frame xs @ frame ys"
  by (simp add: frame_def)

lemma take_lines_frame:
  "list_all (\<lambda>m. newline \<notin> set m) msgs \<Longrightarrow> newline \<notin> set part
     \<Longrightarrow> take_lines (frame msgs @ part) = (filter (\<lambda>m. m \<noteq> []) msgs, part)"
proof (induction msgs)
  case Nil
  then show ?case by (simp add: frame_def take_lines_no_newline)
next
  case (Cons m msgs)
  have "frame (m # msgs) @ part = m @ newline # (frame msgs @ part)" by (simp add: frame_def)
  then show ?case using Cons take_lines_line [of m "frame msgs @ part"] by simp
qed

text \<open>A line is found whole between terminated messages, whatever these contain.\<close>

lemma take_lines_terminated: "snd (take_lines (frame msgs)) = []"
proof (induction msgs)
  case Nil
  then show ?case by (simp add: frame_def take_lines_no_newline)
next
  case (Cons m msgs)
  have "snd (take_lines (m @ [newline])) = []"
    using take_lines_append [of m "[newline]"] take_lines_line [OF take_lines_left [of m], of "[]"] take_lines_no_newline [of "[]"]
    by (simp add: case_prod_unfold)
  moreover have "frame (m # msgs) = (m @ [newline]) @ frame msgs" by (simp add: frame_def)
  ultimately show ?case using Cons take_lines_append [of "m @ [newline]" "frame msgs"] by (simp add: case_prod_unfold)
qed

lemma take_lines_finds:
  assumes "m \<in> set msgs" "m \<noteq> []" "newline \<notin> set m"
  shows "m \<in> set (fst (take_lines (frame msgs)))"
proof -
  obtain as bs where "msgs = as @ m # bs" using assms(1) by (meson split_list)
  then have "frame msgs = frame as @ m @ newline # frame bs" by (simp add: frame_def)
  then show ?thesis
    using take_lines_append [of "frame as" "m @ newline # frame bs"] take_lines_terminated [of as] take_lines_line [OF assms(3), of "frame bs"]
      assms(2) by (simp add: case_prod_unfold)
qed

section \<open>Properties\<close>

text \<open>
  C14. Framing round trip: whatever sizes the reads have, a reader that starts with an empty buffer
  recovers exactly the non-empty messages that were written, in order, once all their bytes have
  arrived, and keeps an unfinished message for the next read; no message is split or merged.
\<close>

theorem framing_roundtrip:
  assumes "list_all (\<lambda>m. newline \<notin> set m) msgs" "newline \<notin> set part" "concat chunks = frame msgs @ part"
  shows "read_all [] chunks = (filter (\<lambda>m. m \<noteq> []) msgs, part)"
  using read_all_concat [of "[]" chunks] take_lines_frame [OF assms(1,2)] assms(3) by simp

theorem framing_roundtrip_witness:
  "read_all [] [''ab'', [CHR ''c'', newline, newline, CHR ''d''], [newline, CHR ''e'']] = ([''abc'', ''d''], ''e'')"
  using framing_roundtrip [of "[''abc'', [], ''d'']" "''e''" "[''ab'', [CHR ''c'', newline, newline, CHR ''d''], [newline, CHR ''e'']]"]
  by (simp add: frame_def)

end
