(* ===== verification/Tcp_Client.thy ===== *)
theory Tcp_Client
  imports Tcp_Framing
begin

text \<open>
  The client end of an internal link (\<open>connection_handlers/tcp/tcp_client_base.cpp\<close>): dialling, the
  reconnect timer, line framing, the write queue and the subscribe handshake.

  Everything below runs on the client's io thread, one handler at a time.  An asynchronous operation is
  a pending flag; its completion is an event, with the error code as a flag.  Completions of cancelled
  operations still run, possibly with success; as the source relies on, they have all run by the time the
  reconnect timer fires.  The virtual hooks are recorded in the order of their calls.  The JSON codec
  and whether the address parses are parameters (\<open>client_env\<close>).
\<close>

record client_env =
  ce_address_ok :: bool
  ce_feed :: "string \<Rightarrow> string option"
  ce_read_response :: "string \<Rightarrow> subscribe_response_msg option"
  ce_write_request :: "subscribe_request_msg \<Rightarrow> string option"

datatype client_hook =
    OnStatus bool bool
  | OnSubscribeResponse bool bool product
  | OnDataLine string string

record tcp_client =
  cl_running :: bool
  cl_connected :: bool
  cl_writing :: bool
  cl_write_queue :: "string list"
  cl_read_message :: string
  cl_connect_pending :: bool
  cl_read_pending :: bool
  cl_write_pending :: bool
  cl_timer_armed :: bool
  cl_hooks :: "client_hook list"

definition tcp_client_init :: tcp_client where
  "tcp_client_init = \<lparr>cl_running = False, cl_connected = False, cl_writing = False, cl_write_queue = [], cl_read_message = [],
     cl_connect_pending = False, cl_read_pending = False, cl_write_pending = False, cl_timer_armed = False, cl_hooks = []\<rparr>"

definition call_hook :: "client_hook \<Rightarrow> tcp_client \<Rightarrow> tcp_client" where
  "call_hook h s = s\<lparr>cl_hooks := cl_hooks s @ [h]\<rparr>"

definition client_do_connect :: "client_env \<Rightarrow> tcp_client \<Rightarrow> tcp_client" where
  "client_do_connect ce s =
     (if \<not> cl_running s then s
      else if \<not> ce_address_ok ce then s
      else (call_hook (OnStatus True False) (s\<lparr>cl_writing := False, cl_write_queue := [], cl_read_message := []\<rparr>))
             \<lparr>cl_connect_pending := True\<rparr>)"

definition client_start :: "client_env \<Rightarrow> tcp_client \<Rightarrow> tcp_client" where
  "client_start ce s = (if cl_running s then s else client_do_connect ce (s\<lparr>cl_running := True\<rparr>))"

definition arm_reconnect_timer :: "tcp_client \<Rightarrow> tcp_client" where
  "arm_reconnect_timer s = (if \<not> cl_running s then s else s\<lparr>cl_timer_armed := True\<rparr>)"

definition close_socket :: "tcp_client \<Rightarrow> tcp_client" where
  "close_socket s =
     (if cl_connected s
      then (let s1 = s\<lparr>cl_connected := False\<rparr> in if cl_running s1 then call_hook (OnStatus False False) s1 else s1)
      else s)"

definition client_on_connect :: "bool \<Rightarrow> tcp_client \<Rightarrow> tcp_client" where
  "client_on_connect ec s0 =
     (let s = s0\<lparr>cl_connect_pending := False\<rparr> in
      if \<not> cl_running s then s
      else if ec then arm_reconnect_timer (call_hook (OnStatus False False) s)
      else (call_hook (OnStatus False True) (s\<lparr>cl_connected := True\<rparr>))\<lparr>cl_read_pending := True\<rparr>)"

definition client_on_timer :: "client_env \<Rightarrow> tcp_client \<Rightarrow> tcp_client" where
  "client_on_timer ce s0 =
     (let s = s0\<lparr>cl_timer_armed := False\<rparr> in if \<not> cl_running s then s else client_do_connect ce s)"

text \<open>The posted body of \<open>stop()\<close>, after it has cleared \<open>running_\<close>.\<close>

definition client_stop :: "tcp_client \<Rightarrow> tcp_client" where
  "client_stop s = (if \<not> cl_running s then s else close_socket (s\<lparr>cl_running := False, cl_timer_armed := False\<rparr>))"

definition client_handle_line :: "client_env \<Rightarrow> string \<Rightarrow> tcp_client \<Rightarrow> tcp_client" where
  "client_handle_line ce line s =
     (case ce_feed ce line of
        None \<Rightarrow> s
      | Some feed \<Rightarrow>
          if feed = ''subscribe''
          then (case ce_read_response ce line of
                  None \<Rightarrow> s
                | Some r \<Rightarrow> call_hook (OnSubscribeResponse (sp_subscribe r) (sp_success r) (sp_product r)) s)
          else call_hook (OnDataLine feed line) s)"

definition client_on_read :: "client_env \<Rightarrow> bool \<Rightarrow> string \<Rightarrow> tcp_client \<Rightarrow> tcp_client" where
  "client_on_read ce ec bytes s0 =
     (let s = s0\<lparr>cl_read_pending := False\<rparr> in
      if \<not> cl_running s then s
      else if ec then (if cl_connected s then arm_reconnect_timer (close_socket s) else s)
      else case on_bytes (cl_read_message s) bytes of (lines, left) \<Rightarrow>
        (fold (client_handle_line ce) lines (s\<lparr>cl_read_message := left\<rparr>))\<lparr>cl_read_pending := True\<rparr>)"

definition client_do_write :: "tcp_client \<Rightarrow> tcp_client" where
  "client_do_write s = (if cl_write_queue s = [] then s\<lparr>cl_writing := False\<rparr> else s\<lparr>cl_write_pending := True\<rparr>)"

definition enqueue_write :: "string \<Rightarrow> tcp_client \<Rightarrow> tcp_client" where
  "enqueue_write msg s =
     (let s1 = s\<lparr>cl_write_queue := cl_write_queue s @ [msg]\<rparr> in
      if \<not> cl_writing s1 then client_do_write (s1\<lparr>cl_writing := True\<rparr>) else s1)"

definition client_on_written :: "bool \<Rightarrow> tcp_client \<Rightarrow> tcp_client" where
  "client_on_written ec s0 =
     (let s = s0\<lparr>cl_write_pending := False\<rparr> in
      if ec then (let s1 = s\<lparr>cl_writing := False\<rparr> in if cl_connected s1 then arm_reconnect_timer (close_socket s1) else s1)
      else client_do_write (s\<lparr>cl_write_queue := tl (cl_write_queue s)\<rparr>))"

text \<open>\<open>subscribe\<close> and \<open>unsubscribe\<close>: the request is serialised at once, the write happens on the io thread.\<close>

definition send_subscribe_request :: "client_env \<Rightarrow> product \<Rightarrow> category \<Rightarrow> bool \<Rightarrow> tcp_client \<Rightarrow> tcp_client" where
  "send_subscribe_request ce p c subscribe s =
     (case ce_write_request ce \<lparr>sr_subscribe = subscribe, sr_product = p, sr_category = c\<rparr> of
        None \<Rightarrow> s
      | Some json \<Rightarrow> if \<not> cl_connected s then s else enqueue_write (json @ [newline]) s)"

section \<open>The client as a state machine\<close>

text \<open>Everything reachable from \<open>start()\<close>, until \<open>stop()\<close> and after it.\<close>

inductive client_reach :: "client_env \<Rightarrow> tcp_client \<Rightarrow> bool" for ce where
  start: "client_reach ce (client_start ce tcp_client_init)"
| connect: "client_reach ce s \<Longrightarrow> cl_connect_pending s \<Longrightarrow> client_reach ce (client_on_connect ec s)"
| read: "client_reach ce s \<Longrightarrow> cl_read_pending s \<Longrightarrow> client_reach ce (client_on_read ce ec bytes s)"
| written: "client_reach ce s \<Longrightarrow> cl_write_pending s \<Longrightarrow> client_reach ce (client_on_written ec s)"
| timer: "client_reach ce s \<Longrightarrow> cl_timer_armed s \<Longrightarrow> \<not> cl_read_pending s \<Longrightarrow> \<not> cl_write_pending s
    \<Longrightarrow> client_reach ce (client_on_timer ce s)"
| request: "client_reach ce s \<Longrightarrow> client_reach ce (send_subscribe_request ce p c b s)"
| stop: "client_reach ce s \<Longrightarrow> client_reach ce (client_stop s)"

text \<open>What the consumer was last told about the link.\<close>

fun told :: "bool \<Rightarrow> client_hook list \<Rightarrow> bool" where
  "told b [] = b"
| "told b (OnStatus dialling up # hs) = told up hs"
| "told b (_ # hs) = told b hs"

lemma told_append [simp]: "told b (hs @ hs') = told (told b hs) hs'"
  by (induction b hs rule: told.induct) simp_all

definition link_ok :: "client_env \<Rightarrow> tcp_client \<Rightarrow> bool" where
  "link_ok ce s \<longleftrightarrow> (cl_running s \<and> ce_address_ok ce \<longrightarrow> cl_connect_pending s \<or> cl_connected s \<or> cl_timer_armed s)
     \<and> \<not> (cl_connect_pending s \<and> cl_connected s) \<and> \<not> (cl_connect_pending s \<and> cl_timer_armed s)
     \<and> \<not> (cl_connected s \<and> cl_timer_armed s)
     \<and> (cl_running s \<and> cl_connected s \<longrightarrow> cl_read_pending s)
     \<and> (cl_running s \<longrightarrow> told False (cl_hooks s) = cl_connected s)"

definition writes_ok :: "tcp_client \<Rightarrow> bool" where
  "writes_ok s \<longleftrightarrow> cl_writing s = cl_write_pending s
     \<and> (cl_write_pending s \<longrightarrow> cl_write_queue s \<noteq> [])
     \<and> (cl_connected s \<and> cl_write_queue s \<noteq> [] \<longrightarrow> cl_write_pending s)
     \<and> (cl_connect_pending s \<longrightarrow> cl_write_queue s = [])"

lemmas client_ops = client_start_def client_do_connect_def call_hook_def client_on_connect_def client_on_timer_def
  client_stop_def close_socket_def arm_reconnect_timer_def send_subscribe_request_def enqueue_write_def client_do_write_def
  client_on_written_def Let_def

lemma handle_lines_frame:
  "cl_running (fold (client_handle_line ce) ls s) = cl_running s \<and> cl_connected (fold (client_handle_line ce) ls s) = cl_connected s
   \<and> cl_writing (fold (client_handle_line ce) ls s) = cl_writing s
   \<and> cl_write_queue (fold (client_handle_line ce) ls s) = cl_write_queue s
   \<and> cl_connect_pending (fold (client_handle_line ce) ls s) = cl_connect_pending s
   \<and> cl_write_pending (fold (client_handle_line ce) ls s) = cl_write_pending s
   \<and> cl_timer_armed (fold (client_handle_line ce) ls s) = cl_timer_armed s
   \<and> told b (cl_hooks (fold (client_handle_line ce) ls s)) = told b (cl_hooks s)"
proof (induction ls arbitrary: s)
  case (Cons l ls)
  show ?case
    using Cons [of "client_handle_line ce l s"] by (simp add: client_handle_line_def call_hook_def split: option.splits)
qed simp

lemma on_read_cases:
  "cl_running s \<Longrightarrow> \<not> ec \<Longrightarrow> \<exists>ls left. client_on_read ce ec bytes s
     = (fold (client_handle_line ce) ls (s\<lparr>cl_read_pending := False, cl_read_message := left\<rparr>))\<lparr>cl_read_pending := True\<rparr>"
  by (auto simp: client_on_read_def Let_def case_prod_unfold)

lemma client_on_read_ok:
  assumes "link_ok ce s" "writes_ok s" "cl_read_pending s"
  shows "link_ok ce (client_on_read ce ec bytes s)" "writes_ok (client_on_read ce ec bytes s)"
proof -
  have "link_ok ce (client_on_read ce ec bytes s) \<and> writes_ok (client_on_read ce ec bytes s)"
  proof (cases "cl_running s \<and> \<not> ec")
    case True
    then obtain ls left where r: "client_on_read ce ec bytes s
        = (fold (client_handle_line ce) ls (s\<lparr>cl_read_pending := False, cl_read_message := left\<rparr>))\<lparr>cl_read_pending := True\<rparr>"
      using on_read_cases by blast
    show ?thesis
      using assms handle_lines_frame [of ce ls "s\<lparr>cl_read_pending := False, cl_read_message := left\<rparr>"]
      unfolding r link_ok_def writes_ok_def by simp
  next
    case False
    then show ?thesis
      using assms by (auto simp: client_on_read_def client_ops link_ok_def writes_ok_def)
  qed
  then show "link_ok ce (client_on_read ce ec bytes s)" "writes_ok (client_on_read ce ec bytes s)" by simp_all
qed

lemma client_reach_ok: "client_reach ce s \<Longrightarrow> link_ok ce s \<and> writes_ok s"
proof (induction rule: client_reach.induct)
  case start
  show ?case by (simp add: client_ops tcp_client_init_def link_ok_def writes_ok_def)
next
  case (connect s ec)
  then show ?case by (auto simp: client_ops link_ok_def writes_ok_def)
next
  case (read s ec bytes)
  then show ?case using client_on_read_ok by blast
next
  case (written s ec)
  then show ?case by (auto simp: client_ops link_ok_def writes_ok_def neq_Nil_conv)
next
  case (timer s)
  then show ?case by (auto simp: client_ops link_ok_def writes_ok_def)
next
  case (request s p c b)
  then show ?case by (auto simp: client_ops link_ok_def writes_ok_def split: option.splits)
next
  case (stop s)
  then show ?case by (auto simp: client_ops link_ok_def writes_ok_def)
qed

section \<open>What the consumer is told of a byte stream\<close>

definition line_hooks :: "client_env \<Rightarrow> string \<Rightarrow> client_hook list" where
  "line_hooks ce line =
     (case ce_feed ce line of
        None \<Rightarrow> []
      | Some feed \<Rightarrow>
          if feed = ''subscribe''
          then (case ce_read_response ce line of
                  None \<Rightarrow> []
                | Some r \<Rightarrow> [OnSubscribeResponse (sp_subscribe r) (sp_success r) (sp_product r)])
          else [OnDataLine feed line])"

lemma handle_lines_hooks:
  "cl_hooks (fold (client_handle_line ce) ls s) = cl_hooks s @ concat (map (line_hooks ce) ls)
    \<and> cl_read_message (fold (client_handle_line ce) ls s) = cl_read_message s"
proof (induction ls arbitrary: s)
  case (Cons l ls)
  have "cl_hooks (client_handle_line ce l s) = cl_hooks s @ line_hooks ce l \<and> cl_read_message (client_handle_line ce l s) = cl_read_message s"
    by (simp add: client_handle_line_def line_hooks_def call_hook_def split: option.splits)
  then show ?case using Cons by simp
qed simp

lemma client_reads_all:
  "cl_running s \<Longrightarrow> cl_hooks (fold (client_on_read ce False) chunks s)
     = cl_hooks s @ concat (map (line_hooks ce) (fst (read_all (cl_read_message s) chunks)))"
proof (induction chunks arbitrary: s)
  case (Cons chunk chunks)
  let ?s = "client_on_read ce False chunk s"
  obtain lines left where on: "on_bytes (cl_read_message s) chunk = (lines, left)" by fastforce
  have s: "?s = (fold (client_handle_line ce) lines (s\<lparr>cl_read_pending := False, cl_read_message := left\<rparr>))\<lparr>cl_read_pending := True\<rparr>"
    using Cons.prems on by (simp add: client_on_read_def)
  have "cl_running ?s" "cl_read_message ?s = left" "cl_hooks ?s = cl_hooks s @ concat (map (line_hooks ce) lines)"
    using Cons.prems unfolding s by (simp_all add: handle_lines_frame handle_lines_hooks)
  then show ?case using Cons.IH [of ?s] on by (simp add: case_prod_unfold)
qed simp

section \<open>Properties\<close>

text \<open>
  C21. The link looks after itself: from \<open>start()\<close> until \<open>stop()\<close>, with an address that parses, the client is at
  every moment in exactly one of three states: dialling, connected with a read outstanding, or waiting
  for the reconnect timer.  The consumer's last status message always agrees with the link, and while
  connected a queued request is always being written.
\<close>

theorem client_never_stuck:
  assumes "client_reach ce s" "cl_running s" "ce_address_ok ce"
  shows "(cl_connect_pending s \<and> \<not> cl_connected s \<and> \<not> cl_timer_armed s
      \<or> \<not> cl_connect_pending s \<and> cl_connected s \<and> cl_read_pending s \<and> \<not> cl_timer_armed s
      \<or> \<not> cl_connect_pending s \<and> \<not> cl_connected s \<and> cl_timer_armed s)
    \<and> told False (cl_hooks s) = cl_connected s
    \<and> (cl_connected s \<and> cl_write_queue s \<noteq> [] \<longrightarrow> cl_write_pending s)"
  using client_reach_ok [OF assms(1)] assms(2,3) unfolding link_ok_def writes_ok_def by blast

definition demo_client_env :: client_env where
  "demo_client_env = \<lparr>ce_address_ok = True, ce_feed = (\<lambda>l. Some ''orderbook''), ce_read_response = (\<lambda>l. None),
     ce_write_request = (\<lambda>r. Some ''sub'')\<rparr>"

theorem client_never_stuck_witness:
  "let s = client_on_read demo_client_env True [] (client_on_connect False (client_start demo_client_env tcp_client_init))
   in cl_timer_armed s \<and> \<not> told False (cl_hooks s)"
proof -
  let ?c = "client_on_connect False (client_start demo_client_env tcp_client_init)"
  let ?s = "client_on_read demo_client_env True [] ?c"
  have "client_reach demo_client_env ?c"
    by (intro client_reach.connect client_reach.start) (simp add: client_ops demo_client_env_def tcp_client_init_def)
  then have "client_reach demo_client_env ?s"
    by (rule client_reach.read) (simp add: client_ops demo_client_env_def tcp_client_init_def)
  moreover have "cl_running ?s" "\<not> cl_connected ?s" "\<not> cl_connect_pending ?s"
    by (simp_all add: client_ops client_on_read_def demo_client_env_def tcp_client_init_def)
  ultimately show ?thesis
    using client_never_stuck [of demo_client_env ?s] by (simp add: Let_def) (simp add: demo_client_env_def)
qed

end
