(* ===== verification/Feed_Clients.thy ===== *)
theory Feed_Clients
  imports Tcp_Client Order_Handler Pricer
begin

text \<open>
  The two subclasses of the TCP client (\<open>connection_handlers/tcp/market_feed_client.hpp\<close>,
  \<open>fair_price_client.hpp\<close>): what their hooks put on the consumer's queue.  The market client is a
  template over the consumer's task type; \<open>market_feed_task\<close> holds its three alternatives, and
  \<open>trader_task_of\<close> and \<open>pricer_task_of\<close> are the conversions into the two consumers' variants.  The
  JSON readers are parameters (\<open>feed_env\<close>); an unreadable line is \<open>None\<close>.
\<close>

record feed_env =
  fe_orderbook :: "string \<Rightarrow> (product \<times> orderbook_data) option"
  fe_trade :: "string \<Rightarrow> (product \<times> trade_data) option"
  fe_execution :: "string \<Rightarrow> (product \<times> execution_data) option"
  fe_position :: "string \<Rightarrow> (product \<times> position_data) option"
  fe_product_info :: "string \<Rightarrow> (product \<times> product_info_data) option"
  fe_fair_price :: "string \<Rightarrow> fair_price_msg option"

datatype market_feed_task =
    MfStatus feed_status
  | MfSubscribe feed_subscribe
  | MfData market_data_response

definition emit_feed :: "feed_kind \<Rightarrow> ('d \<Rightarrow> feed_payload) \<Rightarrow> (product \<times> 'd) option \<Rightarrow> market_feed_task option" where
  "emit_feed kind payload parsed =
     (case parsed of None \<Rightarrow> None
      | Some (p, d) \<Rightarrow> Some (MfData \<lparr>md_feed = kind, md_product = p, md_data = payload d\<rparr>))"

definition market_on_data_line :: "feed_env \<Rightarrow> string \<Rightarrow> string \<Rightarrow> market_feed_task option" where
  "market_on_data_line fe feed line =
     (if feed = ''orderbook'' then emit_feed FeedOrderbook POrderbook (fe_orderbook fe line)
      else if feed = ''trade'' then emit_feed FeedTrade PTrade (fe_trade fe line)
      else if feed = ''execution'' then emit_feed FeedExecution PExecution (fe_execution fe line)
      else if feed = ''position'' then emit_feed FeedPosition PPosition (fe_position fe line)
      else if feed = ''product_info'' then emit_feed FeedProductInfo PProductInfo (fe_product_info fe line)
      else None)"

fun market_feed_hook :: "feed_env \<Rightarrow> client_hook \<Rightarrow> market_feed_task option" where
  "market_feed_hook fe (OnStatus dialling up) = Some (MfStatus \<lparr>fs_connecting = dialling, fs_connected = up\<rparr>)"
| "market_feed_hook fe (OnSubscribeResponse b ok p) = Some (MfSubscribe \<lparr>fu_subscribe = b, fu_success = ok, fu_product = p\<rparr>)"
| "market_feed_hook fe (OnDataLine feed line) = market_on_data_line fe feed line"

definition fair_price_on_data_line :: "feed_env \<Rightarrow> string \<Rightarrow> string \<Rightarrow> trader_task option" where
  "fair_price_on_data_line fe feed line =
     (if feed \<noteq> ''fair_price'' then None
      else case fe_fair_price fe line of
        None \<Rightarrow> None
      | Some m \<Rightarrow> Some (FairPriceTask \<lparr>fr_product = fm_product m, fr_data = fm_fair_price_data m\<rparr>))"

fun fair_price_hook :: "feed_env \<Rightarrow> client_hook \<Rightarrow> trader_task option" where
  "fair_price_hook fe (OnStatus dialling up) = Some (PricerStatusTask \<lparr>fs_connecting = dialling, fs_connected = up\<rparr>)"
| "fair_price_hook fe (OnSubscribeResponse b ok p) = Some (PricerSubscribeTask \<lparr>fu_subscribe = b, fu_success = ok, fu_product = p\<rparr>)"
| "fair_price_hook fe (OnDataLine feed line) = fair_price_on_data_line fe feed line"

fun trader_task_of :: "market_feed_task \<Rightarrow> trader_task" where
  "trader_task_of (MfStatus r) = ListenerStatusTask r"
| "trader_task_of (MfSubscribe r) = ListenerSubscribeTask r"
| "trader_task_of (MfData r) = MarketDataTask r"

fun pricer_task_of :: "market_feed_task \<Rightarrow> pricer_task" where
  "pricer_task_of (MfStatus r) = PtListenerStatus r"
| "pricer_task_of (MfSubscribe r) = PtListenerSubscribe r"
| "pricer_task_of (MfData r) = PtMarketData r"

section \<open>Properties\<close>

text \<open>
  C39. Whatever line arrives, a task the market client makes carries the payload its feed tag announces, so
  neither the trader nor the pricer can fail on the variant access.
\<close>

theorem feed_tasks_are_well_typed:
  assumes "market_feed_hook fe h = Some t"
  shows "(\<exists>s'. handle_task ev (trader_task_of t) s = Inr s') \<and> (\<exists>q'. pr_run pe (pricer_task_of t) q = Inr q')"
  using assms
  by (cases h) (auto simp: market_on_data_line_def emit_feed_def handle_task_def process_market_data_def pr_run_def
      pr_process_market_data_def split: if_splits option.splits)

definition demo_feed_env :: feed_env where
  "demo_feed_env = \<lparr>fe_orderbook = (\<lambda>l. None), fe_trade = (\<lambda>l. None), fe_execution = (\<lambda>l. None),
     fe_position = (\<lambda>l. Some (''A'', \<lparr>pd_balance = Some (Fin 1), pd_available_balance = None\<rparr>)), fe_product_info = (\<lambda>l. None),
     fe_fair_price = (\<lambda>l. Some \<lparr>fm_product = ''A'', fm_fair_price_data =
       \<lparr>fp_ts = 1000, fp_fair_price = Some (Fin 100), fp_factor = None, fp_forward_vol_bp = Fin 1\<rparr>\<rparr>)\<rparr>"

theorem feed_tasks_are_well_typed_witness:
  "\<exists>t q'. market_feed_hook demo_feed_env (OnDataLine ''position'' ''x'') = Some t
     \<and> pr_run \<lparr>pe_config = pricer_config_init, pe_clk = (\<lambda>n. 0),
          pe_pow = (\<lambda>x e. x), pe_write_json = (\<lambda>m. None)\<rparr> (pricer_task_of t)
          \<lparr>pr_product_states = [], pr_listener_connected = False, pr_clock_reads = 0, pr_subscribed = [], pr_broadcasts = []\<rparr> = Inr q'"
proof -
  obtain t where t: "market_feed_hook demo_feed_env (OnDataLine ''position'' ''x'') = Some t"
    by (simp add: demo_feed_env_def market_on_data_line_def emit_feed_def)
  from feed_tasks_are_well_typed [OF t] t show ?thesis by blast
qed

end
