(* ===== verification/Text_Numbers.thy ===== *)
theory Text_Numbers
  imports Float64
begin

text \<open>
  Numbers as the exchange adapters read and write them: \<open>std::to_string\<close> of integers,
  \<open>std::stod\<close> and \<open>std::fixed << std::setprecision\<close>.  The text of an integer reads back as
  that integer (\<open>stoull_to_string\<close>), and the text of a number in fixed notation is the decimal
  nearest to it (\<open>decimal_value_format_fixed\<close>).
\<close>

section \<open>Integers as text\<close>

definition digit_char :: "nat \<Rightarrow> char" where
  "digit_char d = char_of (48 + d)"

fun nat_to_string :: "nat \<Rightarrow> string" where
  "nat_to_string n =
     (if n < 10 then [digit_char n] else nat_to_string (n div 10) @ [digit_char (n mod 10)])"

declare nat_to_string.simps [simp del]

definition to_string :: "int \<Rightarrow> string" where
  "to_string i = (if i < 0 then CHR ''-'' # nat_to_string (nat (- i)) else nat_to_string (nat i))"

text \<open>The last \<open>k\<close> decimal digits of a number, with leading zeros.\<close>

fun pad_digits :: "nat \<Rightarrow> nat \<Rightarrow> string" where
  "pad_digits 0 m = []"
| "pad_digits (Suc k) m = pad_digits k (m div 10) @ [digit_char (m mod 10)]"

section \<open>Floating-point numbers as text\<close>

text \<open>
  \<open>out << std::fixed << std::setprecision(p) << x\<close>: the exact binary value rounded to \<open>p\<close>
  decimals, halves to the even digit.
\<close>

definition fixed_text :: "nat \<Rightarrow> nat \<Rightarrow> string" where
  "fixed_text p m = nat_to_string (m div 10 ^ p) @ (if p = 0 then [] else CHR ''.'' # pad_digits p m)"

fun format_fixed :: "nat \<Rightarrow> dbl \<Rightarrow> string" where
  "format_fixed p (Fin x) =
     (if x < 0 then ''-'' else []) @ fixed_text p (nat (rne (\<bar>x\<bar> * 10 ^ p)))"
| "format_fixed p PInf = ''inf''"
| "format_fixed p NInf = ''-inf''"
| "format_fixed p NaN = ''nan''"

text \<open>The pieces of a number in the grammar of \<open>strtod\<close>.\<close>

fun split_sign :: "string \<Rightarrow> bool \<times> string" where
  "split_sign [] = (False, [])"
| "split_sign (c # r) = (if c = CHR ''-'' then (True, r) else if c = CHR ''+'' then (False, r) else (False, c # r))"

definition scan_mantissa :: "(char \<Rightarrow> bool) \<Rightarrow> string \<Rightarrow> string \<times> string \<times> string" where
  "scan_mantissa isd s =
     (case dropWhile isd s of
        [] \<Rightarrow> (takeWhile isd s, [], [])
      | c # r \<Rightarrow> if c = CHR ''.'' then (takeWhile isd s, takeWhile isd r, dropWhile isd r)
                 else (takeWhile isd s, [], c # r))"

definition scan_exponent :: "char list \<Rightarrow> string \<Rightarrow> int" where
  "scan_exponent marks s =
     (case s of [] \<Rightarrow> 0
      | c # r \<Rightarrow> if c \<in> set marks
          then (case split_sign r of (neg, r') \<Rightarrow>
                  let e = digits_val (takeWhile is_digit r') in if neg then - e else e)
          else 0)"

definition is_xdigit :: "char \<Rightarrow> bool" where
  "is_xdigit c \<longleftrightarrow> c \<in> set ''0123456789abcdefABCDEF''"

definition xdigit_val :: "char \<Rightarrow> int" where
  "xdigit_val c = (if is_digit c then of_char c - 48 else if (97 :: int) \<le> of_char c then of_char c - 87 else of_char c - 55)"

definition xdigits_val :: "string \<Rightarrow> int" where
  "xdigits_val ds = fold (\<lambda>c a. a * 16 + xdigit_val c) ds 0"

definition lower_char :: "char \<Rightarrow> char" where
  "lower_char c = (if 65 \<le> (of_char c :: nat) \<and> of_char c \<le> (90 :: nat) then char_of ((of_char c :: nat) + 32) else c)"

definition starts_ci :: "string \<Rightarrow> string \<Rightarrow> bool" where
  "starts_ci w s \<longleftrightarrow> take (length w) (map lower_char s) = w"

definition decimal_number :: "string \<Rightarrow> rat option" where
  "decimal_number s =
     (case scan_mantissa is_digit s of (i, f, rest) \<Rightarrow>
        if i @ f = [] then None
        else Some (of_int (digits_val (i @ f)) * 10 powi (scan_exponent ''eE'' rest - int (length f))))"

definition hex_number :: "string \<Rightarrow> rat option" where
  "hex_number s =
     (case scan_mantissa is_xdigit s of (i, f, rest) \<Rightarrow>
        if i @ f = [] then None
        else Some (of_int (xdigits_val (i @ f)) * 2 powi (scan_exponent ''pP'' rest - 4 * int (length f))))"

definition strtod_number :: "string \<Rightarrow> rat option" where
  "strtod_number s =
     (if starts_ci ''0x'' s \<and> hex_number (drop 2 s) \<noteq> None then hex_number (drop 2 s)
      else decimal_number s)"

text \<open>
  \<open>std::stod\<close>: \<open>None\<close> is an exception, for a text that is no number and for a value out of range
  (infinite after rounding, or tiny and inexact).
\<close>

definition stod_range :: "rat \<Rightarrow> dbl option" where
  "stod_range v =
     (if \<not> isfinite (fl v) \<or> v \<noteq> 0 \<and> \<bar>v\<bar> < 2 powi (- 1022) - 2 powi (- 1076) \<and> fl v \<noteq> Fin v
      then None else Some (fl v))"

definition stod :: "string \<Rightarrow> dbl option" where
  "stod str =
     (case split_sign (dropWhile is_space str) of (neg, s) \<Rightarrow>
        if starts_ci ''inf'' s then Some (if neg then NInf else PInf)
        else if starts_ci ''nan'' s then Some NaN
        else (case strtod_number s of None \<Rightarrow> None
              | Some v \<Rightarrow> stod_range (if neg then - v else v)))"

section \<open>The value of a decimal text\<close>

text \<open>What a venue reads from a decimal without exponent; the whole text has to be a number.\<close>

definition decimal_value :: "string \<Rightarrow> rat option" where
  "decimal_value s =
     (case split_sign s of (neg, r) \<Rightarrow>
        (case scan_mantissa is_digit r of (i, f, rest) \<Rightarrow>
           if i @ f = [] \<or> rest \<noteq> [] then None
           else Some ((if neg then - 1 else 1) * of_int (digits_val (i @ f)) / 10 ^ length f)))"

subsection \<open>Digits\<close>

lemma of_digit_char [simp]: "d < 10 \<Longrightarrow> of_char (digit_char d) = (48 + of_nat d :: 'a :: comm_semiring_1)"
proof -
  assume "d < 10"
  then have "of_char (digit_char d) = 48 + d" by (simp add: digit_char_def)
  then have "of_nat (of_char (digit_char d)) = (of_nat (48 + d) :: 'a)" by simp
  then show ?thesis by (simp add: of_nat_of_char)
qed

lemma is_digit_char [simp]: "d < 10 \<Longrightarrow> is_digit (digit_char d)"
  by (simp add: is_digit_def)

lemma digits_val_Nil [simp]: "digits_val [] = 0"
  by (simp add: digits_val_def)

lemma digits_val_snoc: "digits_val (ds @ [c]) = digits_val ds * 10 + (of_char c - 48)"
  by (simp add: digits_val_def)

lemma digits_val_append: "digits_val (xs @ ys) = digits_val xs * 10 ^ length ys + digits_val ys"
  by (induction ys rule: rev_induct) (simp_all add: digits_val_snoc algebra_simps flip: append_assoc)

lemma digits_val_nat_to_string [simp]: "digits_val (nat_to_string n) = int n"
proof (induction n rule: nat_to_string.induct)
  case (1 n)
  show ?case
  proof (cases "n < 10")
    case True
    then show ?thesis using digits_val_snoc [of "[]"] by (simp add: nat_to_string.simps [of n])
  next
    case False
    have "int (n div 10) * 10 + int (n mod 10) = int n"
      by (metis of_nat_add of_nat_mult of_nat_numeral div_mult_mod_eq)
    with False 1 show ?thesis
      by (simp add: nat_to_string.simps [of n] digits_val_snoc)
  qed
qed

lemma nat_to_string_digits: "\<forall>c \<in> set (nat_to_string n). is_digit c"
proof (induction n rule: nat_to_string.induct)
  case (1 n)
  then show ?case by (cases "n < 10") (auto simp: nat_to_string.simps [of n])
qed

lemma nat_to_string_not_Nil [simp]: "nat_to_string n \<noteq> []"
  by (subst nat_to_string.simps) simp

lemma pad_digits_digits: "\<forall>c \<in> set (pad_digits k m). is_digit c"
  by (induction k arbitrary: m) auto

lemma length_pad_digits [simp]: "length (pad_digits k m) = k"
  by (induction k arbitrary: m) simp_all

lemma digits_val_pad_digits [simp]: "digits_val (pad_digits k m) = int (m mod 10 ^ k)"
proof (induction k arbitrary: m)
  case 0
  then show ?case by simp
next
  case (Suc k)
  have "m mod (10 * 10 ^ k) = 10 * (m div 10 mod 10 ^ k) + m mod 10"
    by (simp add: mod_mult2_eq)
  then have "int (m mod 10 ^ Suc k) = 10 * int (m div 10 mod 10 ^ k) + int (m mod 10)"
    by (simp only: power_Suc of_nat_add of_nat_mult of_nat_numeral)
  with Suc [of "m div 10"] show ?case by (simp add: digits_val_snoc)
qed

lemma digit_not_sign: "is_digit c \<Longrightarrow> c \<noteq> CHR ''-'' \<and> c \<noteq> CHR ''+'' \<and> c \<noteq> CHR ''.'' \<and> \<not> is_space c"
  by (auto simp: is_digit_def is_space_def)

lemma split_sign_digits: "s \<noteq> [] \<Longrightarrow> is_digit (hd s) \<Longrightarrow> split_sign (s @ r) = (False, s @ r)"
  using digit_not_sign by (cases s) simp_all

lemma takeWhile_digits: "\<forall>c \<in> set s. is_digit c \<Longrightarrow> takeWhile is_digit s = s \<and> dropWhile is_digit s = []"
  by (simp add: dropWhile_eq_Nil_conv)

lemma scan_mantissa_int: "\<forall>c \<in> set s. is_digit c \<Longrightarrow> scan_mantissa is_digit s = (s, [], [])"
  by (simp add: scan_mantissa_def takeWhile_digits)

lemma scan_mantissa_frac:
  assumes "\<forall>c \<in> set s. is_digit c" "\<forall>c \<in> set f. is_digit c"
  shows "scan_mantissa is_digit (s @ CHR ''.'' # f) = (s, f, [])"
proof -
  have "\<not> is_digit CHR ''.''" by (simp add: is_digit_def)
  then have "takeWhile is_digit (s @ CHR ''.'' # f) = s" "dropWhile is_digit (s @ CHR ''.'' # f) = CHR ''.'' # f"
    using assms(1) by (simp_all add: takeWhile_append dropWhile_append takeWhile_digits)
  with assms(2) show ?thesis by (simp add: scan_mantissa_def takeWhile_digits)
qed

subsection \<open>Round trips\<close>

lemma stoull_to_string:
  assumes "0 \<le> i" "i < 2 ^ 64"
  shows "stoull (to_string i) = Some i"
proof -
  obtain c r where cr: "nat_to_string (nat i) = c # r" by (cases "nat_to_string (nat i)") auto
  then have c: "is_digit c" using nat_to_string_digits [of "nat i"] by (metis list.set_intros(1))
  have v: "digits_val (c # r) = i" using digits_val_nat_to_string [of "nat i"] assms(1) by (simp add: cr)
  have "takeWhile is_digit r = r"
    using takeWhile_digits [of r] nat_to_string_digits [of "nat i"] by (simp add: cr)
  with c v assms cr digit_not_sign [OF c] show ?thesis
    by (simp add: stoull_def to_string_def Let_def takeWhile_digits [THEN conjunct1])
qed

lemma to_string_not_Nil [simp]: "to_string i \<noteq> []"
  by (simp add: to_string_def)

lemma fixed_text_value:
  "decimal_value (fixed_text p m) = Some (of_nat m / 10 ^ p)"
proof -
  let ?i = "nat_to_string (m div 10 ^ p)" and ?f = "pad_digits p m"
  have hd: "?i \<noteq> []" "is_digit (hd ?i)"
    using nat_to_string_digits [of "m div 10 ^ p"] by (cases ?i; simp)+
  have scan: "scan_mantissa is_digit (?i @ (if p = 0 then [] else CHR ''.'' # ?f)) = (?i, ?f, [])"
    using scan_mantissa_int scan_mantissa_frac nat_to_string_digits pad_digits_digits by (cases p) simp_all
  have "int (m div 10 ^ p * 10 ^ p + m mod 10 ^ p) = int m" by (simp only: div_mult_mod_eq)
  then have "int (m div 10 ^ p) * 10 ^ p + int (m mod 10 ^ p) = int m"
    by (simp only: of_nat_add of_nat_mult of_nat_power of_nat_numeral)
  then have "digits_val (?i @ ?f) = int m" by (simp add: digits_val_append)
  then have "of_int (digits_val (?i @ ?f)) = (of_nat m :: rat)" by simp
  with hd scan show ?thesis
    by (simp add: decimal_value_def fixed_text_def split_sign_digits del: of_int_add of_int_mult)
qed

lemma decimal_value_minus: "decimal_value (CHR ''-'' # fixed_text p m) = Some (- (of_nat m / 10 ^ p))"
proof -
  have "is_digit (hd (nat_to_string n))" for n
    using nat_to_string_digits [of n] by (cases "nat_to_string n") simp_all
  then have "split_sign (fixed_text p m) = (False, fixed_text p m)"
    by (simp add: fixed_text_def split_sign_digits)
  with fixed_text_value [of p m] show ?thesis
    by (auto simp: decimal_value_def split: prod.splits if_splits)
qed

theorem decimal_value_format_fixed:
  "decimal_value (format_fixed p (Fin x)) = Some (of_int (rne (x * 10 ^ p)) / 10 ^ p)"
proof -
  let ?m = "nat (rne (\<bar>x\<bar> * 10 ^ p))"
  have "rne 0 \<le> rne (\<bar>x\<bar> * 10 ^ p)" by (rule rne_mono) simp
  then have "0 \<le> rne (\<bar>x\<bar> * 10 ^ p)" using rne_of_int [of 0] by simp
  then have m: "of_nat ?m = (of_int (rne (\<bar>x\<bar> * 10 ^ p)) :: rat)" by simp
  show ?thesis
  proof (cases "x < 0")
    case True
    then have "rne (x * 10 ^ p) = - rne (\<bar>x\<bar> * 10 ^ p)" using rne_minus [of "\<bar>x\<bar> * 10 ^ p"] by simp
    with True m show ?thesis by (simp add: decimal_value_minus del: abs_of_neg)
  next
    case False
    with m show ?thesis by (simp add: fixed_text_value)
  qed
qed

text \<open>A text of digits with a fraction, as the venue sends it, is read to the nearest number.\<close>

lemma xstart_digit: "is_digit c \<Longrightarrow> lower_char c = c \<and> c \<noteq> CHR ''i'' \<and> c \<noteq> CHR ''n'' \<and> c \<noteq> CHR ''x''"
  by (auto simp: is_digit_def lower_char_def)

lemma lower_char_point [simp]: "lower_char CHR ''.'' = CHR ''.''"
  by (simp add: lower_char_def)

lemma stod_decimal:
  assumes "\<forall>c \<in> set i. is_digit c" "i \<noteq> []" "\<forall>c \<in> set f. is_digit c"
  shows "stod (i @ CHR ''.'' # f) = stod_range (of_int (digits_val (i @ f)) / 10 ^ length f)"
proof -
  obtain c r where i: "i = c # r" using assms(2) by (cases i) auto
  then have c: "is_digit c" using assms(1) by simp
  have no: "\<not> starts_ci ''inf'' (i @ CHR ''.'' # f)" "\<not> starts_ci ''nan'' (i @ CHR ''.'' # f)"
    using xstart_digit [OF c] by (simp_all add: starts_ci_def i)
  have nx: "\<not> starts_ci ''0x'' (i @ CHR ''.'' # f)"
  proof (cases r)
    case Nil
    then show ?thesis by (simp add: starts_ci_def i)
  next
    case (Cons d r')
    then have "is_digit d" using assms(1) i by simp
    with Cons show ?thesis using xstart_digit [of d] by (simp add: starts_ci_def i)
  qed
  have "decimal_number (i @ CHR ''.'' # f) = Some (of_int (digits_val (i @ f)) / 10 ^ length f)"
    using scan_mantissa_frac [OF assms(1,3)] assms(2)
    by (simp add: decimal_number_def scan_exponent_def power_int_minus divide_inverse)
  with no nx show ?thesis
    using digit_not_sign [OF c] by (simp add: stod_def i strtod_number_def)
qed

end
