(* ===== verification/Binance_Rest.thy ===== *)
theory Binance_Rest
  imports Text_Numbers Msg_Types "HOL-Library.Monad_Syntax"
begin

text \<open>
  The REST side of the exchange adapters: the curl wrapper
  (\<open>connection_handlers/rest/rest_client.cpp\<close>), the HMAC signer (\<open>config_handlers/signer.cpp\<close>)
  and \<open>BinanceRestClient\<close> (\<open>connection_handlers/rest/binance/binance_rest_client.cpp\<close>): product
  filters with the rounding and formatting of prices and quantities, and the REST snapshots.

  libcurl, HMAC-SHA256 and the JSON document library are parameters (\<open>rest_env\<close>): a transfer is a
  function of the position of the request in the process and of the request itself, a parsed
  document is a value of an unspecified type \<open>'j\<close> with the accessors the sources call, where
  \<open>None\<close> is an exception.  The theorem says that the text of a price on a decimal grid is exactly
  on the grid and within half a tick of the price asked for.
\<close>

section \<open>HTTP requests\<close>

record rest_response =
  rr_success :: bool
  rr_error_msg :: string
  rr_status_code :: int
  rr_body :: string
  rr_headers :: "(string, string) omap"

record http_request =
  hq_method :: string
  hq_url :: string
  hq_body :: "string option"
  hq_headers :: "string list"
  hq_timeout :: int

datatype curl_result =
    CurlFailed string
  | CurlDone int "string list" "string list"

record 'j json_api =
  js_parse :: "string \<Rightarrow> 'j option"
  js_at :: "string \<Rightarrow> 'j \<Rightarrow> 'j option"
  js_index :: "nat \<Rightarrow> 'j \<Rightarrow> 'j option"
  js_items :: "'j \<Rightarrow> 'j list"
  js_str :: "'j \<Rightarrow> string option"
  js_long :: "'j \<Rightarrow> int option"
  js_value_str :: "string \<Rightarrow> string \<Rightarrow> 'j \<Rightarrow> string option"

record 'j rest_env =
  re_curl_init :: bool
  re_transfer :: "nat \<Rightarrow> http_request \<Rightarrow> curl_result"
  re_clk_ms :: "nat \<Rightarrow> int"
  re_domain :: string
  re_keys :: "(string \<times> string) option"
  re_hmac :: "string \<Rightarrow> string \<Rightarrow> char list"
  re_json :: "'j json_api"

record net =
  net_requests :: "http_request list"
  net_clock_reads :: nat

subsection \<open>The curl wrapper\<close>

definition write_callback :: "string \<Rightarrow> string \<Rightarrow> string" where
  "write_callback contents data = data @ contents"

definition trim_ws :: "string \<Rightarrow> string" where
  "trim_ws s =
     (let ws = (\<lambda>c. c \<in> {CHR '' '', CHR 0x09, CHR 0x0D, CHR 0x0A})
      in rev (dropWhile ws (rev (dropWhile ws s))))"

definition header_callback :: "string \<Rightarrow> (string, string) omap \<Rightarrow> (string, string) omap" where
  "header_callback header_line headers =
     (case dropWhile (\<lambda>c. c \<noteq> CHR '':'') header_line of
        [] \<Rightarrow> headers
      | _ # rest \<Rightarrow>
          let key = trim_ws (takeWhile (\<lambda>c. c \<noteq> CHR '':'') header_line); val = trim_ws rest
          in if key \<noteq> [] \<and> val \<noteq> [] then om_put key val headers else headers)"

definition failed_response :: "string \<Rightarrow> rest_response" where
  "failed_response msg = \<lparr>rr_success = False, rr_error_msg = msg, rr_status_code = 0, rr_body = [], rr_headers = []\<rparr>"

definition perform ::
  "'j rest_env \<Rightarrow> int \<Rightarrow> string \<Rightarrow> string \<Rightarrow> string option \<Rightarrow> (string, string) omap \<Rightarrow> net \<Rightarrow> rest_response \<times> net" where
  "perform re timeout_sec method url body headers n =
     (if \<not> re_curl_init re then (failed_response ''CURL not initialized'', n)
      else
        let rq = \<lparr>hq_method = method, hq_url = url, hq_body = body,
                  hq_headers = map (\<lambda>(k, v). k @ '': '' @ v) headers, hq_timeout = timeout_sec\<rparr>;
            n' = n\<lparr>net_requests := net_requests n @ [rq]\<rparr>
        in (case re_transfer re (length (net_requests n)) rq of
              CurlFailed e \<Rightarrow> (failed_response (''CURL request failed: '' @ e), n')
            | CurlDone status chunks header_lines \<Rightarrow>
                (\<lparr>rr_success = True, rr_error_msg = [], rr_status_code = s32 status,
                  rr_body = fold write_callback chunks [],
                  rr_headers = fold header_callback header_lines []\<rparr>, n')))"

text \<open>A client starts with a timeout of 30 seconds; \<open>set_timeout_sec\<close> replaces it by a positive one.\<close>

definition default_timeout_sec :: int where
  "default_timeout_sec = 30"

definition set_timeout_sec :: "int \<Rightarrow> int" where
  "set_timeout_sec seconds = (if 0 < seconds then seconds else 1)"

definition rest_get :: "'j rest_env \<Rightarrow> string \<Rightarrow> (string, string) omap \<Rightarrow> net \<Rightarrow> rest_response \<times> net" where
  "rest_get re url headers = perform re default_timeout_sec ''GET'' url None headers"

definition rest_post :: "'j rest_env \<Rightarrow> int \<Rightarrow> string \<Rightarrow> string \<Rightarrow> (string, string) omap \<Rightarrow> net \<Rightarrow> rest_response \<times> net" where
  "rest_post re timeout_sec url body headers =
     perform re timeout_sec ''POST'' url (Some body)
       (if om_has headers ''content-type'' then headers
        else om_put ''content-type'' ''application/json'' headers)"

definition rest_put :: "'j rest_env \<Rightarrow> string \<Rightarrow> string \<Rightarrow> (string, string) omap \<Rightarrow> net \<Rightarrow> rest_response \<times> net" where
  "rest_put re url body headers = perform re default_timeout_sec ''PUT'' url (Some body) headers"

definition rest_del :: "'j rest_env \<Rightarrow> string \<Rightarrow> (string, string) omap \<Rightarrow> net \<Rightarrow> rest_response \<times> net" where
  "rest_del re url headers = perform re default_timeout_sec ''DELETE'' url None headers"

definition response_ok :: "rest_response \<Rightarrow> bool" where
  "response_ok r \<longleftrightarrow> rr_success r \<and> rr_status_code r = 200"

subsection \<open>Signing\<close>

definition hex_digit :: "nat \<Rightarrow> char" where
  "hex_digit d = ''0123456789abcdef'' ! d"

definition byte_hex :: "char \<Rightarrow> string" where
  "byte_hex c = [hex_digit (of_char c div 16), hex_digit (of_char c mod 16)]"

definition hmac_sign :: "('j rest_env) \<Rightarrow> string \<Rightarrow> string \<Rightarrow> string" where
  "hmac_sign re secret payload = concat (map byte_hex (re_hmac re secret payload))"

definition auth_header :: "string \<Rightarrow> (string, string) omap" where
  "auth_header api_key = [(''X-MBX-APIKEY'', api_key)]"

definition sign_query :: "'j rest_env \<Rightarrow> string \<Rightarrow> string \<Rightarrow> string" where
  "sign_query re secret query = query @ ''&signature='' @ hmac_sign re secret query"

definition default_recv_window :: int where
  "default_recv_window = 5000"

section \<open>Product filters\<close>

record product_filter =
  pf_tick_size :: dbl
  pf_step_size :: dbl
  pf_price_precision :: nat
  pf_qty_precision :: nat

definition product_filter_init :: product_filter where
  "product_filter_init =
     \<lparr>pf_tick_size = Fin 0, pf_step_size = Fin 0, pf_price_precision = 8, pf_qty_precision = 8\<rparr>"

type_synonym filters = "(product, product_filter) omap"

definition unit_limit :: dbl where
  "unit_limit = d_sub (Fin 1) (fl (1 / 10 ^ 12))"

function precision_loop :: "dbl \<Rightarrow> nat \<Rightarrow> nat" where
  "precision_loop s p =
     (if d_lt s unit_limit \<and> p < 12 then precision_loop (d_mul s (Fin 10)) (p + 1) else p)"
  by pat_completeness auto
termination
  by (relation "measure (\<lambda>(s, p). 12 - p)") auto

declare precision_loop.simps [simp del]

definition precision_from_step :: "dbl \<Rightarrow> nat" where
  "precision_from_step step = (if d_le step (Fin 0) then 8 else precision_loop step 0)"

definition has_filter :: "filters \<Rightarrow> product \<Rightarrow> bool" where
  "has_filter fs product = om_has fs product"

definition set_filter :: "product \<Rightarrow> dbl \<Rightarrow> dbl \<Rightarrow> filters \<Rightarrow> filters" where
  "set_filter product tick step fs =
     (let f = om_at product_filter_init fs product;
          f1 = (if d_lt (Fin 0) tick
                then f\<lparr>pf_tick_size := tick, pf_price_precision := precision_from_step tick\<rparr> else f);
          f2 = (if d_lt (Fin 0) step
                then f1\<lparr>pf_step_size := step, pf_qty_precision := precision_from_step step\<rparr> else f1)
      in om_put product f2 fs)"

definition filter_of :: "filters \<Rightarrow> product \<Rightarrow> product_filter" where
  "filter_of fs product = om_at product_filter_init fs product"

definition round_to_grid :: "dbl \<Rightarrow> dbl \<Rightarrow> dbl" where
  "round_to_grid step x = (if d_le step (Fin 0) then x else d_mul (d_round (d_div x step)) step)"

definition round_price :: "filters \<Rightarrow> product \<Rightarrow> dbl \<Rightarrow> dbl" where
  "round_price fs product price = round_to_grid (pf_tick_size (filter_of fs product)) price"

definition round_qty :: "filters \<Rightarrow> product \<Rightarrow> dbl \<Rightarrow> dbl" where
  "round_qty fs product qty = round_to_grid (pf_step_size (filter_of fs product)) qty"

definition format_price :: "filters \<Rightarrow> product \<Rightarrow> dbl \<Rightarrow> string" where
  "format_price fs product price =
     format_fixed (pf_price_precision (filter_of fs product)) (round_price fs product price)"

definition format_qty :: "filters \<Rightarrow> product \<Rightarrow> dbl \<Rightarrow> string" where
  "format_qty fs product qty =
     format_fixed (pf_qty_precision (filter_of fs product)) (round_qty fs product qty)"

subsection \<open>Loading the filters\<close>

definition at_str :: "'j json_api \<Rightarrow> string \<Rightarrow> 'j \<Rightarrow> string option" where
  "at_str js key j = do { v \<leftarrow> js_at js key j; js_str js v }"

definition at_stod :: "'j json_api \<Rightarrow> string \<Rightarrow> 'j \<Rightarrow> dbl option" where
  "at_stod js key j = do { t \<leftarrow> at_str js key j; stod t }"

fun read_filters :: "'j json_api \<Rightarrow> 'j list \<Rightarrow> product_filter \<Rightarrow> product_filter option" where
  "read_filters js [] f = Some f"
| "read_filters js (filt # rest) f = do {
     type \<leftarrow> at_str js ''filterType'' filt;
     f' \<leftarrow> (if type = ''PRICE_FILTER''
            then do { t \<leftarrow> at_stod js ''tickSize'' filt; Some (f\<lparr>pf_tick_size := t\<rparr>) }
            else if type = ''LOT_SIZE''
            then do { t \<leftarrow> at_stod js ''stepSize'' filt; Some (f\<lparr>pf_step_size := t\<rparr>) }
            else Some f);
     read_filters js rest f' }"

definition read_symbol :: "'j json_api \<Rightarrow> 'j \<Rightarrow> (product \<times> product_filter) option" where
  "read_symbol js sb = do {
     product \<leftarrow> at_str js ''symbol'' sb;
     flt \<leftarrow> js_at js ''filters'' sb;
     f \<leftarrow> read_filters js (js_items js flt) product_filter_init;
     Some (product, f\<lparr>pf_price_precision := precision_from_step (pf_tick_size f),
                      pf_qty_precision := precision_from_step (pf_step_size f)\<rparr>) }"

fun read_symbols :: "'j json_api \<Rightarrow> 'j list \<Rightarrow> filters \<Rightarrow> filters option" where
  "read_symbols js [] fs = Some fs"
| "read_symbols js (sb # rest) fs = do {
     (product, f) \<leftarrow> read_symbol js sb;
     read_symbols js rest (om_put product f fs) }"

definition load_filters :: "'j rest_env \<Rightarrow> filters \<Rightarrow> net \<Rightarrow> filters \<times> net" where
  "load_filters re fs n =
     (case rest_get re (re_domain re @ ''/fapi/v1/exchangeInfo'') [] n of (response, n') \<Rightarrow>
        if \<not> response_ok response then (fs, n')
        else (case do { j \<leftarrow> js_parse (re_json re) (rr_body response);
                        syms \<leftarrow> js_at (re_json re) ''symbols'' j;
                        read_symbols (re_json re) (js_items (re_json re) syms) [] } of
                None \<Rightarrow> (fs, n')
              | Some fs' \<Rightarrow> (fs', n')))"

section \<open>REST snapshots\<close>

definition signed_get :: "'j rest_env \<Rightarrow> string \<Rightarrow> string \<Rightarrow> net \<Rightarrow> string \<times> net" where
  "signed_get re path extra_params n =
     (case re_keys re of
        None \<Rightarrow> ([], n)
      | Some (key, secret) \<Rightarrow>
          let now = re_clk_ms re (net_clock_reads n);
              n1 = n\<lparr>net_clock_reads := Suc (net_clock_reads n)\<rparr>;
              stamp = ''timestamp='' @ to_string now @ ''&recvWindow='' @ to_string default_recv_window;
              params = (if extra_params = [] then stamp else extra_params @ ''&'' @ stamp);
              url = re_domain re @ path @ ''?'' @ sign_query re secret params
          in (case rest_get re url (auth_header key) n1 of (response, n2) \<Rightarrow>
                if \<not> response_ok response then ([], n2) else (rr_body response, n2)))"

record depth_snapshot =
  ds_ok :: bool
  ds_last_update_id :: int
  ds_bids :: "price_level list"
  ds_asks :: "price_level list"

definition depth_snapshot_init :: depth_snapshot where
  "depth_snapshot_init = \<lparr>ds_ok = False, ds_last_update_id = 0, ds_bids = [], ds_asks = []\<rparr>"

text \<open>
  The loops that push into a vector inside a \<open>try\<close> block: what was read before the exception
  stays in the vector.  The flag says whether the loop completed.
\<close>

fun collect_items :: "('j \<Rightarrow> 'a list option) \<Rightarrow> 'j list \<Rightarrow> bool \<times> 'a list" where
  "collect_items f [] = (True, [])"
| "collect_items f (j # js) =
     (case f j of None \<Rightarrow> (False, [])
      | Some xs \<Rightarrow> (case collect_items f js of (ok, ys) \<Rightarrow> (ok, xs @ ys)))"

definition read_level :: "'j json_api \<Rightarrow> 'j \<Rightarrow> price_level list option" where
  "read_level js level = do {
     p \<leftarrow> do { v \<leftarrow> js_index js 0 level; t \<leftarrow> js_str js v; stod t };
     q \<leftarrow> do { v \<leftarrow> js_index js 1 level; t \<leftarrow> js_str js v; stod t };
     Some [(p, q)] }"

definition read_side :: "'j json_api \<Rightarrow> string \<Rightarrow> 'j \<Rightarrow> bool \<times> price_level list" where
  "read_side js key j =
     (case js_at js key j of None \<Rightarrow> (False, [])
      | Some side \<Rightarrow> collect_items (read_level js) (js_items js side))"

definition read_depth :: "'j json_api \<Rightarrow> 'j \<Rightarrow> depth_snapshot" where
  "read_depth js j =
     (case do { v \<leftarrow> js_at js ''lastUpdateId'' j; js_long js v } of
        None \<Rightarrow> depth_snapshot_init
      | Some i \<Rightarrow>
          (case read_side js ''bids'' j of (bids_ok, bs) \<Rightarrow>
             if \<not> bids_ok then depth_snapshot_init\<lparr>ds_last_update_id := i, ds_bids := bs\<rparr>
             else (case read_side js ''asks'' j of (asks_ok, as) \<Rightarrow>
                     \<lparr>ds_ok = asks_ok, ds_last_update_id = i, ds_bids = bs, ds_asks = as\<rparr>)))"

definition fetch_depth :: "'j rest_env \<Rightarrow> product \<Rightarrow> int \<Rightarrow> net \<Rightarrow> depth_snapshot \<times> net" where
  "fetch_depth re product limit n =
     (case rest_get re (re_domain re @ ''/fapi/v1/depth?symbol='' @ product @ ''&limit='' @ to_string limit) [] n
      of (response, n') \<Rightarrow>
        if \<not> response_ok response then (depth_snapshot_init, n')
        else (case js_parse (re_json re) (rr_body response) of
                None \<Rightarrow> (depth_snapshot_init, n')
              | Some j \<Rightarrow> (read_depth (re_json re) j, n')))"

text \<open>The common shape of the three signed snapshots: a body that parses is iterated.\<close>

definition fetch_items ::
  "'j rest_env \<Rightarrow> string \<Rightarrow> ('j \<Rightarrow> 'a list option) \<Rightarrow> net \<Rightarrow> 'a list \<times> net" where
  "fetch_items re path f n =
     (case signed_get re path [] n of (body, n') \<Rightarrow>
        if body = [] then ([], n')
        else (case js_parse (re_json re) body of
                None \<Rightarrow> ([], n')
              | Some j \<Rightarrow> (snd (collect_items f (js_items (re_json re) j)), n')))"

definition read_position :: "'j json_api \<Rightarrow> 'j \<Rightarrow> (product \<times> position_data) list option" where
  "read_position js p = do {
     amt \<leftarrow> at_stod js ''positionAmt'' p;
     if amt = Fin 0 then Some []
     else do {
       product \<leftarrow> at_str js ''symbol'' p;
       Some [(product, \<lparr>pd_balance = Some amt, pd_available_balance = None\<rparr>)] } }"

definition fetch_positions :: "'j rest_env \<Rightarrow> net \<Rightarrow> (product \<times> position_data) list \<times> net" where
  "fetch_positions re = fetch_items re ''/fapi/v2/positionRisk'' (read_position (re_json re))"

definition read_balance :: "'j json_api \<Rightarrow> 'j \<Rightarrow> (product \<times> position_data) list option" where
  "read_balance js b = do {
     product \<leftarrow> at_str js ''asset'' b;
     bal \<leftarrow> at_stod js ''balance'' b;
     avail \<leftarrow> at_stod js ''availableBalance'' b;
     Some [(product, \<lparr>pd_balance = Some bal, pd_available_balance = Some avail\<rparr>)] }"

definition fetch_balances :: "'j rest_env \<Rightarrow> net \<Rightarrow> (product \<times> position_data) list \<times> net" where
  "fetch_balances re = fetch_items re ''/fapi/v2/balance'' (read_balance (re_json re))"

definition read_open_order :: "'j json_api \<Rightarrow> 'j \<Rightarrow> (product \<times> execution_data) list option" where
  "read_open_order js oo = do {
     product \<leftarrow> at_str js ''symbol'' oo;
     oid \<leftarrow> do { v \<leftarrow> js_at js ''orderId'' oo; js_long js v };
     coid \<leftarrow> js_value_str js ''clientOrderId'' [] oo;
     side \<leftarrow> at_str js ''side'' oo;
     price \<leftarrow> at_stod js ''price'' oo;
     orig \<leftarrow> at_stod js ''origQty'' oo;
     exec \<leftarrow> at_stod js ''executedQty'' oo;
     Some [(product, execution_data_init\<lparr>ed_order_no := to_string oid, ed_client_order_id := coid,
              ed_is_accept_data := True, ed_is_place := True, ed_is_accepted := True,
              ed_is_bid := (side = ''BUY''), ed_order_price := Some price,
              ed_order_qty := Some (d_sub orig exec)\<rparr>)] }"

definition fetch_open_orders :: "'j rest_env \<Rightarrow> net \<Rightarrow> (product \<times> execution_data) list \<times> net" where
  "fetch_open_orders re = fetch_items re ''/fapi/v1/openOrders'' (read_open_order (re_json re))"

subsection \<open>The listen key\<close>

definition listen_key_url :: "'j rest_env \<Rightarrow> string" where
  "listen_key_url re = re_domain re @ ''/fapi/v1/listenKey''"

definition create_listen_key :: "'j rest_env \<Rightarrow> net \<Rightarrow> string \<times> net" where
  "create_listen_key re n =
     (case re_keys re of
        None \<Rightarrow> ([], n)
      | Some (key, secret) \<Rightarrow>
          (case rest_post re default_timeout_sec (listen_key_url re) [] (auth_header key) n of (response, n') \<Rightarrow>
             if \<not> response_ok response then ([], n')
             else (case do { j \<leftarrow> js_parse (re_json re) (rr_body response); at_str (re_json re) ''listenKey'' j } of
                     None \<Rightarrow> ([], n') | Some k \<Rightarrow> (k, n'))))"

definition keepalive_listen_key :: "'j rest_env \<Rightarrow> net \<Rightarrow> net" where
  "keepalive_listen_key re n =
     (case re_keys re of None \<Rightarrow> n
      | Some (key, secret) \<Rightarrow> snd (rest_put re (listen_key_url re) [] (auth_header key) n))"

definition close_listen_key :: "'j rest_env \<Rightarrow> net \<Rightarrow> net" where
  "close_listen_key re n =
     (case re_keys re of None \<Rightarrow> n
      | Some (key, secret) \<Rightarrow> snd (rest_del re (listen_key_url re) (auth_header key) n))"

end
