(* ===== verification/Wire_Format.thy ===== *)
theory Wire_Format
  imports Binance_Rest
begin

text \<open>
  Prices and quantities on the wire.  For a decimal tick (one over a power of ten, the nearest
  binary64 to it) the precision the client derives is the number of decimals of the tick, and the
  text of a rounded price is exactly a multiple of the tick, at most half a tick (and the rounding
  error of one division) from the price.
\<close>

section \<open>Rounding helpers\<close>

lemma rne_near: "\<bar>x - of_int k\<bar> < 1 / 2 \<Longrightarrow> rne x = k"
proof -
  assume "\<bar>x - of_int k\<bar> < 1 / 2"
  with rne_err [of x] have "\<bar>of_int (rne x) - of_int k :: rat\<bar> < 1" by linarith
  then have "\<bar>of_int (rne x - k) :: rat\<bar> < of_int 1" by simp
  then show ?thesis by linarith
qed

lemma round_away_err: "\<bar>of_int (round_away x) - x\<bar> \<le> 1 / 2"
proof (cases "x < 0")
  case True
  then show ?thesis using floor_correct [of "- x + 1 / 2"] unfolding round_away_def if_P [OF True] by linarith
next
  case False
  then show ?thesis using floor_correct [of "x + 1 / 2"] unfolding round_away_def if_not_P [OF False] by linarith
qed

lemma abs_diff_scale: "0 \<le> c \<Longrightarrow> \<bar>a * c - b * c\<bar> = \<bar>a - b\<bar> * (c :: rat)"
  by (simp add: abs_mult flip: left_diff_distrib)

lemma pow10_le: "n \<le> 12 \<Longrightarrow> (10 :: rat) ^ n \<le> 10 ^ 12"
  by (rule power_increasing) simp_all

lemma unit_limit_bounds: "\<exists>u. unit_limit = Fin u \<and> 1 / 2 \<le> u \<and> u \<le> 1 - 1 / 2 ^ 40"
proof -
  let ?v = "flr (1 / 10 ^ 12)"
  have "is_f64 (of_int 1 * 2 powi (- 40))" "is_f64 (of_int 1 * 2 powi (- 1))"
    "is_f64 (of_int (2 ^ 40 - 1) * 2 powi (- 40))"
    by (rule is_f64_scaled; simp)+
  then have grid: "is_f64 (1 / 2 ^ 40)" "is_f64 (1 / 2)" "is_f64 (1 - 1 / 2 ^ 40)"
    by (simp_all add: power_int_minus_divide diff_divide_distrib)
  have v: "1 / 2 ^ 40 \<le> ?v \<and> ?v \<le> 1 / 2" by (rule flr_between [OF grid(1,2)]) simp_all
  have "fl (1 / 10 ^ 12) = Fin ?v" by (rule fl_bounded [where n = 1]) simp_all
  moreover have u: "1 / 2 \<le> flr (1 - ?v) \<and> flr (1 - ?v) \<le> 1 - 1 / 2 ^ 40"
    by (rule flr_between [OF grid(2,3)]) (use v in linarith)+
  moreover have "fl (1 - ?v) = Fin (flr (1 - ?v))"
    by (rule fl_bounded [where n = 1]) (use v in simp_all)
  ultimately show ?thesis by (simp add: unit_limit_def d_sub_def)
qed

section \<open>The precision of a decimal tick\<close>

lemma precision_loop_decimal:
  assumes "\<bar>s * 10 ^ a - 1\<bar> \<le> of_nat (i + 1) / 2 ^ 52" "i + a \<le> 12"
  shows "precision_loop (Fin s) i = i + a"
  using assms
proof (induction a arbitrary: s i)
  case 0
  obtain u where u: "unit_limit = Fin u" "u \<le> 1 - 1 / 2 ^ 40" using unit_limit_bounds by blast
  have "of_nat (i + 1) \<le> (of_nat 13 :: rat)" using 0(2) by (simp only: of_nat_le_iff)
  then have "of_nat (i + 1) / (2 ^ 52 :: rat) \<le> of_nat 13 / 2 ^ 52" by (rule divide_right_mono) simp
  moreover have "of_nat 13 / 2 ^ 52 \<le> (1 / 2 ^ 40 :: rat)" by simp
  moreover have "\<bar>s - 1\<bar> \<le> of_nat (i + 1) / 2 ^ 52" using 0(1) by simp
  ultimately have "\<not> s < u" using u(2) by linarith
  then have "\<not> d_lt (Fin s) unit_limit" by (simp add: u(1))
  then show ?case by (subst precision_loop.simps) simp
next
  case (Suc a)
  obtain u where u: "unit_limit = Fin u" "1 / 2 \<le> u" using unit_limit_bounds by blast
  define r :: rat where "r = s * 10 ^ Suc a"
  have i: "of_nat (i + 1) / (2 ^ 52 :: rat) \<le> 12 / 2 ^ 52"
    using Suc.prems(2) by (intro divide_right_mono) simp_all
  have r: "\<bar>r - 1\<bar> \<le> of_nat (i + 1) / 2 ^ 52" using Suc.prems(1) by (simp add: r_def)
  have "(12 :: rat) / 2 ^ 52 \<le> 1 / 2" by simp
  with r i have r2: "1 / 2 \<le> r" "r \<le> 2" by linarith+
  have s10: "10 * s = r / 10 ^ a" by (simp add: r_def)
  have s_pos: "0 < 10 * s" using r2 by (simp add: s10)
  have s_le: "10 * s \<le> 2"
  proof -
    have "r / 10 ^ a \<le> r / 1" using r2 by (intro divide_left_mono) simp_all
    then show ?thesis using r2 s10 by simp
  qed
  have "(10 :: rat) ^ a \<le> 10 ^ 12" using Suc.prems(2) by (intro power_increasing) simp_all
  then have "1 / 2 / 10 ^ 12 \<le> r / 10 ^ a" using r2 by (intro frac_le) simp_all
  moreover have "(2 powi (- 1022) :: rat) \<le> 2 powi (- 100)" by (rule powi_2_mono) simp
  moreover have "(2 powi (- 100) :: rat) \<le> 1 / 2 / 10 ^ 12" by (simp add: power_int_minus_divide)
  ultimately have "2 powi (- 1022) \<le> \<bar>10 * s\<bar>" using s10 by linarith
  then have err: "\<bar>flr (10 * s) - 10 * s\<bar> \<le> (10 * s) / 2 ^ 53" using flr_err_rel [of "10 * s"] s_pos by simp
  have "\<bar>flr (10 * s) * 10 ^ a - r\<bar> = \<bar>flr (10 * s) - 10 * s\<bar> * 10 ^ a"
    using abs_diff_scale [of "10 ^ a" "flr (10 * s)" "10 * s"] by (simp add: s10)
  also have "\<dots> \<le> (10 * s) / 2 ^ 53 * 10 ^ a" using err by (intro mult_right_mono) simp_all
  also have "\<dots> = r / 2 ^ 53" by (simp add: s10)
  also have "\<dots> \<le> 2 / 2 ^ 53" using r2 by (intro divide_right_mono) simp_all
  finally have e: "\<bar>flr (10 * s) * 10 ^ a - r\<bar> \<le> 1 / 2 ^ 52" by simp
  have "\<bar>flr (10 * s) * 10 ^ a - 1\<bar> \<le> of_nat (i + 1) / 2 ^ 52 + 1 / 2 ^ 52" using e r by linarith
  also have "\<dots> = of_nat (Suc i + 1) / 2 ^ 52" by (simp add: add_divide_distrib)
  finally have "precision_loop (Fin (flr (10 * s))) (Suc i) = Suc i + a"
    using Suc.prems(2) by (intro Suc.IH) simp_all
  moreover have "fl (10 * s) = Fin (flr (10 * s))"
    by (rule fl_bounded [where n = 1]) (use s_pos s_le in simp_all)
  moreover have "s < u" using s_pos s_le u(2) by linarith
  then have "d_lt (Fin s) unit_limit" by (simp add: u(1))
  ultimately show ?case
    using Suc.prems(2) by (simp add: precision_loop.simps [of _ i] mult.commute)
qed

lemma tick_bounds:
  assumes "n \<le> 12"
  defines "t \<equiv> flr (1 / 10 ^ n)"
  shows "fl (1 / 10 ^ n) = Fin t" "\<bar>t * 10 ^ n - 1\<bar> \<le> 1 / 2 ^ 53" "0 < t"
proof -
  have p: "(0 :: rat) < 10 ^ n" "(1 :: rat) \<le> 10 ^ n" by simp_all
  show "fl (1 / 10 ^ n) = Fin t" unfolding t_def
    by (rule fl_bounded [where n = 0]) (use p in simp_all)
  have "1 / 10 ^ 12 \<le> (1 :: rat) / 10 ^ n" using pow10_le [OF assms(1)] by (intro divide_left_mono) simp_all
  moreover have "(2 powi (- 1022) :: rat) \<le> 2 powi (- 100)" by (rule powi_2_mono) simp
  moreover have "(2 powi (- 100) :: rat) \<le> 1 / 10 ^ 12" by (simp add: power_int_minus_divide)
  ultimately have "2 powi (- 1022) \<le> \<bar>1 / (10 :: rat) ^ n\<bar>" by simp
  then have err: "\<bar>t - 1 / 10 ^ n\<bar> \<le> 1 / 10 ^ n / 2 ^ 53" using flr_err_rel [of "1 / 10 ^ n"] by (simp add: t_def)
  have "\<bar>t * 10 ^ n - 1\<bar> = \<bar>t - 1 / 10 ^ n\<bar> * 10 ^ n"
    using abs_diff_scale [of "10 ^ n" t "1 / 10 ^ n"] p by simp
  also have "\<dots> \<le> 1 / 10 ^ n / 2 ^ 53 * 10 ^ n" using err p by (intro mult_right_mono) simp_all
  also have "\<dots> = 1 / 2 ^ 53" using p by simp
  finally show b: "\<bar>t * 10 ^ n - 1\<bar> \<le> 1 / 2 ^ 53" .
  moreover have "(1 :: rat) / 2 ^ 53 < 1" by simp
  ultimately have "0 < t * 10 ^ n" by linarith
  then show "0 < t" using p by (simp add: zero_less_mult_iff)
qed

lemma precision_decimal: "n \<le> 12 \<Longrightarrow> precision_from_step (fl (1 / 10 ^ n)) = n"
proof -
  assume n: "n \<le> 12"
  have "precision_loop (Fin (flr (1 / 10 ^ n))) 0 = 0 + n"
    using tick_bounds(2) [OF n] n by (intro precision_loop_decimal) simp_all
  with tick_bounds(1,3) [OF n] show ?thesis by (simp add: precision_from_step_def)
qed

section \<open>Rounding to a decimal grid\<close>

lemma decimal_grid:
  assumes n: "n \<le> 12" and x: "\<bar>x\<bar> * 10 ^ n \<le> 2 ^ 40"
  shows "\<exists>k. decimal_value (format_fixed n (round_to_grid (fl (1 / 10 ^ n)) (Fin x))) = Some (of_int k / 10 ^ n)
    \<and> \<bar>of_int k / 10 ^ n - x\<bar> \<le> (1 / 2 + 1 / 2 ^ 10) / 10 ^ n"
proof -
  define t where "t = flr (1 / 10 ^ n)"
  define P :: rat where "P = 10 ^ n"
  have P: "1 \<le> P" "P \<le> 10 ^ 12"
    using pow10_le [OF n] by (simp_all add: P_def)
  note tb = tick_bounds [OF n, folded t_def P_def]
  define X where "X = x * P"
  have X: "\<bar>X\<bar> \<le> 2 ^ 40" using x P by (simp add: X_def P_def abs_mult)
  define q where "q = x / t"
  have tP: "1 - 1 / 2 ^ 53 \<le> t * P" "t * P \<le> 1 + 1 / 2 ^ 53" using tb(2) by linarith+
  have qX: "q * (t * P) = X" using tb(3) by (simp add: q_def X_def)
  have q_le: "\<bar>q\<bar> \<le> 2 * \<bar>X\<bar>"
  proof -
    have "\<bar>q\<bar> * (1 / 2) \<le> \<bar>q\<bar> * (t * P)" using tP by (intro mult_left_mono) simp_all
    also have "\<dots> = \<bar>X\<bar>" using tb(3) P by (simp add: abs_mult flip: qX)
    finally show ?thesis by simp
  qed
  have qd: "\<bar>q - X\<bar> \<le> \<bar>q\<bar> / 2 ^ 53"
  proof -
    have "\<bar>q - X\<bar> = \<bar>q\<bar> * \<bar>t * P - 1\<bar>" by (simp add: right_diff_distrib flip: qX abs_mult)
    also have "\<dots> \<le> \<bar>q\<bar> * (1 / 2 ^ 53)" using tb(2) by (intro mult_left_mono) simp_all
    finally show ?thesis by simp
  qed
  have q41: "\<bar>q\<bar> \<le> 2 ^ 41" using q_le X by simp
  have flq: "fl q = Fin (flr q)" by (rule fl_bounded(1) [OF q41]) simp
  have tiny: "(2 powi (- 1075) :: rat) \<le> 2 powi (- 60)" by (rule powi_2_mono) simp
  have tiny60: "(2 powi (- 60) :: rat) = 1 / 2 ^ 60" by (simp add: power_int_minus_divide)
  have fq: "\<bar>flr q - q\<bar> \<le> \<bar>q\<bar> / 2 ^ 53 + 1 / 2 ^ 60" using flr_err [of q] tiny tiny60 by linarith
  define k where "k = round_away (flr q)"
  have kq: "\<bar>of_int k - flr q\<bar> \<le> 1 / 2" unfolding k_def by (rule round_away_err)
  have q53: "\<bar>q\<bar> / 2 ^ 53 \<le> 1 / 2 ^ 12" using q41 by simp
  have "(1 / 2 ^ 12 + 1 / 2 ^ 60) + 1 / 2 ^ 12 \<le> (1 / 2 ^ 10 :: rat)" by simp
  moreover have "\<bar>flr q - q\<bar> \<le> 1 / 2 ^ 12 + 1 / 2 ^ 60" "\<bar>q - X\<bar> \<le> 1 / 2 ^ 12"
    using fq qd q53 by linarith+
  ultimately have kX: "\<bar>of_int k - X\<bar> \<le> 1 / 2 + 1 / 2 ^ 10" using kq by linarith
  have "1 / 2 + 1 / 2 ^ 10 + 2 ^ 40 \<le> (2 ^ 42 :: rat)" by simp
  with kX X have k42: "\<bar>of_int k :: rat\<bar> \<le> 2 ^ 42" by linarith
  then have "of_int \<bar>k\<bar> \<le> (of_int (2 ^ 42) :: rat)" by simp
  then have "\<bar>k\<bar> \<le> 2 ^ 42" by (simp only: of_int_le_iff)
  then have ki: "\<bar>k\<bar> < 2 ^ 53" by simp
  have kt: "\<bar>of_int k * t\<bar> * P \<le> 2 ^ 43"
  proof -
    have "\<bar>of_int k * t\<bar> * P = \<bar>of_int k\<bar> * (t * P)" using tb(3) by (simp add: abs_mult)
    also have "\<dots> \<le> 2 ^ 42 * 2" using k42 tP tb(3) P by (intro mult_mono) simp_all
    finally show ?thesis by simp
  qed
  have ktb: "\<bar>of_int k * t\<bar> \<le> 2 ^ 43"
  proof -
    have "\<bar>of_int k * t\<bar> * 1 \<le> \<bar>of_int k * t\<bar> * P" using P by (intro mult_left_mono) simp_all
    with kt show ?thesis by linarith
  qed
  define y where "y = flr (of_int k * t)"
  have rg: "round_to_grid (fl (1 / 10 ^ n)) (Fin x) = Fin y"
    using tb(1,3) flq fl_of_int [OF ki] fl_bounded(1) [OF ktb]
    by (simp add: round_to_grid_def P_def q_def d_round_def k_def y_def)
  have ye: "\<bar>y - of_int k * t\<bar> \<le> \<bar>of_int k * t\<bar> / 2 ^ 53 + 1 / 2 ^ 60"
    using flr_err [of "of_int k * t"] tiny tiny60 by (simp add: y_def)
  have a: "\<bar>y * P - of_int k * (t * P)\<bar> \<le> 1 / 16"
  proof -
    have "\<bar>y * P - of_int k * (t * P)\<bar> = \<bar>y - of_int k * t\<bar> * P"
      using abs_diff_scale [of P y "of_int k * t"] P by (simp add: mult.assoc)
    also have "\<dots> \<le> (\<bar>of_int k * t\<bar> / 2 ^ 53 + 1 / 2 ^ 60) * P" using ye P by (intro mult_right_mono) simp_all
    also have "\<dots> = \<bar>of_int k * t\<bar> * P / 2 ^ 53 + P / 2 ^ 60" by (simp add: distrib_right)
    also have "\<dots> \<le> 2 ^ 43 / 2 ^ 53 + 10 ^ 12 / 2 ^ 60"
      using kt P by (intro add_mono divide_right_mono) simp_all
    also have "\<dots> \<le> 1 / 16" by simp
    finally show ?thesis .
  qed
  have b: "\<bar>of_int k * (t * P) - of_int k\<bar> \<le> 1 / 16"
  proof -
    have "\<bar>of_int k * (t * P) - of_int k\<bar> = \<bar>of_int k\<bar> * \<bar>t * P - 1\<bar>"
      by (simp add: right_diff_distrib flip: abs_mult)
    also have "\<dots> \<le> 2 ^ 42 * (1 / 2 ^ 53)" using k42 tb(2) by (intro mult_mono) simp_all
    finally show ?thesis by simp
  qed
  have "\<bar>y * P - of_int k\<bar> < 1 / 2" using a b by linarith
  then have rk: "rne (y * 10 ^ n) = k" unfolding P_def by (rule rne_near)
  have "\<bar>of_int k / P - x\<bar> * P = \<bar>of_int k - X\<bar>"
    using abs_diff_scale [of P "of_int k / P" x] P by (simp add: X_def)
  then have "\<bar>of_int k / P - x\<bar> \<le> (1 / 2 + 1 / 2 ^ 10) / P" using kX P by (simp add: pos_le_divide_eq)
  then show ?thesis
    unfolding rg decimal_value_format_fixed rk by (auto simp: P_def)
qed

section \<open>Prices and quantities of a product\<close>

lemma filter_of_set_filter:
  assumes "d_lt (Fin 0) tick" "d_lt (Fin 0) step"
  shows "filter_of (set_filter product tick step fs) product =
    \<lparr>pf_tick_size = tick, pf_step_size = step, pf_price_precision = precision_from_step tick,
     pf_qty_precision = precision_from_step step\<rparr>"
  using assms by (simp add: filter_of_def set_filter_def om_at_def om_simps Let_def)

lemma tick_positive: "n \<le> 12 \<Longrightarrow> d_lt (Fin 0) (fl (1 / 10 ^ n))"
  using tick_bounds(1,3) by simp

text \<open>
  C17. Once a product's grid is a decimal one, the price and the quantity of an order are written as
  exact multiples of the tick and of the step, no further from the values asked for than half a
  unit (up to one part in a thousand of it), whatever the binary64 arithmetic on the way.
\<close>

theorem wire_values_on_grid:
  fixes fs :: filters and product :: product
  assumes "n \<le> 12" "m \<le> 12" "\<bar>x\<bar> * 10 ^ n \<le> 2 ^ 40" "\<bar>y\<bar> * 10 ^ m \<le> 2 ^ 40"
  defines "fs' \<equiv> set_filter product (fl (1 / 10 ^ n)) (fl (1 / 10 ^ m)) fs"
  shows "\<exists>k j. decimal_value (format_price fs' product (Fin x)) = Some (of_int k / 10 ^ n)
    \<and> \<bar>of_int k / 10 ^ n - x\<bar> \<le> (1 / 2 + 1 / 2 ^ 10) / 10 ^ n
    \<and> decimal_value (format_qty fs' product (Fin y)) = Some (of_int j / 10 ^ m)
    \<and> \<bar>of_int j / 10 ^ m - y\<bar> \<le> (1 / 2 + 1 / 2 ^ 10) / 10 ^ m"
proof -
  have f: "filter_of fs' product = \<lparr>pf_tick_size = fl (1 / 10 ^ n), pf_step_size = fl (1 / 10 ^ m),
      pf_price_precision = n, pf_qty_precision = m\<rparr>"
    unfolding fs'_def
    using filter_of_set_filter tick_positive precision_decimal assms(1,2) by simp
  show ?thesis
    using decimal_grid [OF assms(1,3)] decimal_grid [OF assms(2,4)]
    by (auto simp: format_price_def format_qty_def round_price_def round_qty_def f)
qed

theorem wire_values_on_grid_witness:
  "\<exists>k j. decimal_value (format_price (set_filter ''BTCUSDT'' (fl (1 / 10 ^ 1)) (fl (1 / 10 ^ 3)) []) ''BTCUSDT'' (Fin (500007 / 10)))
      = Some (of_int k / 10 ^ 1)
    \<and> \<bar>of_int k / 10 ^ 1 - (500007 / 10 :: rat)\<bar> \<le> (1 / 2 + 1 / 2 ^ 10) / 10 ^ 1
    \<and> decimal_value (format_qty (set_filter ''BTCUSDT'' (fl (1 / 10 ^ 1)) (fl (1 / 10 ^ 3)) []) ''BTCUSDT'' (Fin (2009 / 1000)))
      = Some (of_int j / 10 ^ 3)
    \<and> \<bar>of_int j / 10 ^ 3 - (2009 / 1000 :: rat)\<bar> \<le> (1 / 2 + 1 / 2 ^ 10) / 10 ^ 3"
  by (rule wire_values_on_grid) simp_all

text \<open>
  A grid that is not a power of ten is not served: a tick of a quarter gets one decimal, so the
  text of the price 100.25, which is on the grid, is 100.2, which is not.
\<close>

lemma precision_quarter: "precision_from_step (Fin (1 / 4)) = 1"
proof -
  obtain u where u: "unit_limit = Fin u" "1 / 2 \<le> u" "u \<le> 1 - 1 / 2 ^ 40" using unit_limit_bounds by blast
  have "u \<le> 1" using u(3) by simp
  then have "d_lt (Fin (1 / 4)) unit_limit" "\<not> d_lt (Fin (5 / 2)) unit_limit" using u(2) by (simp_all add: u(1))
  moreover have "fl (5 / 2) = Fin (5 / 2)" using fl_half [of 5] by simp
  ultimately have "precision_loop (Fin (1 / 4)) 0 = 1"
    by (subst precision_loop.simps, subst precision_loop.simps) simp
  then show ?thesis by (simp add: precision_from_step_def)
qed

lemma quarter_tick_text:
  "decimal_value (format_price (set_filter product (Fin (1 / 4)) (Fin 1) []) product (Fin (401 / 4))) = Some (1002 / 10)"
proof -
  have "is_f64 (of_int 401 * 2 powi (- 2))" by (rule is_f64_scaled) simp_all
  then have "is_f64 (401 / 4)" by (simp add: power_int_minus_divide)
  then have "fl (401 / 4) = Fin (401 / 4)" using f64_limit_gt by (intro fl_representable) simp_all
  moreover have "fl 401 = Fin 401" by simp
  moreover have "round_away 401 = 401" by simp
  ultimately have "round_to_grid (Fin (1 / 4)) (Fin (401 / 4)) = Fin (401 / 4)"
    by (simp add: round_to_grid_def d_round_def)
  moreover have "\<lfloor>2005 / 2 :: rat\<rfloor> = 1002" by (simp add: floor_eq_iff)
  then have "rne (401 / 4 * 10) = 1002" by (simp add: rne_def Let_def)
  ultimately show ?thesis
    by (simp add: format_price_def round_price_def filter_of_set_filter precision_quarter
        decimal_value_format_fixed del: format_fixed.simps)
qed

end
