(* ===== verification/Ws_Client.thy ===== *)
theory Ws_Client
  imports Text_Numbers
begin

text \<open>
  The websocket client base (\<open>connection_handlers/websocket/websocket_client.hpp\<close>): the
  connection flags, the ping/pong watchdog and the status notifications of its owner.
  websocketpp and asio are outside: their calls into the handlers are the events, and the model
  assumes that calls on a live connection (\<open>ping\<close>) do not throw.  An operation returns the
  notifications it makes, each the pair (connecting, opened) the owner is told.
\<close>

type_synonym ws_note = "bool \<times> bool"

record ws_client =
  wc_connecting :: bool
  wc_opened :: bool
  wc_awaiting_pong :: bool
  wc_destroying :: bool
  wc_thread :: bool
  wc_timer :: bool
  wc_pings :: nat
  wc_close_requests :: nat

definition ws_client_init :: ws_client where
  "ws_client_init = \<lparr>wc_connecting = False, wc_opened = False, wc_awaiting_pong = False,
     wc_destroying = False, wc_thread = False, wc_timer = False, wc_pings = 0, wc_close_requests = 0\<rparr>"

definition ws_notify :: "ws_client \<Rightarrow> ws_note" where
  "ws_notify c = (wc_connecting c, wc_opened c)"

text \<open>\<open>init_connection\<close>; the flag says whether \<open>get_handle\<close> or \<open>connect\<close> throws.\<close>

definition init_connection :: "bool \<Rightarrow> ws_client \<Rightarrow> ws_note list \<times> ws_client" where
  "init_connection throws c =
     (let c1 = c\<lparr>wc_connecting := True\<rparr>
      in if throws
         then let c2 = c1\<lparr>wc_opened := False\<rparr> in ([ws_notify c1, ws_notify c2], c2)
         else ([ws_notify c1], c1\<lparr>wc_thread := True\<rparr>))"

definition send_periodic_ping :: "ws_client \<Rightarrow> ws_client" where
  "send_periodic_ping c = c\<lparr>wc_timer := True\<rparr>"

definition ws_ping :: "ws_client \<Rightarrow> ws_client" where
  "ws_ping c = c\<lparr>wc_pings := Suc (wc_pings c), wc_awaiting_pong := True\<rparr>"

definition ws_on_open :: "ws_client \<Rightarrow> ws_note list \<times> ws_client" where
  "ws_on_open c =
     (if wc_destroying c then ([], c)
      else let c' = send_periodic_ping (ws_ping (c\<lparr>wc_connecting := False, wc_opened := True\<rparr>))
           in ([ws_notify c'], c'))"

definition ws_on_close :: "ws_client \<Rightarrow> ws_note list \<times> ws_client" where
  "ws_on_close c =
     (if wc_destroying c then ([], c)
      else let c' = c\<lparr>wc_connecting := False, wc_opened := False\<rparr> in ([ws_notify c'], c'))"

definition ws_on_fail :: "ws_client \<Rightarrow> ws_note list \<times> ws_client" where
  "ws_on_fail c =
     (if wc_destroying c then ([], c)
      else let c' = c\<lparr>wc_connecting := False, wc_opened := False\<rparr> in ([ws_notify c'], c'))"

definition ws_on_pong :: "ws_client \<Rightarrow> ws_client" where
  "ws_on_pong c = (if wc_destroying c then c else c\<lparr>wc_awaiting_pong := False\<rparr>)"

text \<open>The handler of the ping timer, when it expires without an error.\<close>

definition ws_on_ping_timer :: "ws_client \<Rightarrow> ws_note list \<times> ws_client" where
  "ws_on_ping_timer c =
     (let c0 = c\<lparr>wc_timer := False\<rparr>
      in if wc_awaiting_pong c
         then let c' = c0\<lparr>wc_opened := False, wc_close_requests := Suc (wc_close_requests c0)\<rparr>
              in ([ws_notify c'], c')
         else ([], send_periodic_ping (if wc_opened c0 then ws_ping c0 else c0\<lparr>wc_awaiting_pong := False\<rparr>)))"

text \<open>\<open>extract_host\<close>: what lies between the scheme and the first colon or slash after it.\<close>

fun after_scheme :: "string \<Rightarrow> string option" where
  "after_scheme [] = None"
| "after_scheme (c # s) = (if take 3 (c # s) = ''://'' then Some (drop 3 (c # s)) else after_scheme s)"

definition extract_host :: "string \<Rightarrow> string" where
  "extract_host uri =
     takeWhile (\<lambda>c. c \<noteq> CHR '':'' \<and> c \<noteq> CHR ''/'')
       (case after_scheme uri of None \<Rightarrow> uri | Some rest \<Rightarrow> rest)"

section \<open>The life of a connection\<close>

datatype ws_event = WsOpened | WsClosed | WsFailed | WsPong | WsPingTimer

text \<open>
  When each handler can run: a connection opens or fails only while it is being dialled, and the
  ping timer expires only when armed.  Without a socket thread nothing runs.
\<close>

fun ws_enabled :: "ws_event \<Rightarrow> ws_client \<Rightarrow> bool" where
  "ws_enabled WsOpened c = (wc_thread c \<and> wc_connecting c)"
| "ws_enabled WsFailed c = (wc_thread c \<and> wc_connecting c)"
| "ws_enabled WsClosed c = (wc_thread c \<and> \<not> wc_connecting c)"
| "ws_enabled WsPong c = (wc_thread c \<and> \<not> wc_connecting c)"
| "ws_enabled WsPingTimer c = (wc_thread c \<and> wc_timer c)"

fun ws_handle :: "ws_event \<Rightarrow> ws_client \<Rightarrow> ws_note list \<times> ws_client" where
  "ws_handle WsOpened c = ws_on_open c"
| "ws_handle WsClosed c = ws_on_close c"
| "ws_handle WsFailed c = ws_on_fail c"
| "ws_handle WsPong c = ([], ws_on_pong c)"
| "ws_handle WsPingTimer c = ws_on_ping_timer c"

text \<open>What a live client keeps: it is not both dialling and open, and the watchdog is armed while open.\<close>

definition ws_inv :: "ws_client \<Rightarrow> bool" where
  "ws_inv c \<longleftrightarrow> \<not> wc_destroying c \<and> \<not> (wc_connecting c \<and> wc_opened c)
     \<and> (wc_connecting c \<longrightarrow> \<not> wc_timer c \<and> \<not> wc_awaiting_pong c) \<and> (wc_opened c \<longrightarrow> wc_timer c \<and> 0 < wc_pings c)"

definition new_ws_client :: "bool \<Rightarrow> ws_note list \<times> ws_client" where
  "new_ws_client throws = init_connection throws ws_client_init"

lemmas ws_ops = ws_on_open_def ws_on_close_def ws_on_fail_def ws_on_pong_def ws_on_ping_timer_def
  ws_ping_def send_periodic_ping_def ws_notify_def

lemma new_ws_client_inv: "ws_inv (snd (new_ws_client throws))"
  by (simp add: new_ws_client_def init_connection_def ws_client_init_def ws_inv_def Let_def)

lemma ws_handle_inv: "ws_inv c \<Longrightarrow> ws_enabled e c \<Longrightarrow> ws_inv (snd (ws_handle e c))"
  by (cases e) (auto simp: ws_inv_def ws_ops Let_def)

text \<open>
  The owner is told the truth: an event that changes the flags reports them, and what is reported
  is the state after the event.
\<close>

lemma ws_handle_notes:
  assumes "ws_inv c" "ws_enabled e c" "ws_handle e c = (notes, c')"
  shows "(notes = [] \<and> ws_notify c' = ws_notify c) \<or> notes = [ws_notify c']"
  using assms by (cases e) (auto simp: ws_inv_def ws_ops Let_def split: if_splits)

text \<open>A client never goes back to dialling: it is dialled once, by its constructor.\<close>

lemma ws_handle_not_connecting:
  "ws_enabled e c \<Longrightarrow> ws_handle e c = (notes, c') \<Longrightarrow> wc_connecting c' \<Longrightarrow> wc_connecting c"
  by (cases e) (auto simp: ws_ops Let_def split: if_splits)

lemma ws_handle_connecting_note:
  assumes "ws_inv c" "ws_enabled e c" "ws_handle e c = (notes, c')"
  shows "\<forall>n \<in> set notes. \<not> fst n"
  using assms by (cases e) (auto simp: ws_inv_def ws_ops Let_def split: if_splits)

lemma ws_handle_thread: "wc_thread (snd (ws_handle e c)) = wc_thread c"
  by (cases e) (auto simp: ws_ops Let_def)

text \<open>
  The watchdog: an open connection that does not answer a ping is reported down when the timer
  expires, and one that has answered is not reported at all but pinged again.
\<close>

lemma ws_watchdog:
  assumes "ws_inv c" "wc_opened c"
  shows "wc_awaiting_pong c \<Longrightarrow> fst (ws_on_ping_timer c) = [(False, False)]"
    and "fst (ws_on_ping_timer (ws_on_pong c)) = []
      \<and> wc_awaiting_pong (snd (ws_on_ping_timer (ws_on_pong c)))"
  using assms by (auto simp: ws_inv_def ws_ops Let_def)

lemma after_scheme_no_colon: "CHR '':'' \<notin> set s \<Longrightarrow> after_scheme (s @ ''://'' @ r) = Some r"
  by (induction s) auto

lemma extract_host_of_url:
  assumes "CHR '':'' \<notin> set scheme" "CHR '':'' \<notin> set host" "CHR ''/'' \<notin> set host"
  shows "extract_host (scheme @ ''://'' @ host @ CHR ''/'' # path) = host"
proof -
  have "takeWhile (\<lambda>c. c \<noteq> CHR '':'' \<and> c \<noteq> CHR ''/'') host = host"
    using assms(2,3) by (auto simp: takeWhile_eq_all_conv)
  moreover have "\<forall>c \<in> set host. c \<noteq> CHR '':'' \<and> c \<noteq> CHR ''/''" using assms(2,3) by auto
  ultimately have "takeWhile (\<lambda>c. c \<noteq> CHR '':'' \<and> c \<noteq> CHR ''/'') (host @ CHR ''/'' # path) = host"
    by (simp add: takeWhile_append)
  with after_scheme_no_colon [OF assms(1)] show ?thesis by (simp add: extract_host_def)
qed

section \<open>Messages, trust and destruction\<close>

text \<open>The message handler: a client that is being destroyed drops the frame.\<close>

definition ws_on_message :: "('m \<Rightarrow> 's \<Rightarrow> 's) \<Rightarrow> ws_client \<Rightarrow> 'm \<Rightarrow> 's \<Rightarrow> 's" where
  "ws_on_message on_stream_message c msg s = (if wc_destroying c then s else on_stream_message msg s)"

text \<open>The destructor: after the flag, no handler reports to the owner; the socket thread is joined.\<close>

definition ws_destroy :: "ws_client \<Rightarrow> ws_client" where
  "ws_destroy c = c\<lparr>wc_destroying := True, wc_thread := False\<rparr>"

text \<open>
  \<open>load_ca_trust\<close>: the bundle named by \<open>SSL_CERT_FILE\<close> first, then the usual places; the first that can be
  opened and loaded.
\<close>

definition ca_candidates :: "string option \<Rightarrow> string list" where
  "ca_candidates ssl_cert_file =
     (case ssl_cert_file of None \<Rightarrow> [] | Some path \<Rightarrow> [path])
     @ [''/etc/ssl/cert.pem'', ''/opt/homebrew/etc/openssl@3/cert.pem'', ''/opt/homebrew/etc/ca-certificates/cert.pem'',
        ''/usr/local/etc/openssl@3/cert.pem'', ''/etc/ssl/certs/ca-certificates.crt'', ''/etc/pki/tls/certs/ca-bundle.crt'']"

definition load_ca_trust :: "string option \<Rightarrow> (string \<Rightarrow> bool) \<Rightarrow> (string \<Rightarrow> bool) \<Rightarrow> string option" where
  "load_ca_trust ssl_cert_file good loads = find (\<lambda>path. good path \<and> loads path) (ca_candidates ssl_cert_file)"

text \<open>The operator's bundle wins whenever it can be read; an unreadable one falls back to the usual places.\<close>

lemma load_ca_trust_operator:
  "load_ca_trust (Some path) good loads =
     (if good path \<and> loads path then Some path else load_ca_trust None good loads)"
  by (simp add: load_ca_trust_def ca_candidates_def)

lemma destroyed_client_is_silent:
  "fst (ws_handle e (ws_destroy c)) = [] \<or> e = WsPingTimer" "ws_on_message f (ws_destroy c) msg s = s"
  "\<not> ws_enabled e (ws_destroy c)"
  by (cases e; simp add: ws_ops ws_destroy_def ws_on_message_def)+

end
