(* ===== verification/Redial.thy ===== *)
theory Redial
  imports Ws_Client
begin

text \<open>
  The redial machinery every exchange socket carries: the owned client, the flag that a redial is
  under way, the redial jobs posted to the owner's io thread, the armed timer and the attempt
  counter (\<open>client_\<close>, \<open>reconnect_pending_\<close>, \<open>reconnect_timer_\<close> and \<open>reconnect_cnt_\<close> in
  \<open>ws_order_gateway.cpp\<close>; three sets of such members, prefixed market, trade and user, in
  \<open>binance_listener.cpp\<close>).  The operations are the parts the owners share; each owner composes
  them in its own theory.  The lemmas say that at most one redial is ever under way and that a
  socket without a working client always has one.
\<close>

record redial =
  rd_client :: "ws_client option"
  rd_pending :: bool
  rd_posted :: nat
  rd_timer :: "int option"
  rd_cnt :: int

definition redial_init :: redial where
  "redial_init = \<lparr>rd_client = None, rd_pending = False, rd_posted = 0, rd_timer = None, rd_cnt = 0\<rparr>"

text \<open>\<open>if (!pending.exchange(true)) post(schedule_reconnect)\<close>\<close>

definition redial_request :: "redial \<Rightarrow> redial" where
  "redial_request r =
     (if rd_pending r then r else r\<lparr>rd_pending := True, rd_posted := Suc (rd_posted r)\<rparr>)"

text \<open>\<open>std::min(1 << std::min(cnt, 5), 30)\<close> seconds, for the counter before its increment.\<close>

definition backoff_sec :: "int \<Rightarrow> int" where
  "backoff_sec cnt = min (2 ^ nat (min cnt 5)) 30"

definition redial_schedule :: "redial \<Rightarrow> redial" where
  "redial_schedule r =
     r\<lparr>rd_client := None, rd_posted := rd_posted r - 1, rd_timer := Some (backoff_sec (rd_cnt r)),
       rd_cnt := s32 (rd_cnt r + 1)\<rparr>"

definition redial_expired :: "redial \<Rightarrow> redial" where
  "redial_expired r = r\<lparr>rd_timer := None, rd_pending := False\<rparr>"

definition redial_install :: "ws_client \<Rightarrow> redial \<Rightarrow> redial" where
  "redial_install c r = r\<lparr>rd_client := Some c\<rparr>"

definition redial_reset_cnt :: "redial \<Rightarrow> redial" where
  "redial_reset_cnt r = r\<lparr>rd_cnt := 0\<rparr>"

definition client_live :: "redial \<Rightarrow> bool" where
  "client_live r \<longleftrightarrow> (case rd_client r of None \<Rightarrow> False | Some c \<Rightarrow> wc_connecting c \<or> wc_opened c)"

text \<open>At most one redial is under way: it is either a posted job or an armed timer.\<close>

definition redial_ok :: "redial \<Rightarrow> bool" where
  "redial_ok r \<longleftrightarrow>
     (if rd_pending r then (rd_posted r = 1 \<and> rd_timer r = None) \<or> (rd_posted r = 0 \<and> rd_timer r \<noteq> None)
      else rd_posted r = 0 \<and> rd_timer r = None)
     \<and> (case rd_client r of None \<Rightarrow> True | Some c \<Rightarrow> ws_inv c)
     \<and> (case rd_timer r of None \<Rightarrow> True | Some d \<Rightarrow> 1 \<le> d \<and> d \<le> 30)"

lemmas redial_ops = redial_request_def redial_schedule_def redial_expired_def redial_install_def
  redial_reset_cnt_def

lemma backoff_bounds: "1 \<le> backoff_sec cnt" "backoff_sec cnt \<le> 30"
  by (simp_all add: backoff_sec_def)

lemma backoff_grows: "backoff_sec 0 = 1" "0 \<le> i \<Longrightarrow> i < 4 \<Longrightarrow> backoff_sec (i + 1) = 2 * backoff_sec i" "5 \<le> i \<Longrightarrow> backoff_sec i = 30"
proof -
  show "backoff_sec 0 = 1" by (simp add: backoff_sec_def)
  show "backoff_sec i = 30" if "5 \<le> i" using that by (simp add: backoff_sec_def min_def)
  assume "0 \<le> i" "i < 4"
  then have "i = 0 \<or> i = 1 \<or> i = 2 \<or> i = 3" by presburger
  then show "backoff_sec (i + 1) = 2 * backoff_sec i" by (auto simp: backoff_sec_def)
qed

lemma redial_ok_init [simp]: "redial_ok redial_init"
  by (simp add: redial_ok_def redial_init_def)

lemma redial_ok_request: "redial_ok r \<Longrightarrow> redial_ok (redial_request r)"
  by (auto simp: redial_ok_def redial_request_def split: if_splits)

lemma redial_ok_schedule: "redial_ok r \<Longrightarrow> rd_posted r \<noteq> 0 \<Longrightarrow> redial_ok (redial_schedule r)"
  using backoff_bounds by (auto simp: redial_ok_def redial_schedule_def split: if_splits)

lemma redial_ok_expired: "redial_ok r \<Longrightarrow> rd_timer r \<noteq> None \<Longrightarrow> redial_ok (redial_expired r)"
  by (auto simp: redial_ok_def redial_expired_def split: if_splits)

lemma redial_ok_install: "redial_ok r \<Longrightarrow> ws_inv c \<Longrightarrow> redial_ok (redial_install c r)"
  by (auto simp: redial_ok_def redial_install_def split: if_splits)

lemma redial_ok_reset_cnt: "redial_ok r \<Longrightarrow> redial_ok (redial_reset_cnt r)"
  by (auto simp: redial_ok_def redial_reset_cnt_def split: if_splits)

lemmas redial_ok_intros = redial_ok_request redial_ok_schedule redial_ok_expired redial_ok_install
  redial_ok_reset_cnt

lemma redial_pending_after [simp]:
  "rd_pending (redial_request r)" "rd_pending (redial_schedule r) = rd_pending r"
  "\<not> rd_pending (redial_expired r)" "rd_pending (redial_install c r) = rd_pending r"
  "rd_pending (redial_reset_cnt r) = rd_pending r"
  by (simp_all add: redial_ops)

lemma redial_client_after [simp]:
  "rd_client (redial_request r) = rd_client r" "rd_client (redial_schedule r) = None"
  "rd_client (redial_expired r) = rd_client r" "rd_client (redial_install c r) = Some c"
  "rd_client (redial_reset_cnt r) = rd_client r"
  by (simp_all add: redial_ops)

lemma client_live_after [simp]:
  "client_live (redial_request r) = client_live r" "\<not> client_live (redial_schedule r)"
  "client_live (redial_install c r) = (wc_connecting c \<or> wc_opened c)"
  "client_live (redial_reset_cnt r) = client_live r"
  by (simp_all add: client_live_def)

end
