(* ===== verification/Order_Gateway.thy ===== *)
theory Order_Gateway
  imports Text_Numbers Msg_Types
begin

text \<open>
  The contract of an order gateway (\<open>trader/order_gateway/order_gateway.hpp\<close>), as a locale: a
  request is accepted, and then leaves with its client id after everything accepted before it, or
  refused, and then answered at once by one failed response.  The Binance and the KIS gateway
  interpret it.
\<close>

section \<open>The gateway contract\<close>

text \<open>A run of requests, with the outcome the trader saw for each.\<close>

fun run_requests :: "('r \<Rightarrow> 's \<Rightarrow> bool \<times> 's) \<Rightarrow> 'r list \<Rightarrow> 's \<Rightarrow> bool list \<times> 's" where
  "run_requests submit [] s = ([], s)"
| "run_requests submit (r # rs) s =
     (case submit r s of (ok, s1) \<Rightarrow> (case run_requests submit rs s1 of (oks, s2) \<Rightarrow> (ok # oks, s2)))"

definition accepted :: "('r \<times> bool) list \<Rightarrow> 'r list" where
  "accepted outcomes = map fst (filter snd outcomes)"

definition refused :: "('r \<times> bool) list \<Rightarrow> 'r list" where
  "refused outcomes = map fst (filter (\<lambda>x. \<not> snd x) outcomes)"

definition plain_failure :: "order_response \<Rightarrow> bool" where
  "plain_failure d \<longleftrightarrow> \<not> or_success d \<and> \<not> or_order_gone d \<and> or_order_no d = [] \<and> or_server_tstamp_ms d = None"

locale order_gateway =
  fixes submit :: "'r \<Rightarrow> 's \<Rightarrow> bool \<times> 's"
    and cid_of :: "'r \<Rightarrow> cid"
    and wire :: "'s \<Rightarrow> 'w list"
    and echo :: "'w \<Rightarrow> string"
    and delivered :: "'s \<Rightarrow> order_response list"
    and ready :: "'s \<Rightarrow> bool"
  assumes accept: "submit r s = (True, s') \<Longrightarrow>
      \<exists>w. wire s' = wire s @ [w] \<and> echo w = to_string (cid_of r) \<and> delivered s' = delivered s"
    and refuse: "ready s \<Longrightarrow> submit r s = (False, s') \<Longrightarrow>
      \<exists>d. wire s' = wire s \<and> delivered s' = delivered s @ [d] \<and> or_cid d = cid_of r \<and> plain_failure d"
    and ready: "ready s \<Longrightarrow> submit r s = (b, s') \<Longrightarrow> ready s'"
begin

lemma run_accounted:
  assumes "ready s" "run_requests submit rs s = (oks, s')"
  shows "length oks = length rs \<and> ready s'
    \<and> (\<exists>ws ds. wire s' = wire s @ ws \<and> delivered s' = delivered s @ ds
        \<and> map echo ws = map (\<lambda>r. to_string (cid_of r)) (accepted (zip rs oks))
        \<and> map or_cid ds = map cid_of (refused (zip rs oks)) \<and> (\<forall>d \<in> set ds. plain_failure d))"
  using assms
proof (induction rs arbitrary: s oks)
  case Nil
  then show ?case by (auto simp: accepted_def refused_def)
next
  case (Cons r rs)
  obtain ok s1 where r: "submit r s = (ok, s1)" by (cases "submit r s")
  obtain oks' where rest: "run_requests submit rs s1 = (oks', s')" "oks = ok # oks'"
    using Cons.prems(2) r by (auto split: prod.splits)
  have s1: "ready s1" using ready [OF Cons.prems(1) r] .
  from Cons.IH [OF s1 rest(1)] obtain ws ds where IH: "length oks' = length rs" "ready s'"
    "wire s' = wire s1 @ ws" "delivered s' = delivered s1 @ ds"
    "map echo ws = map (\<lambda>r. to_string (cid_of r)) (accepted (zip rs oks'))"
    "map or_cid ds = map cid_of (refused (zip rs oks'))" "\<forall>d \<in> set ds. plain_failure d" by blast
  show ?case
  proof (cases ok)
    case True
    with accept [of r s s1] r obtain w where "wire s1 = wire s @ [w]" "echo w = to_string (cid_of r)"
      "delivered s1 = delivered s" by auto
    with IH rest(2) True show ?thesis
      by (intro conjI exI [of _ "w # ws"] exI [of _ ds]) (simp_all add: accepted_def refused_def)
  next
    case False
    with refuse [OF Cons.prems(1), of r s1] r obtain d where "wire s1 = wire s" "delivered s1 = delivered s @ [d]"
      "or_cid d = cid_of r" "plain_failure d" by auto
    with IH rest(2) False show ?thesis
      by (intro conjI exI [of _ ws] exI [of _ "d # ds"]) (simp_all add: accepted_def refused_def)
  qed
qed

end

datatype gateway_order = GwPlace order_place_info | GwAmend order_amend_info | GwCancel order_cancel_info

fun gw_cid :: "gateway_order \<Rightarrow> cid" where
  "gw_cid (GwPlace i) = op_cid i"
| "gw_cid (GwAmend i) = oa_cid i"
| "gw_cid (GwCancel i) = oc_cid i"

end
