(* ===== verification/Binance_Gateway.thy ===== *)
theory Binance_Gateway
  imports Wire_Format Redial Order_Gateway
begin

text \<open>
  The Binance order gateway (\<open>trader/order_gateway/binance/order_gateway.cpp\<close> and
  \<open>ws_order_gateway.cpp\<close>): signed WS-API requests, the replies correlated by client id, the
  failed responses for requests that could not be sent, and the session's redial.

  The JSON reader and writer, the socket's \<open>send\<close> and the dialling are parameters (\<open>gw_env\<close>).
  What reaches the wire, what is delivered to the trader's sink, the jobs posted to the io thread
  and the armed timer are part of the state.  The gateway is an interpretation of the contract
  \<open>order_gateway\<close>: a request is either on the wire or answered by one failed response, in order.
\<close>

section \<open>State\<close>

record ws_api_request =
  wr_id :: string
  wr_method :: string
  wr_params :: "(string, string) omap"

record 'j gw_env =
  ge_rest :: "'j rest_env"
  ge_ws_api_domain :: string
  ge_write_json :: "ws_api_request \<Rightarrow> string option"
  ge_classify :: "string \<Rightarrow> (string \<times> int) option"
  ge_read_success :: "string \<Rightarrow> (int \<times> int) option"
  ge_read_error :: "string \<Rightarrow> (int \<times> string) option"
  ge_send_throws :: "nat \<Rightarrow> bool"
  ge_dial_throws :: "nat \<Rightarrow> bool"

record ws_gateway =
  wg_filters :: filters
  wg_connected :: bool
  wg_running :: bool
  wg_redial :: redial
  wg_reset_posts :: nat
  wg_net :: net
  wg_sends :: nat
  wg_dials :: nat
  wg_sink :: bool
  wg_wire :: "ws_api_request list"
  wg_delivered :: "order_response list"

datatype gateway_error = NoCredentials | NoWsApiEndpoint

section \<open>The session\<close>

text \<open>The status callback \<open>create_client\<close> installs, for one notification.\<close>

definition gw_status_cb :: "ws_note \<Rightarrow> ws_gateway \<Rightarrow> ws_gateway" where
  "gw_status_cb note g =
     (let g1 = g\<lparr>wg_connected := snd note\<rparr>
      in if snd note then g1\<lparr>wg_reset_posts := Suc (wg_reset_posts g1)\<rparr>
         else if fst note \<or> \<not> wg_running g1 then g1
         else g1\<lparr>wg_redial := redial_request (wg_redial g1)\<rparr>)"

definition create_client :: "'j gw_env \<Rightarrow> ws_gateway \<Rightarrow> ws_gateway" where
  "create_client ge g =
     (case new_ws_client (ge_dial_throws ge (wg_dials g)) of (ns, c) \<Rightarrow>
        let g1 = fold gw_status_cb ns (g\<lparr>wg_dials := Suc (wg_dials g)\<rparr>)
        in g1\<lparr>wg_redial := redial_install c (wg_redial g1)\<rparr>)"

definition schedule_reconnect :: "ws_gateway \<Rightarrow> ws_gateway" where
  "schedule_reconnect g = g\<lparr>wg_redial := redial_schedule (wg_redial g), wg_connected := False\<rparr>"

text \<open>The handler of the redial timer.\<close>

definition gw_on_timer :: "'j gw_env \<Rightarrow> bool \<Rightarrow> ws_gateway \<Rightarrow> ws_gateway" where
  "gw_on_timer ge ec g =
     (let g1 = g\<lparr>wg_redial := redial_expired (wg_redial g)\<rparr>
      in if ec \<or> \<not> wg_running g1 then g1 else create_client ge g1)"

text \<open>The job an opened session posts: \<open>reconnect_cnt_ = 0\<close>.\<close>

definition gw_run_reset :: "ws_gateway \<Rightarrow> ws_gateway" where
  "gw_run_reset g = g\<lparr>wg_reset_posts := wg_reset_posts g - 1, wg_redial := redial_reset_cnt (wg_redial g)\<rparr>"

definition gw_socket_event :: "ws_event \<Rightarrow> ws_client \<Rightarrow> ws_gateway \<Rightarrow> ws_gateway" where
  "gw_socket_event e c g =
     (case ws_handle e c of (ns, c') \<Rightarrow>
        fold gw_status_cb ns (g\<lparr>wg_redial := redial_install c' (wg_redial g)\<rparr>))"

definition gw_shutdown :: "ws_gateway \<Rightarrow> ws_gateway" where
  "gw_shutdown g = g\<lparr>wg_running := False, wg_reset_posts := 0, wg_redial := redial_init\<rparr>"

text \<open>
  \<open>BinanceOrderGateway\<close>'s constructor: the filters are loaded first, then missing credentials or
  a missing endpoint throw.  The sink is installed by the order handler right after.
\<close>

definition make_gateway :: "'j gw_env \<Rightarrow> gateway_error + ws_gateway" where
  "make_gateway ge =
     (case load_filters (ge_rest ge) [] \<lparr>net_requests = [], net_clock_reads = 0\<rparr> of (fs, n) \<Rightarrow>
        if re_keys (ge_rest ge) = None then Inl NoCredentials
        else if ge_ws_api_domain ge = [] then Inl NoWsApiEndpoint
        else Inr (create_client ge
          \<lparr>wg_filters = fs, wg_connected = False, wg_running = True, wg_redial = redial_init,
           wg_reset_posts = 0, wg_net = n, wg_sends = 0, wg_dials = 0, wg_sink = False,
           wg_wire = [], wg_delivered = []\<rparr>))"

definition set_response_sink :: "ws_gateway \<Rightarrow> ws_gateway" where
  "set_response_sink g = g\<lparr>wg_sink := True\<rparr>"

definition set_product_grid :: "product \<Rightarrow> dbl \<Rightarrow> dbl \<Rightarrow> ws_gateway \<Rightarrow> ws_gateway" where
  "set_product_grid product tick lot g = g\<lparr>wg_filters := set_filter product tick lot (wg_filters g)\<rparr>"

section \<open>Requests\<close>

definition query_string :: "(string, string) omap \<Rightarrow> string" where
  "query_string params =
     fold (\<lambda>(k, v) q. (if q = [] then q else q @ ''&'') @ k @ ''='' @ v) params []"

definition deliver :: "order_response \<Rightarrow> ws_gateway \<Rightarrow> ws_gateway" where
  "deliver r g = (if wg_sink g then g\<lparr>wg_delivered := wg_delivered g @ [r]\<rparr> else g)"

definition signed_params :: "'j rest_env \<Rightarrow> string \<Rightarrow> string \<Rightarrow> int \<Rightarrow> (string, string) omap \<Rightarrow> (string, string) omap" where
  "signed_params re key secret now params =
     (let ps = om_put ''timestamp'' (to_string now)
                 (om_put ''recvWindow'' (to_string default_recv_window) (om_put ''apiKey'' key params))
      in om_put ''signature'' (hmac_sign re secret (query_string ps)) ps)"

definition ws_send_request ::
  "'j gw_env \<Rightarrow> string \<Rightarrow> (string, string) omap \<Rightarrow> cid \<Rightarrow> ws_gateway \<Rightarrow> bool \<times> ws_gateway" where
  "ws_send_request ge method params cid g =
     (case re_keys (ge_rest ge) of
        None \<Rightarrow> (False, g)
      | Some (key, secret) \<Rightarrow>
          if \<not> wg_connected g then (False, g)
          else
            let n = wg_net g;
                now = re_clk_ms (ge_rest ge) (net_clock_reads n);
                g1 = g\<lparr>wg_net := n\<lparr>net_clock_reads := Suc (net_clock_reads n)\<rparr>\<rparr>;
                req = \<lparr>wr_id = to_string cid, wr_method = method,
                       wr_params = signed_params (ge_rest ge) key secret now params\<rparr>
            in if ge_write_json ge req = None then (False, g1)
               else if rd_client (wg_redial g1) = None \<or> \<not> wg_connected g1 then (False, g1)
               else let g2 = g1\<lparr>wg_sends := Suc (wg_sends g1)\<rparr>
                    in if ge_send_throws ge (wg_sends g1) then (False, g2)
                       else (True, g2\<lparr>wg_wire := wg_wire g2 @ [req]\<rparr>))"

definition params_of :: "(string \<times> string) list \<Rightarrow> (string, string) omap" where
  "params_of kvs = fold (\<lambda>(k, v) m. om_put k v m) kvs []"

definition place_params :: "filters \<Rightarrow> order_place_info \<Rightarrow> (string, string) omap" where
  "place_params fs info =
     (let ps0 = params_of
            [(''symbol'', op_product info), (''side'', if op_is_bid info then ''BUY'' else ''SELL''),
             (''type'', if op_is_limit info then ''LIMIT'' else ''MARKET''),
             (''quantity'', format_qty fs (op_product info) (op_qty info)),
             (''newClientOrderId'', to_string (op_cid info))];
          ps1 = (if op_is_limit info
                 then om_put ''price'' (format_price fs (op_product info) (op_price info))
                        (om_put ''timeInForce'' ''GTC'' ps0)
                 else ps0)
      in if op_reduce_only info then om_put ''reduceOnly'' ''true'' ps1 else ps1)"

definition ws_place_order :: "'j gw_env \<Rightarrow> order_place_info \<Rightarrow> ws_gateway \<Rightarrow> bool \<times> ws_gateway" where
  "ws_place_order ge info g =
     ws_send_request ge ''order.place'' (place_params (wg_filters g) info) (op_cid info) g"

definition ws_amend_order :: "'j gw_env \<Rightarrow> order_amend_info \<Rightarrow> ws_gateway \<Rightarrow> bool \<times> ws_gateway" where
  "ws_amend_order ge info g =
     ws_send_request ge ''order.modify''
       (params_of [(''symbol'', oa_product info), (''orderId'', oa_order_no info),
          (''quantity'', format_qty (wg_filters g) (oa_product info) (oa_qty info)),
          (''price'', format_price (wg_filters g) (oa_product info) (oa_price info))])
       (oa_cid info) g"

definition ws_cancel_order :: "'j gw_env \<Rightarrow> order_cancel_info \<Rightarrow> ws_gateway \<Rightarrow> bool \<times> ws_gateway" where
  "ws_cancel_order ge info g =
     ws_send_request ge ''order.cancel''
       (params_of [(''symbol'', oc_product info), (''orderId'', oc_order_no info)]) (oc_cid info) g"

definition report_not_sent :: "cid \<Rightarrow> ws_gateway \<Rightarrow> bool \<times> ws_gateway" where
  "report_not_sent cid g =
     (False, deliver (order_response_init\<lparr>or_cid := cid, or_success := False,
                        or_msg := ''Binance WS-API session unavailable''\<rparr>) g)"

text \<open>\<open>if (ws_gateway_->...(info)) return true; return report_not_sent(info.cid, ...);\<close>\<close>

definition or_report :: "cid \<Rightarrow> bool \<times> ws_gateway \<Rightarrow> bool \<times> ws_gateway" where
  "or_report cid res = (if fst res then res else report_not_sent cid (snd res))"

definition gw_place_order :: "'j gw_env \<Rightarrow> order_place_info \<Rightarrow> ws_gateway \<Rightarrow> bool \<times> ws_gateway" where
  "gw_place_order ge info g =
     or_report (op_cid info) (ws_place_order ge info g)"

definition gw_amend_order :: "'j gw_env \<Rightarrow> order_amend_info \<Rightarrow> ws_gateway \<Rightarrow> bool \<times> ws_gateway" where
  "gw_amend_order ge info g =
     or_report (oa_cid info) (ws_amend_order ge info g)"

definition gw_cancel_order :: "'j gw_env \<Rightarrow> order_cancel_info \<Rightarrow> ws_gateway \<Rightarrow> bool \<times> ws_gateway" where
  "gw_cancel_order ge info g =
     or_report (oc_cid info) (ws_cancel_order ge info g)"

section \<open>Replies\<close>

definition success_response :: "'j gw_env \<Rightarrow> string \<Rightarrow> order_response \<Rightarrow> order_response" where
  "success_response ge payload r =
     (case ge_read_success ge payload of
        None \<Rightarrow> r\<lparr>or_success := True\<rparr>
      | Some (order_id, update_time) \<Rightarrow>
          r\<lparr>or_success := True,
            or_order_no := (if order_id \<noteq> 0 then to_string order_id else or_order_no r),
            or_server_tstamp_ms := (if 0 < update_time then Some update_time else or_server_tstamp_ms r)\<rparr>)"

definition error_response :: "'j gw_env \<Rightarrow> string \<Rightarrow> order_response \<Rightarrow> order_response" where
  "error_response ge payload r =
     (case ge_read_error ge payload of
        None \<Rightarrow> r\<lparr>or_success := False\<rparr>
      | Some (code, msg) \<Rightarrow>
          r\<lparr>or_success := False, or_code := to_string code, or_msg := msg,
            or_order_gone := (code = - 2011 \<or> code = - 2013)\<rparr>)"

definition on_message :: "'j gw_env \<Rightarrow> string \<Rightarrow> ws_gateway \<Rightarrow> ws_gateway" where
  "on_message ge payload g =
     (case ge_classify ge payload of
        None \<Rightarrow> g
      | Some (rid, status) \<Rightarrow>
          if rid = [] then g
          else (case stoull rid of
                  None \<Rightarrow> g
                | Some cid \<Rightarrow>
                    deliver ((if status = 200 then success_response ge payload
                              else error_response ge payload) (order_response_init\<lparr>or_cid := cid\<rparr>)) g))"

section \<open>The contract of the gateway\<close>

fun gw_submit :: "'j gw_env \<Rightarrow> gateway_order \<Rightarrow> ws_gateway \<Rightarrow> bool \<times> ws_gateway" where
  "gw_submit ge (GwPlace i) g = gw_place_order ge i g"
| "gw_submit ge (GwAmend i) g = gw_amend_order ge i g"
| "gw_submit ge (GwCancel i) g = gw_cancel_order ge i g"

text \<open>What every request on the wire is: signed over all its other parameters, in key order.\<close>

definition signed_ok :: "'j gw_env \<Rightarrow> ws_api_request \<Rightarrow> bool" where
  "signed_ok ge w \<longleftrightarrow> om_inv (wr_params w)
     \<and> (\<exists>key secret. re_keys (ge_rest ge) = Some (key, secret) \<and> map_of (wr_params w) ''apiKey'' = Some key
         \<and> map_of (wr_params w) ''signature''
             = Some (hmac_sign (ge_rest ge) secret (query_string (om_erase ''signature'' (wr_params w)))))"

lemma om_erase_put_new: "om_inv m \<Longrightarrow> \<not> om_has m k \<Longrightarrow> om_erase k (om_put k v m) = m"
proof (induction k v m rule: om_put.induct)
  case (1 k v)
  then show ?case by (simp add: om_erase_def)
next
  case (2 k v k' v' m)
  then have nin: "k \<notin> fst ` set m" "k \<noteq> k'" by (auto simp: om_has_iff)
  then have "filter (\<lambda>e. fst e \<noteq> k) m = m" by (auto simp: filter_id_conv)
  with 2 nin show ?case by (auto simp: om_erase_def om_inv_Cons om_has_iff)
qed

lemma params_of_inv: "om_inv (params_of kvs)"
proof -
  have "om_inv m \<Longrightarrow> om_inv (fold (\<lambda>(k, v) m. om_put k v m) kvs m)" for m :: "(string, string) omap"
    by (induction kvs arbitrary: m) (auto simp: om_inv_put)
  then show ?thesis by (simp add: params_of_def)
qed

lemma om_has_put: "om_has (om_put k v m) k' \<longleftrightarrow> k' = k \<or> om_has m k'"
  by (auto simp: om_has_iff)

lemma om_has_params_of: "om_has (params_of kvs) k \<longleftrightarrow> k \<in> fst ` set kvs"
proof -
  have "om_has (fold (\<lambda>(k, v) m. om_put k v m) kvs m) k \<longleftrightarrow> k \<in> fst ` set kvs \<or> om_has m k"
    for m :: "(string, string) omap"
    by (induction kvs arbitrary: m) (auto simp: om_has_put)
  then show ?thesis by (simp add: params_of_def om_has_def)
qed

lemma signed_params_ok:
  assumes "om_inv params" "\<not> om_has params ''signature''" "re_keys (ge_rest ge) = Some (key, secret)"
  shows "signed_ok ge \<lparr>wr_id = rid, wr_method = method, wr_params = signed_params (ge_rest ge) key secret now params\<rparr>"
  using assms
  by (simp add: signed_ok_def signed_params_def Let_def om_inv_put om_has_put om_erase_put_new om_simps)

lemma place_params_ok: "om_inv (place_params fs info) \<and> \<not> om_has (place_params fs info) ''signature''"
  by (simp add: place_params_def Let_def om_inv_put params_of_inv om_has_put om_has_params_of)

lemma ws_send_request_result:
  assumes "ws_send_request ge method params cid g = (ok, g')" "om_inv params" "\<not> om_has params ''signature''"
  shows "wg_delivered g' = wg_delivered g" "wg_sink g' = wg_sink g" "wg_redial g' = wg_redial g"
    "wg_connected g' = wg_connected g" "wg_running g' = wg_running g" "wg_filters g' = wg_filters g"
    "if ok then wg_connected g \<and> (\<exists>w. wg_wire g' = wg_wire g @ [w] \<and> wr_id w = to_string cid \<and> signed_ok ge w)
     else wg_wire g' = wg_wire g"
  using assms(1) signed_params_ok [OF assms(2,3)]
  by (auto simp: ws_send_request_def Let_def split: option.splits prod.splits if_splits)

lemma gw_submit_result:
  assumes "gw_submit ge r g = (ok, g')"
  shows "wg_sink g' = wg_sink g" "wg_redial g' = wg_redial g" "wg_connected g' = wg_connected g"
    "wg_running g' = wg_running g" "wg_filters g' = wg_filters g"
    "if ok then wg_connected g \<and> wg_delivered g' = wg_delivered g
       \<and> (\<exists>w. wg_wire g' = wg_wire g @ [w] \<and> wr_id w = to_string (gw_cid r) \<and> signed_ok ge w)
     else wg_wire g' = wg_wire g \<and> (wg_sink g \<longrightarrow>
       (\<exists>d. wg_delivered g' = wg_delivered g @ [d] \<and> or_cid d = gw_cid r \<and> plain_failure d))"
proof -
  have ps: "om_inv (params_of kvs) \<and> (''signature'' \<notin> fst ` set kvs \<longrightarrow> \<not> om_has (params_of kvs) ''signature'')" for kvs
    by (simp add: params_of_inv om_has_params_of)
  obtain meth params where mp: "om_inv params" "\<not> om_has params ''signature''"
    "(ok, g') = or_report (gw_cid r) (ws_send_request ge meth params (gw_cid r) g)"
  proof (cases r)
    case (GwPlace i)
    show thesis
      by (rule that [of "place_params (wg_filters g) i" "''order.place''"])
        (use assms GwPlace place_params_ok in \<open>simp_all add: gw_place_order_def ws_place_order_def\<close>)
  next
    case (GwAmend i)
    show thesis
      by (rule that [of "params_of [(''symbol'', oa_product i), (''orderId'', oa_order_no i),
            (''quantity'', format_qty (wg_filters g) (oa_product i) (oa_qty i)),
            (''price'', format_price (wg_filters g) (oa_product i) (oa_price i))]" "''order.modify''"])
        (use assms GwAmend ps in \<open>simp_all add: gw_amend_order_def ws_amend_order_def params_of_inv om_has_params_of\<close>)
  next
    case (GwCancel i)
    show thesis
      by (rule that [of "params_of [(''symbol'', oc_product i), (''orderId'', oc_order_no i)]" "''order.cancel''"])
        (use assms GwCancel ps in \<open>simp_all add: gw_cancel_order_def ws_cancel_order_def params_of_inv om_has_params_of\<close>)
  qed
  obtain sent g1 where s1: "ws_send_request ge meth params (gw_cid r) g = (sent, g1)"
    by (cases "ws_send_request ge meth params (gw_cid r) g")
  note res = ws_send_request_result [OF s1 mp(1,2)]
  show "wg_sink g' = wg_sink g" "wg_redial g' = wg_redial g" "wg_connected g' = wg_connected g"
    "wg_running g' = wg_running g" "wg_filters g' = wg_filters g"
    using mp(3) s1 res by (auto simp: or_report_def report_not_sent_def deliver_def split: if_splits)
  show "if ok then wg_connected g \<and> wg_delivered g' = wg_delivered g
       \<and> (\<exists>w. wg_wire g' = wg_wire g @ [w] \<and> wr_id w = to_string (gw_cid r) \<and> signed_ok ge w)
     else wg_wire g' = wg_wire g \<and> (wg_sink g \<longrightarrow>
       (\<exists>d. wg_delivered g' = wg_delivered g @ [d] \<and> or_cid d = gw_cid r \<and> plain_failure d))"
    using mp(3) s1 res
    by (cases sent) (auto simp: or_report_def report_not_sent_def deliver_def plain_failure_def order_response_init_def)
qed

interpretation binance: order_gateway "gw_submit ge" gw_cid wg_wire wr_id wg_delivered wg_sink
  for ge :: "'j gw_env"
proof (unfold_locales, goal_cases)
  case (1 r s s')
  then show ?case using gw_submit_result(6) [OF 1] by auto
next
  case (2 s r s')
  then show ?case using gw_submit_result(6) [OF 2(2)] by simp
next
  case (3 s r b s')
  then show ?case using gw_submit_result(1) [OF 3(2)] by simp
qed

section \<open>The life of a session\<close>

text \<open>
  The events a gateway sees, in any interleaving: callbacks of its socket, the jobs of its io
  thread, the redial timer, the trader's requests and grids, and replies.
\<close>

inductive gw_step :: "'j gw_env \<Rightarrow> ws_gateway \<Rightarrow> ws_gateway \<Rightarrow> bool" for ge where
  socket: "rd_client (wg_redial g) = Some c \<Longrightarrow> ws_enabled e c \<Longrightarrow> gw_step ge g (gw_socket_event e c g)"
| reset: "wg_reset_posts g \<noteq> 0 \<Longrightarrow> gw_step ge g (gw_run_reset g)"
| schedule: "rd_posted (wg_redial g) \<noteq> 0 \<Longrightarrow> gw_step ge g (schedule_reconnect g)"
| timer: "rd_timer (wg_redial g) \<noteq> None \<Longrightarrow> gw_step ge g (gw_on_timer ge False g)"
| request: "gw_submit ge r g = (ok, g') \<Longrightarrow> gw_step ge g g'"
| grid: "gw_step ge g (set_product_grid p t l g)"
| reply: "gw_step ge g (on_message ge payload g)"

definition gw_inv :: "ws_gateway \<Rightarrow> bool" where
  "gw_inv g \<longleftrightarrow> redial_ok (wg_redial g)
     \<and> wg_connected g = (case rd_client (wg_redial g) of None \<Rightarrow> False | Some c \<Rightarrow> wc_opened c)
     \<and> (wg_running g \<longrightarrow> client_live (wg_redial g) \<or> rd_pending (wg_redial g))"

lemma create_client_inv:
  assumes "redial_ok (wg_redial g)"
  shows "gw_inv (create_client ge g)"
proof -
  obtain ns c where nc: "new_ws_client (ge_dial_throws ge (wg_dials g)) = (ns, c)"
    by (cases "new_ws_client (ge_dial_throws ge (wg_dials g))")
  have "ws_inv c" using new_ws_client_inv [of "ge_dial_throws ge (wg_dials g)"] nc by simp
  moreover have c: "wc_connecting c" "\<not> wc_opened c" "\<forall>n \<in> set ns. n = (True, False)" "ns \<noteq> []"
    using nc by (auto simp: new_ws_client_def init_connection_def ws_client_init_def ws_notify_def Let_def split: if_splits)
  moreover have "fold gw_status_cb ns h = h\<lparr>wg_connected := False\<rparr>" if "\<forall>n \<in> set ns. n = (True, False)" "ns \<noteq> []" for h ns
  proof -
    have "fold gw_status_cb ns (h\<lparr>wg_connected := False\<rparr>) = h\<lparr>wg_connected := False\<rparr>"
      using that(1) by (induction ns) (auto simp: gw_status_cb_def Let_def)
    with that show ?thesis by (cases ns) (auto simp: gw_status_cb_def Let_def)
  qed
  ultimately show ?thesis
    using assms by (simp add: create_client_def nc gw_inv_def redial_ok_install Let_def)
qed

lemma socket_event_inv:
  assumes "gw_inv g" "rd_client (wg_redial g) = Some c" "ws_enabled e c"
  shows "gw_inv (gw_socket_event e c g)"
proof -
  obtain ns c' where h: "ws_handle e c = (ns, c')" by (cases "ws_handle e c")
  have c: "ws_inv c" using assms(1,2) by (simp add: gw_inv_def redial_ok_def)
  have c': "ws_inv c'" using ws_handle_inv [OF c assms(3)] h by simp
  have ok: "redial_ok (redial_install c' (wg_redial g))"
    using assms(1) c' by (simp add: gw_inv_def redial_ok_install)
  consider "ns = []" "ws_notify c' = ws_notify c" | "ns = [ws_notify c']"
    using ws_handle_notes [OF c assms(3) h] by blast
  then show ?thesis
  proof cases
    case 1
    with assms(1,2) ok h show ?thesis
      by (auto simp: gw_socket_event_def gw_inv_def client_live_def ws_notify_def)
  next
    case 2
    have "\<not> (wc_connecting c' \<and> wc_opened c')" using c' by (simp add: ws_inv_def)
    moreover have "\<not> wc_connecting c'" using ws_handle_connecting_note [OF c assms(3) h] 2 by (simp add: ws_notify_def)
    ultimately show ?thesis
      using assms(1,2) ok h 2
      by (auto simp: gw_socket_event_def gw_inv_def ws_notify_def gw_status_cb_def Let_def redial_ok_request)
  qed
qed

lemma gw_step_inv: "gw_step ge g g' \<Longrightarrow> gw_inv g \<Longrightarrow> gw_inv g'"
proof (induction rule: gw_step.induct)
  case (socket g c e)
  then show ?case by (simp add: socket_event_inv)
next
  case (reset g)
  then show ?case by (auto simp: gw_inv_def gw_run_reset_def redial_ok_reset_cnt)
next
  case (schedule g)
  then have "rd_pending (wg_redial g)" by (auto simp: gw_inv_def redial_ok_def split: if_splits)
  with schedule show ?case by (simp add: gw_inv_def schedule_reconnect_def redial_ok_schedule)
next
  case (timer g)
  then have ok: "redial_ok (redial_expired (wg_redial g))" by (simp add: gw_inv_def redial_ok_expired)
  show ?case
  proof (cases "wg_running g")
    case True
    with ok show ?thesis by (simp add: gw_on_timer_def create_client_inv Let_def)
  next
    case False
    with ok timer show ?thesis by (simp add: gw_on_timer_def gw_inv_def Let_def)
  qed
next
  case (request r g ok g')
  then show ?case using gw_submit_result(1-4) [OF request(1)] by (simp add: gw_inv_def)
next
  case (grid g p t l)
  then show ?case by (simp add: gw_inv_def set_product_grid_def)
next
  case (reply g payload)
  then show ?case
    by (simp add: gw_inv_def on_message_def deliver_def split: option.splits prod.splits if_splits)
qed

definition gw_reach :: "'j gw_env \<Rightarrow> ws_gateway \<Rightarrow> bool" where
  "gw_reach ge g \<longleftrightarrow> (\<exists>g0. make_gateway ge = Inr g0 \<and> (gw_step ge)\<^sup>*\<^sup>* (set_response_sink g0) g)"

lemma gw_reach_inv: "gw_reach ge g \<Longrightarrow> gw_inv g"
proof -
  assume "gw_reach ge g"
  then obtain g0 where g0: "make_gateway ge = Inr g0" "(gw_step ge)\<^sup>*\<^sup>* (set_response_sink g0) g"
    by (auto simp: gw_reach_def)
  have "gw_inv g0"
    using g0(1) by (auto simp: make_gateway_def create_client_inv split: prod.splits if_splits)
  then have "gw_inv (set_response_sink g0)" by (simp add: gw_inv_def set_response_sink_def)
  with g0(2) show ?thesis by (induction rule: rtranclp_induct) (auto intro: gw_step_inv)
qed

lemma fold_status_sink: "wg_sink (fold gw_status_cb ns g) = wg_sink g"
  by (induction ns arbitrary: g) (simp_all add: gw_status_cb_def Let_def)

lemma gw_step_sink: "gw_step ge g g' \<Longrightarrow> wg_sink g \<Longrightarrow> wg_sink g'"
  by (induction rule: gw_step.induct)
    (auto simp: gw_socket_event_def gw_run_reset_def schedule_reconnect_def gw_on_timer_def create_client_def
      set_product_grid_def on_message_def deliver_def Let_def fold_status_sink gw_submit_result(1)
      split: prod.splits option.splits)

lemma gw_reach_sink: "gw_reach ge g \<Longrightarrow> wg_sink g"
proof -
  assume "gw_reach ge g"
  then obtain g0 where "(gw_step ge)\<^sup>*\<^sup>* (set_response_sink g0) g" by (auto simp: gw_reach_def)
  then show ?thesis
    by (induction rule: rtranclp_induct) (auto intro: gw_step_sink simp: set_response_sink_def)
qed

text \<open>When no dial throws, every owned client has its socket thread.\<close>

definition has_thread :: "ws_gateway \<Rightarrow> bool" where
  "has_thread g \<longleftrightarrow> (case rd_client (wg_redial g) of None \<Rightarrow> True | Some c \<Rightarrow> wc_thread c)"

lemma fold_status_client: "rd_client (wg_redial (fold gw_status_cb ns g)) = rd_client (wg_redial g)"
  by (induction ns arbitrary: g) (simp_all add: gw_status_cb_def Let_def)

lemma create_client_thread: "\<not> ge_dial_throws ge (wg_dials g) \<Longrightarrow> has_thread (create_client ge g)"
  by (simp add: create_client_def has_thread_def new_ws_client_def init_connection_def Let_def)

lemma gw_step_thread: "gw_step ge g g' \<Longrightarrow> \<forall>n. \<not> ge_dial_throws ge n \<Longrightarrow> has_thread g \<Longrightarrow> has_thread g'"
proof (induction rule: gw_step.induct)
  case (socket g c e)
  then show ?case using ws_handle_thread [of e c]
    by (auto simp: has_thread_def gw_socket_event_def fold_status_client split: prod.splits)
next
  case (timer g)
  then show ?case
    using create_client_thread by (auto simp: gw_on_timer_def has_thread_def Let_def)
next
  case (request r g ok g')
  then show ?case using gw_submit_result(2) [OF request(1)] by (simp add: has_thread_def)
next
  case (reply g payload)
  then show ?case
    by (simp add: has_thread_def on_message_def deliver_def split: option.splits prod.splits if_splits)
qed (simp_all add: has_thread_def gw_run_reset_def schedule_reconnect_def set_product_grid_def)

lemma gw_reach_thread:
  assumes "gw_reach ge g" "\<forall>n. \<not> ge_dial_throws ge n"
  shows "has_thread g"
proof -
  obtain g0 where g0: "make_gateway ge = Inr g0" "(gw_step ge)\<^sup>*\<^sup>* (set_response_sink g0) g"
    using assms(1) by (auto simp: gw_reach_def)
  have "has_thread g0" using g0(1) assms(2)
    by (auto simp: make_gateway_def create_client_thread split: prod.splits if_splits)
  then have "has_thread (set_response_sink g0)" by (simp add: has_thread_def set_response_sink_def)
  with g0(2) show ?thesis by (induction rule: rtranclp_induct) (auto intro: gw_step_thread [OF _ assms(2)])
qed

definition session_working :: "ws_gateway \<Rightarrow> bool" where
  "session_working g \<longleftrightarrow> (case rd_client (wg_redial g) of None \<Rightarrow> False
     | Some c \<Rightarrow> wc_thread c \<and> (wc_connecting c \<or> wc_opened c))"

lemma working_iff: "session_working g \<longleftrightarrow> has_thread g \<and> client_live (wg_redial g)"
  by (auto simp: session_working_def has_thread_def client_live_def split: option.splits)

lemma timer_restores:
  assumes "rd_timer (wg_redial g) \<noteq> None" "wg_running g" "\<not> ge_dial_throws ge (wg_dials g)"
  shows "gw_step ge g (gw_on_timer ge False g) \<and> session_working (gw_on_timer ge False g)"
  using assms gw_step.timer [of g ge]
  by (simp add: session_working_def gw_on_timer_def create_client_def new_ws_client_def init_connection_def
      ws_client_init_def Let_def fold_status_client)

lemma pending_restores:
  assumes "gw_inv g" "wg_running g" "rd_pending (wg_redial g)" "\<forall>n. \<not> ge_dial_throws ge n"
  shows "\<exists>g'. (gw_step ge)\<^sup>*\<^sup>* g g' \<and> session_working g'"
proof (cases "rd_timer (wg_redial g)")
  case (Some d)
  then show ?thesis using timer_restores [of g ge] assms(2,4) by blast
next
  case None
  then have "rd_posted (wg_redial g) \<noteq> 0" using assms(1,3) by (simp add: gw_inv_def redial_ok_def)
  then have step: "gw_step ge g (schedule_reconnect g)" by (rule gw_step.schedule)
  have "rd_timer (wg_redial (schedule_reconnect g)) \<noteq> None" "wg_running (schedule_reconnect g)"
    using assms(2) by (simp_all add: schedule_reconnect_def redial_schedule_def)
  with timer_restores assms(4)
  have "gw_step ge (schedule_reconnect g) (gw_on_timer ge False (schedule_reconnect g))"
    "session_working (gw_on_timer ge False (schedule_reconnect g))" by blast+
  then show ?thesis using rtranclp.rtrancl_into_rtrancl [OF r_into_rtranclp [of "gw_step ge", OF step]] by blast
qed

text \<open>
  A dial that throws is final: \<open>init_connection\<close> leaves its client marked as connecting and without
  a thread, so no callback, job or timer can ever run again and every request is refused.
\<close>

definition session_dead :: "ws_gateway \<Rightarrow> bool" where
  "session_dead g \<longleftrightarrow> \<not> wg_connected g \<and> rd_posted (wg_redial g) = 0 \<and> rd_timer (wg_redial g) = None
     \<and> (case rd_client (wg_redial g) of None \<Rightarrow> False | Some c \<Rightarrow> \<not> wc_thread c)"

lemma session_dead_step: "gw_step ge g g' \<Longrightarrow> session_dead g \<Longrightarrow> session_dead g'"
proof (induction rule: gw_step.induct)
  case (socket g c e)
  then show ?case by (cases e) (simp_all add: session_dead_def)
next
  case (request r g ok g')
  then show ?case using gw_submit_result(2,3) [OF request(1)] by (simp add: session_dead_def)
next
  case (reply g payload)
  then show ?case
    by (simp add: session_dead_def on_message_def deliver_def split: option.splits prod.splits if_splits)
qed (simp_all add: session_dead_def gw_run_reset_def redial_reset_cnt_def set_product_grid_def)

lemma throwing_dial_is_final:
  assumes "redial_ok (wg_redial g)" "\<not> rd_pending (wg_redial g)" "ge_dial_throws ge (wg_dials g)"
    "(gw_step ge)\<^sup>*\<^sup>* (create_client ge g) g'"
  shows "\<not> fst (gw_submit ge r g')"
proof -
  have "session_dead (create_client ge g)"
    using assms(1-3)
    by (simp add: session_dead_def create_client_def new_ws_client_def init_connection_def ws_client_init_def
        ws_notify_def gw_status_cb_def redial_install_def redial_ok_def Let_def)
  with assms(4) have "session_dead g'" by (induction rule: rtranclp_induct) (auto intro: session_dead_step)
  then show ?thesis using gw_submit_result(6) [of ge r g'] by (cases "gw_submit ge r g'") (auto simp: session_dead_def)
qed

section \<open>A concrete gateway\<close>

text \<open>An environment for the witnesses: no network, credentials and an endpoint, a socket that works.\<close>

definition demo_json :: "string json_api" where
  "demo_json = \<lparr>js_parse = (\<lambda>t. None), js_at = (\<lambda>k j. None), js_index = (\<lambda>i j. None), js_items = (\<lambda>j. []),
     js_str = (\<lambda>j. None), js_long = (\<lambda>j. None), js_value_str = (\<lambda>k d j. None)\<rparr>"

definition demo_rest :: "string rest_env" where
  "demo_rest = \<lparr>re_curl_init = True, re_transfer = (\<lambda>i rq. CurlFailed ''no network''), re_clk_ms = (\<lambda>i. 1700000000000),
     re_domain = ''https://fapi'', re_keys = Some (''KEY'', ''SECRET''), re_hmac = (\<lambda>k m. ''d''), re_json = demo_json\<rparr>"

definition demo_gw_env :: "string gw_env" where
  "demo_gw_env = \<lparr>ge_rest = demo_rest, ge_ws_api_domain = ''wss://ws-fapi/ws'',
     ge_write_json = (\<lambda>r. Some (wr_id r)), ge_classify = (\<lambda>t. Some (t, 200)),
     ge_read_success = (\<lambda>t. Some (42, 1)), ge_read_error = (\<lambda>t. None),
     ge_send_throws = (\<lambda>n. False), ge_dial_throws = (\<lambda>n. False)\<rparr>"

definition demo_start :: ws_gateway where
  "demo_start = create_client demo_gw_env
     \<lparr>wg_filters = [], wg_connected = False, wg_running = True, wg_redial = redial_init,
      wg_reset_posts = 0, wg_net = snd (load_filters demo_rest [] \<lparr>net_requests = [], net_clock_reads = 0\<rparr>),
      wg_sends = 0, wg_dials = 0, wg_sink = False, wg_wire = [], wg_delivered = []\<rparr>"

definition demo_gateway :: ws_gateway where
  "demo_gateway = gw_socket_event WsOpened (snd (new_ws_client False)) (set_response_sink demo_start)"

lemma demo_made: "make_gateway demo_gw_env = Inr demo_start"
  by (simp add: make_gateway_def demo_start_def demo_gw_env_def demo_rest_def load_filters_def rest_get_def
      perform_def failed_response_def response_ok_def Let_def)

lemma demo_client: "rd_client (wg_redial (create_client demo_gw_env g)) = Some (snd (new_ws_client False))"
  by (simp add: create_client_def demo_gw_env_def Let_def split: prod.splits)

lemma demo_reach: "gw_reach demo_gw_env demo_gateway"
proof -
  have "ws_enabled WsOpened (snd (new_ws_client False))"
    by (simp add: new_ws_client_def init_connection_def Let_def)
  then show ?thesis
    unfolding gw_reach_def demo_gateway_def demo_made
    using demo_client
    by (auto intro!: r_into_rtranclp gw_step.socket simp: set_response_sink_def demo_start_def)
qed

lemma demo_running: "wg_running demo_gateway"
  by (simp add: demo_gateway_def demo_start_def create_client_def gw_socket_event_def new_ws_client_def init_connection_def
      ws_client_init_def ws_ops gw_status_cb_def demo_gw_env_def set_response_sink_def Let_def)

section \<open>Properties\<close>

lemma run_signed:
  assumes "run_requests (gw_submit ge) rs g = (oks, g')"
  shows "\<exists>ws. wg_wire g' = wg_wire g @ ws \<and> list_all (signed_ok ge) ws \<and> (ws \<noteq> [] \<longrightarrow> wg_connected g)"
  using assms
proof (induction rs arbitrary: g oks)
  case Nil
  then show ?case by simp
next
  case (Cons r rs)
  obtain ok g1 where r: "gw_submit ge r g = (ok, g1)" by (cases "gw_submit ge r g")
  obtain oks' where rest: "run_requests (gw_submit ge) rs g1 = (oks', g')"
    using Cons.prems r by (auto split: prod.splits)
  obtain ws where ws: "wg_wire g' = wg_wire g1 @ ws" "list_all (signed_ok ge) ws" "ws \<noteq> [] \<longrightarrow> wg_connected g1"
    using Cons.IH [OF rest] by blast
  note res = gw_submit_result [OF r]
  show ?case
  proof (cases ok)
    case True
    with res(6) obtain w where "wg_wire g1 = wg_wire g @ [w]" "signed_ok ge w" "wg_connected g" by auto
    with ws show ?thesis by (intro exI [of _ "w # ws"]) simp
  next
    case False
    with res(3,6) ws show ?thesis by (intro exI [of _ ws]) simp
  qed
qed

text \<open>
  C5. The gateway accounts for every request the trader makes: each of them either is on the wire,
  with the request's client id, in the order of the requests and signed over all its parameters,
  which happens only while the session is open, or is answered at once by one failed response with
  that client id.
\<close>

theorem gateway_accounts_for_requests:
  assumes "gw_reach ge g" "run_requests (gw_submit ge) rs g = (oks, g')"
  shows "length oks = length rs \<and> (\<exists>ws ds. wg_wire g' = wg_wire g @ ws \<and> wg_delivered g' = wg_delivered g @ ds
    \<and> map wr_id ws = map (\<lambda>r. to_string (gw_cid r)) (accepted (zip rs oks)) \<and> list_all (signed_ok ge) ws
    \<and> map or_cid ds = map gw_cid (refused (zip rs oks)) \<and> list_all plain_failure ds
    \<and> (ws = [] \<or> (\<exists>c. rd_client (wg_redial g) = Some c \<and> wc_opened c)))"
proof -
  have "length oks = length rs" using binance.run_accounted [OF gw_reach_sink [OF assms(1)] assms(2)] by blast
  moreover obtain ws ds where 1: "wg_wire g' = wg_wire g @ ws" "wg_delivered g' = wg_delivered g @ ds"
    "map wr_id ws = map (\<lambda>r. to_string (gw_cid r)) (accepted (zip rs oks))"
    "map or_cid ds = map gw_cid (refused (zip rs oks))" "\<forall>d \<in> set ds. plain_failure d"
    using binance.run_accounted [OF gw_reach_sink [OF assms(1)] assms(2)] by blast
  moreover have "list_all (signed_ok ge) ws" "ws \<noteq> [] \<longrightarrow> wg_connected g"
    using run_signed [OF assms(2)] 1(1) by auto
  moreover have "wg_connected g \<Longrightarrow> \<exists>c. rd_client (wg_redial g) = Some c \<and> wc_opened c"
    using gw_reach_inv [OF assms(1)] by (simp add: gw_inv_def split: option.splits)
  ultimately show ?thesis by (intro conjI exI [of _ ws] exI [of _ ds]) (auto simp: list_all_iff)
qed

definition demo_orders :: "gateway_order list" where
  "demo_orders = [GwCancel \<lparr>oc_order_no = ''42'', oc_cancel_all = True, oc_is_limit = True, oc_qty = Fin 1,
     oc_product = ''BTCUSDT'', oc_cid = 7\<rparr>]"

theorem gateway_accounts_for_requests_witness:
  "gw_reach demo_gw_env demo_gateway
    \<and> length (fst (run_requests (gw_submit demo_gw_env) demo_orders demo_gateway)) = 1
    \<and> (\<exists>ws. wg_wire (snd (run_requests (gw_submit demo_gw_env) demo_orders demo_gateway)) = wg_wire demo_gateway @ ws
        \<and> list_all (signed_ok demo_gw_env) ws)"
  using gateway_accounts_for_requests [OF demo_reach, of demo_orders
      "fst (run_requests (gw_submit demo_gw_env) demo_orders demo_gateway)"
      "snd (run_requests (gw_submit demo_gw_env) demo_orders demo_gateway)"] demo_reach
  by (auto simp: demo_orders_def)

text \<open>
  C38. A reply finds its order: a reply that carries the id of a request delivers exactly one
  response, with the client id of that request, successful exactly when the status is 200, and
  saying that the order is gone exactly on the two codes by which the venue does.
\<close>

theorem reply_finds_its_order:
  assumes "gw_reach ge g" "0 \<le> gw_cid r" "gw_cid r < 2 ^ 64"
    "ge_classify ge payload = Some (to_string (gw_cid r), status)"
  shows "\<exists>d. on_message ge payload g = g\<lparr>wg_delivered := wg_delivered g @ [d]\<rparr> \<and> or_cid d = gw_cid r
    \<and> or_success d = (status = 200)
    \<and> or_order_gone d = (status \<noteq> 200 \<and> (\<exists>code msg. ge_read_error ge payload = Some (code, msg) \<and> (code = - 2011 \<or> code = - 2013)))"
  using assms(4) gw_reach_sink [OF assms(1)] stoull_to_string [OF assms(2,3)]
  by (auto simp: on_message_def deliver_def success_response_def error_response_def order_response_init_def
      split: option.splits prod.splits)

theorem reply_finds_its_order_witness:
  "\<exists>d. on_message demo_gw_env ''7'' demo_gateway = demo_gateway\<lparr>wg_delivered := wg_delivered demo_gateway @ [d]\<rparr>
    \<and> or_cid d = 7 \<and> or_success d"
proof -
  have "to_string 7 = ''7''" by code_simp
  then have "ge_classify demo_gw_env ''7'' = Some (to_string (gw_cid (hd demo_orders)), 200)"
    by (simp add: demo_gw_env_def demo_orders_def)
  from reply_finds_its_order [OF demo_reach _ _ this] show ?thesis by (auto simp: demo_orders_def)
qed

text \<open>
  C19. The order session comes back by itself: as long as the gateway runs and dialling does not
  throw, its socket is being dialled or open, or exactly one redial is under way, posted or on a
  timer of 1 to 30 seconds; from every such state some continuation has a working socket; and the
  gateway believes itself connected exactly when the socket is open.
\<close>

theorem session_comes_back:
  assumes "gw_reach ge g" "wg_running g" "\<forall>n. \<not> ge_dial_throws ge n"
  shows "(session_working g \<or> rd_pending (wg_redial g))
    \<and> (rd_posted (wg_redial g) + (if rd_timer (wg_redial g) = None then 0 else 1) = (if rd_pending (wg_redial g) then 1 else 0))
    \<and> (rd_timer (wg_redial g) = None \<or> (1 \<le> the (rd_timer (wg_redial g)) \<and> the (rd_timer (wg_redial g)) \<le> 30))
    \<and> (\<exists>g'. (gw_step ge)\<^sup>*\<^sup>* g g' \<and> session_working g')
    \<and> wg_connected g = (\<exists>c. rd_client (wg_redial g) = Some c \<and> wc_opened c)"
proof -
  have inv: "gw_inv g" by (rule gw_reach_inv [OF assms(1)])
  have work: "session_working g \<or> rd_pending (wg_redial g)"
    using inv assms(2) gw_reach_thread [OF assms(1,3)] by (auto simp: gw_inv_def working_iff)
  then have "\<exists>g'. (gw_step ge)\<^sup>*\<^sup>* g g' \<and> session_working g'"
    using pending_restores [OF inv assms(2) _ assms(3)] by blast
  with work inv show ?thesis
    by (auto simp: gw_inv_def redial_ok_def split: if_splits option.splits)
qed

theorem session_comes_back_witness:
  "gw_reach demo_gw_env demo_gateway \<and> wg_running demo_gateway
    \<and> (session_working demo_gateway \<or> rd_pending (wg_redial demo_gateway))"
  using session_comes_back [OF demo_reach demo_running] demo_reach demo_running by (simp add: demo_gw_env_def)

end
