(* ===== verification/Kis_Gateway.thy ===== *)
theory Kis_Gateway
  imports Binance_Rest Order_Gateway "HOL-Library.Multiset" "HOL-Library.Sublist"
begin

text \<open>
  The KIS order gateway (\<open>trader/order_gateway/kis/\<close>) and the serial task runner it queues its
  blocking requests on (\<open>utils/task_runner.cpp\<close>).  A request is built on the trader's thread,
  posted to the runner unless its backlog is full, and performed later by the one worker, which
  delivers the parsed reply.  The curl transfer, the JSON writer and reader, the account and the
  session token are parameters (\<open>kis_env\<close>); the model assumes that a task does not throw.
\<close>

section \<open>State\<close>

record order_place_params =
  pp_CANO :: string
  pp_ACNT_PRDT_CD :: string
  pp_PDNO :: string
  pp_ORD_DVSN :: string
  pp_ORD_QTY :: string
  pp_ORD_UNPR :: string

text \<open>\<open>OrderAmendParams\<close> and \<open>OrderCancelParams\<close> have the same fields.\<close>

record order_change_params =
  cp_CANO :: string
  cp_ACNT_PRDT_CD :: string
  cp_KRX_FWDG_ORD_ORGNO :: string
  cp_ORGN_ODNO :: string
  cp_ORD_DVSN :: string
  cp_RVSE_CNCL_DVSN_CD :: string
  cp_ORD_QTY :: string
  cp_ORD_UNPR :: string
  cp_QTY_ALL_ORD_YN :: string

record balance_params =
  ba_CANO :: string
  ba_ACNT_PRDT_CD :: string
  ba_AFHR_FLPR_YN :: string
  ba_OFL_YN :: string
  ba_INQR_DVSN :: string
  ba_UNPR_DVSN :: string
  ba_FUND_STTL_ICLD_YN :: string
  ba_FNCG_AMT_AUTO_RDPT_YN :: string
  ba_PRCS_DVSN :: string
  ba_CTX_AREA_FK100 :: string
  ba_CTX_AREA_NK100 :: string

record order_response_body =
  rb_rt_cd :: string
  rb_msg_cd :: string
  rb_msg1 :: string
  rb_output :: "string list"

text \<open>The JSON writers give the buffer they leave behind; the balance writer may fail.\<close>

record 'j kis_env =
  ke_rest :: "'j rest_env"
  ke_http_domain :: string
  ke_account_front :: string
  ke_account_rear :: string
  ke_rest_token :: "string option"
  ke_write_place :: "order_place_params \<Rightarrow> string"
  ke_write_change :: "order_change_params \<Rightarrow> string"
  ke_write_balance :: "balance_params \<Rightarrow> string option"
  ke_read_response :: "string \<Rightarrow> order_response_body option"

record kis_task =
  kt_url :: string
  kt_params :: string
  kt_headers :: "(string, string) omap"
  kt_cid :: cid

record kis_gateway =
  kg_queue :: "kis_task list"
  kg_current :: "kis_task option"
  kg_outstanding :: int
  kg_net :: net
  kg_sink :: bool
  kg_posted :: "kis_task list"
  kg_delivered :: "order_response list"

definition kis_gateway_init :: kis_gateway where
  "kis_gateway_init = \<lparr>kg_queue = [], kg_current = None, kg_outstanding = 0, kg_net = \<lparr>net_requests = [], net_clock_reads = 0\<rparr>,
     kg_sink = False, kg_posted = [], kg_delivered = []\<rparr>"

definition create_kis_order_gateway :: "string \<Rightarrow> kis_gateway option" where
  "create_kis_order_gateway market_type = (if market_type = ''stock'' then Some kis_gateway_init else None)"

definition kis_set_response_sink :: "kis_gateway \<Rightarrow> kis_gateway" where
  "kis_set_response_sink g = g\<lparr>kg_sink := True\<rparr>"

section \<open>The serial task runner\<close>

definition max_queued :: int where
  "max_queued = 64"

definition runner_post :: "kis_task \<Rightarrow> kis_gateway \<Rightarrow> bool \<times> kis_gateway" where
  "runner_post task g =
     (if max_queued \<le> kg_outstanding g then (False, g)
      else (True, g\<lparr>kg_outstanding := kg_outstanding g + 1, kg_queue := kg_queue g @ [task],
                    kg_posted := kg_posted g @ [task]\<rparr>))"

section \<open>URLs, headers and parameters\<close>

definition balance_url :: "'j kis_env \<Rightarrow> string" where
  "balance_url ke = ke_http_domain ke @ ''/uapi/domestic-stock/v1/trading/inquire-balance''"

definition order_place_url :: "'j kis_env \<Rightarrow> string" where
  "order_place_url ke = ke_http_domain ke @ ''/uapi/domestic-stock/v1/trading/order-cash''"

definition order_change_url :: "'j kis_env \<Rightarrow> string" where
  "order_change_url ke = ke_http_domain ke @ ''/uapi/domestic-stock/v1/trading/order-rvsecncl''"

definition common_rest_header :: "'j kis_env \<Rightarrow> (string, string) omap" where
  "common_rest_header ke =
     (case re_keys (ke_rest ke) of
        None \<Rightarrow> []
      | Some (key, secret) \<Rightarrow>
          (case ke_rest_token ke of
             None \<Rightarrow> []
           | Some token \<Rightarrow>
               om_put ''appsecret'' secret (om_put ''appkey'' key
                 (om_put ''authorization'' (''Bearer '' @ token) (om_put ''content-type'' ''application/json'' [])))))"

definition rest_header :: "'j kis_env \<Rightarrow> string \<Rightarrow> (string, string) omap" where
  "rest_header ke tr_id = om_put ''tr_id'' tr_id (common_rest_header ke)"

definition balance_header :: "'j kis_env \<Rightarrow> (string, string) omap" where
  "balance_header ke = rest_header ke ''TTTS3012R''"

text \<open>\<open>write_order_place_header\<close> ignores the side and fills both headers.\<close>

definition bid_order_place_header :: "'j kis_env \<Rightarrow> (string, string) omap" where
  "bid_order_place_header ke = rest_header ke ''TTTC8434R''"

definition ask_order_place_header :: "'j kis_env \<Rightarrow> (string, string) omap" where
  "ask_order_place_header ke = rest_header ke ''TTTC8434R''"

definition order_change_header :: "'j kis_env \<Rightarrow> (string, string) omap" where
  "order_change_header ke = rest_header ke ''TTTC0803U''"

text \<open>
  \<open>double_to_string\<close>: fifteen decimals without their trailing zeros; the decimal point goes with
  the last of them.
\<close>

definition strip_zeros :: "string \<Rightarrow> string" where
  "strip_zeros s =
     (case dropWhile (\<lambda>c. c = CHR ''0'') (rev s) of
        [] \<Rightarrow> s
      | c # r \<Rightarrow> if c = CHR ''.'' then rev r else rev (c # r))"

definition double_to_string :: "dbl \<Rightarrow> string" where
  "double_to_string v = (if isfinite v then strip_zeros (format_fixed 15 v) else format_fixed 6 v)"

definition convert_product_for_order :: "product \<Rightarrow> string" where
  "convert_product_for_order product = product"

definition order_division :: "bool \<Rightarrow> string" where
  "order_division is_limit = (if is_limit then ''00'' else ''01'')"

definition write_order_place_params :: "'j kis_env \<Rightarrow> order_place_info \<Rightarrow> string" where
  "write_order_place_params ke info = ke_write_place ke
     \<lparr>pp_CANO = ke_account_front ke, pp_ACNT_PRDT_CD = ke_account_rear ke,
      pp_PDNO = convert_product_for_order (op_product info), pp_ORD_DVSN = order_division (op_is_limit info),
      pp_ORD_QTY = double_to_string (op_qty info), pp_ORD_UNPR = double_to_string (op_price info)\<rparr>"

definition write_order_amend_params :: "'j kis_env \<Rightarrow> order_amend_info \<Rightarrow> string" where
  "write_order_amend_params ke info = ke_write_change ke
     \<lparr>cp_CANO = ke_account_front ke, cp_ACNT_PRDT_CD = ke_account_rear ke, cp_KRX_FWDG_ORD_ORGNO = [],
      cp_ORGN_ODNO = oa_order_no info, cp_ORD_DVSN = order_division (oa_is_limit info), cp_RVSE_CNCL_DVSN_CD = ''01'',
      cp_ORD_QTY = double_to_string (oa_qty info), cp_ORD_UNPR = double_to_string (oa_price info),
      cp_QTY_ALL_ORD_YN = (if oa_amend_all info then ''Y'' else ''N'')\<rparr>"

definition write_order_cancel_params :: "'j kis_env \<Rightarrow> order_cancel_info \<Rightarrow> string" where
  "write_order_cancel_params ke info = ke_write_change ke
     \<lparr>cp_CANO = ke_account_front ke, cp_ACNT_PRDT_CD = ke_account_rear ke, cp_KRX_FWDG_ORD_ORGNO = [],
      cp_ORGN_ODNO = oc_order_no info, cp_ORD_DVSN = order_division (oc_is_limit info), cp_RVSE_CNCL_DVSN_CD = ''02'',
      cp_ORD_QTY = double_to_string (oc_qty info), cp_ORD_UNPR = ''0'',
      cp_QTY_ALL_ORD_YN = (if oc_cancel_all info then ''Y'' else ''N'')\<rparr>"

definition balance_params_list :: "'j kis_env \<Rightarrow> string list" where
  "balance_params_list ke =
     (case ke_write_balance ke
        \<lparr>ba_CANO = ke_account_front ke, ba_ACNT_PRDT_CD = ke_account_rear ke, ba_AFHR_FLPR_YN = ''N'', ba_OFL_YN = [],
         ba_INQR_DVSN = ''02'', ba_UNPR_DVSN = ''01'', ba_FUND_STTL_ICLD_YN = ''N'', ba_FNCG_AMT_AUTO_RDPT_YN = ''N'',
         ba_PRCS_DVSN = ''00'', ba_CTX_AREA_FK100 = [], ba_CTX_AREA_NK100 = []\<rparr> of
        None \<Rightarrow> [] | Some json \<Rightarrow> [json])"

fun get_balances :: "'j kis_env \<Rightarrow> string list \<Rightarrow> net \<Rightarrow> string list \<times> net" where
  "get_balances ke [] n = ([], n)"
| "get_balances ke (params # rest) n =
     (case rest_post (ke_rest ke) default_timeout_sec (balance_url ke) params (balance_header ke) n of (response, n1) \<Rightarrow>
        (case get_balances ke rest n1 of (bodies, n2) \<Rightarrow>
           ((if response_ok response then rr_body response else []) # bodies, n2)))"

section \<open>Requests\<close>

definition kis_deliver :: "order_response \<Rightarrow> kis_gateway \<Rightarrow> kis_gateway" where
  "kis_deliver r g = (if kg_sink g then g\<lparr>kg_delivered := kg_delivered g @ [r]\<rparr> else g)"

definition deliver_dispatch_failure :: "cid \<Rightarrow> kis_gateway \<Rightarrow> kis_gateway" where
  "deliver_dispatch_failure cid g =
     kis_deliver (order_response_init\<lparr>or_cid := cid, or_success := False, or_msg := ''KIS REST order could not be queued''\<rparr>) g"

definition send_order_request ::
  "string \<Rightarrow> string \<Rightarrow> (string, string) omap \<Rightarrow> cid \<Rightarrow> kis_gateway \<Rightarrow> bool \<times> kis_gateway" where
  "send_order_request url params headers cid g =
     (case runner_post \<lparr>kt_url = url, kt_params = params, kt_headers = headers, kt_cid = cid\<rparr> g of (queued, g1) \<Rightarrow>
        if \<not> queued then (False, deliver_dispatch_failure cid g1) else (True, g1))"

definition kis_place_order :: "'j kis_env \<Rightarrow> order_place_info \<Rightarrow> kis_gateway \<Rightarrow> bool \<times> kis_gateway" where
  "kis_place_order ke info g =
     send_order_request (order_place_url ke) (write_order_place_params ke info)
       (if op_is_bid info then bid_order_place_header ke else ask_order_place_header ke) (op_cid info) g"

definition kis_amend_order :: "'j kis_env \<Rightarrow> order_amend_info \<Rightarrow> kis_gateway \<Rightarrow> bool \<times> kis_gateway" where
  "kis_amend_order ke info g =
     send_order_request (order_change_url ke) (write_order_amend_params ke info) (order_change_header ke) (oa_cid info) g"

definition kis_cancel_order :: "'j kis_env \<Rightarrow> order_cancel_info \<Rightarrow> kis_gateway \<Rightarrow> bool \<times> kis_gateway" where
  "kis_cancel_order ke info g =
     send_order_request (order_change_url ke) (write_order_cancel_params ke info) (order_change_header ke) (oc_cid info) g"

definition parse_order_response :: "'j kis_env \<Rightarrow> string \<Rightarrow> order_response \<Rightarrow> order_response" where
  "parse_order_response ke text r =
     (case ke_read_response ke text of
        None \<Rightarrow> r
      | Some body \<Rightarrow>
          r\<lparr>or_success := (rb_rt_cd body = ''0''), or_code := rb_msg_cd body, or_msg := rb_msg1 body,
            or_order_no := (case rb_output body of [] \<Rightarrow> or_order_no r | odno # _ \<Rightarrow> odno)\<rparr>)"

definition order_rest_timeout_sec :: int where
  "order_rest_timeout_sec = 5"

text \<open>The posted closure: one blocking POST, its reply parsed and delivered.\<close>

definition perform_task :: "'j kis_env \<Rightarrow> kis_task \<Rightarrow> kis_gateway \<Rightarrow> kis_gateway" where
  "perform_task ke t g =
     (case rest_post (ke_rest ke) (set_timeout_sec order_rest_timeout_sec) (kt_url t) (kt_params t) (kt_headers t) (kg_net g)
      of (response, n) \<Rightarrow>
        let r0 = order_response_init\<lparr>or_cid := kt_cid t\<rparr>;
            r = (if response_ok response then parse_order_response ke (rr_body response) r0
                 else r0\<lparr>or_msg := rr_body response\<rparr>)
        in kis_deliver r (g\<lparr>kg_net := n\<rparr>))"

text \<open>
  The worker: it takes the next task, runs it to its end and only then lowers the counter, so
  a request posted meanwhile still counts the running one.
\<close>

definition runner_take :: "kis_gateway \<Rightarrow> kis_gateway" where
  "runner_take g =
     (case kg_queue g of
        [] \<Rightarrow> g
      | t # rest \<Rightarrow> g\<lparr>kg_queue := rest, kg_current := Some t\<rparr>)"

definition runner_loop :: "'j kis_env \<Rightarrow> kis_gateway \<Rightarrow> kis_gateway" where
  "runner_loop ke g =
     (case kg_current g of
        None \<Rightarrow> runner_take g
      | Some t \<Rightarrow>
          let g1 = perform_task ke t g
          in g1\<lparr>kg_current := None, kg_outstanding := kg_outstanding g1 - 1\<rparr>)"

text \<open>\<open>drain\<close> waits until the counter is zero while the worker goes on.\<close>

partial_function (option) drain :: "'j kis_env \<Rightarrow> kis_gateway \<Rightarrow> kis_gateway option" where
  "drain ke g = (if 0 < kg_outstanding g then drain ke (runner_loop ke g) else Some g)"

lemma kis_deliver_queue [simp]:
  "kg_queue (kis_deliver r g) = kg_queue g" "kg_outstanding (kis_deliver r g) = kg_outstanding g"
  "kg_current (kis_deliver r g) = kg_current g"
  "kg_net (kis_deliver r g) = kg_net g" "kg_posted (kis_deliver r g) = kg_posted g" "kg_sink (kis_deliver r g) = kg_sink g"
  by (simp_all add: kis_deliver_def)

lemma perform_task_queue [simp]:
  "kg_queue (perform_task ke t g) = kg_queue g" "kg_outstanding (perform_task ke t g) = kg_outstanding g"
  "kg_current (perform_task ke t g) = kg_current g"
  "kg_posted (perform_task ke t g) = kg_posted g" "kg_sink (perform_task ke t g) = kg_sink g"
  by (simp_all add: perform_task_def Let_def split: prod.splits)

section \<open>The contract\<close>

fun kis_submit :: "'j kis_env \<Rightarrow> gateway_order \<Rightarrow> kis_gateway \<Rightarrow> bool \<times> kis_gateway" where
  "kis_submit ke (GwPlace i) g = kis_place_order ke i g"
| "kis_submit ke (GwAmend i) g = kis_amend_order ke i g"
| "kis_submit ke (GwCancel i) g = kis_cancel_order ke i g"

text \<open>The task an order is posted as.\<close>

fun order_task :: "'j kis_env \<Rightarrow> gateway_order \<Rightarrow> kis_task" where
  "order_task ke (GwPlace i) = \<lparr>kt_url = order_place_url ke, kt_params = write_order_place_params ke i,
     kt_headers = (if op_is_bid i then bid_order_place_header ke else ask_order_place_header ke), kt_cid = op_cid i\<rparr>"
| "order_task ke (GwAmend i) = \<lparr>kt_url = order_change_url ke, kt_params = write_order_amend_params ke i,
     kt_headers = order_change_header ke, kt_cid = oa_cid i\<rparr>"
| "order_task ke (GwCancel i) = \<lparr>kt_url = order_change_url ke, kt_params = write_order_cancel_params ke i,
     kt_headers = order_change_header ke, kt_cid = oc_cid i\<rparr>"

lemma order_task_cid [simp]: "kt_cid (order_task ke r) = gw_cid r"
  by (cases r) simp_all

lemma kis_submit_eq: "kis_submit ke r g =
  (let t = order_task ke r in send_order_request (kt_url t) (kt_params t) (kt_headers t) (kt_cid t) g)"
  by (cases r) (simp_all add: kis_place_order_def kis_amend_order_def kis_cancel_order_def)

lemma kis_submit_result:
  assumes "kis_submit ke r g = (ok, g')"
  shows "kg_sink g' = kg_sink g" "kg_net g' = kg_net g" "kg_current g' = kg_current g"
    "if ok then kg_queue g' = kg_queue g @ [order_task ke r] \<and> kg_posted g' = kg_posted g @ [order_task ke r]
        \<and> kg_outstanding g' = kg_outstanding g + 1 \<and> kg_outstanding g < max_queued \<and> kg_delivered g' = kg_delivered g
     else kg_queue g' = kg_queue g \<and> kg_posted g' = kg_posted g \<and> kg_outstanding g' = kg_outstanding g
       \<and> max_queued \<le> kg_outstanding g
       \<and> (kg_sink g \<longrightarrow> (\<exists>d. kg_delivered g' = kg_delivered g @ [d] \<and> or_cid d = gw_cid r \<and> plain_failure d))"
  using assms
  by (auto simp: kis_submit_eq send_order_request_def runner_post_def deliver_dispatch_failure_def kis_deliver_def
      plain_failure_def order_response_init_def Let_def split: if_splits)

interpretation kis: order_gateway "kis_submit ke" gw_cid kg_posted "\<lambda>t. to_string (kt_cid t)" kg_delivered kg_sink
  for ke :: "'j kis_env"
proof (unfold_locales, goal_cases)
  case (1 r s s')
  then show ?case using kis_submit_result(4) [OF 1] by auto
next
  case (2 s r s')
  then show ?case using kis_submit_result(4) [OF 2(2)] by simp
next
  case (3 s r b s')
  then show ?case using kis_submit_result(1) [OF 3(2)] by simp
qed

section \<open>Every request is answered\<close>

datatype kis_step = KisSubmit gateway_order | KisWorker

fun kis_run :: "'j kis_env \<Rightarrow> kis_step list \<Rightarrow> kis_gateway \<Rightarrow> kis_gateway" where
  "kis_run ke [] g = g"
| "kis_run ke (KisSubmit r # steps) g = kis_run ke steps (snd (kis_submit ke r g))"
| "kis_run ke (KisWorker # steps) g = kis_run ke steps (runner_loop ke g)"

definition submitted :: "kis_step list \<Rightarrow> gateway_order list" where
  "submitted steps = concat (map (\<lambda>st. case st of KisSubmit r \<Rightarrow> [r] | KisWorker \<Rightarrow> []) steps)"

definition task_request :: "kis_task \<Rightarrow> http_request" where
  "task_request t = \<lparr>hq_method = ''POST'', hq_url = kt_url t, hq_body = Some (kt_params t),
     hq_headers = map (\<lambda>(k, v). k @ '': '' @ v) (if om_has (kt_headers t) ''content-type'' then kt_headers t
        else om_put ''content-type'' ''application/json'' (kt_headers t)), hq_timeout = 5\<rparr>"

text \<open>The tasks that were posted and have not ended.\<close>

definition unfinished :: "kis_gateway \<Rightarrow> kis_task list" where
  "unfinished g = (case kg_current g of None \<Rightarrow> [] | Some t \<Rightarrow> [t]) @ kg_queue g"

text \<open>
  What a run keeps, for the orders submitted so far: the requests made are those of the posted
  tasks that ended, in order; the counter is the number of the unfinished ones and within its cap;
  the answers and the unfinished requests together are the submitted orders, by client id.
\<close>

definition kis_inv :: "gateway_order list \<Rightarrow> kis_gateway \<Rightarrow> bool" where
  "kis_inv rs g \<longleftrightarrow> kg_sink g \<and> kg_outstanding g = int (length (unfinished g)) \<and> kg_outstanding g \<le> max_queued
     \<and> (\<exists>ran. kg_posted g = ran @ unfinished g \<and> net_requests (kg_net g) = map task_request ran)
     \<and> mset (map or_cid (kg_delivered g)) + mset (map kt_cid (unfinished g)) = mset (map gw_cid rs)"

lemma parse_order_response_cid [simp]: "or_cid (parse_order_response ke t r) = or_cid r"
  by (simp add: parse_order_response_def split: option.splits)

lemma perform_task_result:
  assumes "re_curl_init (ke_rest ke)" "kg_sink g"
  shows "net_requests (kg_net (perform_task ke t g)) = net_requests (kg_net g) @ [task_request t]"
    "\<exists>d. kg_delivered (perform_task ke t g) = kg_delivered g @ [d] \<and> or_cid d = kt_cid t"
  using assms
  by (simp_all add: perform_task_def rest_post_def perform_def task_request_def set_timeout_sec_def order_rest_timeout_sec_def
      kis_deliver_def Let_def split: curl_result.splits)

lemma unfinished_take: "kg_current g = None \<Longrightarrow> unfinished (runner_take g) = unfinished g"
  by (simp add: unfinished_def runner_take_def split: list.splits)

lemma runner_take_same [simp]:
  "kg_sink (runner_take g) = kg_sink g" "kg_outstanding (runner_take g) = kg_outstanding g"
  "kg_net (runner_take g) = kg_net g" "kg_posted (runner_take g) = kg_posted g"
  "kg_delivered (runner_take g) = kg_delivered g"
  by (simp_all add: runner_take_def split: list.splits)

lemma runner_loop_inv:
  assumes "re_curl_init (ke_rest ke)" "kis_inv rs g"
  shows "kis_inv rs (runner_loop ke g)"
proof (cases "kg_current g")
  case None
  with assms(2) show ?thesis by (simp add: runner_loop_def kis_inv_def unfinished_take)
next
  case (Some t)
  let ?g' = "runner_loop ke g"
  obtain ran where d: "kg_posted g = ran @ unfinished g" "net_requests (kg_net g) = map task_request ran"
    using assms(2) by (auto simp: kis_inv_def)
  have sink: "kg_sink g" using assms(2) by (simp add: kis_inv_def)
  obtain r where r: "kg_delivered (perform_task ke t g) = kg_delivered g @ [r]" "or_cid r = kt_cid t"
    using perform_task_result(2) [OF assms(1) sink] by blast
  have un: "unfinished g = t # kg_queue g" "unfinished ?g' = kg_queue g"
    using Some by (simp_all add: unfinished_def runner_loop_def Let_def)
  have "net_requests (kg_net ?g') = map task_request (ran @ [t])"
    using perform_task_result(1) [OF assms(1) sink] d(2) Some by (simp add: runner_loop_def Let_def)
  moreover have "kg_posted ?g' = (ran @ [t]) @ unfinished ?g'" using d(1) un Some by (simp add: runner_loop_def Let_def)
  moreover have "kg_delivered ?g' = kg_delivered g @ [r]" "kg_outstanding ?g' = kg_outstanding g - 1" "kg_sink ?g'"
    using r(1) Some sink by (simp_all add: runner_loop_def Let_def)
  ultimately show ?thesis using assms(2) un r(2) by (auto simp: kis_inv_def)
qed

lemma kis_submit_inv:
  assumes "kis_inv rs g" "kis_submit ke r g = (ok, g')"
  shows "kis_inv (rs @ [r]) g'"
proof -
  note res = kis_submit_result [OF assms(2)]
  obtain ran where d: "kg_posted g = ran @ unfinished g" "net_requests (kg_net g) = map task_request ran"
    using assms(1) by (auto simp: kis_inv_def)
  show ?thesis
  proof (cases ok)
    case True
    have "unfinished g' = unfinished g @ [order_task ke r]" using True res(3,4) by (simp add: unfinished_def)
    with True assms(1) d res show ?thesis by (auto simp: kis_inv_def)
  next
    case False
    with res(4) assms(1) obtain dl where "kg_delivered g' = kg_delivered g @ [dl]" "or_cid dl = gw_cid r"
      "kg_queue g' = kg_queue g" "kg_posted g' = kg_posted g" "kg_outstanding g' = kg_outstanding g"
      by (auto simp: kis_inv_def)
    moreover from this res(3) have "unfinished g' = unfinished g" by (simp add: unfinished_def)
    ultimately show ?thesis using assms(1) d res(1,2) by (auto simp: kis_inv_def)
  qed
qed

lemma submitted_simps [simp]:
  "submitted [] = []" "submitted (KisSubmit r # steps) = r # submitted steps" "submitted (KisWorker # steps) = submitted steps"
  by (simp_all add: submitted_def)

lemma kis_run_inv:
  assumes "re_curl_init (ke_rest ke)" "kis_inv rs g"
  shows "kis_inv (rs @ submitted steps) (kis_run ke steps g)"
  using assms
proof (induction ke steps g arbitrary: rs rule: kis_run.induct)
  case (1 ke g)
  then show ?case by simp
next
  case (2 ke r steps g)
  have "kis_inv (rs @ [r]) (snd (kis_submit ke r g))"
    using kis_submit_inv [OF 2(3), of ke r "fst (kis_submit ke r g)"] by simp
  from 2(1) [OF 2(2) this] show ?case by simp
next
  case (3 ke steps g)
  from 3(1) [OF 3(2) runner_loop_inv [OF 3(2,3)]] show ?case by simp
qed

text \<open>Each round of the worker takes a task or ends one, so that \<open>drain\<close> returns.\<close>

definition rounds_left :: "kis_gateway \<Rightarrow> nat" where
  "rounds_left g = 2 * length (kg_queue g) + (if kg_current g = None then 0 else 1)"

lemma rounds_left_less:
  "unfinished g \<noteq> [] \<Longrightarrow> rounds_left (runner_loop ke g) < rounds_left g"
  by (auto simp: rounds_left_def unfinished_def runner_loop_def runner_take_def Let_def split: option.splits list.splits)

lemma runner_loop_posted [simp]: "kg_posted (runner_loop ke g) = kg_posted g"
  by (simp add: runner_loop_def Let_def split: option.splits)

lemma drain_returns:
  assumes "re_curl_init (ke_rest ke)" "kis_inv rs g"
  shows "\<exists>g'. drain ke g = Some g' \<and> kis_inv rs g' \<and> unfinished g' = [] \<and> kg_posted g' = kg_posted g"
  using assms(2)
proof (induction "rounds_left g" arbitrary: g rule: less_induct)
  case less
  show ?case
  proof (cases "unfinished g = []")
    case True
    with less.prems have "kg_outstanding g = 0" by (simp add: kis_inv_def)
    with True less.prems show ?thesis by (subst drain.simps) simp
  next
    case False
    with less.prems have "0 < kg_outstanding g" by (simp add: kis_inv_def)
    then have "drain ke g = drain ke (runner_loop ke g)" by (subst drain.simps) simp
    with less.hyps [OF rounds_left_less [OF False] runner_loop_inv [OF assms(1) less.prems]] show ?thesis by simp
  qed
qed

lemma kis_init_inv: "kis_inv [] (kis_set_response_sink kis_gateway_init)"
  by (simp add: kis_inv_def unfinished_def kis_set_response_sink_def kis_gateway_init_def max_queued_def)

text \<open>The side of an order does not reach the wire: a buy and a sell give the same request.\<close>

lemma place_request_ignores_side:
  "kis_place_order ke (info\<lparr>op_is_bid := b\<rparr>) g = kis_place_order ke (info\<lparr>op_is_bid := b'\<rparr>) g"
  by (simp add: kis_place_order_def write_order_place_params_def bid_order_place_header_def ask_order_place_header_def)

text \<open>Which orders were posted: a subsequence of the submitted ones, and all while they fit.\<close>

definition posted_inv :: "'j kis_env \<Rightarrow> gateway_order list \<Rightarrow> kis_gateway \<Rightarrow> bool" where
  "posted_inv ke rs g \<longleftrightarrow>
     (\<exists>acc. subseq acc rs \<and> kg_posted g = map (order_task ke) acc \<and> (int (length rs) \<le> max_queued \<longrightarrow> acc = rs))"

lemma kis_inv_outstanding_posted: "kis_inv rs g \<Longrightarrow> kg_outstanding g \<le> int (length (kg_posted g))"
  by (auto simp: kis_inv_def)

lemma kis_submit_posted:
  assumes "kis_inv rs g" "posted_inv ke rs g"
  shows "posted_inv ke (rs @ [r]) (snd (kis_submit ke r g))"
proof -
  obtain ok g' where s: "kis_submit ke r g = (ok, g')" by fastforce
  note res = kis_submit_result(4) [OF s]
  obtain acc where acc: "subseq acc rs" "kg_posted g = map (order_task ke) acc" "int (length rs) \<le> max_queued \<longrightarrow> acc = rs"
    using assms(2) by (auto simp: posted_inv_def)
  show ?thesis
  proof (cases ok)
    case True
    have "subseq (acc @ [r]) (rs @ [r])" using acc(1) by simp
    with True res acc s show ?thesis unfolding posted_inv_def by (intro exI [of _ "acc @ [r]"]) auto
  next
    case False
    have "max_queued \<le> int (length acc)" using False res kis_inv_outstanding_posted [OF assms(1)] acc(2) by simp
    then have "\<not> int (length (rs @ [r])) \<le> max_queued"
      using list_emb_length [OF acc(1)] by simp
    with False res acc s show ?thesis
      unfolding posted_inv_def by (intro exI [of _ acc]) (auto intro: list_emb_append2)
  qed
qed

lemma kis_run_posted:
  assumes "re_curl_init (ke_rest ke)" "kis_inv rs g" "posted_inv ke rs g"
  shows "posted_inv ke (rs @ submitted steps) (kis_run ke steps g)"
  using assms
proof (induction ke steps g arbitrary: rs rule: kis_run.induct)
  case (1 ke g)
  then show ?case by simp
next
  case (2 ke r steps g)
  have "kis_inv (rs @ [r]) (snd (kis_submit ke r g))"
    using kis_submit_inv [OF 2(3), of ke r "fst (kis_submit ke r g)"] by simp
  from 2(1) [OF 2(2) this kis_submit_posted [OF 2(3,4)]] show ?case by simp
next
  case (3 ke steps g)
  have "posted_inv ke rs (runner_loop ke g)" using 3(4) by (simp add: posted_inv_def)
  from 3(1) [OF 3(2) runner_loop_inv [OF 3(2,3)] this] show ?case by simp
qed

text \<open>
  C28. However orders and the worker interleave, the gateway answers every order exactly once and
  POSTs every request it accepted exactly once, in the order of acceptance: after a run from a
  fresh gateway with a sink, at most 64 requests are pending and \<open>drain\<close> returns; the requests
  made are then those of a subsequence of the submitted orders, of all of them when no more than 64
  were submitted, and the answers are the submitted orders by client id.
\<close>

theorem kis_answers_every_order:
  assumes "re_curl_init (ke_rest ke)"
  shows "let g = kis_run ke steps (kis_set_response_sink kis_gateway_init); rs = submitted steps
    in kg_outstanding g \<le> 64
      \<and> (\<exists>g' acc. drain ke g = Some g' \<and> kg_outstanding g' = 0
          \<and> net_requests (kg_net g') = map (\<lambda>r. task_request (order_task ke r)) acc
          \<and> subseq acc rs \<and> (length rs \<le> 64 \<longrightarrow> acc = rs)
          \<and> mset (map or_cid (kg_delivered g')) = mset (map gw_cid rs))"
proof -
  let ?g = "kis_run ke steps (kis_set_response_sink kis_gateway_init)"
  have inv: "kis_inv (submitted steps) ?g" using kis_run_inv [OF assms kis_init_inv] by simp
  have "posted_inv ke [] (kis_set_response_sink kis_gateway_init)"
    by (simp add: posted_inv_def kis_set_response_sink_def kis_gateway_init_def)
  from kis_run_posted [OF assms kis_init_inv this, of steps] obtain acc where acc: "subseq acc (submitted steps)"
    "kg_posted ?g = map (order_task ke) acc" "length (submitted steps) \<le> 64 \<longrightarrow> acc = submitted steps"
    by (auto simp: posted_inv_def max_queued_def)
  from drain_returns [OF assms inv] obtain g' where g': "drain ke ?g = Some g'" "kis_inv (submitted steps) g'"
    "unfinished g' = []" "kg_posted g' = kg_posted ?g" by blast
  have "net_requests (kg_net g') = map (\<lambda>r. task_request (order_task ke r)) acc"
    using g' acc(2) by (auto simp: kis_inv_def)
  moreover have "kg_outstanding ?g \<le> 64" using inv by (simp add: kis_inv_def max_queued_def)
  ultimately show ?thesis using g' acc by (auto simp: Let_def kis_inv_def)
qed

definition demo_kis_env :: "string kis_env" where
  "demo_kis_env = \<lparr>ke_rest = \<lparr>re_curl_init = True, re_transfer = (\<lambda>i rq. CurlFailed ''no network''), re_clk_ms = (\<lambda>i. 0),
       re_domain = ''https://kis'', re_keys = Some (''KEY'', ''SECRET''), re_hmac = (\<lambda>k m. []),
       re_json = \<lparr>js_parse = (\<lambda>t. None), js_at = (\<lambda>k j. None), js_index = (\<lambda>i j. None), js_items = (\<lambda>j. []),
         js_str = (\<lambda>j. None), js_long = (\<lambda>j. None), js_value_str = (\<lambda>k d j. None)\<rparr>\<rparr>,
     ke_http_domain = ''https://kis'', ke_account_front = ''50'', ke_account_rear = ''01'', ke_rest_token = Some ''T'',
     ke_write_place = pp_PDNO, ke_write_change = cp_ORGN_ODNO, ke_write_balance = (\<lambda>b. None),
     ke_read_response = (\<lambda>t. None)\<rparr>"

definition demo_kis_steps :: "kis_step list" where
  "demo_kis_steps = [KisSubmit (GwCancel \<lparr>oc_order_no = ''42'', oc_cancel_all = True, oc_is_limit = True, oc_qty = Fin 1,
      oc_product = ''005930'', oc_cid = 7\<rparr>), KisWorker,
    KisSubmit (GwCancel \<lparr>oc_order_no = ''43'', oc_cancel_all = True, oc_is_limit = True, oc_qty = Fin 1,
      oc_product = ''005930'', oc_cid = 8\<rparr>)]"

theorem kis_answers_every_order_witness:
  "re_curl_init (ke_rest demo_kis_env) \<and> length (submitted demo_kis_steps) = 2
    \<and> (\<exists>g'. drain demo_kis_env (kis_run demo_kis_env demo_kis_steps (kis_set_response_sink kis_gateway_init)) = Some g'
        \<and> map hq_body (net_requests (kg_net g')) = [Some ''42'', Some ''43'']
        \<and> mset (map or_cid (kg_delivered g')) = {#7, 8#})"
  using kis_answers_every_order [of demo_kis_env demo_kis_steps]
  by (auto simp: demo_kis_env_def demo_kis_steps_def Let_def task_request_def write_order_cancel_params_def)

end
