(* ===== verification/Order_Book.thy ===== *)
theory Order_Book
  imports Msg_Types
begin

text \<open>
  The Binance listener's local order book
  (\<open>market_listener/exchange/binance/order_book.cpp\<close>): a REST snapshot patched by the diff-depth
  stream under the exchange's U/u/pu sequencing rules.  The two sides are \<open>std::map\<close>s, bids in
  descending key order.  The abstract book is a pair of finite functions from prices to
  quantities; the lemmas show that every accepted event is the last-writer-wins update of that
  function, that a gap freezes the book until the next snapshot, and that the published levels
  are the best ones in order.
\<close>

record order_book =
  synced :: bool
  last_update_id :: int
  bids :: "(dbl desc, dbl) omap"
  asks :: "(dbl, dbl) omap"

definition order_book_init :: order_book where
  "order_book_init = \<lparr>synced = False, last_update_id = 0, bids = [], asks = []\<rparr>"

record depth_diff =
  df_U :: int
  df_u :: int
  df_pu :: int
  df_bids :: "price_level list"
  df_asks :: "price_level list"

fun apply_side_bids :: "(dbl desc, dbl) omap \<Rightarrow> price_level list \<Rightarrow> (dbl desc, dbl) omap" where
  "apply_side_bids book [] = book"
| "apply_side_bids book ((price, qty) # levels) =
     apply_side_bids
       (if d_le qty (Fin 0) then om_erase (Desc price) book else om_put (Desc price) qty book)
       levels"

fun apply_side_asks :: "(dbl, dbl) omap \<Rightarrow> price_level list \<Rightarrow> (dbl, dbl) omap" where
  "apply_side_asks book [] = book"
| "apply_side_asks book ((price, qty) # levels) =
     apply_side_asks
       (if d_le qty (Fin 0) then om_erase price book else om_put price qty book)
       levels"

fun fill_bids :: "(dbl desc, dbl) omap \<Rightarrow> price_level list \<Rightarrow> (dbl desc, dbl) omap" where
  "fill_bids book [] = book"
| "fill_bids book ((price, qty) # levels) =
     fill_bids (if d_lt (Fin 0) qty then om_put (Desc price) qty book else book) levels"

fun fill_asks :: "(dbl, dbl) omap \<Rightarrow> price_level list \<Rightarrow> (dbl, dbl) omap" where
  "fill_asks book [] = book"
| "fill_asks book ((price, qty) # levels) =
     fill_asks (if d_lt (Fin 0) qty then om_put price qty book else book) levels"

definition apply_snapshot ::
  "int \<Rightarrow> price_level list \<Rightarrow> price_level list \<Rightarrow> order_book \<Rightarrow> order_book" where
  "apply_snapshot new_last_update_id bs as ob =
     ob\<lparr>bids := fill_bids [] bs, asks := fill_asks [] as,
        last_update_id := new_last_update_id, synced := True\<rparr>"

definition first_ok :: "order_book \<Rightarrow> depth_diff \<Rightarrow> bool" where
  "first_ok ob d \<longleftrightarrow> df_U d \<le> s64 (last_update_id ob + 1) \<and> s64 (last_update_id ob + 1) \<le> df_u d"

definition chain_ok :: "order_book \<Rightarrow> depth_diff \<Rightarrow> bool" where
  "chain_ok ob d \<longleftrightarrow> df_pu d = last_update_id ob"

definition apply_diff :: "depth_diff \<Rightarrow> order_book \<Rightarrow> bool \<times> order_book" where
  "apply_diff d ob =
     (if \<not> synced ob then (False, ob)
      else if df_u d < last_update_id ob then (True, ob)
      else if \<not> first_ok ob d \<and> \<not> chain_ok ob d then (False, ob\<lparr>synced := False\<rparr>)
      else (True, ob\<lparr>bids := apply_side_bids (bids ob) (df_bids d),
                     asks := apply_side_asks (asks ob) (df_asks d),
                     last_update_id := df_u d\<rparr>))"

definition mark_desynced :: "order_book \<Rightarrow> order_book" where
  "mark_desynced ob = ob\<lparr>synced := False\<rparr>"

text \<open>\<open>if (cnt++ >= levels) break;\<close> with a signed bound: a non-positive bound takes nothing.\<close>

definition to_data :: "int \<Rightarrow> order_book \<Rightarrow> orderbook_data" where
  "to_data levels ob =
     \<lparr>bid_book = map (\<lambda>(p, q). \<lparr>ol_price = Some (undesc p), ol_qty = Some q\<rparr>)
                   (take (nat levels) (bids ob)),
      ask_book = map (\<lambda>(p, q). \<lparr>ol_price = Some p, ol_qty = Some q\<rparr>)
                   (take (nat levels) (asks ob)),
      ob_server_tstamp_ms = None\<rparr>"

section \<open>The abstract book\<close>

type_synonym side_fun = "dbl \<rightharpoonup> dbl"

fun level_write :: "price_level \<Rightarrow> side_fun \<Rightarrow> side_fun" where
  "level_write (price, qty) f = f(price := (if d_le qty (Fin 0) then None else Some qty))"

definition bid_view :: "order_book \<Rightarrow> side_fun" where
  "bid_view ob = (\<lambda>p. map_of (bids ob) (Desc p))"

definition ask_view :: "order_book \<Rightarrow> side_fun" where
  "ask_view ob = map_of (asks ob)"

definition side_inv :: "('k::linorder, dbl) omap \<Rightarrow> bool" where
  "side_inv m \<longleftrightarrow> om_inv m \<and> (\<forall>q \<in> snd ` set m. \<not> d_le q (Fin 0))"

definition book_inv :: "order_book \<Rightarrow> bool" where
  "book_inv ob \<longleftrightarrow> side_inv (bids ob) \<and> side_inv (asks ob)"

lemma side_inv_Nil [simp]: "side_inv []"
  by (simp add: side_inv_def)

lemma snd_om_put: "snd ` set (om_put k v m) \<subseteq> insert v (snd ` set m)"
  by (induction k v m rule: om_put.induct) auto

lemma side_inv_put [om_inv_intros]: "side_inv m \<Longrightarrow> \<not> d_le q (Fin 0) \<Longrightarrow> side_inv (om_put k q m)"
  unfolding side_inv_def using snd_om_put [of k q m] om_inv_put [of m k q] by blast

lemma side_inv_erase [om_inv_intros]: "side_inv m \<Longrightarrow> side_inv (om_erase k m)"
  by (auto simp: side_inv_def om_inv_erase) (auto simp: om_erase_def)

lemma apply_side_bids_inv: "side_inv m \<Longrightarrow> side_inv (apply_side_bids m ls)"
  by (induction m ls rule: apply_side_bids.induct) (simp_all add: om_inv_intros)

lemma apply_side_asks_inv: "side_inv m \<Longrightarrow> side_inv (apply_side_asks m ls)"
  by (induction m ls rule: apply_side_asks.induct) (simp_all add: om_inv_intros)

lemma positive_qty: "d_lt (Fin 0) q \<Longrightarrow> \<not> d_le q (Fin 0)"
  using d_le_lt_antisym by blast

lemma fill_bids_inv: "side_inv m \<Longrightarrow> side_inv (fill_bids m ls)"
  by (induction m ls rule: fill_bids.induct) (simp_all add: om_inv_intros positive_qty)

lemma fill_asks_inv: "side_inv m \<Longrightarrow> side_inv (fill_asks m ls)"
  by (induction m ls rule: fill_asks.induct) (simp_all add: om_inv_intros positive_qty)

lemmas book_inv_intros = apply_side_bids_inv apply_side_asks_inv fill_bids_inv fill_asks_inv

lemma snapshot_inv: "book_inv (apply_snapshot i bs as ob)"
  by (simp add: book_inv_def apply_snapshot_def book_inv_intros)

lemma diff_inv: "book_inv ob \<Longrightarrow> book_inv (snd (apply_diff d ob))"
  by (simp add: book_inv_def apply_diff_def book_inv_intros)

text \<open>Each side operation is the left-to-right run of its level writes.\<close>

lemma bid_put: "(\<lambda>p. map_of (om_put (Desc k) q m) (Desc p)) = (\<lambda>p. map_of m (Desc p))(k \<mapsto> q)"
  by (auto simp: om_simps)

lemma bid_erase: "(\<lambda>p. map_of (om_erase (Desc k) m) (Desc p)) = (\<lambda>p. map_of m (Desc p))(k := None)"
  by (auto simp: om_simps)

lemma apply_side_bids_view:
  "(\<lambda>p. map_of (apply_side_bids m ls) (Desc p)) = fold level_write ls (\<lambda>p. map_of m (Desc p))"
  by (induction m ls rule: apply_side_bids.induct) (simp_all add: bid_put bid_erase)

lemma apply_side_asks_view:
  "map_of (apply_side_asks m ls) = fold level_write ls (map_of m)"
  by (induction m ls rule: apply_side_asks.induct) (simp_all add: om_simps fun_upd_def)

text \<open>A snapshot has no erasing levels: it is the run of its positive levels.\<close>

definition positive_levels :: "price_level list \<Rightarrow> price_level list" where
  "positive_levels ls = filter (\<lambda>l. d_lt (Fin 0) (snd l)) ls"

lemma fill_bids_apply: "fill_bids m ls = apply_side_bids m (positive_levels ls)"
  by (induction m ls rule: fill_bids.induct) (simp_all add: positive_levels_def positive_qty)

lemma fill_asks_apply: "fill_asks m ls = apply_side_asks m (positive_levels ls)"
  by (induction m ls rule: fill_asks.induct) (simp_all add: positive_levels_def positive_qty)

section \<open>Runs of the diff stream\<close>

text \<open>
  The listener feeds the events one by one and stops trusting the book at the first \<open>false\<close>;
  \<open>run_diffs\<close> keeps the replies.  \<open>applied_diffs\<close> is the specification's view of a run: the
  events that are neither older than the book's update id nor after a gap.
\<close>

fun run_diffs :: "depth_diff list \<Rightarrow> order_book \<Rightarrow> bool list \<times> order_book" where
  "run_diffs [] ob = ([], ob)"
| "run_diffs (d # ds) ob =
     (case apply_diff d ob of (ok, ob1) \<Rightarrow> case run_diffs ds ob1 of (oks, ob2) \<Rightarrow> (ok # oks, ob2))"

fun applied_diffs :: "int \<Rightarrow> depth_diff list \<Rightarrow> depth_diff list" where
  "applied_diffs lid [] = []"
| "applied_diffs lid (d # ds) =
     (if df_u d < lid then applied_diffs lid ds else d # applied_diffs (df_u d) ds)"

lemma run_diffs_unsynced:
  "\<not> synced ob \<Longrightarrow> run_diffs ds ob = (replicate (length ds) False, ob)"
  by (induction ds) (simp_all add: apply_diff_def)

lemma run_diffs_length: "length (fst (run_diffs ds ob)) = length ds"
  by (induction ds arbitrary: ob) (simp_all split: prod.splits, metis fst_conv)

lemma diff_ok_synced: "fst (apply_diff d ob) \<Longrightarrow> synced ob \<and> synced (snd (apply_diff d ob))"
  by (auto simp: apply_diff_def split: if_splits)

lemma diff_ok_view:
  assumes "fst (apply_diff d ob)"
  shows "bid_view (snd (apply_diff d ob)) =
           (if df_u d < last_update_id ob then bid_view ob else fold level_write (df_bids d) (bid_view ob))"
    and "ask_view (snd (apply_diff d ob)) =
           (if df_u d < last_update_id ob then ask_view ob else fold level_write (df_asks d) (ask_view ob))"
    and "last_update_id (snd (apply_diff d ob)) =
           (if df_u d < last_update_id ob then last_update_id ob else df_u d)"
  using assms
  by (auto simp: apply_diff_def bid_view_def ask_view_def apply_side_bids_view apply_side_asks_view
      split: if_splits)

lemma run_diffs_view:
  assumes "list_all (\<lambda>ok. ok) (fst (run_diffs ds ob))"
  shows "bid_view (snd (run_diffs ds ob)) =
           fold (\<lambda>d. fold level_write (df_bids d)) (applied_diffs (last_update_id ob) ds) (bid_view ob)
       \<and> ask_view (snd (run_diffs ds ob)) =
           fold (\<lambda>d. fold level_write (df_asks d)) (applied_diffs (last_update_id ob) ds) (ask_view ob)"
  using assms
proof (induction ds arbitrary: ob)
  case Nil
  then show ?case by simp
next
  case (Cons d ds)
  obtain ok ob1 where d: "apply_diff d ob = (ok, ob1)" by (cases "apply_diff d ob")
  obtain oks ob2 where ds: "run_diffs ds ob1 = (oks, ob2)" by (cases "run_diffs ds ob1")
  from Cons.prems d ds have ok: "fst (apply_diff d ob)" and oks: "list_all (\<lambda>ok. ok) (fst (run_diffs ds ob1))"
    by simp_all
  show ?case using Cons.IH [OF oks] diff_ok_view [OF ok] by (simp add: d ds)
qed

section \<open>Reachable books\<close>

inductive book_reach :: "order_book \<Rightarrow> bool" where
  init: "book_reach order_book_init"
| snapshot: "book_reach ob \<Longrightarrow> book_reach (apply_snapshot i bs as ob)"
| diff: "book_reach ob \<Longrightarrow> book_reach (snd (apply_diff d ob))"
| desync: "book_reach ob \<Longrightarrow> book_reach (mark_desynced ob)"

text \<open>What \<open>to_data\<close> takes of one sorted side.\<close>

lemma take_sorted_side:
  assumes "om_inv m" "e \<in> set (take n m)" "e' \<in> set m" "e' \<notin> set (take n m)"
  shows "fst e < fst e'"
proof -
  have "om_inv (take n m @ drop n m)" using assms(1) by simp
  moreover have "e' \<in> set (drop n m)" using assms(3,4) by (metis Un_iff append_take_drop_id set_append)
  ultimately show ?thesis using assms(2) unfolding om_inv_append by blast
qed

lemma take_om_inv: "om_inv m \<Longrightarrow> om_inv (take n m)"
  unfolding om_inv_def by (metis sorted_wrt_take take_map)

lemma book_reach_inv_core: "book_reach ob \<Longrightarrow> book_inv ob"
proof (induction rule: book_reach.induct)
  case init
  then show ?case by (simp add: book_inv_def order_book_init_def)
next
  case (desync ob)
  then show ?case by (simp add: book_inv_def mark_desynced_def)
qed (simp_all add: snapshot_inv diff_inv)

section \<open>Properties\<close>

text \<open>
  Whatever sequence of snapshots, diff events and desync marks a book has gone through, both
  sides are strictly ordered maps (bids descending, asks ascending) without duplicate prices,
  and no stored quantity is zero or negative.
\<close>

theorem book_reach_inv:
  "book_reach ob \<Longrightarrow>
     sorted_wrt (>) (map (undesc \<circ> fst) (bids ob)) \<and> sorted_wrt (<) (map fst (asks ob))
     \<and> (\<forall>q \<in> snd ` set (bids ob) \<union> snd ` set (asks ob). \<not> d_le q (Fin 0))"
  by (drule book_reach_inv_core)
    (auto simp: book_inv_def side_inv_def om_inv_def sorted_wrt_map less_desc_def)

theorem book_reach_inv_witness:
  "map fst (bids (apply_snapshot 7 [(Fin 10, Fin 1), (Fin 11, Fin 2)] [] order_book_init))
     = [Desc (Fin 11), Desc (Fin 10)]
   \<and> sorted_wrt (>) (map (undesc \<circ> fst)
       (bids (apply_snapshot 7 [(Fin 10, Fin 1), (Fin 11, Fin 2)] [] order_book_init)))"
  using book_reach_inv [OF book_reach.snapshot [OF book_reach.init],
      of 7 "[(Fin 10, Fin 1), (Fin 11, Fin 2)]" "[]"]
  by (simp add: apply_snapshot_def)

text \<open>
  C15. A snapshot followed by diff events that are all accepted leaves exactly the last-writer-wins
  book: the snapshot's positive levels, then the levels of every event that was not older than
  the update id reached so far, in stream order, a non-positive quantity deleting its price.
\<close>

theorem snapshot_diffs_refine:
  assumes "list_all (\<lambda>ok. ok) (fst (run_diffs ds (apply_snapshot i bs as ob)))"
  shows "bid_view (snd (run_diffs ds (apply_snapshot i bs as ob)))
           = fold level_write (positive_levels bs @ concat (map df_bids (applied_diffs i ds))) Map.empty
       \<and> ask_view (snd (run_diffs ds (apply_snapshot i bs as ob)))
           = fold level_write (positive_levels as @ concat (map df_asks (applied_diffs i ds))) Map.empty"
proof -
  have base: "bid_view (apply_snapshot i bs as ob) = fold level_write (positive_levels bs) Map.empty"
    "ask_view (apply_snapshot i bs as ob) = fold level_write (positive_levels as) Map.empty"
    by (simp_all add: bid_view_def ask_view_def apply_snapshot_def fill_bids_apply fill_asks_apply
        apply_side_bids_view apply_side_asks_view)
  have glue: "fold (\<lambda>d. fold level_write (g d)) xs f = fold level_write (concat (map g xs)) f"
    for g :: "depth_diff \<Rightarrow> price_level list" and xs f
    by (induction xs arbitrary: f) simp_all
  have "last_update_id (apply_snapshot i bs as ob) = i" by (simp add: apply_snapshot_def)
  with run_diffs_view [OF assms] show ?thesis by (simp add: base glue)
qed

theorem snapshot_diffs_refine_witness:
  "bid_view (snd (run_diffs
      [\<lparr>df_U = 3, df_u = 4, df_pu = 2, df_bids = [(Fin 1, Fin 9)], df_asks = []\<rparr>,
       \<lparr>df_U = 6, df_u = 8, df_pu = 5, df_bids = [(Fin 9, Fin 0)], df_asks = []\<rparr>]
      (apply_snapshot 5 [(Fin 9, Fin 1), (Fin 8, Fin 2)] [] order_book_init))) (Fin 9) = None"
  using snapshot_diffs_refine [of
      "[\<lparr>df_U = 3, df_u = 4, df_pu = 2, df_bids = [(Fin 1, Fin 9)], df_asks = []\<rparr>,
        \<lparr>df_U = 6, df_u = 8, df_pu = 5, df_bids = [(Fin 9, Fin 0)], df_asks = []\<rparr>]"
      5 "[(Fin 9, Fin 1), (Fin 8, Fin 2)]" "[]" order_book_init]
  by (simp add: apply_diff_def apply_snapshot_def first_ok_def chain_ok_def s64_id
      positive_levels_def)

text \<open>
  C2. An event is refused exactly when the book is out of sync or the event neither starts at the
  next update id nor chains to the last one (and is not stale).  A refused event changes no
  level, and from then on every further event is refused and changes nothing, until a snapshot,
  which brings the book back with exactly that snapshot's levels, whatever it held before.
\<close>

theorem gap_freezes_until_snapshot:
  "(fst (apply_diff d ob) \<longleftrightarrow> synced ob \<and> (df_u d < last_update_id ob \<or> first_ok ob d \<or> chain_ok ob d))
   \<and> (\<not> fst (apply_diff d ob) \<longrightarrow>
        run_diffs ds (snd (apply_diff d ob)) = (replicate (length ds) False, mark_desynced ob)
        \<and> bid_view (mark_desynced ob) = bid_view ob \<and> ask_view (mark_desynced ob) = ask_view ob)
   \<and> apply_snapshot i bs as (snd (run_diffs ds ob)) = apply_snapshot i bs as order_book_init"
proof (intro conjI impI)
  show "fst (apply_diff d ob) \<longleftrightarrow>
      synced ob \<and> (df_u d < last_update_id ob \<or> first_ok ob d \<or> chain_ok ob d)"
    by (simp add: apply_diff_def)
  show "bid_view (mark_desynced ob) = bid_view ob" "ask_view (mark_desynced ob) = ask_view ob"
    by (simp_all add: bid_view_def ask_view_def mark_desynced_def)
  show "apply_snapshot i bs as (snd (run_diffs ds ob)) = apply_snapshot i bs as order_book_init"
    by (simp add: apply_snapshot_def order_book_init_def)
next
  assume "\<not> fst (apply_diff d ob)"
  then have "snd (apply_diff d ob) = mark_desynced ob"
    by (auto simp: apply_diff_def mark_desynced_def split: if_splits)
  then show "run_diffs ds (snd (apply_diff d ob)) = (replicate (length ds) False, mark_desynced ob)"
    by (simp add: run_diffs_unsynced mark_desynced_def)
qed

theorem gap_freezes_until_snapshot_witness:
  "run_diffs [\<lparr>df_U = 6, df_u = 9, df_pu = 5, df_bids = [], df_asks = []\<rparr>]
     (snd (apply_diff \<lparr>df_U = 9, df_u = 9, df_pu = 8, df_bids = [(Fin 1, Fin 1)], df_asks = []\<rparr>
       (apply_snapshot 5 [] [] order_book_init)))
   = ([False], mark_desynced (apply_snapshot 5 [] [] order_book_init))"
  using gap_freezes_until_snapshot [of
      "\<lparr>df_U = 9, df_u = 9, df_pu = 8, df_bids = [(Fin 1, Fin 1)], df_asks = []\<rparr>"
      "apply_snapshot 5 [] [] order_book_init"
      "[\<lparr>df_U = 6, df_u = 9, df_pu = 5, df_bids = [], df_asks = []\<rparr>]"]
  by (simp add: apply_snapshot_def order_book_init_def first_ok_def chain_ok_def s64_id)

text \<open>
  Publishing takes the best levels: at most the requested number (all of them when the side is
  shorter, none for a non-positive request), every published level is in the book, bids come in
  strictly descending and asks in strictly ascending price order, and every level left out is
  worse than every level published.
\<close>

theorem to_data_best_levels:
  assumes "book_reach ob" "B = take (nat n) (bids ob)" "A = take (nat n) (asks ob)"
  shows "bid_book (to_data n ob) = map (\<lambda>e. \<lparr>ol_price = Some (undesc (fst e)), ol_qty = Some (snd e)\<rparr>) B
    \<and> ask_book (to_data n ob) = map (\<lambda>e. \<lparr>ol_price = Some (fst e), ol_qty = Some (snd e)\<rparr>) A
    \<and> length B = min (nat n) (length (bids ob)) \<and> length A = min (nat n) (length (asks ob))
    \<and> sorted_wrt (>) (map (undesc \<circ> fst) B) \<and> sorted_wrt (<) (map fst A)
    \<and> (\<forall>e \<in> set B. bid_view ob (undesc (fst e)) = Some (snd e))
    \<and> (\<forall>e \<in> set A. ask_view ob (fst e) = Some (snd e))
    \<and> (\<forall>p \<in> dom (bid_view ob) - (undesc \<circ> fst) ` set B. \<forall>e \<in> set B. p < undesc (fst e))
    \<and> (\<forall>p \<in> dom (ask_view ob) - fst ` set A. \<forall>e \<in> set A. fst e < p)"
proof -
  from book_reach_inv_core [OF assms(1)] have b: "om_inv (bids ob)" and a: "om_inv (asks ob)"
    by (auto simp: book_inv_def side_inv_def)
  have desc_sorted: "sorted_wrt (>) (map (undesc \<circ> fst) B)" "sorted_wrt (<) (map fst A)"
    using take_om_inv [OF b, of "nat n"] take_om_inv [OF a, of "nat n"]
    by (simp_all add: assms(2,3) om_inv_def sorted_wrt_map less_desc_def)
  have mem: "\<forall>e \<in> set B. bid_view ob (undesc (fst e)) = Some (snd e)"
    "\<forall>e \<in> set A. ask_view ob (fst e) = Some (snd e)"
    using om_lookup_mem [OF b] om_lookup_mem [OF a] in_set_takeD
    unfolding assms(2,3) bid_view_def ask_view_def by (metis desc.collapse prod.collapse)+
  have rest_b: "p < undesc (fst e)" if p: "p \<in> dom (bid_view ob) - (undesc \<circ> fst) ` set B" "e \<in> set B" for p e
  proof -
    from p obtain q where "(Desc p, q) \<in> set (bids ob)" using om_lookup_mem [OF b] by (auto simp: bid_view_def)
    moreover have "(Desc p, q) \<notin> set B" using p(1) by force
    ultimately have "fst e < Desc p" using take_sorted_side [OF b] p(2) unfolding assms(2) by fastforce
    then show ?thesis by (simp add: less_desc_def)
  qed
  have rest_a: "fst e < p" if p: "p \<in> dom (ask_view ob) - fst ` set A" "e \<in> set A" for p e
  proof -
    from p obtain q where "(p, q) \<in> set (asks ob)" using om_lookup_mem [OF a] by (auto simp: ask_view_def)
    moreover have "(p, q) \<notin> set A" using p(1) by force
    ultimately show ?thesis using take_sorted_side [OF a] p(2) unfolding assms(3) by fastforce
  qed
  have "length B = min (nat n) (length (bids ob))" "length A = min (nat n) (length (asks ob))"
    by (simp_all add: assms(2,3))
  then show ?thesis
    using desc_sorted mem rest_b rest_a
    by (intro conjI ballI) (simp_all add: to_data_def assms(2,3) case_prod_unfold)
qed

theorem to_data_best_levels_witness:
  "bid_book (to_data 1 (apply_snapshot 5 [(Fin 8, Fin 2), (Fin 9, Fin 1)] [] order_book_init))
     = [\<lparr>ol_price = Some (Fin 9), ol_qty = Some (Fin 1)\<rparr>]"
  using to_data_best_levels [of "apply_snapshot 5 [(Fin 8, Fin 2), (Fin 9, Fin 1)] [] order_book_init"
      "[(Desc (Fin 9), Fin 1)]" 1 "[]"]
    book_reach.snapshot [OF book_reach.init, of 5 "[(Fin 8, Fin 2), (Fin 9, Fin 1)]" "[]"]
  by (simp add: apply_snapshot_def)

end
