(* ===== verification/Listener_Types.thy ===== *)
theory Listener_Types
  imports Msg_Types
begin

text \<open>
  The normalised events an exchange adapter hands to the market listener, and the listener's
  configuration with its defaults (\<open>market_listener/market_listener_dtypes.hpp\<close>).
\<close>

record listener_status_update =
  su_connection :: string
  su_connecting :: bool
  su_opened :: bool

datatype listener_event =
    StatusEvent listener_status_update
  | OrderbookEvent product orderbook_data
  | TradeEvent product trade_data
  | ExecutionEvent product execution_data
  | PositionEvent product position_data
  | ProductInfoEvent product product_info_data

record listener_config =
  lc_name :: string
  lc_exchange :: string
  lc_region :: string
  lc_market_type :: string
  lc_is_night :: bool
  lc_timezone_minute_offset :: int
  lc_products :: "product list"
  lc_product_specs :: "product_spec list"
  lc_products_db_base_path :: string
  lc_orderbook_save_path :: string
  lc_trade_save_path :: string
  lc_no_orderbook_log :: bool
  lc_no_public_trade_log :: bool
  lc_broadcast_host_address :: string
  lc_broadcast_port :: int
  lc_domain_type :: string
  lc_orderbook_levels :: int
  lc_product_info_refresh_sec :: int
  lc_market_end_intraday_minute :: int
  lc_log_path :: string

definition listener_config_init :: listener_config where
  "listener_config_init = \<lparr>lc_name = [], lc_exchange = ''binance'', lc_region = [], lc_market_type = ''derivatives'',
     lc_is_night = False, lc_timezone_minute_offset = 0, lc_products = [''BTCUSDT''],
     lc_product_specs = [\<lparr>ps_product = ''BTCUSDT'', ps_category = futures\<rparr>], lc_products_db_base_path = ''products'',
     lc_orderbook_save_path = ''logs/orderbook_record'', lc_trade_save_path = ''logs/trade_record'',
     lc_no_orderbook_log = False, lc_no_public_trade_log = False, lc_broadcast_host_address = ''0.0.0.0'',
     lc_broadcast_port = 8888, lc_domain_type = ''real'', lc_orderbook_levels = 20,
     lc_product_info_refresh_sec = 300, lc_market_end_intraday_minute = - 1,
     lc_log_path = ''logs/listener/listener.log''\<rparr>"

end
