(* ===== verification/Binance_Listener.thy ===== *)
theory Binance_Listener
  imports Order_Book Binance_Rest Redial Listener_Types
begin

text \<open>
  The Binance adapter of the market listener
  (\<open>market_listener/exchange/binance/binance_listener.cpp\<close>): three sockets with their redial
  machinery, the order books with their REST resync, the translation of the market and user
  streams into normalised events, and the REST snapshots republished on (re)connect.

  The JSON readers and the dialling are parameters (\<open>bl_env\<close>; a reader that fails is \<open>None\<close>).
  The queue of websocket events is filled by the sockets and drained by the worker; the jobs
  posted to the io thread, the armed timers and the emitted events are part of the state.
\<close>

section \<open>The stream messages\<close>

record book_ticker =
  bt_E :: int
  bt_s :: string
  bt_b :: string
  bt_B :: string
  bt_a :: string
  bt_A :: string

record depth_update =
  du_E :: int
  du_s :: string
  du_U :: int
  du_u :: int
  du_pu :: int
  du_b :: "(string \<times> string) list"
  du_a :: "(string \<times> string) list"

record agg_trade =
  at_E :: int
  at_s :: string
  at_p :: string
  at_q :: string

record order_trade_update_order =
  ou_s :: string
  ou_c :: string
  ou_S :: string
  ou_x :: string
  ou_i :: int
  ou_p :: string
  ou_q :: string
  ou_z :: string
  ou_L :: string
  ou_l :: string

record account_balance =
  ab_a :: string
  ab_wb :: string

record account_position =
  ap_s :: string
  ap_pa :: string

record account_update =
  au_B :: "account_balance list"
  au_P :: "account_position list"

section \<open>State\<close>

datatype socket = MarketSocket | TradeSocket | UserSocket

datatype ws_queue_event = WsStatus socket bool bool | WsPayload socket string

record 'j bl_env =
  be_rest :: "'j rest_env"
  be_stream_domain :: string
  be_config :: listener_config
  be_classify_market :: "string \<Rightarrow> string option"
  be_book_ticker :: "string \<Rightarrow> book_ticker option"
  be_depth_update :: "string \<Rightarrow> depth_update option"
  be_agg_trade :: "string \<Rightarrow> agg_trade option"
  be_classify_user :: "string \<Rightarrow> string option"
  be_order_update :: "string \<Rightarrow> order_trade_update_order option"
  be_account_update :: "string \<Rightarrow> account_update option"
  be_dial_throws :: "nat \<Rightarrow> bool"

record binance_listener =
  bl_futures_products :: "product list"
  bl_asset_products :: "product list"
  bl_order_books :: "(product, order_book) omap"
  bl_filters :: filters
  bl_net :: net
  bl_ws_event_queue :: "ws_queue_event list"
  bl_market :: redial
  bl_trade :: redial
  bl_user :: redial
  bl_market_opened :: bool
  bl_trade_opened :: bool
  bl_user_opened :: bool
  bl_listen_key :: string
  bl_keepalive :: bool
  bl_start_posted :: bool
  bl_running :: bool
  bl_dials :: "(socket \<times> string) list"
  bl_event_queue :: "listener_event list"

fun bl_add_spec :: "product_spec \<Rightarrow> binance_listener \<Rightarrow> binance_listener" where
  "bl_add_spec spec l =
     (case ps_category spec of
        futures \<Rightarrow> l\<lparr>bl_futures_products := bl_futures_products l @ [ps_product spec],
                     bl_order_books := om_put (ps_product spec) order_book_init (bl_order_books l)\<rparr>
      | asset \<Rightarrow> l\<lparr>bl_asset_products := bl_asset_products l @ [ps_product spec]\<rparr>
      | spot \<Rightarrow> l)"

definition make_binance_listener :: "'j bl_env \<Rightarrow> binance_listener" where
  "make_binance_listener be =
     fold bl_add_spec (lc_product_specs (be_config be))
       \<lparr>bl_futures_products = [], bl_asset_products = [], bl_order_books = [], bl_filters = [],
        bl_net = \<lparr>net_requests = [], net_clock_reads = 0\<rparr>, bl_ws_event_queue = [],
        bl_market = redial_init, bl_trade = redial_init, bl_user = redial_init,
        bl_market_opened = False, bl_trade_opened = False, bl_user_opened = False,
        bl_listen_key = [], bl_keepalive = False, bl_start_posted = False, bl_running = False,
        bl_dials = [], bl_event_queue = []\<rparr>"

definition bl_emit :: "listener_event \<Rightarrow> binance_listener \<Rightarrow> binance_listener" where
  "bl_emit ev l = l\<lparr>bl_event_queue := bl_event_queue l @ [ev]\<rparr>"

fun socket_redial :: "socket \<Rightarrow> binance_listener \<Rightarrow> redial" where
  "socket_redial MarketSocket l = bl_market l"
| "socket_redial TradeSocket l = bl_trade l"
| "socket_redial UserSocket l = bl_user l"

fun upd_redial :: "socket \<Rightarrow> (redial \<Rightarrow> redial) \<Rightarrow> binance_listener \<Rightarrow> binance_listener" where
  "upd_redial MarketSocket f l = l\<lparr>bl_market := f (bl_market l)\<rparr>"
| "upd_redial TradeSocket f l = l\<lparr>bl_trade := f (bl_trade l)\<rparr>"
| "upd_redial UserSocket f l = l\<lparr>bl_user := f (bl_user l)\<rparr>"

section \<open>The sockets\<close>

definition to_lower :: "string \<Rightarrow> string" where
  "to_lower s = map lower_char s"

fun join_streams :: "(string \<Rightarrow> string) \<Rightarrow> product list \<Rightarrow> string \<Rightarrow> string" where
  "join_streams f [] streams = streams"
| "join_streams f (p # ps) streams =
     join_streams f ps ((if streams = [] then streams else streams @ ''/'') @ f (to_lower p))"

definition market_stream_url :: "'j bl_env \<Rightarrow> binance_listener \<Rightarrow> string" where
  "market_stream_url be l =
     be_stream_domain be @ ''/public/stream?streams=''
       @ join_streams (\<lambda>s. s @ ''@bookTicker/'' @ s @ ''@depth@100ms'') (bl_futures_products l) []"

definition trade_stream_url :: "'j bl_env \<Rightarrow> binance_listener \<Rightarrow> string" where
  "trade_stream_url be l =
     be_stream_domain be @ ''/market/stream?streams=''
       @ join_streams (\<lambda>s. s @ ''@aggTrade'') (bl_futures_products l) []"

definition user_stream_url :: "'j bl_env \<Rightarrow> string \<Rightarrow> string" where
  "user_stream_url be key =
     be_stream_domain be @ ''/private/ws?listenKey='' @ key @ ''&events=ORDER_TRADE_UPDATE/ACCOUNT_UPDATE''"

text \<open>
  The construction of a socket's client with the two callbacks that fill the queue: the
  notifications of the constructor are queued, the client is installed.
\<close>

definition dial_socket :: "'j bl_env \<Rightarrow> socket \<Rightarrow> string \<Rightarrow> binance_listener \<Rightarrow> binance_listener" where
  "dial_socket be so url l =
     (case new_ws_client (be_dial_throws be (length (bl_dials l))) of (ns, c) \<Rightarrow>
        upd_redial so (redial_install c)
          (l\<lparr>bl_dials := bl_dials l @ [(so, url)],
             bl_ws_event_queue := bl_ws_event_queue l @ map (\<lambda>n. WsStatus so (fst n) (snd n)) ns\<rparr>))"

definition create_market_client :: "'j bl_env \<Rightarrow> binance_listener \<Rightarrow> binance_listener" where
  "create_market_client be l = dial_socket be MarketSocket (market_stream_url be l) l"

definition create_trade_client :: "'j bl_env \<Rightarrow> binance_listener \<Rightarrow> binance_listener" where
  "create_trade_client be l = dial_socket be TradeSocket (trade_stream_url be l) l"

definition create_user_client :: "'j bl_env \<Rightarrow> binance_listener \<Rightarrow> binance_listener" where
  "create_user_client be l =
     (case create_listen_key (be_rest be) (bl_net l) of (key, n) \<Rightarrow>
        let l1 = l\<lparr>bl_listen_key := key, bl_net := n\<rparr>
        in if key = []
           then (if bl_running l1 then upd_redial UserSocket redial_request l1 else l1)
           else dial_socket be UserSocket (user_stream_url be key) l1)"

definition schedule_keepalive :: "binance_listener \<Rightarrow> binance_listener" where
  "schedule_keepalive l = l\<lparr>bl_keepalive := True\<rparr>"

definition bl_on_keepalive :: "'j bl_env \<Rightarrow> bool \<Rightarrow> binance_listener \<Rightarrow> binance_listener" where
  "bl_on_keepalive be ec l =
     (let l1 = l\<lparr>bl_keepalive := False\<rparr>
      in if \<not> ec \<and> bl_running l1
         then schedule_keepalive
                (if bl_listen_key l1 \<noteq> [] then l1\<lparr>bl_net := keepalive_listen_key (be_rest be) (bl_net l1)\<rparr> else l1)
         else l1)"

definition bl_start :: "binance_listener \<Rightarrow> binance_listener" where
  "bl_start l = l\<lparr>bl_running := True, bl_start_posted := True\<rparr>"

text \<open>The job \<open>start()\<close> posts: the first dials, on the io thread.\<close>

definition bl_run_start :: "'j bl_env \<Rightarrow> binance_listener \<Rightarrow> binance_listener" where
  "bl_run_start be l =
     (let l1 = create_trade_client be (create_market_client be (l\<lparr>bl_start_posted := False\<rparr>))
      in if re_keys (be_rest be) \<noteq> None then schedule_keepalive (create_user_client be l1) else l1)"

definition bl_stop :: "'j bl_env \<Rightarrow> binance_listener \<Rightarrow> binance_listener" where
  "bl_stop be l =
     (if \<not> bl_running l then l
      else
        let l1 = l\<lparr>bl_running := False,
                   bl_ws_event_queue := bl_ws_event_queue l @ [WsStatus MarketSocket False False],
                   bl_market := redial_init, bl_trade := redial_init, bl_user := redial_init,
                   bl_start_posted := False, bl_keepalive := False\<rparr>
        in if bl_listen_key l1 \<noteq> [] then l1\<lparr>bl_net := close_listen_key (be_rest be) (bl_net l1)\<rparr> else l1)"

definition schedule_market_reconnect :: "binance_listener \<Rightarrow> binance_listener" where
  "schedule_market_reconnect l = upd_redial MarketSocket redial_schedule l"

definition schedule_trade_reconnect :: "binance_listener \<Rightarrow> binance_listener" where
  "schedule_trade_reconnect l = upd_redial TradeSocket redial_schedule l"

definition schedule_user_reconnect :: "binance_listener \<Rightarrow> binance_listener" where
  "schedule_user_reconnect l = upd_redial UserSocket redial_schedule l"

fun schedule_socket :: "socket \<Rightarrow> binance_listener \<Rightarrow> binance_listener" where
  "schedule_socket MarketSocket l = schedule_market_reconnect l"
| "schedule_socket TradeSocket l = schedule_trade_reconnect l"
| "schedule_socket UserSocket l = schedule_user_reconnect l"

fun create_socket :: "'j bl_env \<Rightarrow> socket \<Rightarrow> binance_listener \<Rightarrow> binance_listener" where
  "create_socket be MarketSocket l = create_market_client be l"
| "create_socket be TradeSocket l = create_trade_client be l"
| "create_socket be UserSocket l = create_user_client be l"

text \<open>The handlers of the three redial timers: the flag is cleared before the dial.\<close>

definition bl_on_timer :: "'j bl_env \<Rightarrow> socket \<Rightarrow> bool \<Rightarrow> binance_listener \<Rightarrow> binance_listener" where
  "bl_on_timer be so ec l =
     (let l1 = upd_redial so redial_expired l
      in if \<not> ec \<and> bl_running l1 then create_socket be so l1 else l1)"

definition bl_socket_event :: "socket \<Rightarrow> ws_event \<Rightarrow> ws_client \<Rightarrow> binance_listener \<Rightarrow> binance_listener" where
  "bl_socket_event so e c l =
     (case ws_handle e c of (ns, c') \<Rightarrow>
        upd_redial so (redial_install c')
          (l\<lparr>bl_ws_event_queue := bl_ws_event_queue l @ map (\<lambda>n. WsStatus so (fst n) (snd n)) ns\<rparr>))"

definition bl_socket_message :: "socket \<Rightarrow> string \<Rightarrow> binance_listener \<Rightarrow> binance_listener" where
  "bl_socket_message so payload l =
     l\<lparr>bl_ws_event_queue := bl_ws_event_queue l @ [WsPayload so payload]\<rparr>"

section \<open>Snapshots\<close>

definition publish_product_info :: "'j bl_env \<Rightarrow> binance_listener \<Rightarrow> binance_listener" where
  "publish_product_info be l =
     (case load_filters (be_rest be) (bl_filters l) (bl_net l) of (fs, n) \<Rightarrow>
        fold (\<lambda>p. bl_emit (ProductInfoEvent p
                 \<lparr>pi_tick_size = Some (pf_tick_size (filter_of fs p)),
                  pi_lot_size = Some (pf_step_size (filter_of fs p))\<rparr>))
          (bl_futures_products l) (l\<lparr>bl_filters := fs, bl_net := n\<rparr>))"

definition publish_user_state :: "'j bl_env \<Rightarrow> binance_listener \<Rightarrow> binance_listener" where
  "publish_user_state be l =
     (let l1 = (if bl_futures_products l = [] then l
                else case fetch_positions (be_rest be) (bl_net l) of (ms, n) \<Rightarrow>
                       fold (\<lambda>(p, d). bl_emit (PositionEvent p d)) ms (l\<lparr>bl_net := n\<rparr>));
          l2 = (if bl_asset_products l1 = [] then l1
                else case fetch_balances (be_rest be) (bl_net l1) of (ms, n) \<Rightarrow>
                       fold (\<lambda>(p, d). bl_emit (PositionEvent p d)) ms (l1\<lparr>bl_net := n\<rparr>))
      in case fetch_open_orders (be_rest be) (bl_net l2) of (ms, n) \<Rightarrow>
           fold (\<lambda>(p, d). bl_emit (ExecutionEvent p d)) ms (l2\<lparr>bl_net := n\<rparr>))"

definition book_of :: "binance_listener \<Rightarrow> product \<Rightarrow> order_book" where
  "book_of l p = om_at order_book_init (bl_order_books l) p"

definition set_book :: "product \<Rightarrow> order_book \<Rightarrow> binance_listener \<Rightarrow> binance_listener" where
  "set_book p ob l = l\<lparr>bl_order_books := om_put p ob (bl_order_books l)\<rparr>"

definition resync_order_book :: "'j bl_env \<Rightarrow> product \<Rightarrow> binance_listener \<Rightarrow> binance_listener" where
  "resync_order_book be p l =
     (let l1 = set_book p (mark_desynced (book_of l p)) l
      in case fetch_depth (be_rest be) p 1000 (bl_net l1) of (snap, n) \<Rightarrow>
           let l2 = l1\<lparr>bl_net := n\<rparr>
           in if \<not> ds_ok snap then l2
              else let ob = apply_snapshot (ds_last_update_id snap) (ds_bids snap) (ds_asks snap) (book_of l2 p)
                   in bl_emit (OrderbookEvent p (to_data (lc_orderbook_levels (be_config be)) ob)) (set_book p ob l2))"

definition on_market_open :: "'j bl_env \<Rightarrow> binance_listener \<Rightarrow> binance_listener" where
  "on_market_open be l = fold (resync_order_book be) (bl_futures_products l) l"

definition on_user_open :: "'j bl_env \<Rightarrow> binance_listener \<Rightarrow> binance_listener" where
  "on_user_open be l = publish_user_state be l"

section \<open>The worker\<close>

definition socket_name :: "socket \<Rightarrow> string" where
  "socket_name so = (case so of MarketSocket \<Rightarrow> ''binance_market'' | TradeSocket \<Rightarrow> ''binance_trade''
                      | UserSocket \<Rightarrow> ''binance_user'')"

definition on_ws_status :: "'j bl_env \<Rightarrow> socket \<Rightarrow> bool \<Rightarrow> bool \<Rightarrow> binance_listener \<Rightarrow> binance_listener" where
  "on_ws_status be so connecting opened l =
     (let down = (\<lambda>l. if \<not> opened \<and> \<not> connecting then upd_redial so redial_request l else l);
          l1 = (case so of
                  MarketSocket \<Rightarrow>
                    (if \<not> bl_market_opened l \<and> opened
                     then on_market_open be (upd_redial so redial_reset_cnt l) else down l)\<lparr>bl_market_opened := opened\<rparr>
                | TradeSocket \<Rightarrow>
                    (if \<not> bl_trade_opened l \<and> opened
                     then upd_redial so redial_reset_cnt l else down l)\<lparr>bl_trade_opened := opened\<rparr>
                | UserSocket \<Rightarrow>
                    (if \<not> bl_user_opened l \<and> opened
                     then on_user_open be (upd_redial so redial_reset_cnt l) else down l)\<lparr>bl_user_opened := opened\<rparr>)
      in bl_emit (StatusEvent \<lparr>su_connection = socket_name so, su_connecting = connecting, su_opened = opened\<rparr>) l1)"

text \<open>\<open>sd\<close>: an empty string is zero, otherwise \<open>std::stod\<close>, which may throw.\<close>

definition sd :: "string \<Rightarrow> dbl option" where
  "sd s = (if s = [] then Some (Fin 0) else stod s)"

fun sd_levels :: "(string \<times> string) list \<Rightarrow> price_level list option" where
  "sd_levels [] = Some []"
| "sd_levels ((p, q) # ls) = do { x \<leftarrow> sd p; y \<leftarrow> sd q; r \<leftarrow> sd_levels ls; Some ((x, y) # r) }"

definition event_time :: "int \<Rightarrow> int option" where
  "event_time E = (if 0 < E then Some E else None)"

definition read_book_ticker :: "book_ticker \<Rightarrow> listener_event option" where
  "read_book_ticker t = do {
     b \<leftarrow> sd (bt_b t); B \<leftarrow> sd (bt_B t); a \<leftarrow> sd (bt_a t); A \<leftarrow> sd (bt_A t);
     Some (OrderbookEvent (bt_s t)
       \<lparr>bid_book = [\<lparr>ol_price = Some b, ol_qty = Some B\<rparr>],
        ask_book = [\<lparr>ol_price = Some a, ol_qty = Some A\<rparr>], ob_server_tstamp_ms = event_time (bt_E t)\<rparr>) }"

definition read_agg_trade :: "agg_trade \<Rightarrow> listener_event option" where
  "read_agg_trade t = do {
     p \<leftarrow> sd (at_p t); q \<leftarrow> sd (at_q t);
     Some (TradeEvent (at_s t)
       \<lparr>td_trade_price = Some p, td_cum_trade_qty = Some q, td_cum_buy_trade_qty = None,
        td_server_tstamp_ms = event_time (at_E t)\<rparr>) }"

definition depth_diff_of :: "depth_update \<Rightarrow> depth_diff option" where
  "depth_diff_of d = do {
     bs \<leftarrow> sd_levels (du_b d); as \<leftarrow> sd_levels (du_a d);
     Some \<lparr>df_U = du_U d, df_u = du_u d, df_pu = du_pu d, df_bids = bs, df_asks = as\<rparr> }"

definition handle_depth :: "'j bl_env \<Rightarrow> depth_update \<Rightarrow> binance_listener \<Rightarrow> binance_listener" where
  "handle_depth be d l =
     (if \<not> om_has (bl_order_books l) (du_s d) then l
      else (case depth_diff_of d of
              None \<Rightarrow> l
            | Some df \<Rightarrow>
                (case apply_diff df (book_of l (du_s d)) of (ok, ob) \<Rightarrow>
                   let l1 = set_book (du_s d) ob l
                   in if \<not> ok then resync_order_book be (du_s d) l1
                      else bl_emit (OrderbookEvent (du_s d)
                             ((to_data (lc_orderbook_levels (be_config be)) ob)
                                \<lparr>ob_server_tstamp_ms := event_time (du_E d)\<rparr>)) l1)))"

definition emit_opt :: "listener_event option \<Rightarrow> binance_listener \<Rightarrow> binance_listener" where
  "emit_opt ev l = (case ev of None \<Rightarrow> l | Some e \<Rightarrow> bl_emit e l)"

definition handle_market_payload :: "'j bl_env \<Rightarrow> string \<Rightarrow> binance_listener \<Rightarrow> binance_listener" where
  "handle_market_payload be payload l =
     (case be_classify_market be payload of
        None \<Rightarrow> l
      | Some event_type \<Rightarrow>
          if event_type = ''bookTicker''
          then emit_opt (do { t \<leftarrow> be_book_ticker be payload; read_book_ticker t }) l
          else if event_type = ''depthUpdate''
          then (case be_depth_update be payload of None \<Rightarrow> l | Some d \<Rightarrow> handle_depth be d l)
          else if event_type = ''aggTrade''
          then emit_opt (do { t \<leftarrow> be_agg_trade be payload; read_agg_trade t }) l
          else l)"

definition read_order_update :: "order_trade_update_order \<Rightarrow> listener_event option" where
  "read_order_update u = do {
     price \<leftarrow> sd (ou_p u); orig \<leftarrow> sd (ou_q u); cum \<leftarrow> sd (ou_z u);
     let d = execution_data_init\<lparr>ed_update_position_on_fill := False, ed_order_no := to_string (ou_i u),
               ed_client_order_id := ou_c u, ed_is_bid := (ou_S u = ''BUY''), ed_order_price := Some price\<rparr>
     in if ou_x u = ''NEW''
        then Some (ExecutionEvent (ou_s u)
               (d\<lparr>ed_is_accept_data := True, ed_is_place := True, ed_is_accepted := True, ed_order_qty := Some orig\<rparr>))
        else if ou_x u = ''CANCELED'' \<or> ou_x u = ''EXPIRED''
        then Some (ExecutionEvent (ou_s u)
               (d\<lparr>ed_is_accept_data := True, ed_is_cancel := True, ed_original_order_no := ed_order_no d,
                  ed_order_qty := Some (d_sub orig cum)\<rparr>))
        else if ou_x u = ''TRADE''
        then do { xp \<leftarrow> sd (ou_L u); xq \<leftarrow> sd (ou_l u);
                  Some (ExecutionEvent (ou_s u)
                    (d\<lparr>ed_is_executed := True, ed_execute_price := Some xp, ed_execute_qty := Some xq\<rparr>)) }
        else None }"

text \<open>The two loops of an account update emit as they go, so an exception keeps what went before.\<close>

fun emit_account :: "(product \<times> string) list \<Rightarrow> binance_listener \<Rightarrow> bool \<times> binance_listener" where
  "emit_account [] l = (True, l)"
| "emit_account ((p, t) # rest) l =
     (case sd t of None \<Rightarrow> (False, l)
      | Some x \<Rightarrow> emit_account rest (bl_emit (PositionEvent p \<lparr>pd_balance = Some x, pd_available_balance = None\<rparr>) l))"

definition handle_account_update :: "account_update \<Rightarrow> binance_listener \<Rightarrow> binance_listener" where
  "handle_account_update u l =
     (case emit_account (map (\<lambda>b. (ab_a b, ab_wb b)) (au_B u)) l of (ok, l1) \<Rightarrow>
        if \<not> ok then l1 else snd (emit_account (map (\<lambda>p. (ap_s p, ap_pa p)) (au_P u)) l1))"

definition handle_user_payload :: "'j bl_env \<Rightarrow> string \<Rightarrow> binance_listener \<Rightarrow> binance_listener" where
  "handle_user_payload be payload l =
     (case be_classify_user be payload of
        None \<Rightarrow> l
      | Some e \<Rightarrow>
          if e = ''ORDER_TRADE_UPDATE''
          then emit_opt (do { u \<leftarrow> be_order_update be payload; read_order_update u }) l
          else if e = ''ACCOUNT_UPDATE''
          then (case be_account_update be payload of None \<Rightarrow> l | Some u \<Rightarrow> handle_account_update u l)
          else l)"

definition worker_event :: "'j bl_env \<Rightarrow> ws_queue_event \<Rightarrow> binance_listener \<Rightarrow> binance_listener" where
  "worker_event be ev l =
     (case ev of
        WsStatus so connecting opened \<Rightarrow> on_ws_status be so connecting opened l
      | WsPayload so payload \<Rightarrow>
          if so = UserSocket then handle_user_payload be payload l else handle_market_payload be payload l)"

text \<open>One round of \<open>worker_loop\<close>: the event is dropped when the listener stopped meanwhile.\<close>

definition worker_round :: "'j bl_env \<Rightarrow> binance_listener \<Rightarrow> binance_listener" where
  "worker_round be l =
     (case bl_ws_event_queue l of
        [] \<Rightarrow> l
      | ev # rest \<Rightarrow>
          let l1 = l\<lparr>bl_ws_event_queue := rest\<rparr> in if bl_running l1 then worker_event be ev l1 else l1)"

end
