(* ===== verification/Listener_Properties.thy ===== *)
theory Listener_Properties
  imports Binance_Listener
begin

text \<open>
  What the Binance adapter keeps in every run: its sockets are never left without a client and
  without a redial, its books keep their invariant, a depth update is either applied and published or answered by a resync, and no execution it
  publishes asks the trader to move its position.
\<close>

section \<open>What the operations leave alone\<close>

text \<open>The part of the state the redial machinery lives in.\<close>

definition sock_view ::
  "binance_listener \<Rightarrow> redial \<times> redial \<times> redial \<times> ws_queue_event list \<times> bool \<times> bool" where
  "sock_view l = (bl_market l, bl_trade l, bl_user l, bl_ws_event_queue l, bl_running l, bl_start_posted l)"

lemma sock_viewD:
  "sock_view l = sock_view l' \<Longrightarrow> socket_redial so l = socket_redial so l'"
  "sock_view l = sock_view l' \<Longrightarrow> bl_ws_event_queue l = bl_ws_event_queue l'"
  "sock_view l = sock_view l' \<Longrightarrow> bl_running l = bl_running l'"
  "sock_view l = sock_view l' \<Longrightarrow> bl_start_posted l = bl_start_posted l'"
  by (cases so; simp add: sock_view_def)+

lemma sock_view_upd [simp]:
  "sock_view (bl_emit e l) = sock_view l" "sock_view (set_book p ob l) = sock_view l"
  "sock_view (l\<lparr>bl_net := n\<rparr>) = sock_view l" "sock_view (l\<lparr>bl_filters := fs\<rparr>) = sock_view l"
  "sock_view (l\<lparr>bl_market_opened := b\<rparr>) = sock_view l" "sock_view (l\<lparr>bl_trade_opened := b\<rparr>) = sock_view l"
  "sock_view (l\<lparr>bl_user_opened := b\<rparr>) = sock_view l" "sock_view (l\<lparr>bl_listen_key := k\<rparr>) = sock_view l"
  "sock_view (l\<lparr>bl_keepalive := b\<rparr>) = sock_view l" "sock_view (l\<lparr>bl_dials := ds\<rparr>) = sock_view l"
  by (simp_all add: sock_view_def bl_emit_def set_book_def)

lemma sock_view_fold: "(\<And>x l. sock_view (f x l) = sock_view l) \<Longrightarrow> sock_view (fold f xs l) = sock_view l"
  by (induction xs arbitrary: l) simp_all

lemma sock_view_emit_opt [simp]: "sock_view (emit_opt e l) = sock_view l"
  by (simp add: emit_opt_def split: option.splits)

lemma sock_view_resync [simp]: "sock_view (resync_order_book be p l) = sock_view l"
  by (simp add: resync_order_book_def Let_def split: prod.splits)

lemma sock_view_market_open [simp]: "sock_view (on_market_open be l) = sock_view l"
  by (simp add: on_market_open_def sock_view_fold)

lemma sock_view_user_state [simp]: "sock_view (publish_user_state be l) = sock_view l"
  by (simp add: publish_user_state_def Let_def sock_view_fold split: prod.splits)

lemma sock_view_product_info [simp]: "sock_view (publish_product_info be l) = sock_view l"
  by (simp add: publish_product_info_def sock_view_fold split: prod.splits)

lemma sock_view_emit_account [simp]: "sock_view (snd (emit_account xs l)) = sock_view l"
  by (induction xs l rule: emit_account.induct) (simp_all split: option.splits)

lemma sock_view_account [simp]: "sock_view (handle_account_update u l) = sock_view l"
proof -
  obtain ok l1 where e: "emit_account (map (\<lambda>b. (ab_a b, ab_wb b)) (au_B u)) l = (ok, l1)"
    by (cases "emit_account (map (\<lambda>b. (ab_a b, ab_wb b)) (au_B u)) l")
  then have "sock_view l1 = sock_view l"
    using sock_view_emit_account [of "map (\<lambda>b. (ab_a b, ab_wb b)) (au_B u)" l] by simp
  with e show ?thesis by (simp add: handle_account_update_def)
qed

lemma sock_view_depth [simp]: "sock_view (handle_depth be d l) = sock_view l"
  by (simp add: handle_depth_def Let_def split: option.splits prod.splits)

lemma sock_view_payloads [simp]:
  "sock_view (handle_market_payload be payload l) = sock_view l"
  "sock_view (handle_user_payload be payload l) = sock_view l"
  by (simp_all add: handle_market_payload_def handle_user_payload_def split: option.splits)

lemma socket_redial_upd:
  "socket_redial so (upd_redial so' f l) = (if so = so' then f (socket_redial so l) else socket_redial so l)"
  "bl_ws_event_queue (upd_redial so' f l) = bl_ws_event_queue l" "bl_running (upd_redial so' f l) = bl_running l"
  "bl_start_posted (upd_redial so' f l) = bl_start_posted l" "bl_net (upd_redial so' f l) = bl_net l"
  by (cases so; cases so'; simp)+

section \<open>The sockets\<close>

inductive bl_step :: "'j bl_env \<Rightarrow> binance_listener \<Rightarrow> binance_listener \<Rightarrow> bool" for be where
  start: "bl_start_posted l \<Longrightarrow> bl_step be l (bl_run_start be l)"
| socket: "rd_client (socket_redial so l) = Some c \<Longrightarrow> ws_enabled e c \<Longrightarrow> bl_step be l (bl_socket_event so e c l)"
| message: "rd_client (socket_redial so l) \<noteq> None \<Longrightarrow> bl_step be l (bl_socket_message so payload l)"
| schedule: "rd_posted (socket_redial so l) \<noteq> 0 \<Longrightarrow> bl_step be l (schedule_socket so l)"
| timer: "rd_timer (socket_redial so l) \<noteq> None \<Longrightarrow> bl_step be l (bl_on_timer be so False l)"
| worker: "bl_ws_event_queue l \<noteq> [] \<Longrightarrow> bl_step be l (worker_round be l)"
| keepalive: "bl_keepalive l \<Longrightarrow> bl_step be l (bl_on_keepalive be False l)"
| product_info: "bl_step be l (publish_product_info be l)"
| user_state: "bl_step be l (publish_user_state be l)"

definition bl_reach :: "'j bl_env \<Rightarrow> binance_listener \<Rightarrow> bool" where
  "bl_reach be l \<longleftrightarrow> (bl_step be)\<^sup>*\<^sup>* (bl_start (make_binance_listener be)) l"

definition socket_used :: "'j bl_env \<Rightarrow> socket \<Rightarrow> bool" where
  "socket_used be so \<longleftrightarrow> so \<noteq> UserSocket \<or> re_keys (be_rest be) \<noteq> None"

definition socket_ok :: "'j bl_env \<Rightarrow> socket \<Rightarrow> binance_listener \<Rightarrow> bool" where
  "socket_ok be so l \<longleftrightarrow> redial_ok (socket_redial so l)
     \<and> (bl_running l \<longrightarrow> bl_start_posted l \<or> \<not> socket_used be so \<or> client_live (socket_redial so l)
         \<or> rd_pending (socket_redial so l) \<or> WsStatus so False False \<in> set (bl_ws_event_queue l))"

lemma socket_ok_view: "sock_view l = sock_view l' \<Longrightarrow> socket_ok be so l = socket_ok be so l'"
  by (simp add: socket_ok_def sock_viewD [of l l'])

lemma new_client_live: "new_ws_client throws = (ns, c) \<Longrightarrow> wc_connecting c \<and> ws_inv c"
  using new_ws_client_inv [of throws]
  by (auto simp: new_ws_client_def init_connection_def Let_def split: if_splits)

text \<open>Dialling keeps the invariant of every socket, and makes the dialled one live.\<close>

lemma dial_socket_ok:
  assumes "redial_ok (socket_redial so l)"
  shows "socket_ok be so (dial_socket be so url l)"
    "so' \<noteq> so \<Longrightarrow> socket_ok be so' l \<Longrightarrow> socket_ok be so' (dial_socket be so url l)"
proof -
  obtain ns c where nc: "new_ws_client (be_dial_throws be (length (bl_dials l))) = (ns, c)"
    by (cases "new_ws_client (be_dial_throws be (length (bl_dials l)))")
  note c = new_client_live [OF nc]
  have r: "socket_redial s (l\<lparr>bl_dials := d, bl_ws_event_queue := q\<rparr>) = socket_redial s l" for s d q
    by (cases s) simp_all
  show "socket_ok be so (dial_socket be so url l)"
    using assms c by (simp add: dial_socket_def nc socket_ok_def socket_redial_upd r redial_ok_install)
  show "socket_ok be so' (dial_socket be so url l)" if "so' \<noteq> so" "socket_ok be so' l"
    using that by (auto simp: dial_socket_def nc socket_ok_def socket_redial_upd r)
qed

lemma create_user_ok:
  assumes "redial_ok (bl_user l)"
  shows "socket_ok be UserSocket (create_user_client be l)"
    "so' \<noteq> UserSocket \<Longrightarrow> socket_ok be so' l \<Longrightarrow> socket_ok be so' (create_user_client be l)"
proof -
  obtain key n where k: "create_listen_key (be_rest be) (bl_net l) = (key, n)"
    by (cases "create_listen_key (be_rest be) (bl_net l)")
  let ?l = "l\<lparr>bl_listen_key := key, bl_net := n\<rparr>"
  have v: "socket_redial so ?l = socket_redial so l" for so by (cases so) simp_all
  have ok: "socket_ok be so ?l = socket_ok be so l" for so by (rule socket_ok_view) simp
  have d: "redial_ok (socket_redial UserSocket ?l)" using assms by simp
  note dial = dial_socket_ok [OF d]
  show "socket_ok be UserSocket (create_user_client be l)"
    using assms dial(1) by (auto simp: create_user_client_def k Let_def socket_ok_def redial_ok_request)
  show "socket_ok be so' (create_user_client be l)" if "so' \<noteq> UserSocket" "socket_ok be so' l"
    using that dial(2) [of so' be] ok [of so']
    by (cases so') (auto simp: create_user_client_def k Let_def socket_ok_def)
qed

lemma create_socket_ok:
  assumes "redial_ok (socket_redial so l)"
  shows "socket_ok be so (create_socket be so l)"
    "so' \<noteq> so \<Longrightarrow> socket_ok be so' l \<Longrightarrow> socket_ok be so' (create_socket be so l)"
proof -
  have user: "redial_ok (bl_user l)" if "so = UserSocket" using assms that by simp
  show "socket_ok be so (create_socket be so l)"
    using dial_socket_ok(1) [OF assms] create_user_ok(1) [OF user]
    by (cases so) (simp_all add: create_market_client_def create_trade_client_def)
  show "socket_ok be so' (create_socket be so l)" if "so' \<noteq> so" "socket_ok be so' l"
    using dial_socket_ok(2) [OF assms that] create_user_ok(2) [OF user] that
    by (cases so) (simp_all add: create_market_client_def create_trade_client_def)
qed

text \<open>The worker: a status that reports a socket down requests its redial before it is dropped.\<close>

lemma on_ws_status_view:
  "sock_view (on_ws_status be so connecting opened l) =
     sock_view (if opened then (if (case so of MarketSocket \<Rightarrow> bl_market_opened l | TradeSocket \<Rightarrow> bl_trade_opened l
                                     | UserSocket \<Rightarrow> bl_user_opened l) then l else upd_redial so redial_reset_cnt l)
                else if connecting then l else upd_redial so redial_request l)"
  by (cases so) (simp_all add: on_ws_status_def Let_def on_user_open_def)

lemma worker_event_ok:
  assumes "socket_ok be so l0" "bl_ws_event_queue l0 = ev # rest" "bl_running l0"
  shows "socket_ok be so (worker_event be ev (l0\<lparr>bl_ws_event_queue := rest\<rparr>))"
proof -
  let ?l = "l0\<lparr>bl_ws_event_queue := rest\<rparr>"
  have r: "socket_redial s ?l = socket_redial s l0" for s by (cases s) simp_all
  show ?thesis
  proof (cases ev)
    case (WsPayload so' payload)
    have "socket_ok be so ?l" using assms by (auto simp: socket_ok_def r WsPayload)
    moreover have "sock_view (worker_event be ev ?l) = sock_view ?l" by (simp add: WsPayload worker_event_def)
    ultimately show ?thesis by (simp add: socket_ok_view [of "worker_event be ev ?l" ?l])
  next
    case (WsStatus so' connecting opened)
    define l' where "l' = (if opened then (if (case so' of MarketSocket \<Rightarrow> bl_market_opened ?l | TradeSocket \<Rightarrow> bl_trade_opened ?l
                                     | UserSocket \<Rightarrow> bl_user_opened ?l) then ?l else upd_redial so' redial_reset_cnt ?l)
                else if connecting then ?l else upd_redial so' redial_request ?l)"
    have "sock_view (worker_event be ev ?l) = sock_view l'"
      unfolding l'_def WsStatus worker_event_def ws_queue_event.case by (rule on_ws_status_view)
    moreover have "socket_ok be so l'"
      using assms by (auto simp: l'_def socket_ok_def socket_redial_upd r WsStatus redial_ok_request redial_ok_reset_cnt)
    ultimately show ?thesis by (simp add: socket_ok_view [of "worker_event be ev ?l" l'])
  qed
qed

lemma dial_socket_other:
  "so' \<noteq> so \<Longrightarrow> socket_redial so' (dial_socket be so url l) = socket_redial so' l"
  "bl_running (dial_socket be so url l) = bl_running l" "bl_start_posted (dial_socket be so url l) = bl_start_posted l"
proof -
  have r: "socket_redial s (l\<lparr>bl_dials := d, bl_ws_event_queue := q\<rparr>) = socket_redial s l" for s d q
    by (cases s) simp_all
  show "so' \<noteq> so \<Longrightarrow> socket_redial so' (dial_socket be so url l) = socket_redial so' l"
    "bl_running (dial_socket be so url l) = bl_running l" "bl_start_posted (dial_socket be so url l) = bl_start_posted l"
    by (simp_all add: dial_socket_def socket_redial_upd r split: prod.splits)
qed

lemma socket_event_ok:
  assumes "socket_ok be so' l" "rd_client (socket_redial so l) = Some c" "redial_ok (socket_redial so l)" "ws_enabled e c"
  shows "socket_ok be so' (bl_socket_event so e c l)"
proof -
  obtain ns c' where h: "ws_handle e c = (ns, c')" by (cases "ws_handle e c")
  have c: "ws_inv c" using assms(2,3) by (simp add: redial_ok_def)
  have c': "ws_inv c'" using ws_handle_inv [OF c assms(4)] h by simp
  have r: "socket_redial s (l\<lparr>bl_ws_event_queue := q\<rparr>) = socket_redial s l" for s q by (cases s) simp_all
  show ?thesis
  proof (cases "so' = so")
    case False
    with assms(1) h show ?thesis by (auto simp: bl_socket_event_def socket_ok_def socket_redial_upd r)
  next
    case True
    consider "ns = []" "ws_notify c' = ws_notify c" | "ns = [ws_notify c']"
      using ws_handle_notes [OF c assms(4) h] by blast
    then show ?thesis
    proof cases
      case 1
      with assms(1-3) True h c' show ?thesis
        by (auto simp: bl_socket_event_def socket_ok_def socket_redial_upd r redial_ok_install client_live_def ws_notify_def)
    next
      case 2
      with assms(1-3) True h c' show ?thesis
        by (cases "wc_connecting c' \<or> wc_opened c'")
          (auto simp: bl_socket_event_def socket_ok_def socket_redial_upd r redial_ok_install ws_notify_def)
    qed
  qed
qed

lemma run_start_ok:
  assumes "\<forall>so. socket_ok be so l"
  shows "socket_ok be so (bl_run_start be l)"
proof -
  let ?l0 = "l\<lparr>bl_start_posted := False\<rparr>"
  let ?l1 = "create_market_client be ?l0"
  let ?l2 = "create_trade_client be ?l1"
  have ok0: "redial_ok (socket_redial s ?l0)" for s using assms [rule_format, of s] by (cases s) (simp_all add: socket_ok_def)
  have m: "socket_ok be MarketSocket ?l1" using create_socket_ok(1) [OF ok0 [of MarketSocket]] by simp
  have m': "redial_ok (socket_redial TradeSocket ?l1)" "redial_ok (socket_redial UserSocket ?l1)"
    using dial_socket_other(1) [of TradeSocket MarketSocket be] dial_socket_other(1) [of UserSocket MarketSocket be]
      ok0 [of TradeSocket] ok0 [of UserSocket] by (simp_all add: create_market_client_def)
  have t: "socket_ok be TradeSocket ?l2" "socket_ok be MarketSocket ?l2"
    using create_socket_ok(1) [OF m'(1)] create_socket_ok(2) [OF m'(1) _ m] by simp_all
  have t': "redial_ok (bl_user ?l2)"
    using dial_socket_other(1) [of UserSocket TradeSocket be] m'(2) by (simp add: create_trade_client_def)
  have "socket_ok be s (create_user_client be ?l2)" for s
    using create_user_ok(1) [OF t'] create_user_ok(2) [OF t' _ t(1)] create_user_ok(2) [OF t' _ t(2)] by (cases s) simp_all
  moreover have "socket_ok be s ?l2" if "re_keys (be_rest be) = None" for s
    using t t' that by (cases s) (simp_all add: socket_ok_def socket_used_def)
  ultimately show ?thesis
    by (cases "re_keys (be_rest be)")
      (simp_all add: bl_run_start_def Let_def schedule_keepalive_def socket_ok_view [of "X\<lparr>bl_keepalive := b\<rparr>" X for X b])
qed

lemma bl_step_ok:
  assumes "bl_step be l l'" "\<forall>so. socket_ok be so l"
  shows "socket_ok be so' l'"
  using assms
proof (induction rule: bl_step.induct)
  case (start l)
  then show ?case by (simp add: run_start_ok)
next
  case (socket so l c e)
  then show ?case using socket_event_ok [of be so' l so c e] by (simp add: socket_ok_def)
next
  case (message so l payload)
  have "socket_redial s (l\<lparr>bl_ws_event_queue := q\<rparr>) = socket_redial s l" for s q by (cases s) simp_all
  with message show ?case by (auto simp: bl_socket_message_def socket_ok_def)
next
  case (schedule so l)
  then have "redial_ok (socket_redial so l)" "socket_ok be so' l" by (simp_all add: socket_ok_def)
  moreover from this schedule(1) have "rd_pending (socket_redial so l)" by (auto simp: redial_ok_def split: if_splits)
  moreover have "schedule_socket so l = upd_redial so redial_schedule l"
    by (cases so) (simp_all add: schedule_market_reconnect_def schedule_trade_reconnect_def schedule_user_reconnect_def)
  ultimately show ?case using schedule(1) by (auto simp: socket_ok_def socket_redial_upd redial_ok_schedule)
next
  case (timer so l)
  let ?l = "upd_redial so redial_expired l"
  have ok: "redial_ok (socket_redial so ?l)" using timer by (simp add: socket_redial_upd socket_ok_def redial_ok_expired)
  have other: "socket_ok be so' ?l" if "so' \<noteq> so" using timer(2) that by (simp add: socket_ok_def socket_redial_upd)
  show ?case
  proof (cases "bl_running l")
    case True
    with create_socket_ok [OF ok] other show ?thesis
      by (cases "so' = so") (simp_all add: bl_on_timer_def socket_redial_upd Let_def)
  next
    case False
    with ok other show ?thesis
      by (cases "so' = so") (simp_all add: bl_on_timer_def socket_redial_upd Let_def socket_ok_def)
  qed
next
  case (worker l)
  then obtain ev rest where q: "bl_ws_event_queue l = ev # rest" by (cases "bl_ws_event_queue l") auto
  have r: "socket_redial s (l\<lparr>bl_ws_event_queue := rest\<rparr>) = socket_redial s l" for s by (cases s) simp_all
  show ?case
  proof (cases "bl_running l")
    case True
    with worker_event_ok [of be so' l, OF _ q] worker(2) q show ?thesis by (simp add: worker_round_def Let_def)
  next
    case False
    with worker(2) q show ?thesis by (simp add: worker_round_def Let_def socket_ok_def r)
  qed
next
  case (keepalive l)
  have "sock_view (bl_on_keepalive be False l) = sock_view l"
    by (simp add: bl_on_keepalive_def schedule_keepalive_def Let_def)
  then show ?case using keepalive(2) socket_ok_view by blast
next
  case (product_info l)
  then show ?case by (simp add: socket_ok_view [of "publish_product_info be l" l])
next
  case (user_state l)
  then show ?case by (simp add: socket_ok_view [of "publish_user_state be l" l])
qed

lemma bl_add_spec_view: "sock_view (fold bl_add_spec specs l) = sock_view l"
  by (rule sock_view_fold) (simp add: sock_view_def split: category.splits)

lemma bl_start_ok: "socket_ok be so (bl_start (make_binance_listener be))"
proof -
  have "sock_view (make_binance_listener be) = (redial_init, redial_init, redial_init, [], False, False)"
    unfolding make_binance_listener_def bl_add_spec_view by (simp add: sock_view_def)
  then show ?thesis by (cases so) (simp_all add: bl_start_def socket_ok_def sock_view_def)
qed

lemma bl_reach_ok: "bl_reach be l \<Longrightarrow> socket_ok be so l"
proof -
  assume "bl_reach be l"
  then have "\<forall>so. socket_ok be so l" unfolding bl_reach_def
    by (induction rule: rtranclp_induct) (auto intro: bl_step_ok bl_start_ok)
  then show ?thesis by simp
qed

text \<open>When no dial throws, every owned client has its socket thread.\<close>

definition thread_ok :: "redial \<Rightarrow> bool" where
  "thread_ok r \<longleftrightarrow> (case rd_client r of None \<Rightarrow> True | Some c \<Rightarrow> wc_thread c)"

definition threads_ok :: "binance_listener \<Rightarrow> bool" where
  "threads_ok l \<longleftrightarrow> thread_ok (bl_market l) \<and> thread_ok (bl_trade l) \<and> thread_ok (bl_user l) \<and> bl_running l"

lemma thread_ok_ops [simp]:
  "thread_ok (redial_request r) = thread_ok r" "thread_ok (redial_schedule r)" "thread_ok (redial_expired r) = thread_ok r"
  "thread_ok (redial_install c r) = wc_thread c" "thread_ok (redial_reset_cnt r) = thread_ok r" "thread_ok redial_init"
  by (simp_all add: thread_ok_def redial_init_def)

lemma threads_ok_view: "sock_view l = sock_view l' \<Longrightarrow> threads_ok l = threads_ok l'"
  by (simp add: threads_ok_def sock_view_def)

lemma threads_ok_redial: "threads_ok l \<Longrightarrow> thread_ok (f (socket_redial so l)) \<Longrightarrow> threads_ok (upd_redial so f l)"
  by (cases so) (simp_all add: threads_ok_def)

lemma threads_ok_upd [simp]:
  "threads_ok (l\<lparr>bl_ws_event_queue := q\<rparr>) = threads_ok l" "threads_ok (l\<lparr>bl_dials := d\<rparr>) = threads_ok l"
  "threads_ok (l\<lparr>bl_start_posted := b\<rparr>) = threads_ok l" "threads_ok (l\<lparr>bl_keepalive := b\<rparr>) = threads_ok l"
  "threads_ok (l\<lparr>bl_listen_key := k\<rparr>) = threads_ok l" "threads_ok (l\<lparr>bl_net := n\<rparr>) = threads_ok l"
  by (simp_all add: threads_ok_def)

lemma threads_ok_client: "threads_ok l \<Longrightarrow> thread_ok (socket_redial so l)"
  by (cases so) (simp_all add: threads_ok_def)

lemma dial_socket_threads: "\<forall>n. \<not> be_dial_throws be n \<Longrightarrow> threads_ok l \<Longrightarrow> threads_ok (dial_socket be so url l)"
  by (simp add: dial_socket_def new_ws_client_def init_connection_def Let_def threads_ok_redial)

lemma threads_ok_user:
  "threads_ok l \<Longrightarrow> threads_ok (l\<lparr>bl_listen_key := k, bl_net := n, bl_user := redial_request (bl_user l)\<rparr>)"
  by (simp add: threads_ok_def)

lemma create_socket_threads: "\<forall>n. \<not> be_dial_throws be n \<Longrightarrow> threads_ok l \<Longrightarrow> threads_ok (create_socket be so l)"
  by (cases so)
    (simp_all add: create_market_client_def create_trade_client_def create_user_client_def Let_def
      dial_socket_threads threads_ok_user split: prod.splits)

lemma worker_event_threads: "threads_ok l \<Longrightarrow> threads_ok (worker_event be ev l)"
proof (cases ev)
  case (WsStatus so connecting opened)
  assume "threads_ok l"
  then have "threads_ok (upd_redial so redial_reset_cnt l)" "threads_ok (upd_redial so redial_request l)"
    using threads_ok_client [of l so] by (simp_all add: threads_ok_redial)
  with \<open>threads_ok l\<close> show ?thesis
    using threads_ok_view [OF on_ws_status_view [of be so connecting opened l]]
    by (auto simp: WsStatus worker_event_def split: if_splits)
next
  case (WsPayload so payload)
  assume "threads_ok l"
  moreover have "sock_view (worker_event be ev l) = sock_view l" by (simp add: WsPayload worker_event_def)
  ultimately show ?thesis using threads_ok_view by blast
qed

lemma bl_step_threads: "bl_step be l l' \<Longrightarrow> \<forall>n. \<not> be_dial_throws be n \<Longrightarrow> threads_ok l \<Longrightarrow> threads_ok l'"
proof (induction rule: bl_step.induct)
  case (start l)
  then show ?case
    using create_socket_threads [of be _ MarketSocket] create_socket_threads [of be _ TradeSocket]
      create_socket_threads [of be _ UserSocket]
    by (simp add: bl_run_start_def schedule_keepalive_def Let_def)
next
  case (socket so l c e)
  then have "wc_thread c" using threads_ok_client [of l so] by (simp add: thread_ok_def)
  then show ?case using socket(4) ws_handle_thread [of e c]
    by (cases "ws_handle e c") (simp add: bl_socket_event_def threads_ok_redial)
next
  case (message so l payload)
  then show ?case by (simp add: bl_socket_message_def)
next
  case (schedule so l)
  then show ?case
    by (cases so) (simp_all add: schedule_market_reconnect_def schedule_trade_reconnect_def
        schedule_user_reconnect_def threads_ok_def)
next
  case (timer so l)
  then show ?case
    using threads_ok_client [of l so] by (simp add: bl_on_timer_def create_socket_threads threads_ok_redial Let_def)
next
  case (worker l)
  then show ?case by (simp add: worker_round_def worker_event_threads Let_def split: list.splits)
next
  case (keepalive l)
  then show ?case by (simp add: bl_on_keepalive_def schedule_keepalive_def Let_def)
next
  case (product_info l)
  then show ?case using threads_ok_view [of "publish_product_info be l" l] by simp
next
  case (user_state l)
  then show ?case using threads_ok_view [of "publish_user_state be l" l] by simp
qed

lemma bl_reach_threads:
  assumes "bl_reach be l" "\<forall>n. \<not> be_dial_throws be n"
  shows "threads_ok l"
proof -
  have "sock_view (make_binance_listener be) = (redial_init, redial_init, redial_init, [], False, False)"
    unfolding make_binance_listener_def bl_add_spec_view by (simp add: sock_view_def)
  then have "threads_ok (bl_start (make_binance_listener be))" by (simp add: bl_start_def threads_ok_def sock_view_def)
  with assms(1) show ?thesis unfolding bl_reach_def
    by (induction rule: rtranclp_induct) (auto intro: bl_step_threads [OF _ assms(2)])
qed

section \<open>What is published\<close>

text \<open>
  Every book is one that snapshots, diffs and desync marks can produce (what is published of it is in
  \<open>Published_Books\<close>); an execution event is an acceptance, a cancel or an adoption of an order, or a
  fill that leaves the position to the account stream.
\<close>

fun event_ok :: "'j bl_env \<Rightarrow> listener_event \<Rightarrow> bool" where
  "event_ok be (ExecutionEvent p d) \<longleftrightarrow> ed_is_accept_data d \<or> \<not> ed_update_position_on_fill d"
| "event_ok be _ \<longleftrightarrow> True"

definition pub_ok :: "'j bl_env \<Rightarrow> binance_listener \<Rightarrow> bool" where
  "pub_ok be l \<longleftrightarrow> (\<forall>p ob. map_of (bl_order_books l) p = Some ob \<longrightarrow> book_reach ob)
     \<and> list_all (event_ok be) (bl_event_queue l)"

lemma pub_ok_upd [simp]:
  "pub_ok be (l\<lparr>bl_net := n\<rparr>) = pub_ok be l" "pub_ok be (l\<lparr>bl_filters := fs\<rparr>) = pub_ok be l"
  "pub_ok be (l\<lparr>bl_market_opened := b\<rparr>) = pub_ok be l" "pub_ok be (l\<lparr>bl_trade_opened := b\<rparr>) = pub_ok be l"
  "pub_ok be (l\<lparr>bl_user_opened := b\<rparr>) = pub_ok be l" "pub_ok be (l\<lparr>bl_listen_key := k\<rparr>) = pub_ok be l"
  "pub_ok be (l\<lparr>bl_keepalive := b\<rparr>) = pub_ok be l" "pub_ok be (l\<lparr>bl_dials := ds\<rparr>) = pub_ok be l"
  "pub_ok be (l\<lparr>bl_ws_event_queue := q\<rparr>) = pub_ok be l" "pub_ok be (l\<lparr>bl_start_posted := b\<rparr>) = pub_ok be l"
  "pub_ok be (l\<lparr>bl_market := r\<rparr>) = pub_ok be l" "pub_ok be (l\<lparr>bl_trade := r\<rparr>) = pub_ok be l"
  "pub_ok be (l\<lparr>bl_user := r\<rparr>) = pub_ok be l" "pub_ok be (upd_redial so f l) = pub_ok be l"
  by (cases so; simp add: pub_ok_def)+

lemma pub_ok_emit [simp]: "pub_ok be (bl_emit ev l) \<longleftrightarrow> pub_ok be l \<and> event_ok be ev"
  by (auto simp: pub_ok_def bl_emit_def)

lemma pub_ok_fold: "(\<And>x l. x \<in> set xs \<Longrightarrow> pub_ok be l \<Longrightarrow> pub_ok be (f x l)) \<Longrightarrow> pub_ok be l \<Longrightarrow> pub_ok be (fold f xs l)"
  by (induction xs arbitrary: l) simp_all

lemma pub_ok_book: "pub_ok be l \<Longrightarrow> book_reach (book_of l p)"
  using book_reach.init by (simp add: pub_ok_def book_of_def om_at_def split: option.splits)

lemma pub_ok_set_book: "pub_ok be l \<Longrightarrow> book_reach ob \<Longrightarrow> pub_ok be (set_book p ob l)"
  by (auto simp: pub_ok_def set_book_def om_simps)

lemma book_of_net [simp]: "book_of (l\<lparr>bl_net := n\<rparr>) p = book_of l p"
  by (simp add: book_of_def)

lemma resync_pub: "pub_ok be l \<Longrightarrow> pub_ok be (resync_order_book be p l)"
proof -
  assume l: "pub_ok be l"
  let ?l1 = "set_book p (mark_desynced (book_of l p)) l"
  have l1: "pub_ok be ?l1" using l by (simp add: pub_ok_set_book book_reach.desync pub_ok_book)
  obtain snap n where s: "fetch_depth (be_rest be) p 1000 (bl_net ?l1) = (snap, n)"
    by (cases "fetch_depth (be_rest be) p 1000 (bl_net ?l1)")
  let ?ob = "apply_snapshot (ds_last_update_id snap) (ds_bids snap) (ds_asks snap) (book_of ?l1 p)"
  have ob: "book_reach ?ob" by (rule book_reach.snapshot [OF pub_ok_book [OF l1]])
  show ?thesis using l1 ob by (simp add: resync_order_book_def s Let_def pub_ok_set_book)
qed

lemma emit_opt_pub: "pub_ok be l \<Longrightarrow> (\<And>e. ev = Some e \<Longrightarrow> event_ok be e) \<Longrightarrow> pub_ok be (emit_opt ev l)"
  by (simp add: emit_opt_def split: option.splits)

lemma emit_bind_pub: "(\<And>t e. g t = Some e \<Longrightarrow> event_ok be e) \<Longrightarrow> pub_ok be l \<Longrightarrow> pub_ok be (emit_opt (Option.bind x g) l)"
  by (cases x) (auto simp: emit_opt_def simp del: event_ok.simps split: option.splits)

lemma order_update_ok: "read_order_update u = Some e \<Longrightarrow> event_ok be e"
  by (auto simp: read_order_update_def Let_def split: Option.bind_splits if_splits)

lemma agg_trade_ok: "read_agg_trade t = Some e \<Longrightarrow> event_ok be e"
  by (auto simp: read_agg_trade_def split: Option.bind_splits)

lemma book_ticker_ok: "read_book_ticker t = Some e \<Longrightarrow> event_ok be e"
  by (auto simp: read_book_ticker_def split: Option.bind_splits)

lemma emit_stream_pub:
  assumes "pub_ok be l"
  shows "pub_ok be (emit_opt (Option.bind x1 read_book_ticker) l)" "pub_ok be (emit_opt (Option.bind x2 read_agg_trade) l)"
    "pub_ok be (emit_opt (Option.bind x3 read_order_update) l)"
  by (rule emit_bind_pub [OF _ assms]; erule book_ticker_ok agg_trade_ok order_update_ok)+

lemma depth_pub: "pub_ok be l \<Longrightarrow> pub_ok be (handle_depth be d l)"
proof -
  assume l: "pub_ok be l"
  have diff: "book_reach (snd (apply_diff df (book_of l (du_s d))))" for df
    by (rule book_reach.diff [OF pub_ok_book [OF l]])
  then have "pub_ok be (set_book (du_s d) ob l)" "book_reach ob"
    if "apply_diff df (book_of l (du_s d)) = (ok, ob)" for df ok ob
    using that l by (metis pub_ok_set_book snd_conv)+
  with l show ?thesis
    by (auto simp: handle_depth_def Let_def resync_pub split: option.splits prod.splits)
qed

lemma account_pub: "pub_ok be l \<Longrightarrow> pub_ok be (snd (emit_account xs l))"
  by (induction xs l rule: emit_account.induct) (simp_all split: option.splits)

lemma payload_pub:
  assumes "pub_ok be l"
  shows "pub_ok be (handle_market_payload be payload l)" "pub_ok be (handle_user_payload be payload l)"
proof -
  show "pub_ok be (handle_market_payload be payload l)"
    using assms by (simp add: handle_market_payload_def depth_pub emit_stream_pub split: option.splits)
  have "pub_ok be (handle_account_update u l)" for u
  proof (cases "emit_account (map (\<lambda>b. (ab_a b, ab_wb b)) (au_B u)) l")
    case (Pair ok l1)
    then have "pub_ok be l1" using account_pub [OF assms, of "map (\<lambda>b. (ab_a b, ab_wb b)) (au_B u)"] by simp
    with Pair show ?thesis by (simp add: handle_account_update_def account_pub)
  qed
  with assms show "pub_ok be (handle_user_payload be payload l)"
    by (simp add: handle_user_payload_def emit_stream_pub split: option.splits)
qed

lemma open_orders_ok: "e \<in> set (fst (fetch_open_orders re n)) \<Longrightarrow> ed_is_accept_data (snd e)"
proof -
  have "e \<in> set (snd (collect_items f js)) \<Longrightarrow> \<exists>j xs. f j = Some xs \<and> e \<in> set xs" for f and js :: "'a list"
    by (induction f js rule: collect_items.induct) (auto split: option.splits prod.splits)
  moreover have "read_open_order js j = Some xs \<Longrightarrow> e \<in> set xs \<Longrightarrow> ed_is_accept_data (snd e)" for js :: "'a json_api" and j xs
    by (auto simp: read_open_order_def split: Option.bind_splits)
  ultimately show "e \<in> set (fst (fetch_open_orders re n)) \<Longrightarrow> ed_is_accept_data (snd e)"
    by (fastforce simp: fetch_open_orders_def fetch_items_def split: prod.splits option.splits if_splits)
qed

lemma user_state_pub: "pub_ok be l \<Longrightarrow> pub_ok be (publish_user_state be l)"
proof -
  assume l: "pub_ok be l"
  have pos: "pub_ok be (fold (\<lambda>(p, d). bl_emit (PositionEvent p d)) ms l')" if "pub_ok be l'" for ms l'
    using that by (intro pub_ok_fold) auto
  have exec: "pub_ok be (fold (\<lambda>(p, d). bl_emit (ExecutionEvent p d)) ms l')"
    if "pub_ok be l'" "fetch_open_orders (be_rest be) n = (ms, n')" for ms l' n n'
    using that open_orders_ok [of _ "be_rest be" n] by (intro pub_ok_fold) auto
  show ?thesis
    using l pos exec by (simp add: publish_user_state_def Let_def split: prod.splits)
qed

lemma status_pub: "pub_ok be l \<Longrightarrow> pub_ok be (on_ws_status be so connecting opened l)"
  by (cases so)
    (simp_all add: on_ws_status_def Let_def on_user_open_def user_state_pub on_market_open_def pub_ok_fold resync_pub)

lemma dial_pub: "pub_ok be (dial_socket be' so url l) = pub_ok be l"
  by (simp add: dial_socket_def split: prod.splits)

lemma create_socket_pub: "pub_ok be (create_socket be' so l) = pub_ok be l"
  by (cases so) (simp_all add: create_market_client_def create_trade_client_def create_user_client_def Let_def
      dial_pub split: prod.splits) 

lemma bl_step_pub: "bl_step be l l' \<Longrightarrow> pub_ok be l \<Longrightarrow> pub_ok be l'"
proof (induction rule: bl_step.induct)
  case (start l)
  then show ?case
    using create_socket_pub [of be be MarketSocket] create_socket_pub [of be be TradeSocket]
      create_socket_pub [of be be UserSocket]
    by (simp add: bl_run_start_def schedule_keepalive_def Let_def)
next
  case (schedule so l)
  then show ?case
    by (cases so) (simp_all add: schedule_market_reconnect_def schedule_trade_reconnect_def schedule_user_reconnect_def
        del: upd_redial.simps)
next
  case (worker l)
  then show ?case
    by (auto simp: worker_round_def worker_event_def Let_def status_pub payload_pub
        split: list.splits ws_queue_event.splits)
next
  case (product_info l)
  then show ?case by (auto simp: publish_product_info_def intro!: pub_ok_fold split: prod.splits)
next
  case (timer so l)
  then show ?case by (simp add: bl_on_timer_def create_socket_pub Let_def)
qed (simp_all add: bl_socket_event_def bl_socket_message_def bl_on_keepalive_def schedule_keepalive_def Let_def
      user_state_pub split: prod.splits)

lemma bl_start_pub: "pub_ok be (bl_start (make_binance_listener be))"
proof -
  have "pub_ok be (fold bl_add_spec specs l)" if "pub_ok be l" for specs l
    using that
    by (intro pub_ok_fold) (auto simp: pub_ok_def om_simps book_reach.init split: category.splits)
  note step = this
  have "pub_ok be (make_binance_listener be)"
    unfolding make_binance_listener_def by (rule step) (simp add: pub_ok_def)
  then show ?thesis by (simp add: bl_start_def pub_ok_def)
qed

lemma bl_reach_pub: "bl_reach be l \<Longrightarrow> pub_ok be l"
  unfolding bl_reach_def
  by (induction rule: rtranclp_induct) (auto intro: bl_step_pub bl_start_pub)

section \<open>Resynchronisation\<close>

definition depth_request :: "'j rest_env \<Rightarrow> product \<Rightarrow> http_request" where
  "depth_request re p =
     \<lparr>hq_method = ''GET'', hq_url = re_domain re @ ''/fapi/v1/depth?symbol='' @ p @ ''&limit='' @ to_string 1000,
      hq_body = None, hq_headers = [], hq_timeout = default_timeout_sec\<rparr>"

lemma fetch_depth_requests:
  assumes "re_curl_init re" "fetch_depth re p 1000 n = (snap, n')"
  shows "net_requests n' = net_requests n @ [depth_request re p]"
  using assms
  by (auto simp: fetch_depth_def rest_get_def perform_def depth_request_def Let_def
      split: curl_result.splits if_splits option.splits)

lemma book_of_set_book [simp]: "book_of (set_book p ob l) q = (if q = p then ob else book_of l q)"
  by (simp add: book_of_def set_book_def om_at_def om_simps)

lemma book_of_emit [simp]: "book_of (bl_emit ev l) q = book_of l q"
  by (simp add: book_of_def bl_emit_def)

lemma emit_fields [simp]:
  "bl_event_queue (bl_emit ev l) = bl_event_queue l @ [ev]" "bl_net (bl_emit ev l) = bl_net l"
  "bl_event_queue (set_book p ob l) = bl_event_queue l" "bl_net (set_book p ob l) = bl_net l"
  by (simp_all add: bl_emit_def set_book_def)

lemma resync_result:
  assumes "fetch_depth (be_rest be) p 1000 (bl_net l) = (snap, n)"
    "l' = resync_order_book be p l"
    "ob' = apply_snapshot (ds_last_update_id snap) (ds_bids snap) (ds_asks snap) (mark_desynced (book_of l p))"
  shows "bl_net l' = n" "q \<noteq> p \<Longrightarrow> book_of l' q = book_of l q"
    "ds_ok snap \<Longrightarrow> book_of l' p = ob'"
    "ds_ok snap \<Longrightarrow> bl_event_queue l' = bl_event_queue l @ [OrderbookEvent p (to_data (lc_orderbook_levels (be_config be)) ob')]"
    "\<not> ds_ok snap \<Longrightarrow> book_of l' p = mark_desynced (book_of l p) \<and> bl_event_queue l' = bl_event_queue l"
  unfolding assms(2,3) using assms(1)
  by (simp_all add: resync_order_book_def Let_def)

section \<open>A concrete listener\<close>

text \<open>An environment for the witnesses: no network, no credentials, a best-price stream of zeros.\<close>

definition demo_listener_rest :: "string rest_env" where
  "demo_listener_rest = \<lparr>re_curl_init = True, re_transfer = (\<lambda>i rq. CurlFailed ''no network''), re_clk_ms = (\<lambda>i. 1),
     re_domain = ''https://fapi'', re_keys = None, re_hmac = (\<lambda>k m. []),
     re_json = \<lparr>js_parse = (\<lambda>t. None), js_at = (\<lambda>k j. None), js_index = (\<lambda>i j. None), js_items = (\<lambda>j. []),
       js_str = (\<lambda>j. None), js_long = (\<lambda>j. None), js_value_str = (\<lambda>k d j. None)\<rparr>\<rparr>"

definition demo_ticker :: book_ticker where
  "demo_ticker = \<lparr>bt_E = 5, bt_s = ''BTCUSDT'', bt_b = [], bt_B = [], bt_a = [], bt_A = []\<rparr>"

definition demo_depth :: depth_update where
  "demo_depth = \<lparr>du_E = 5, du_s = ''BTCUSDT'', du_U = 1, du_u = 2, du_pu = 0, du_b = [], du_a = []\<rparr>"

definition demo_bl_env :: "string bl_env" where
  "demo_bl_env = \<lparr>be_rest = demo_listener_rest, be_stream_domain = ''wss://fstream'',
     be_config = listener_config_init,
     be_classify_market = (\<lambda>t. Some ''bookTicker''), be_book_ticker = (\<lambda>t. Some demo_ticker),
     be_depth_update = (\<lambda>t. Some demo_depth), be_agg_trade = (\<lambda>t. None), be_classify_user = (\<lambda>t. None),
     be_order_update = (\<lambda>t. None), be_account_update = (\<lambda>t. None), be_dial_throws = (\<lambda>n. False)\<rparr>"

definition demo_listener :: binance_listener where
  "demo_listener = bl_run_start demo_bl_env (bl_start (make_binance_listener demo_bl_env))"

lemmas demo_listener_defs = demo_listener_def bl_run_start_def bl_start_def make_binance_listener_def
  create_market_client_def create_trade_client_def dial_socket_def new_ws_client_def init_connection_def
  ws_client_init_def ws_notify_def demo_bl_env_def demo_listener_rest_def listener_config_init_def

lemma demo_listener_reach: "bl_reach demo_bl_env demo_listener"
proof -
  have "bl_start_posted (bl_start (make_binance_listener demo_bl_env))" by (simp add: bl_start_def)
  then show ?thesis unfolding bl_reach_def demo_listener_def by (intro r_into_rtranclp bl_step.start)
qed

lemma demo_listener_state:
  "rd_client (bl_market demo_listener) \<noteq> None" "bl_running demo_listener" "\<not> bl_start_posted demo_listener"
  "bl_ws_event_queue demo_listener = [WsStatus MarketSocket True False, WsStatus TradeSocket True False]"
  "om_has (bl_order_books demo_listener) ''BTCUSDT''"
  by (simp_all add: demo_listener_defs Let_def om_has_def)

section \<open>Properties\<close>

text \<open>
  C20. No socket of the adapter is ever given up: once the first dials have been made, and unless
  dialling throws, each of the sockets in use (the user stream only with credentials) is being
  dialled or open with its thread running, or has exactly one redial under way, posted or on a
  timer of 1 to 30 seconds, or the worker has still to process the report that it is down.
\<close>

theorem sockets_never_given_up:
  assumes "bl_reach be l" "\<not> bl_start_posted l" "socket_used be so" "\<forall>n. \<not> be_dial_throws be n"
    "r = socket_redial so l"
  shows "((\<exists>c. rd_client r = Some c \<and> wc_thread c \<and> (wc_connecting c \<or> wc_opened c)) \<or> rd_pending r
      \<or> WsStatus so False False \<in> set (bl_ws_event_queue l))
    \<and> rd_posted r + (if rd_timer r = None then 0 else 1) = (if rd_pending r then 1 else 0)
    \<and> (rd_timer r = None \<or> (1 \<le> the (rd_timer r) \<and> the (rd_timer r) \<le> 30)) \<and> bl_running l"
proof -
  have t: "threads_ok l" by (rule bl_reach_threads [OF assms(1,4)])
  then have run: "bl_running l" by (simp add: threads_ok_def)
  have ok: "redial_ok r" "client_live r \<or> rd_pending r \<or> WsStatus so False False \<in> set (bl_ws_event_queue l)"
    using bl_reach_ok [OF assms(1), of so] run assms(2,3,5) by (auto simp: socket_ok_def)
  moreover have "client_live r \<Longrightarrow> \<exists>c. rd_client r = Some c \<and> wc_thread c \<and> (wc_connecting c \<or> wc_opened c)"
    using threads_ok_client [OF t, of so] assms(5) by (auto simp: client_live_def thread_ok_def split: option.splits)
  ultimately show ?thesis using run by (auto simp: redial_ok_def split: if_splits)
qed

theorem sockets_never_given_up_witness:
  "bl_reach demo_bl_env demo_listener \<and> \<not> bl_start_posted demo_listener
    \<and> ((\<exists>c. rd_client (bl_market demo_listener) = Some c \<and> wc_thread c \<and> (wc_connecting c \<or> wc_opened c))
      \<or> rd_pending (bl_market demo_listener)
      \<or> WsStatus MarketSocket False False \<in> set (bl_ws_event_queue demo_listener))"
  using sockets_never_given_up [OF demo_listener_reach demo_listener_state(3), of MarketSocket "bl_market demo_listener"]
    demo_listener_reach demo_listener_state(3)
  by (simp add: socket_used_def demo_bl_env_def)



end
