(* ===== verification/Tcp_Server.thy ===== *)
theory Tcp_Server
  imports Tcp_Framing
begin

text \<open>
  The feed server of the listener and of the pricer (\<open>connection_handlers/tcp/tcp_server.cpp\<close>): the
  sessions, whose socket operations complete as events on the io thread, and the worker thread that
  owns the subscription tables.

  A session is named by a number (the address of the shared object).  \<open>boost::asio::post\<close> and the
  asynchronous operations are pending completions of the session: \<open>ss_posted\<close> counts the posted
  write drives, \<open>ss_in_flight\<close> is an outstanding \<open>async_write\<close>, and \<open>ss_wire\<close> is what was handed to the
  socket.  The write queue has two producers, the io thread (acknowledgements) and the worker
  (broadcasts and retained product information); the concurrent queue keeps the order of each and
  promises none between them, so it is one list per producer and which one a dequeue looks at first
  is part of the event.  \<open>ss_accepted\<close> is history: every message that entered the write queue.  The
  JSON codec is a parameter (\<open>tcp_env\<close>).  The unordered containers are sorted lists: the order in which a broadcast
  visits the sessions is unspecified in the source and no statement depends on it.
\<close>

record tcp_env =
  te_read_request :: "string \<Rightarrow> subscribe_request_msg option"
  te_write_response :: "subscribe_response_msg \<Rightarrow> string option"
  te_write_product_info :: "product \<Rightarrow> product_info_data \<Rightarrow> string option"
  te_subscribe_hook :: bool

datatype server_task =
    AddSession nat
  | RemoveSession nat
  | SubscribeProduct nat product
  | UnsubscribeProduct nat product
  | BroadcastMessage product string
  | ProductInfoUpdate product product_info_data

section \<open>Sessions\<close>

datatype producer = Io_Thread | Worker_Thread

record tcp_session =
  ss_active :: bool
  ss_writing :: bool
  ss_write_queue :: "producer \<Rightarrow> string list"
  ss_write_buffer :: string
  ss_read_message :: string
  ss_posted :: nat
  ss_in_flight :: bool
  ss_wire :: "(producer \<times> string) list"
  ss_accepted :: "producer \<Rightarrow> string list"

definition tcp_session_init :: tcp_session where
  "tcp_session_init = \<lparr>ss_active = True, ss_writing = False, ss_write_queue = (\<lambda>_. []), ss_write_buffer = [], ss_read_message = [],
     ss_posted = 0, ss_in_flight = False, ss_wire = [], ss_accepted = (\<lambda>_. [])\<rparr>"

definition session_start :: "nat \<Rightarrow> tcp_session \<Rightarrow> tcp_session \<times> server_task list" where
  "session_start sid s = (s, [AddSession sid])"

definition send_message :: "producer \<Rightarrow> string \<Rightarrow> tcp_session \<Rightarrow> tcp_session" where
  "send_message pr msg s =
     (if \<not> ss_active s then s
      else s\<lparr>ss_write_queue := (ss_write_queue s)(pr := ss_write_queue s pr @ [msg]),
             ss_accepted := (ss_accepted s)(pr := ss_accepted s pr @ [msg]),
             ss_posted := Suc (ss_posted s)\<rparr>)"

definition session_close :: "nat \<Rightarrow> tcp_session \<Rightarrow> tcp_session \<times> server_task list" where
  "session_close sid s = (s\<lparr>ss_active := False\<rparr>, [RemoveSession sid])"

text \<open>A dequeue looks at one producer's messages and, when there are none, at the other's.\<close>

definition dequeue_from :: "producer \<Rightarrow> tcp_session \<Rightarrow> producer" where
  "dequeue_from pr s =
     (if ss_write_queue s pr \<noteq> [] then pr else case pr of Io_Thread \<Rightarrow> Worker_Thread | Worker_Thread \<Rightarrow> Io_Thread)"

definition session_do_write :: "producer \<Rightarrow> tcp_session \<Rightarrow> tcp_session" where
  "session_do_write pr s =
     (if \<not> ss_active s then s\<lparr>ss_writing := False\<rparr>
      else let from = dequeue_from pr s in
        case ss_write_queue s from of
          [] \<Rightarrow> s\<lparr>ss_writing := False\<rparr>
        | m # q \<Rightarrow> s\<lparr>ss_write_queue := (ss_write_queue s)(from := q), ss_write_buffer := m @ [newline],
                     ss_in_flight := True, ss_wire := ss_wire s @ [(from, m @ [newline])]\<rparr>)"

text \<open>The posted lambda of \<open>send_message\<close>: start writing unless a write is already under way.\<close>

definition session_run_posted :: "producer \<Rightarrow> tcp_session \<Rightarrow> tcp_session" where
  "session_run_posted pr s =
     (let s1 = s\<lparr>ss_posted := ss_posted s - 1\<rparr> in
      if ss_writing s1 then s1 else session_do_write pr (s1\<lparr>ss_writing := True\<rparr>))"

definition session_on_written :: "nat \<Rightarrow> bool \<Rightarrow> producer \<Rightarrow> tcp_session \<Rightarrow> tcp_session \<times> server_task list" where
  "session_on_written sid ec pr s =
     (let s1 = s\<lparr>ss_in_flight := False\<rparr> in
      if \<not> ec \<and> ss_active s1 then (session_do_write pr s1, [])
      else session_close sid (s1\<lparr>ss_writing := False\<rparr>))"

text \<open>The acknowledgement of a (un)subscribe request, after the worker has been told.\<close>

definition answer_subscription ::
  "tcp_env \<Rightarrow> nat \<Rightarrow> bool \<Rightarrow> product \<Rightarrow> category \<Rightarrow> tcp_session \<Rightarrow> tcp_session \<times> server_task list" where
  "answer_subscription te sid subscribe p c s =
     ((case te_write_response te \<lparr>sp_subscribe = subscribe, sp_success = True, sp_product = p, sp_category = c\<rparr> of
        None \<Rightarrow> s
      | Some json \<Rightarrow> send_message Io_Thread json s),
      [if subscribe then SubscribeProduct sid p else UnsubscribeProduct sid p])"

definition session_handle_message :: "tcp_env \<Rightarrow> nat \<Rightarrow> string \<Rightarrow> tcp_session \<Rightarrow> tcp_session \<times> server_task list" where
  "session_handle_message te sid msg s =
     (case te_read_request te msg of
        None \<Rightarrow> (s, [])
      | Some r \<Rightarrow> answer_subscription te sid (sr_subscribe r) (sr_product r) (sr_category r) s)"

fun session_handle_lines :: "tcp_env \<Rightarrow> nat \<Rightarrow> string list \<Rightarrow> tcp_session \<Rightarrow> tcp_session \<times> server_task list" where
  "session_handle_lines te sid [] s = (s, [])"
| "session_handle_lines te sid (l # ls) s =
     (case session_handle_message te sid l s of (s1, ts1) \<Rightarrow>
        case session_handle_lines te sid ls s1 of (s2, ts2) \<Rightarrow> (s2, ts1 @ ts2))"

definition session_on_read :: "tcp_env \<Rightarrow> nat \<Rightarrow> bool \<Rightarrow> string \<Rightarrow> tcp_session \<Rightarrow> tcp_session \<times> server_task list" where
  "session_on_read te sid ec bytes s =
     (if \<not> ec \<and> ss_active s
      then case on_bytes (ss_read_message s) bytes of (lines, left) \<Rightarrow>
        session_handle_lines te sid lines (s\<lparr>ss_read_message := left\<rparr>)
      else session_close sid s)"

text \<open>What can happen to a session; a completion needs the operation it completes.\<close>

datatype session_event = SendMessage producer string | RunPosted producer | Written bool producer | ReadDone bool string

fun session_event_ok :: "session_event \<Rightarrow> tcp_session \<Rightarrow> bool" where
  "session_event_ok (SendMessage pr m) s = True"
| "session_event_ok (RunPosted pr) s = (0 < ss_posted s)"
| "session_event_ok (Written ec pr) s = ss_in_flight s"
| "session_event_ok (ReadDone ec bytes) s = True"

fun session_step :: "tcp_env \<Rightarrow> nat \<Rightarrow> session_event \<Rightarrow> tcp_session \<Rightarrow> tcp_session" where
  "session_step te sid (SendMessage pr m) s = send_message pr m s"
| "session_step te sid (RunPosted pr) s = session_run_posted pr s"
| "session_step te sid (Written ec pr) s = fst (session_on_written sid ec pr s)"
| "session_step te sid (ReadDone ec bytes) s = fst (session_on_read te sid ec bytes s)"

inductive session_reach :: "tcp_env \<Rightarrow> nat \<Rightarrow> tcp_session \<Rightarrow> bool" for te sid where
  start: "session_reach te sid tcp_session_init"
| step: "session_reach te sid s \<Longrightarrow> session_event_ok e s \<Longrightarrow> session_reach te sid (session_step te sid e s)"

section \<open>The worker\<close>

record tcp_server =
  sv_session_to_products :: "(nat, product list) omap"
  sv_product_to_sessions :: "(product, nat list) omap"
  sv_product_infos :: "(product, product_info_data) omap"
  sv_sent :: "(nat \<times> string) list"
  sv_hooks :: "product list"

definition tcp_server_init :: tcp_server where
  "tcp_server_init = \<lparr>sv_session_to_products = [], sv_product_to_sessions = [], sv_product_infos = [], sv_sent = [], sv_hooks = []\<rparr>"

text \<open>Take one session out of a product's set, and the product out of the table when the set is empty.\<close>

definition drop_subscriber :: "nat \<Rightarrow> product \<Rightarrow> (product, nat list) omap \<Rightarrow> (product, nat list) omap" where
  "drop_subscriber sid p m =
     (case map_of m p of
        None \<Rightarrow> m
      | Some ss \<Rightarrow> (if os_erase sid ss = [] then om_erase p m else om_put p (os_erase sid ss) m))"

definition remove_session_task :: "nat \<Rightarrow> tcp_server \<Rightarrow> tcp_server" where
  "remove_session_task sid s =
     (case map_of (sv_session_to_products s) sid of
        None \<Rightarrow> s
      | Some ps \<Rightarrow> s\<lparr>sv_product_to_sessions := fold (drop_subscriber sid) ps (sv_product_to_sessions s),
                     sv_session_to_products := om_erase sid (sv_session_to_products s)\<rparr>)"

definition subscribe_task :: "tcp_env \<Rightarrow> nat \<Rightarrow> product \<Rightarrow> tcp_server \<Rightarrow> tcp_server" where
  "subscribe_task te sid p s =
     (let s1 = s\<lparr>sv_session_to_products := om_put sid (os_insert p (om_at [] (sv_session_to_products s) sid)) (sv_session_to_products s),
                sv_product_to_sessions := om_put p (os_insert sid (om_at [] (sv_product_to_sessions s) p)) (sv_product_to_sessions s)\<rparr>;
          s2 = (case map_of (sv_product_infos s1) p of
                  None \<Rightarrow> s1
                | Some info \<Rightarrow> (case te_write_product_info te p info of
                                  None \<Rightarrow> s1
                                | Some json \<Rightarrow> s1\<lparr>sv_sent := sv_sent s1 @ [(sid, json)]\<rparr>))
      in if te_subscribe_hook te then s2\<lparr>sv_hooks := sv_hooks s2 @ [p]\<rparr> else s2)"

definition unsubscribe_task :: "nat \<Rightarrow> product \<Rightarrow> tcp_server \<Rightarrow> tcp_server" where
  "unsubscribe_task sid p s =
     (let s1 = (case map_of (sv_session_to_products s) sid of
                  None \<Rightarrow> s
                | Some ps \<Rightarrow> s\<lparr>sv_session_to_products := om_put sid (os_erase p ps) (sv_session_to_products s)\<rparr>)
      in s1\<lparr>sv_product_to_sessions := drop_subscriber sid p (sv_product_to_sessions s1)\<rparr>)"

fun worker_task :: "tcp_env \<Rightarrow> server_task \<Rightarrow> tcp_server \<Rightarrow> tcp_server" where
  "worker_task te (AddSession sid) s =
     s\<lparr>sv_session_to_products := om_put sid [] (sv_session_to_products s)\<rparr>"
| "worker_task te (RemoveSession sid) s = remove_session_task sid s"
| "worker_task te (SubscribeProduct sid p) s = subscribe_task te sid p s"
| "worker_task te (UnsubscribeProduct sid p) s = unsubscribe_task sid p s"
| "worker_task te (BroadcastMessage p json) s =
     (case map_of (sv_product_to_sessions s) p of
        None \<Rightarrow> s
      | Some ss \<Rightarrow> s\<lparr>sv_sent := sv_sent s @ map (\<lambda>sid. (sid, json)) ss\<rparr>)"
| "worker_task te (ProductInfoUpdate p info) s =
     s\<lparr>sv_product_infos := om_put p info (sv_product_infos s)\<rparr>"

definition broadcast_worker :: "tcp_env \<Rightarrow> server_task list \<Rightarrow> tcp_server \<Rightarrow> tcp_server" where
  "broadcast_worker te ts s = fold (worker_task te) ts s"

section \<open>Sessions lose and reorder nothing\<close>

definition framed :: "string list \<Rightarrow> string list" where
  "framed ms = map (\<lambda>m. m @ [newline]) ms"

text \<open>What the socket was given of one producer.\<close>

definition written_by :: "producer \<Rightarrow> tcp_session \<Rightarrow> string list" where
  "written_by pr s = map snd (filter (\<lambda>e. fst e = pr) (ss_wire s))"

definition session_inv :: "tcp_session \<Rightarrow> bool" where
  "session_inv s \<longleftrightarrow> (\<forall>pr. written_by pr s @ framed (ss_write_queue s pr) = framed (ss_accepted s pr))
     \<and> ss_writing s = ss_in_flight s
     \<and> (ss_active s \<and> (\<exists>pr. ss_write_queue s pr \<noteq> []) \<longrightarrow> ss_writing s \<or> 0 < ss_posted s)
     \<and> newline \<notin> set (ss_read_message s)"

lemma wire_shuffles: "map snd (ss_wire s) \<in> shuffles (written_by Io_Thread s) (written_by Worker_Thread s)"
proof -
  have "map snd w \<in> shuffles (map snd (filter (\<lambda>e. fst e = Io_Thread) w)) (map snd (filter (\<lambda>e. fst e = Worker_Thread) w))" for w
  proof (induction w)
    case (Cons e w)
    then show ?case by (cases "fst e") (auto intro: Cons_in_shuffles_leftI Cons_in_shuffles_rightI)
  qed simp
  then show ?thesis by (simp add: written_by_def)
qed

lemma inv_send_message: "session_inv s \<Longrightarrow> session_inv (send_message pr m s)"
  by (auto simp: session_inv_def send_message_def framed_def written_by_def)

text \<open>A write drive, from a state that is only short of the drive itself.\<close>

lemma dequeue_from_empty: "ss_write_queue s (dequeue_from pr s) = [] \<Longrightarrow> ss_write_queue s pr' = []"
  by (cases pr; cases pr') (auto simp: dequeue_from_def split: if_splits)

lemma inv_do_write:
  assumes "\<forall>pr. written_by pr s @ framed (ss_write_queue s pr) = framed (ss_accepted s pr)"
    and "newline \<notin> set (ss_read_message s)" and "\<not> ss_in_flight s" and "ss_writing s"
  shows "session_inv (session_do_write pr s)"
proof (cases "ss_active s \<and> ss_write_queue s (dequeue_from pr s) \<noteq> []")
  case True
  then obtain m q where "ss_write_queue s (dequeue_from pr s) = m # q" by (cases "ss_write_queue s (dequeue_from pr s)") auto
  moreover from this assms(1) have "written_by (dequeue_from pr s) s @ (m @ [newline]) # framed q = framed (ss_accepted s (dequeue_from pr s))"
    by (metis framed_def list.simps(9))
  ultimately show ?thesis
    using True assms by (auto simp: session_inv_def session_do_write_def Let_def written_by_def)
next
  case False
  then show ?thesis
    using assms dequeue_from_empty [of s pr]
    by (auto simp: session_inv_def session_do_write_def Let_def written_by_def split: list.splits)
qed

lemma inv_run_posted:
  assumes "session_inv s"
  shows "session_inv (session_run_posted pr s)"
proof (cases "ss_writing s")
  case False
  have "session_inv (session_do_write pr (s\<lparr>ss_posted := ss_posted s - 1, ss_writing := True\<rparr>))"
    by (rule inv_do_write) (use assms False in \<open>simp_all add: session_inv_def written_by_def\<close>)
  then show ?thesis using False by (simp add: session_run_posted_def)
qed (use assms in \<open>simp add: session_run_posted_def session_inv_def written_by_def\<close>)

lemma inv_on_written:
  assumes "session_inv s" "ss_in_flight s"
  shows "session_inv (fst (session_on_written sid ec pr s))"
proof (cases "\<not> ec \<and> ss_active s")
  case True
  have "session_inv (session_do_write pr (s\<lparr>ss_in_flight := False\<rparr>))"
    by (rule inv_do_write) (use assms in \<open>simp_all add: session_inv_def written_by_def\<close>)
  then show ?thesis using True by (simp add: session_on_written_def)
next
  case False
  with assms show ?thesis by (auto simp: session_on_written_def session_close_def session_inv_def written_by_def)
qed

lemma inv_idle:
  "session_inv s \<Longrightarrow> ss_active s \<Longrightarrow> \<not> ss_in_flight s \<Longrightarrow> ss_posted s = 0 \<Longrightarrow> written_by pr s = framed (ss_accepted s pr)"
  by (metis append.right_neutral framed_def list.map_disc_iff session_inv_def less_irrefl)

lemma inv_handle_lines: "session_inv s \<Longrightarrow> session_inv (fst (session_handle_lines te sid ls s))"
proof (induction te sid ls s rule: session_handle_lines.induct)
  case (2 te sid l ls s)
  have "session_inv (fst (session_handle_message te sid l s))"
    using 2(2) by (auto simp: session_handle_message_def answer_subscription_def intro: inv_send_message split: option.splits)
  then show ?case using 2(1) by (simp add: case_prod_unfold prod_eq_iff)
qed simp

lemma inv_on_read:
  assumes "session_inv s"
  shows "session_inv (fst (session_on_read te sid ec bytes s))"
proof (cases "\<not> ec \<and> ss_active s")
  case True
  have "session_inv (s\<lparr>ss_read_message := snd (take_lines (ss_read_message s @ bytes))\<rparr>)"
    using assms take_lines_left [of "ss_read_message s @ bytes"] by (auto simp: session_inv_def written_by_def)
  then show ?thesis using True by (simp add: session_on_read_def case_prod_unfold on_bytes_def inv_handle_lines)
qed (use assms in \<open>auto simp: session_on_read_def session_close_def session_inv_def written_by_def\<close>)

lemma session_reach_inv: "session_reach te sid s \<Longrightarrow> session_inv s"
proof (induction rule: session_reach.induct)
  case start
  then show ?case by (simp add: session_inv_def tcp_session_init_def framed_def written_by_def)
next
  case (step s e)
  then show ?case
    by (cases e) (simp_all add: inv_send_message inv_run_posted inv_on_written inv_on_read)
qed

section \<open>The subscription tables\<close>

text \<open>The abstract view: who is subscribed to what, and the last product info of each product.\<close>

fun subscriptions_after :: "server_task \<Rightarrow> (nat \<times> product) set \<Rightarrow> (nat \<times> product) set" where
  "subscriptions_after (RemoveSession sid) R = {e \<in> R. fst e \<noteq> sid}"
| "subscriptions_after (SubscribeProduct sid p) R = insert (sid, p) R"
| "subscriptions_after (UnsubscribeProduct sid p) R = R - {(sid, p)}"
| "subscriptions_after _ R = R"

fun infos_after :: "server_task \<Rightarrow> (product \<rightharpoonup> product_info_data) \<Rightarrow> (product \<rightharpoonup> product_info_data)" where
  "infos_after (ProductInfoUpdate p info) m = m(p \<mapsto> info)"
| "infos_after _ m = m"

text \<open>A session is added once, before its first request: both are queued by the io thread in that order.\<close>

fun tasks_ok :: "nat list \<Rightarrow> server_task list \<Rightarrow> bool" where
  "tasks_ok known [] = True"
| "tasks_ok known (AddSession sid # ts) = (sid \<notin> set known \<and> tasks_ok (sid # known) ts)"
| "tasks_ok known (RemoveSession sid # ts) = tasks_ok known ts"
| "tasks_ok known (SubscribeProduct sid p # ts) = tasks_ok (sid # known) ts"
| "tasks_ok known (t # ts) = tasks_ok known ts"

definition subscribers :: "tcp_server \<Rightarrow> product \<Rightarrow> nat list" where
  "subscribers s p = om_at [] (sv_product_to_sessions s) p"

definition products_of :: "tcp_server \<Rightarrow> nat \<Rightarrow> product list" where
  "products_of s sid = om_at [] (sv_session_to_products s) sid"

definition server_inv :: "nat list \<Rightarrow> tcp_server \<Rightarrow> bool" where
  "server_inv known s \<longleftrightarrow> (\<forall>sid p. p \<in> set (products_of s sid) \<longleftrightarrow> sid \<in> set (subscribers s p))
     \<and> (\<forall>p. sorted_wrt (<) (subscribers s p))
     \<and> (\<forall>p. map_of (sv_product_to_sessions s) p \<noteq> Some [])
     \<and> (\<forall>sid. products_of s sid \<noteq> [] \<longrightarrow> sid \<in> set known)"

lemma server_inv_tables: "server_inv known s \<Longrightarrow> p \<in> set (products_of s sid) \<longleftrightarrow> sid \<in> set (subscribers s p)"
  by (simp add: server_inv_def)

lemma os_insert_sorted: "sorted_wrt (<) xs \<Longrightarrow> sorted_wrt (<) (os_insert (x :: 'a :: linorder) xs)"
  by (induction x xs rule: os_insert.induct) auto

lemma os_erase_sorted: "sorted_wrt (<) xs \<Longrightarrow> sorted_wrt (<) (os_erase (x :: 'a :: linorder) xs)"
  unfolding os_erase_def by (induction xs) auto

lemma om_at_simps [simp]:
  "om_at d (om_put k v m) k' = (if k' = k then v else om_at d m k')"
  "om_at d (om_erase k m) k' = (if k' = k then d else om_at d m k')"
  by (simp_all add: om_at_def om_simps)

lemma om_at_drop [simp]:
  "om_at [] (drop_subscriber sid p m) q = (if q = p then os_erase sid (om_at [] m p) else om_at [] m q)"
  by (cases "map_of m p") (simp_all add: drop_subscriber_def, simp_all add: om_at_def om_simps)

lemma drop_nonempty: "map_of m q \<noteq> Some [] \<Longrightarrow> map_of (drop_subscriber sid p m) q \<noteq> Some []"
  by (auto simp: drop_subscriber_def om_simps split: option.splits)

lemma om_at_drops: "om_at [] (fold (drop_subscriber sid) ps m) q =
    (if q \<in> set ps then os_erase sid (om_at [] m q) else om_at [] m q)"
  by (induction ps arbitrary: m) (auto simp: os_erase_def)

lemma drops_nonempty: "map_of m q \<noteq> Some [] \<Longrightarrow> map_of (fold (drop_subscriber sid) ps m) q \<noteq> Some []"
  by (induction ps arbitrary: m) (simp_all add: drop_nonempty)

lemma inv_add: "server_inv known s \<Longrightarrow> sid \<notin> set known \<Longrightarrow> server_inv (sid # known) (worker_task te (AddSession sid) s)"
proof -
  assume inv: "server_inv known s" and new: "sid \<notin> set known"
  have none: "products_of s sid = []" using inv new by (auto simp: server_inv_def)
  have tables: "products_of (worker_task te (AddSession sid) s) i = products_of s i"
    "subscribers (worker_task te (AddSession sid) s) = subscribers s" for i
    using none by (simp_all add: products_of_def subscribers_def fun_eq_iff)
  show ?thesis using inv unfolding server_inv_def tables by simp
qed

lemma inv_remove: "server_inv known s \<Longrightarrow> server_inv known (remove_session_task sid s)"
proof (cases "map_of (sv_session_to_products s) sid")
  case (Some ps)
  assume inv: "server_inv known s"
  have ps: "products_of s sid = ps" using Some by (simp add: products_of_def om_at_def)
  have sub: "subscribers (remove_session_task sid s) p = (if p \<in> set ps then os_erase sid (subscribers s p) else subscribers s p)" for p
    using Some by (simp add: remove_session_task_def subscribers_def om_at_drops)
  have prods: "products_of (remove_session_task sid s) i = (if i = sid then [] else products_of s i)" for i
    using Some by (simp add: remove_session_task_def products_of_def)
  have "map_of (sv_product_to_sessions (remove_session_task sid s)) p \<noteq> Some []" for p
    using inv Some by (simp add: remove_session_task_def drops_nonempty server_inv_def)
  then show ?thesis using inv ps unfolding server_inv_def sub prods by (auto intro: os_erase_sorted)
qed (simp add: remove_session_task_def)

lemma subscribe_tables:
  "products_of (subscribe_task te sid p s) i = (if i = sid then os_insert p (products_of s sid) else products_of s i)"
  "subscribers (subscribe_task te sid p s) q = (if q = p then os_insert sid (subscribers s p) else subscribers s q)"
  "map_of (sv_product_to_sessions (subscribe_task te sid p s)) q =
     (if q = p then Some (os_insert sid (subscribers s p)) else map_of (sv_product_to_sessions s) q)"
  "sv_product_infos (subscribe_task te sid p s) = sv_product_infos s"
  by (simp_all add: subscribe_task_def products_of_def subscribers_def Let_def map_of_om_put split: option.splits)

lemma inv_subscribe: "server_inv known s \<Longrightarrow> server_inv (sid # known) (subscribe_task te sid p s)"
  unfolding server_inv_def subscribe_tables by (auto intro: os_insert_sorted)

lemma unsubscribe_tables:
  "products_of (unsubscribe_task sid p s) i = (if i = sid then os_erase p (products_of s sid) else products_of s i)"
  "subscribers (unsubscribe_task sid p s) q = (if q = p then os_erase sid (subscribers s p) else subscribers s q)"
  "sv_product_infos (unsubscribe_task sid p s) = sv_product_infos s"
  by (cases "map_of (sv_session_to_products s) sid";
      simp add: unsubscribe_task_def products_of_def subscribers_def Let_def; simp add: om_at_def)+

lemma inv_unsubscribe: "server_inv known s \<Longrightarrow> server_inv known (unsubscribe_task sid p s)"
proof -
  assume inv: "server_inv known s"
  then have "map_of (sv_product_to_sessions (unsubscribe_task sid p s)) q \<noteq> Some []" for q
    by (cases "map_of (sv_session_to_products s) sid") (simp_all add: unsubscribe_task_def Let_def drop_nonempty server_inv_def)
  moreover have "products_of (unsubscribe_task sid p s) i \<noteq> [] \<Longrightarrow> products_of s i \<noteq> []" for i
    by (auto simp: unsubscribe_tables split: if_splits)
  ultimately show ?thesis using inv unfolding server_inv_def
    by (auto simp: unsubscribe_tables intro: os_erase_sorted split: if_splits)
qed

lemma known_mono: "server_inv known s \<Longrightarrow> set known \<subseteq> set known' \<Longrightarrow> server_inv known' s"
  by (auto simp: server_inv_def)

definition subscribed :: "tcp_server \<Rightarrow> (nat \<times> product) set" where
  "subscribed s = {(sid, p). sid \<in> set (subscribers s p)}"

lemma worker_refines:
  assumes "server_inv known s" "tasks_ok known [t]"
  shows "subscribed (worker_task te t s) = subscriptions_after t (subscribed s)
    \<and> map_of (sv_product_infos (worker_task te t s)) = infos_after t (map_of (sv_product_infos s))"
proof (cases t)
  case (RemoveSession sid)
  show ?thesis
  proof (cases "map_of (sv_session_to_products s) sid")
    case None
    then have "products_of s sid = []" by (simp add: products_of_def om_at_def)
    then have "sid \<notin> set (subscribers s p)" for p using server_inv_tables [OF assms(1), of p sid] by simp
    then show ?thesis using None RemoveSession by (auto simp: remove_session_task_def subscribed_def)
  next
    case (Some ps)
    have "sid \<in> set (subscribers s p) \<Longrightarrow> p \<in> set ps" for p
      using server_inv_tables [OF assms(1), of p sid] Some by (simp add: products_of_def om_at_def)
    then show ?thesis
      using Some RemoveSession by (auto simp: remove_session_task_def subscribed_def subscribers_def om_at_drops split: if_splits)
  qed
next
  case (SubscribeProduct sid p)
  then show ?thesis by (auto simp: subscribed_def subscribe_tables split: if_splits)
next
  case (UnsubscribeProduct sid p)
  then show ?thesis by (auto simp: subscribed_def unsubscribe_tables split: if_splits)
next
  case (BroadcastMessage p json)
  then show ?thesis by (simp add: subscribed_def subscribers_def split: option.splits)
qed (simp_all add: subscribed_def subscribers_def map_of_om_put)

lemma worker_inv:
  assumes "server_inv known s" "tasks_ok known (t # ts)"
  shows "\<exists>known'. server_inv known' (worker_task te t s) \<and> tasks_ok known' ts"
proof -
  have frame: "server_inv known s'"
    if "sv_session_to_products s' = sv_session_to_products s" "sv_product_to_sessions s' = sv_product_to_sessions s" for s'
    using that assms(1) by (simp add: server_inv_def products_of_def subscribers_def)
  show ?thesis
  proof (cases t)
    case (AddSession sid)
    then show ?thesis using assms inv_add [OF assms(1)] by (intro exI [of _ "sid # known"]) simp
  next
    case (RemoveSession sid)
    then show ?thesis using assms inv_remove [OF assms(1)] by (intro exI [of _ known]) simp
  next
    case (SubscribeProduct sid p)
    then show ?thesis using assms inv_subscribe [OF assms(1)] by (intro exI [of _ "sid # known"]) simp
  next
    case (UnsubscribeProduct sid p)
    then show ?thesis using assms inv_unsubscribe [OF assms(1)] by (intro exI [of _ known]) simp
  next
    case (BroadcastMessage p json)
    then show ?thesis using assms by (intro exI [of _ known] conjI frame) (auto split: option.splits)
  next
    case (ProductInfoUpdate p info)
    then show ?thesis using assms by (intro exI [of _ known] conjI frame) auto
  qed
qed

lemma broadcast_worker_refines:
  "server_inv known s \<Longrightarrow> tasks_ok known ts \<Longrightarrow>
     (\<exists>known'. server_inv known' (broadcast_worker te ts s))
     \<and> subscribed (broadcast_worker te ts s) = fold subscriptions_after ts (subscribed s)
     \<and> map_of (sv_product_infos (broadcast_worker te ts s)) = fold infos_after ts (map_of (sv_product_infos s))"
proof (induction ts arbitrary: known s)
  case Nil
  then show ?case by (auto simp: broadcast_worker_def)
next
  case (Cons t ts)
  have "tasks_ok known [t]" using Cons.prems(2) by (cases t) simp_all
  then show ?case
    using worker_refines [OF Cons.prems(1), of t te] worker_inv [OF Cons.prems, of te] Cons.IH [of _ "worker_task te t s"]
    by (auto simp: broadcast_worker_def)
qed

lemma broadcast_worker_from_init:
  assumes "tasks_ok [] ts"
  shows "(\<exists>known. server_inv known (broadcast_worker te ts tcp_server_init))
    \<and> subscribed (broadcast_worker te ts tcp_server_init) = fold subscriptions_after ts {}
    \<and> map_of (sv_product_infos (broadcast_worker te ts tcp_server_init)) = fold infos_after ts Map.empty"
proof -
  have "server_inv [] tcp_server_init" "subscribed tcp_server_init = {}" "sv_product_infos tcp_server_init = []"
    by (simp_all add: server_inv_def products_of_def subscribers_def om_at_def tcp_server_init_def subscribed_def)
  then show ?thesis using broadcast_worker_refines [of "[]" tcp_server_init ts te] assms by auto
qed

lemma broadcast_sends: "sv_sent (worker_task te (BroadcastMessage p json) s) = sv_sent s @ map (\<lambda>sid. (sid, json)) (subscribers s p)"
  by (simp add: subscribers_def om_at_def split: option.splits)

section \<open>Properties\<close>

text \<open>
  C11. Every message given to a session while it is open reaches its socket, whatever order the concurrent
  write queue chooses between its two producers: in every reachable state the buffers handed to the
  socket for a producer are its newline-terminated accepted messages, in order and without gaps,
  followed by those still queued; at most one write is in flight; and an open session with nothing
  in flight and no posted drive has written everything, as an interleaving of the two producers'
  messages.
\<close>

theorem session_loses_nothing:
  assumes "session_reach te sid s"
  shows "framed (ss_accepted s pr) = written_by pr s @ framed (ss_write_queue s pr)
    \<and> ss_writing s = ss_in_flight s
    \<and> (ss_active s \<and> \<not> ss_in_flight s \<and> ss_posted s = 0
        \<longrightarrow> map snd (ss_wire s) \<in> shuffles (framed (ss_accepted s Io_Thread)) (framed (ss_accepted s Worker_Thread)))"
proof -
  note inv = session_reach_inv [OF assms]
  have "map snd (ss_wire s) \<in> shuffles (framed (ss_accepted s Io_Thread)) (framed (ss_accepted s Worker_Thread))"
    if "ss_active s" "\<not> ss_in_flight s" "ss_posted s = 0"
    using wire_shuffles [of s] by (simp add: inv_idle [OF inv that])
  then show ?thesis using inv by (simp add: session_inv_def)
qed

definition demo_tcp_env :: tcp_env where
  "demo_tcp_env = \<lparr>te_read_request = (\<lambda>l. Some \<lparr>sr_subscribe = True, sr_product = l, sr_category = futures\<rparr>),
     te_write_response = (\<lambda>r. Some ''ack''), te_write_product_info = (\<lambda>p i. Some ''info''), te_subscribe_hook = True\<rparr>"

definition demo_session :: tcp_session where
  "demo_session = session_step demo_tcp_env 1 (Written False Io_Thread) (session_step demo_tcp_env 1 (RunPosted Worker_Thread)
     (session_step demo_tcp_env 1 (ReadDone False [CHR ''A'', newline]) tcp_session_init))"

lemma demo_session_state: "ss_active demo_session \<and> \<not> ss_in_flight demo_session \<and> ss_posted demo_session = 0
    \<and> ss_accepted demo_session Io_Thread = [''ack''] \<and> ss_accepted demo_session Worker_Thread = []"
  using take_lines_line [of "''A''" "[]"] take_lines_no_newline [of "[]"]
  by (simp add: demo_session_def tcp_session_init_def session_on_read_def on_bytes_def session_handle_message_def
      answer_subscription_def demo_tcp_env_def send_message_def session_run_posted_def session_do_write_def
      dequeue_from_def session_on_written_def Let_def)

lemma demo_session_reach: "session_reach demo_tcp_env 1 demo_session"
  unfolding demo_session_def
  using take_lines_line [of "''A''" "[]"] take_lines_no_newline [of "[]"]
  by (intro session_reach.step session_reach.start)
    (simp_all add: tcp_session_init_def session_on_read_def on_bytes_def session_handle_message_def
      answer_subscription_def demo_tcp_env_def send_message_def session_run_posted_def session_do_write_def
      dequeue_from_def Let_def)

theorem session_loses_nothing_witness: "map snd (ss_wire demo_session) = [''ack'' @ [newline]]"
  using session_loses_nothing [OF demo_session_reach] demo_session_state by (simp add: framed_def)

text \<open>
  C12. The worker's two tables implement one subscription relation: after any queue of tasks in which a
  session is added before its requests, a broadcast goes exactly once to every session that has
  subscribed to the product and not unsubscribed or left since, and to no other, and the retained
  product info is the last one set.
\<close>

theorem server_implements_subscriptions:
  assumes "tasks_ok [] ts"
  shows "\<exists>sids. sv_sent (worker_task te (BroadcastMessage p json) (broadcast_worker te ts tcp_server_init))
        = sv_sent (broadcast_worker te ts tcp_server_init) @ map (\<lambda>sid. (sid, json)) sids
      \<and> distinct sids \<and> set sids = {sid. (sid, p) \<in> fold subscriptions_after ts {}}
      \<and> map_of (sv_product_infos (broadcast_worker te ts tcp_server_init)) = fold infos_after ts Map.empty"
proof -
  let ?s = "broadcast_worker te ts tcp_server_init"
  obtain known where inv: "server_inv known ?s" and sub: "subscribed ?s = fold subscriptions_after ts {}"
    and info: "map_of (sv_product_infos ?s) = fold infos_after ts Map.empty"
    using broadcast_worker_from_init [OF assms] by blast
  have "distinct (subscribers ?s p)" using inv by (simp add: server_inv_def strict_sorted_iff)
  moreover have "set (subscribers ?s p) = {sid. (sid, p) \<in> fold subscriptions_after ts {}}"
    unfolding sub [symmetric] by (simp add: subscribed_def)
  ultimately show ?thesis using info broadcast_sends by blast
qed

theorem server_implements_subscriptions_witness:
  "\<exists>sids. sv_sent (worker_task demo_tcp_env (BroadcastMessage ''A'' ''x'')
        (broadcast_worker demo_tcp_env [AddSession 1, AddSession 2, SubscribeProduct 2 ''A'', SubscribeProduct 1 ''A'', RemoveSession 2]
           tcp_server_init)) = map (\<lambda>sid. (sid, ''x'')) sids \<and> set sids = {1}"
proof -
  let ?ts = "[AddSession 1, AddSession 2, SubscribeProduct 2 ''A'', SubscribeProduct 1 ''A'', RemoveSession 2]"
  have "sv_sent (broadcast_worker demo_tcp_env ?ts tcp_server_init) = []"
    by (simp add: broadcast_worker_def tcp_server_init_def subscribe_task_def remove_session_task_def om_at_def Let_def
        split: option.splits)
  moreover have "{sid. (sid, ''A'') \<in> fold subscriptions_after ?ts {}} = {1}" by auto
  ultimately show ?thesis
    using server_implements_subscriptions [of ?ts demo_tcp_env "''A''" "''x''"] by auto
qed

end
