(* ===== verification/Market_Listener.thy ===== *)
theory Market_Listener
  imports Listener_Types Tcp_Server Text_Numbers
begin

text \<open>
  The market listener process (\<open>market_listener/market_listener.cpp\<close>) around its exchange
  adapter: broadcasting and recording of the normalised events, the product-info refresh timer and
  the rate limit of the account-state snapshots, with the calendar of \<open>utils/datetime.cpp\<close>.
  The tasks handed to the feed server, the rows of the CSV records, the calls made into the adapter
  and the armed timer are part of the state; the JSON writer is a parameter.
\<close>

section \<open>The calendar\<close>

definition get_curr_intraday_minute :: "int \<Rightarrow> int \<Rightarrow> int" where
  "get_curr_intraday_minute now_sec offset =
     (let m = s64 (now_sec div 60 + offset) in if 0 \<le> m then m mod 1440 else - ((- m) mod 1440))"

text \<open>\<open>std::gmtime\<close>: year, month and day of a day number counted from 1 January 1970.\<close>

definition civil_of_days :: "int \<Rightarrow> int \<times> int \<times> int" where
  "civil_of_days days =
     (let z = days + 719468;
          era = z div 146097;
          doe = z mod 146097;
          yoe = (doe - doe div 1460 + doe div 36524 - doe div 146096) div 365;
          doy = doe - (365 * yoe + yoe div 4 - yoe div 100);
          mp = (5 * doy + 2) div 153;
          d = doy - (153 * mp + 2) div 5 + 1;
          m = (if mp < 10 then mp + 3 else mp - 9)
      in (yoe + era * 400 + (if m \<le> 2 then 1 else 0), m, d))"

definition get_curr_date :: "int \<Rightarrow> int \<Rightarrow> int" where
  "get_curr_date now_sec offset =
     (case civil_of_days (s64 (now_sec + offset * 60) div 86400) of (y, m, d) \<Rightarrow> y * 10000 + m * 100 + d)"

section \<open>State\<close>

record ml_env =
  me_config :: listener_config
  me_write_json :: "listener_event \<Rightarrow> string option"
  me_clk_ns :: "nat \<Rightarrow> int"

record orderbook_row =
  br_path :: string
  br_local_tstamp :: int
  br_server_tstamp :: dbl
  br_is_bid :: bool
  br_price :: dbl
  br_qty :: dbl

record trade_row =
  tr_path :: string
  tr_local_tstamp :: int
  tr_server_tstamp :: dbl
  tr_trade_price :: dbl
  tr_cum_trade_qty :: dbl
  tr_cum_buy_trade_qty :: dbl

record market_listener =
  ml_tasks :: "server_task list"
  ml_orderbook_loggers :: "(product, string) omap"
  ml_trade_loggers :: "(product, string) omap"
  ml_orderbook_rows :: "orderbook_row list"
  ml_trade_rows :: "trade_row list"
  ml_last_user_state_publish_ms :: int
  ml_user_state_posts :: nat
  ml_product_info_timer :: "int option"
  ml_product_info_calls :: nat
  ml_clock_reads :: nat

datatype exchange_adapter = BinanceAdapter | KisAdapter

datatype listener_error = UnsupportedListenerExchange string

definition create_exchange_listener :: "listener_config \<Rightarrow> listener_error + exchange_adapter" where
  "create_exchange_listener lc =
     (if lc_exchange lc = ''binance'' then Inr BinanceAdapter
      else if lc_exchange lc = ''kis'' then Inr KisAdapter
      else Inl (UnsupportedListenerExchange (lc_exchange lc)))"

definition ml_now_ns :: "ml_env \<Rightarrow> market_listener \<Rightarrow> int \<times> market_listener" where
  "ml_now_ns me m = (me_clk_ns me (ml_clock_reads m), m\<lparr>ml_clock_reads := Suc (ml_clock_reads m)\<rparr>)"

section \<open>Product info and account state\<close>

definition schedule_product_info_refresh :: "ml_env \<Rightarrow> market_listener \<Rightarrow> market_listener" where
  "schedule_product_info_refresh me m =
     (if lc_product_info_refresh_sec (me_config me) \<le> 0 then m
      else m\<lparr>ml_product_info_timer := Some (lc_product_info_refresh_sec (me_config me))\<rparr>)"

text \<open>
  The first publish and the one on every expiry; an exception of the adapter is logged and the
  schedule goes on, so the model only counts the calls.
\<close>

definition start_product_info_refresh :: "ml_env \<Rightarrow> market_listener \<Rightarrow> market_listener" where
  "start_product_info_refresh me m =
     schedule_product_info_refresh me (m\<lparr>ml_product_info_calls := Suc (ml_product_info_calls m)\<rparr>)"

definition on_product_info_timer :: "ml_env \<Rightarrow> bool \<Rightarrow> market_listener \<Rightarrow> market_listener" where
  "on_product_info_timer me ec m =
     (let m1 = m\<lparr>ml_product_info_timer := None\<rparr>
      in if ec then m1
         else schedule_product_info_refresh me (m1\<lparr>ml_product_info_calls := Suc (ml_product_info_calls m1)\<rparr>))"

definition make_market_listener :: "ml_env \<Rightarrow> listener_error + market_listener" where
  "make_market_listener me =
     (case create_exchange_listener (me_config me) of
        Inl e \<Rightarrow> Inl e
      | Inr a \<Rightarrow> Inr (start_product_info_refresh me
          \<lparr>ml_tasks = [], ml_orderbook_loggers = [], ml_trade_loggers = [], ml_orderbook_rows = [],
           ml_trade_rows = [], ml_last_user_state_publish_ms = 0, ml_user_state_posts = 0,
           ml_product_info_timer = None, ml_product_info_calls = 0, ml_clock_reads = 0\<rparr>))"

definition should_publish_user_state :: "ml_env \<Rightarrow> market_listener \<Rightarrow> bool \<times> market_listener" where
  "should_publish_user_state me m =
     (case ml_now_ns me m of (ns, m1) \<Rightarrow>
        let now_ms = ns div 1000000
        in if ml_last_user_state_publish_ms m1 \<noteq> 0 \<and> s64 (now_ms - ml_last_user_state_publish_ms m1) < 500
           then (False, m1)
           else (True, m1\<lparr>ml_last_user_state_publish_ms := now_ms\<rparr>))"

text \<open>The hook the feed server calls for every new subscription.\<close>

definition subscribe_hook :: "ml_env \<Rightarrow> market_listener \<Rightarrow> market_listener" where
  "subscribe_hook me m =
     (case should_publish_user_state me m of (go, m1) \<Rightarrow>
        if go then m1\<lparr>ml_user_state_posts := Suc (ml_user_state_posts m1)\<rparr> else m1)"

section \<open>Broadcast and records\<close>

definition broadcast_market_data :: "ml_env \<Rightarrow> product \<Rightarrow> listener_event \<Rightarrow> market_listener \<Rightarrow> market_listener" where
  "broadcast_market_data me p ev m =
     (case me_write_json me ev of
        None \<Rightarrow> m
      | Some json \<Rightarrow> m\<lparr>ml_tasks := ml_tasks m @ [BroadcastMessage p json]\<rparr>)"

definition record_path :: "ml_env \<Rightarrow> string \<Rightarrow> product \<Rightarrow> int \<Rightarrow> string" where
  "record_path me save_path p now_sec =
     save_path @ ''/'' @ lc_exchange (me_config me) @ ''/'' @ p @ ''/''
       @ to_string (get_curr_date now_sec (lc_timezone_minute_offset (me_config me))) @ ''.log''"

definition get_orderbook_logger :: "ml_env \<Rightarrow> product \<Rightarrow> market_listener \<Rightarrow> string \<times> market_listener" where
  "get_orderbook_logger me p m =
     (case map_of (ml_orderbook_loggers m) p of
        Some path \<Rightarrow> (path, m)
      | None \<Rightarrow>
          (case ml_now_ns me m of (ns, m1) \<Rightarrow>
             let path = record_path me (lc_orderbook_save_path (me_config me)) p (ns div 1000000000)
             in (path, m1\<lparr>ml_orderbook_loggers := om_put p path (ml_orderbook_loggers m1)\<rparr>)))"

definition get_trade_logger :: "ml_env \<Rightarrow> product \<Rightarrow> market_listener \<Rightarrow> string \<times> market_listener" where
  "get_trade_logger me p m =
     (case map_of (ml_trade_loggers m) p of
        Some path \<Rightarrow> (path, m)
      | None \<Rightarrow>
          (case ml_now_ns me m of (ns, m1) \<Rightarrow>
             let path = record_path me (lc_trade_save_path (me_config me)) p (ns div 1000000000)
             in (path, m1\<lparr>ml_trade_loggers := om_put p path (ml_trade_loggers m1)\<rparr>)))"

definition or_nan :: "dbl option \<Rightarrow> dbl" where
  "or_nan x = (case x of None \<Rightarrow> NaN | Some v \<Rightarrow> v)"

definition tstamp_or_nan :: "int option \<Rightarrow> dbl" where
  "tstamp_or_nan t = (case t of None \<Rightarrow> NaN | Some v \<Rightarrow> d_of_int v)"

definition log_orderbook_data :: "ml_env \<Rightarrow> product \<Rightarrow> orderbook_data \<Rightarrow> market_listener \<Rightarrow> market_listener" where
  "log_orderbook_data me p d m =
     (if lc_no_orderbook_log (me_config me) then m
      else (case get_orderbook_logger me p m of (path, m1) \<Rightarrow>
              (case ml_now_ns me m1 of (local, m2) \<Rightarrow>
                 let row = (\<lambda>is_bid lv. \<lparr>br_path = path, br_local_tstamp = local,
                              br_server_tstamp = tstamp_or_nan (ob_server_tstamp_ms d), br_is_bid = is_bid,
                              br_price = or_nan (ol_price lv), br_qty = or_nan (ol_qty lv)\<rparr>)
                 in m2\<lparr>ml_orderbook_rows := ml_orderbook_rows m2
                         @ map (row True) (bid_book d) @ map (row False) (ask_book d)\<rparr>)))"

definition log_trade_data :: "ml_env \<Rightarrow> product \<Rightarrow> trade_data \<Rightarrow> market_listener \<Rightarrow> market_listener" where
  "log_trade_data me p d m =
     (if lc_no_public_trade_log (me_config me) then m
      else (case get_trade_logger me p m of (path, m1) \<Rightarrow>
              (case ml_now_ns me m1 of (local, m2) \<Rightarrow>
                 m2\<lparr>ml_trade_rows := ml_trade_rows m2
                      @ [\<lparr>tr_path = path, tr_local_tstamp = local,
                          tr_server_tstamp = tstamp_or_nan (td_server_tstamp_ms d),
                          tr_trade_price = or_nan (td_trade_price d), tr_cum_trade_qty = or_nan (td_cum_trade_qty d),
                          tr_cum_buy_trade_qty = or_nan (td_cum_buy_trade_qty d)\<rparr>]\<rparr>)))"

fun listen :: "ml_env \<Rightarrow> listener_event \<Rightarrow> market_listener \<Rightarrow> market_listener" where
  "listen me (StatusEvent su) m = m"
| "listen me (OrderbookEvent p d) m = log_orderbook_data me p d (broadcast_market_data me p (OrderbookEvent p d) m)"
| "listen me (TradeEvent p d) m = log_trade_data me p d (broadcast_market_data me p (TradeEvent p d) m)"
| "listen me (ExecutionEvent p d) m = broadcast_market_data me p (ExecutionEvent p d) m"
| "listen me (PositionEvent p d) m = broadcast_market_data me p (PositionEvent p d) m"
| "listen me (ProductInfoEvent p d) m =
     (let m1 = broadcast_market_data me p (ProductInfoEvent p d) m
      in m1\<lparr>ml_tasks := ml_tasks m1 @ [ProductInfoUpdate p d]\<rparr>)"

section \<open>Facts\<close>

fun event_tasks :: "ml_env \<Rightarrow> listener_event \<Rightarrow> server_task list" where
  "event_tasks me (StatusEvent su) = []"
| "event_tasks me (ProductInfoEvent p d) =
     (case me_write_json me (ProductInfoEvent p d) of None \<Rightarrow> [] | Some j \<Rightarrow> [BroadcastMessage p j]) @ [ProductInfoUpdate p d]"
| "event_tasks me (OrderbookEvent p d) = (case me_write_json me (OrderbookEvent p d) of None \<Rightarrow> [] | Some j \<Rightarrow> [BroadcastMessage p j])"
| "event_tasks me (TradeEvent p d) = (case me_write_json me (TradeEvent p d) of None \<Rightarrow> [] | Some j \<Rightarrow> [BroadcastMessage p j])"
| "event_tasks me (ExecutionEvent p d) = (case me_write_json me (ExecutionEvent p d) of None \<Rightarrow> [] | Some j \<Rightarrow> [BroadcastMessage p j])"
| "event_tasks me (PositionEvent p d) = (case me_write_json me (PositionEvent p d) of None \<Rightarrow> [] | Some j \<Rightarrow> [BroadcastMessage p j])"

lemma log_tasks [simp]:
  "ml_tasks (log_orderbook_data me p d m) = ml_tasks m" "ml_tasks (log_trade_data me p t m) = ml_tasks m"
  by (simp_all add: log_orderbook_data_def log_trade_data_def get_orderbook_logger_def get_trade_logger_def
      ml_now_ns_def Let_def split: option.splits prod.splits)

text \<open>Every event is handed to the feed server in the order it arrived, and nothing else is.\<close>

lemma listen_tasks: "ml_tasks (listen me ev m) = ml_tasks m @ event_tasks me ev"
  by (cases ev) (simp_all add: broadcast_market_data_def Let_def split: option.splits)

lemma listen_all_tasks: "ml_tasks (fold (listen me) evs m) = ml_tasks m @ concat (map (event_tasks me) evs)"
  by (induction evs arbitrary: m) (simp_all add: listen_tasks)

text \<open>Two account-state snapshots are never posted within half a second of each other.\<close>

lemma user_state_rate_limit:
  assumes "ml_last_user_state_publish_ms m \<noteq> 0" "should_publish_user_state me m = (True, m')"
  shows "500 \<le> s64 (ml_last_user_state_publish_ms m' - ml_last_user_state_publish_ms m)"
  using assms by (auto simp: should_publish_user_state_def ml_now_ns_def Let_def split: if_splits)

text \<open>
  The refresh schedule survives every expiry when it is enabled, and never starts when disabled;
  either way the info has been published once at the start.
\<close>

lemma refresh_keeps_going:
  assumes "make_market_listener me = Inr m0"
  shows "ml_product_info_calls m0 = 1"
    "0 < lc_product_info_refresh_sec (me_config me) \<Longrightarrow>
       ml_product_info_timer ((on_product_info_timer me False ^^ k) m0) = Some (lc_product_info_refresh_sec (me_config me))
       \<and> ml_product_info_calls ((on_product_info_timer me False ^^ k) m0) = Suc k"
    "lc_product_info_refresh_sec (me_config me) \<le> 0 \<Longrightarrow> ml_product_info_timer m0 = None"
proof -
  note start = assms [unfolded make_market_listener_def]
  show "ml_product_info_calls m0 = 1"
    "lc_product_info_refresh_sec (me_config me) \<le> 0 \<Longrightarrow> ml_product_info_timer m0 = None"
    using start by (auto simp: start_product_info_refresh_def schedule_product_info_refresh_def split: sum.splits)
  assume pos: "0 < lc_product_info_refresh_sec (me_config me)"
  show "ml_product_info_timer ((on_product_info_timer me False ^^ k) m0) = Some (lc_product_info_refresh_sec (me_config me))
       \<and> ml_product_info_calls ((on_product_info_timer me False ^^ k) m0) = Suc k"
    using pos start
    by (induction k) (auto simp: start_product_info_refresh_def schedule_product_info_refresh_def
        on_product_info_timer_def Let_def split: sum.splits)
qed

text \<open>
  The broadcast of a product's info is queued before the info is retained, so a subscription the
  worker handles between the two gets neither: the new session is not sent anything.
\<close>

lemma late_subscriber_gets_no_info:
  assumes "map_of (sv_product_infos s) p = None" "map_of (sv_product_to_sessions s) p = None"
  shows "sv_sent (broadcast_worker te [BroadcastMessage p json, SubscribeProduct sid p, ProductInfoUpdate p info] s) = sv_sent s"
  using assms by (simp add: broadcast_worker_def subscribe_task_def Let_def split: option.splits)

end
