(* ===== verification/Kis_Feed.thy ===== *)
theory Kis_Feed
  imports Text_Numbers Listener_Types
begin

text \<open>
  What the KIS adapter makes of a market frame: the product database and the product manager
  (\<open>market_listener/exchange/kis/product_manager.cpp\<close>, \<open>product_manager_base.hpp\<close>), the layouts
  of the frames' records (\<open>ws_response_types/\<close>) and the splitting of the text
  (\<open>connection_handlers/websocket/kis/kis_ws_client.cpp\<close>).  A response struct is the list of its
  members' names with their texts, in the order of declaration; a \<open>std::stod\<close> that throws is
  \<open>None\<close>.  The files of the product database are a parameter.
\<close>

section \<open>Splitting texts\<close>

function split_msg :: "char \<Rightarrow> string \<Rightarrow> string list" where
  "split_msg sep msg =
     (case dropWhile (\<lambda>c. c \<noteq> sep) msg of
        [] \<Rightarrow> [msg]
      | _ # rest \<Rightarrow> takeWhile (\<lambda>c. c \<noteq> sep) msg # split_msg sep rest)"
  by auto

termination
proof (relation "measure (length \<circ> snd)")
  fix sep c and msg rest :: string
  assume "dropWhile (\<lambda>c. c \<noteq> sep) msg = c # rest"
  then show "((sep, rest), sep, msg) \<in> measure (length \<circ> snd)"
    using length_dropWhile_le [of "\<lambda>c. c \<noteq> sep" msg] by simp
qed simp

declare split_msg.simps [simp del]

text \<open>
  \<open>while (std::getline(in, piece, sep))\<close>: the pieces in order, the last one only when it is not empty.
\<close>

definition getlines :: "char \<Rightarrow> string \<Rightarrow> string list" where
  "getlines sep text =
     (let pieces = split_msg sep text in if last pieces = [] then butlast pieces else pieces)"

section \<open>The product database\<close>

datatype product_type =
    IndexFutures | IndexOption | StockFutures | StockOption | CommodityFutures | NightFutures | NightOption
  | NoProductType

datatype tr_id_type = OrderbookTrId | TradeTrId | ExecutionTrId | NoTrIdType

record product_manager =
  pm_hts_id :: string
  pm_is_night :: bool
  pm_idx_fo_products :: "string list"
  pm_stock_fo_products :: "string list"
  pm_com_fo_products :: "string list"
  pm_night_option_products :: "string list"
  pm_tr_id_types :: "(string, tr_id_type) omap"

fun column_index :: "string \<Rightarrow> string list \<Rightarrow> nat option" where
  "column_index name [] = None"
| "column_index name (cell # cells) =
     (if cell = name then Some 0 else map_option Suc (column_index name cells))"

definition read_products_file :: "(string \<Rightarrow> string option) \<Rightarrow> string \<Rightarrow> string \<Rightarrow> string \<Rightarrow> string list" where
  "read_products_file files products_db_path file_name products_col_name =
     (case files (products_db_path @ ''/'' @ file_name) of
        None \<Rightarrow> []
      | Some text \<Rightarrow>
          (case getlines (CHR 0x0A) text of
             [] \<Rightarrow> []
           | line # rows \<Rightarrow>
               (case column_index products_col_name (getlines (CHR '','') line) of
                  None \<Rightarrow> []
                | Some i \<Rightarrow>
                    fold (\<lambda>row result. let cells = getlines (CHR '','') row
                            in if i < length cells then os_insert (cells ! i) result else result) rows [])))"

text \<open>The column of the short codes, as the bytes of its Korean name.\<close>

definition short_code_column :: string where
  "short_code_column = [CHR 0xEB, CHR 0x8B, CHR 0xA8, CHR 0xEC, CHR 0xB6, CHR 0x95, CHR 0xEC, CHR 0xBD, CHR 0x94, CHR 0xEB, CHR 0x93, CHR 0x9C]"

definition kis_tr_id_types :: "(string, tr_id_type) omap" where
  "kis_tr_id_types = fold (\<lambda>(k, v). om_put k v)
     [(''H0IFASP0'', OrderbookTrId), (''H0IOASP0'', OrderbookTrId), (''H0ZFASP0'', OrderbookTrId), (''H0ZOASP0'', OrderbookTrId),
      (''H0CFASP0'', OrderbookTrId), (''H0MFASP0'', OrderbookTrId), (''H0EUASP0'', OrderbookTrId), (''H0IFCNT0'', TradeTrId),
      (''H0IOCNT0'', TradeTrId), (''H0ZFCNT0'', TradeTrId), (''H0ZOCNT0'', TradeTrId), (''H0CFCNT0'', TradeTrId),
      (''H0MFCNT0'', TradeTrId), (''H0EUCNT0'', TradeTrId), (''H0IFCNI0'', ExecutionTrId), (''H0MFCNI0'', ExecutionTrId)] []"

definition make_product_manager :: "(string \<Rightarrow> string option) \<Rightarrow> string \<Rightarrow> string \<Rightarrow> bool \<Rightarrow> product_manager" where
  "make_product_manager files products_db_path hts_id is_night =
     \<lparr>pm_hts_id = hts_id, pm_is_night = is_night,
      pm_idx_fo_products = read_products_file files products_db_path ''fo_idx_code_mts.csv'' short_code_column,
      pm_stock_fo_products = read_products_file files products_db_path ''fo_stk_code_mts.csv'' short_code_column,
      pm_com_fo_products = read_products_file files products_db_path ''fo_com_code.csv'' short_code_column,
      pm_night_option_products = read_products_file files products_db_path ''fo_eurex_code.csv'' short_code_column,
      pm_tr_id_types = kis_tr_id_types\<rparr>"

definition get_full_product :: "string \<Rightarrow> string" where
  "get_full_product product = product"

definition get_short_product :: "string \<Rightarrow> string" where
  "get_short_product full_product = full_product"

definition get_product_type :: "product_manager \<Rightarrow> string \<Rightarrow> product_type" where
  "get_product_type pm product =
     (if pm_is_night pm
      then if product \<in> set (pm_idx_fo_products pm) then NightFutures
           else if product \<in> set (pm_stock_fo_products pm) then NightFutures
           else if product \<in> set (pm_com_fo_products pm) then NightFutures
           else if product \<in> set (pm_night_option_products pm) then NightOption
           else NoProductType
      else if product \<in> set (pm_idx_fo_products pm)
           then if length product \<le> 6 then IndexFutures else IndexOption
           else if product \<in> set (pm_stock_fo_products pm)
           then if length product \<le> 6 then StockFutures else StockOption
           else if product \<in> set (pm_com_fo_products pm) then CommodityFutures
           else NoProductType)"

definition get_tr_id_type :: "product_manager \<Rightarrow> string \<Rightarrow> tr_id_type" where
  "get_tr_id_type pm tr_id = (case map_of (pm_tr_id_types pm) tr_id of None \<Rightarrow> NoTrIdType | Some t \<Rightarrow> t)"

section \<open>Subscriptions\<close>

record subscription_input =
  si_tr_id :: string
  si_tr_key :: string

definition get_orderbook_subscription_input :: "product_manager \<Rightarrow> string \<Rightarrow> subscription_input" where
  "get_orderbook_subscription_input pm product =
     (case get_product_type pm product of
        IndexFutures \<Rightarrow> \<lparr>si_tr_id = ''H0IFASP0'', si_tr_key = get_full_product product\<rparr>
      | IndexOption \<Rightarrow> \<lparr>si_tr_id = ''H0IOASP0'', si_tr_key = get_full_product product\<rparr>
      | StockFutures \<Rightarrow> \<lparr>si_tr_id = ''H0ZFASP0'', si_tr_key = get_full_product product\<rparr>
      | StockOption \<Rightarrow> \<lparr>si_tr_id = ''H0ZOASP0'', si_tr_key = get_full_product product\<rparr>
      | CommodityFutures \<Rightarrow> \<lparr>si_tr_id = ''H0CFASP0'', si_tr_key = get_full_product product\<rparr>
      | NightFutures \<Rightarrow> \<lparr>si_tr_id = ''H0MFASP0'', si_tr_key = get_full_product product\<rparr>
      | NightOption \<Rightarrow> \<lparr>si_tr_id = ''H0EUASP0'', si_tr_key = get_full_product product\<rparr>
      | NoProductType \<Rightarrow> \<lparr>si_tr_id = [], si_tr_key = []\<rparr>)"

definition get_trade_subscription_input :: "product_manager \<Rightarrow> string \<Rightarrow> subscription_input" where
  "get_trade_subscription_input pm product =
     (case get_product_type pm product of
        IndexFutures \<Rightarrow> \<lparr>si_tr_id = ''H0IFCNT0'', si_tr_key = get_full_product product\<rparr>
      | IndexOption \<Rightarrow> \<lparr>si_tr_id = ''H0IOCNT0'', si_tr_key = get_full_product product\<rparr>
      | StockFutures \<Rightarrow> \<lparr>si_tr_id = ''H0ZFCNT0'', si_tr_key = get_full_product product\<rparr>
      | StockOption \<Rightarrow> \<lparr>si_tr_id = ''H0ZOCNT0'', si_tr_key = get_full_product product\<rparr>
      | CommodityFutures \<Rightarrow> \<lparr>si_tr_id = ''H0CFCNT0'', si_tr_key = get_full_product product\<rparr>
      | NightFutures \<Rightarrow> \<lparr>si_tr_id = ''H0MFCNT0'', si_tr_key = get_full_product product\<rparr>
      | NightOption \<Rightarrow> \<lparr>si_tr_id = ''H0EUCNT0'', si_tr_key = get_full_product product\<rparr>
      | NoProductType \<Rightarrow> \<lparr>si_tr_id = [], si_tr_key = []\<rparr>)"

definition get_execution_subscription_input :: "product_manager \<Rightarrow> string \<Rightarrow> subscription_input" where
  "get_execution_subscription_input pm product =
     (case get_product_type pm product of
        NoProductType \<Rightarrow> \<lparr>si_tr_id = [], si_tr_key = []\<rparr>
      | NightFutures \<Rightarrow> \<lparr>si_tr_id = ''H0MFCNI0'', si_tr_key = pm_hts_id pm\<rparr>
      | NightOption \<Rightarrow> \<lparr>si_tr_id = ''H0MFCNI0'', si_tr_key = pm_hts_id pm\<rparr>
      | _ \<Rightarrow> \<lparr>si_tr_id = ''H0IFCNI0'', si_tr_key = get_full_product product\<rparr>)"

section \<open>The records of a frame\<close>

type_synonym response = "(string \<times> string) list"

text \<open>\<open>T{vec[offset + Indices]...}\<close>: the first \<open>field_cnt\<close> members in order, or \<open>T{}\<close> when the data are short.\<close>

definition vector_to_struct_impl :: "string list \<Rightarrow> nat \<Rightarrow> string list \<Rightarrow> nat \<Rightarrow> response" where
  "vector_to_struct_impl members field_cnt vec offset =
     (if length vec < offset + field_cnt then map (\<lambda>m. (m, [])) members
      else zip members (take field_cnt (drop offset vec) @ replicate (length members - field_cnt) []))"

definition field :: "response \<Rightarrow> string \<Rightarrow> string" where
  "field r m = (case map_of r m of None \<Rightarrow> [] | Some s \<Rightarrow> s)"

record orderbook_response =
  obr_fields :: "string list"
  obr_field_cnt :: nat
  obr_bids :: "(string \<times> string) list"
  obr_asks :: "(string \<times> string) list"

record trade_response =
  tdr_fields :: "string list"
  tdr_field_cnt :: nat
  tdr_price :: string
  tdr_cum_qty :: string
  tdr_cum_buy_qty :: string

fun normalize_levels :: "response \<Rightarrow> (string \<times> string) list \<Rightarrow> orderbook_level list option" where
  "normalize_levels r [] = Some []"
| "normalize_levels r ((price, qty) # rest) =
     (case (stod (field r price), stod (field r qty), normalize_levels r rest) of
        (Some p, Some q, Some ls) \<Rightarrow> Some (\<lparr>ol_price = Some p, ol_qty = Some q\<rparr> # ls)
      | _ \<Rightarrow> None)"

definition normalize_orderbook :: "orderbook_response \<Rightarrow> response \<Rightarrow> orderbook_data option" where
  "normalize_orderbook ob r =
     (case (normalize_levels r (obr_bids ob), normalize_levels r (obr_asks ob)) of
        (Some bs, Some as) \<Rightarrow> Some \<lparr>bid_book = bs, ask_book = as, ob_server_tstamp_ms = None\<rparr>
      | _ \<Rightarrow> None)"

definition normalize_trade :: "trade_response \<Rightarrow> response \<Rightarrow> trade_data option" where
  "normalize_trade td r =
     (case (stod (field r (tdr_price td)), stod (field r (tdr_cum_qty td)), stod (field r (tdr_cum_buy_qty td))) of
        (Some p, Some q, Some b) \<Rightarrow> Some \<lparr>td_trade_price = Some p, td_cum_trade_qty = Some q,
            td_cum_buy_trade_qty = Some b, td_server_tstamp_ms = None\<rparr>
      | _ \<Rightarrow> None)"

text \<open>\<open>X.empty() ? NAN : std::stod(X)\<close>\<close>

definition stod_or_nan :: "string \<Rightarrow> dbl option" where
  "stod_or_nan s = (if s = [] then Some NaN else stod s)"

subsection \<open>Order book records\<close>

definition index_futures_orderbook_response :: orderbook_response where
  "index_futures_orderbook_response = \<lparr>obr_fields =
      [''FUTS_SHRN_ISCD'', ''BSOP_HOUR'', ''FUTS_ASKP1'', ''FUTS_ASKP2'', ''FUTS_ASKP3'', ''FUTS_ASKP4'',
       ''FUTS_ASKP5'', ''FUTS_BIDP1'', ''FUTS_BIDP2'', ''FUTS_BIDP3'', ''FUTS_BIDP4'', ''FUTS_BIDP5'',
       ''ASKP_CSNU1'', ''ASKP_CSNU2'', ''ASKP_CSNU3'', ''ASKP_CSNU4'', ''ASKP_CSNU5'', ''BIDP_CSNU1'',
       ''BIDP_CSNU2'', ''BIDP_CSNU3'', ''BIDP_CSNU4'', ''BIDP_CSNU5'', ''ASKP_RSQN1'', ''ASKP_RSQN2'',
       ''ASKP_RSQN3'', ''ASKP_RSQN4'', ''ASKP_RSQN5'', ''BIDP_RSQN1'', ''BIDP_RSQN2'', ''BIDP_RSQN3'',
       ''BIDP_RSQN4'', ''BIDP_RSQN5'', ''TOTAL_ASKP_CSNU'', ''TOTAL_BIDP_CSNU'', ''TOTAL_ASKP_RSQN'',
       ''TOTAL_BIDP_RSQN'', ''TOTAL_ASKP_RSQN_ICDC'', ''TOTAL_BIDP_RSQN_ICDC''],
     obr_field_cnt = 38,
     obr_bids =
      [(''FUTS_BIDP1'', ''BIDP_RSQN1''), (''FUTS_BIDP2'', ''BIDP_RSQN2''),
       (''FUTS_BIDP3'', ''BIDP_RSQN3''), (''FUTS_BIDP4'', ''BIDP_RSQN4''), (''FUTS_BIDP5'', ''BIDP_RSQN5'')],
     obr_asks =
      [(''FUTS_ASKP1'', ''ASKP_RSQN1''), (''FUTS_ASKP2'', ''ASKP_RSQN2''),
       (''FUTS_ASKP3'', ''ASKP_RSQN3''), (''FUTS_ASKP4'', ''ASKP_RSQN4''), (''FUTS_ASKP5'', ''ASKP_RSQN5'')]\<rparr>"

definition index_option_orderbook_response :: orderbook_response where
  "index_option_orderbook_response = \<lparr>obr_fields =
      [''OPTN_SHRN_ISCD'', ''BSOP_HOUR'', ''OPTN_ASKP1'', ''OPTN_ASKP2'', ''OPTN_ASKP3'', ''OPTN_ASKP4'',
       ''OPTN_ASKP5'', ''OPTN_BIDP1'', ''OPTN_BIDP2'', ''OPTN_BIDP3'', ''OPTN_BIDP4'', ''OPTN_BIDP5'',
       ''ASKP_CSNU1'', ''ASKP_CSNU2'', ''ASKP_CSNU3'', ''ASKP_CSNU4'', ''ASKP_CSNU5'', ''BIDP_CSNU1'',
       ''BIDP_CSNU2'', ''BIDP_CSNU3'', ''BIDP_CSNU4'', ''BIDP_CSNU5'', ''ASKP_RSQN1'', ''ASKP_RSQN2'',
       ''ASKP_RSQN3'', ''ASKP_RSQN4'', ''ASKP_RSQN5'', ''BIDP_RSQN1'', ''BIDP_RSQN2'', ''BIDP_RSQN3'',
       ''BIDP_RSQN4'', ''BIDP_RSQN5'', ''TOTAL_ASKP_CSNU'', ''TOTAL_BIDP_CSNU'', ''TOTAL_ASKP_RSQN'',
       ''TOTAL_BIDP_RSQN'', ''TOTAL_ASKP_RSQN_ICDC'', ''TOTAL_BIDP_RSQN_ICDC''],
     obr_field_cnt = 38,
     obr_bids =
      [(''OPTN_BIDP1'', ''BIDP_RSQN1''), (''OPTN_BIDP2'', ''BIDP_RSQN2''),
       (''OPTN_BIDP3'', ''BIDP_RSQN3''), (''OPTN_BIDP4'', ''BIDP_RSQN4''), (''OPTN_BIDP5'', ''BIDP_RSQN5'')],
     obr_asks =
      [(''OPTN_ASKP1'', ''ASKP_RSQN1''), (''OPTN_ASKP2'', ''ASKP_RSQN2''),
       (''OPTN_ASKP3'', ''ASKP_RSQN3''), (''OPTN_ASKP4'', ''ASKP_RSQN4''), (''OPTN_ASKP5'', ''ASKP_RSQN5'')]\<rparr>"

definition stock_futures_orderbook_response :: orderbook_response where
  "stock_futures_orderbook_response = \<lparr>obr_fields =
      [''FUTS_SHRN_ISCD'', ''BSOP_HOUR'', ''ASKP1'', ''ASKP2'', ''ASKP3'', ''ASKP4'', ''ASKP5'', ''ASKP6'',
       ''ASKP7'', ''ASKP8'', ''ASKP9'', ''ASKP10'', ''BIDP1'', ''BIDP2'', ''BIDP3'', ''BIDP4'', ''BIDP5'',
       ''BIDP6'', ''BIDP7'', ''BIDP8'', ''BIDP9'', ''BIDP10'', ''ASKP_CSNU1'', ''ASKP_CSNU2'',
       ''ASKP_CSNU3'', ''ASKP_CSNU4'', ''ASKP_CSNU5'', ''ASKP_CSNU6'', ''ASKP_CSNU7'', ''ASKP_CSNU8'',
       ''ASKP_CSNU9'', ''ASKP_CSNU10'', ''BIDP_CSNU1'', ''BIDP_CSNU2'', ''BIDP_CSNU3'', ''BIDP_CSNU4'',
       ''BIDP_CSNU5'', ''BIDP_CSNU6'', ''BIDP_CSNU7'', ''BIDP_CSNU8'', ''BIDP_CSNU9'', ''BIDP_CSNU10'',
       ''ASKP_RSQN1'', ''ASKP_RSQN2'', ''ASKP_RSQN3'', ''ASKP_RSQN4'', ''ASKP_RSQN5'', ''ASKP_RSQN6'',
       ''ASKP_RSQN7'', ''ASKP_RSQN8'', ''ASKP_RSQN9'', ''ASKP_RSQN10'', ''BIDP_RSQN1'', ''BIDP_RSQN2'',
       ''BIDP_RSQN3'', ''BIDP_RSQN4'', ''BIDP_RSQN5'', ''BIDP_RSQN6'', ''BIDP_RSQN7'', ''BIDP_RSQN8'',
       ''BIDP_RSQN9'', ''BIDP_RSQN10'', ''TOTAL_ASKP_CSNU'', ''TOTAL_BIDP_CSNU'', ''TOTAL_ASKP_RSQN'',
       ''TOTAL_BIDP_RSQN'', ''TOTAL_ASKP_RSQN_ICDC'', ''TOTAL_BIDP_RSQN_ICDC''],
     obr_field_cnt = 68,
     obr_bids =
      [(''BIDP1'', ''BIDP_RSQN1''), (''BIDP2'', ''BIDP_RSQN2''), (''BIDP3'', ''BIDP_RSQN3''),
       (''BIDP4'', ''BIDP_RSQN4''), (''BIDP5'', ''BIDP_RSQN5''), (''BIDP6'', ''BIDP_RSQN6''),
       (''BIDP7'', ''BIDP_RSQN7''), (''BIDP8'', ''BIDP_RSQN8''), (''BIDP9'', ''BIDP_RSQN9''),
       (''BIDP10'', ''BIDP_RSQN10'')],
     obr_asks =
      [(''ASKP1'', ''ASKP_RSQN1''), (''ASKP2'', ''ASKP_RSQN2''), (''ASKP3'', ''ASKP_RSQN3''),
       (''ASKP4'', ''ASKP_RSQN4''), (''ASKP5'', ''ASKP_RSQN5''), (''ASKP6'', ''ASKP_RSQN6''),
       (''ASKP7'', ''ASKP_RSQN7''), (''ASKP8'', ''ASKP_RSQN8''), (''ASKP9'', ''ASKP_RSQN9''),
       (''ASKP10'', ''ASKP_RSQN10'')]\<rparr>"

definition stock_option_orderbook_response :: orderbook_response where
  "stock_option_orderbook_response = \<lparr>obr_fields =
      [''OPTN_SHRN_ISCD'', ''BSOP_HOUR'', ''OPTN_ASKP1'', ''OPTN_ASKP2'', ''OPTN_ASKP3'', ''OPTN_ASKP4'',
       ''OPTN_ASKP5'', ''OPTN_BIDP1'', ''OPTN_BIDP2'', ''OPTN_BIDP3'', ''OPTN_BIDP4'', ''OPTN_BIDP5'',
       ''ASKP_CSNU1'', ''ASKP_CSNU2'', ''ASKP_CSNU3'', ''ASKP_CSNU4'', ''ASKP_CSNU5'', ''BIDP_CSNU1'',
       ''BIDP_CSNU2'', ''BIDP_CSNU3'', ''BIDP_CSNU4'', ''BIDP_CSNU5'', ''ASKP_RSQN1'', ''ASKP_RSQN2'',
       ''ASKP_RSQN3'', ''ASKP_RSQN4'', ''ASKP_RSQN5'', ''BIDP_RSQN1'', ''BIDP_RSQN2'', ''BIDP_RSQN3'',
       ''BIDP_RSQN4'', ''BIDP_RSQN5'', ''TOTAL_ASKP_CSNU'', ''TOTAL_BIDP_CSNU'', ''TOTAL_ASKP_RSQN'',
       ''TOTAL_BIDP_RSQN'', ''TOTAL_ASKP_RSQN_ICDC'', ''TOTAL_BIDP_RSQN_ICDC'', ''OPTN_ASKP6'',
       ''OPTN_ASKP7'', ''OPTN_ASKP8'', ''OPTN_ASKP9'', ''OPTN_ASKP10'', ''OPTN_BIDP6'', ''OPTN_BIDP7'',
       ''OPTN_BIDP8'', ''OPTN_BIDP9'', ''OPTN_BIDP10'', ''ASKP_CSNU6'', ''ASKP_CSNU7'', ''ASKP_CSNU8'',
       ''ASKP_CSNU9'', ''ASKP_CSNU10'', ''BIDP_CSNU6'', ''BIDP_CSNU7'', ''BIDP_CSNU8'', ''BIDP_CSNU9'',
       ''BIDP_CSNU10'', ''ASKP_RSQN6'', ''ASKP_RSQN7'', ''ASKP_RSQN8'', ''ASKP_RSQN9'', ''ASKP_RSQN10'',
       ''BIDP_RSQN6'', ''BIDP_RSQN7'', ''BIDP_RSQN8'', ''BIDP_RSQN9'', ''BIDP_RSQN10''],
     obr_field_cnt = 68,
     obr_bids =
      [(''OPTN_BIDP1'', ''BIDP_RSQN1''), (''OPTN_BIDP2'', ''BIDP_RSQN2''),
       (''OPTN_BIDP3'', ''BIDP_RSQN3''), (''OPTN_BIDP4'', ''BIDP_RSQN4''),
       (''OPTN_BIDP5'', ''BIDP_RSQN5''), (''OPTN_BIDP6'', ''BIDP_RSQN6''),
       (''OPTN_BIDP7'', ''BIDP_RSQN7''), (''OPTN_BIDP8'', ''BIDP_RSQN8''),
       (''OPTN_BIDP9'', ''BIDP_RSQN9''), (''OPTN_BIDP10'', ''BIDP_RSQN10'')],
     obr_asks =
      [(''OPTN_ASKP1'', ''ASKP_RSQN1''), (''OPTN_ASKP2'', ''ASKP_RSQN2''),
       (''OPTN_ASKP3'', ''ASKP_RSQN3''), (''OPTN_ASKP4'', ''ASKP_RSQN4''),
       (''OPTN_ASKP5'', ''ASKP_RSQN5''), (''OPTN_ASKP6'', ''ASKP_RSQN6''),
       (''OPTN_ASKP7'', ''ASKP_RSQN7''), (''OPTN_ASKP8'', ''ASKP_RSQN8''),
       (''OPTN_ASKP9'', ''ASKP_RSQN9''), (''OPTN_ASKP10'', ''ASKP_RSQN10'')]\<rparr>"

definition commodity_futures_orderbook_response :: orderbook_response where
  "commodity_futures_orderbook_response = \<lparr>obr_fields =
      [''FUTS_SHRN_ISCD'', ''BSOP_HOUR'', ''FUTS_ASKP1'', ''FUTS_ASKP2'', ''FUTS_ASKP3'', ''FUTS_ASKP4'',
       ''FUTS_ASKP5'', ''FUTS_BIDP1'', ''FUTS_BIDP2'', ''FUTS_BIDP3'', ''FUTS_BIDP4'', ''FUTS_BIDP5'',
       ''ASKP_CSNU1'', ''ASKP_CSNU2'', ''ASKP_CSNU3'', ''ASKP_CSNU4'', ''ASKP_CSNU5'', ''BIDP_CSNU1'',
       ''BIDP_CSNU2'', ''BIDP_CSNU3'', ''BIDP_CSNU4'', ''BIDP_CSNU5'', ''ASKP_RSQN1'', ''ASKP_RSQN2'',
       ''ASKP_RSQN3'', ''ASKP_RSQN4'', ''ASKP_RSQN5'', ''BIDP_RSQN1'', ''BIDP_RSQN2'', ''BIDP_RSQN3'',
       ''BIDP_RSQN4'', ''BIDP_RSQN5'', ''TOTAL_ASKP_CSNU'', ''TOTAL_BIDP_CSNU'', ''TOTAL_ASKP_RSQN'',
       ''TOTAL_BIDP_RSQN'', ''TOTAL_ASKP_RSQN_ICDC'', ''TOTAL_BIDP_RSQN_ICDC''],
     obr_field_cnt = 38,
     obr_bids =
      [(''FUTS_BIDP1'', ''BIDP_RSQN1''), (''FUTS_BIDP2'', ''BIDP_RSQN2''),
       (''FUTS_BIDP3'', ''BIDP_RSQN3''), (''FUTS_BIDP4'', ''BIDP_RSQN4''), (''FUTS_BIDP5'', ''BIDP_RSQN5'')],
     obr_asks =
      [(''FUTS_ASKP1'', ''ASKP_RSQN1''), (''FUTS_ASKP2'', ''ASKP_RSQN2''),
       (''FUTS_ASKP3'', ''ASKP_RSQN3''), (''FUTS_ASKP4'', ''ASKP_RSQN4''), (''FUTS_ASKP5'', ''ASKP_RSQN5'')]\<rparr>"

definition night_futures_orderbook_response :: orderbook_response where
  "night_futures_orderbook_response = \<lparr>obr_fields =
      [''FUTS_SHRN_ISCD'', ''BSOP_HOUR'', ''FUTS_ASKP1'', ''FUTS_ASKP2'', ''FUTS_ASKP3'', ''FUTS_ASKP4'',
       ''FUTS_ASKP5'', ''FUTS_BIDP1'', ''FUTS_BIDP2'', ''FUTS_BIDP3'', ''FUTS_BIDP4'', ''FUTS_BIDP5'',
       ''ASKP_CSNU1'', ''ASKP_CSNU2'', ''ASKP_CSNU3'', ''ASKP_CSNU4'', ''ASKP_CSNU5'', ''BIDP_CSNU1'',
       ''BIDP_CSNU2'', ''BIDP_CSNU3'', ''BIDP_CSNU4'', ''BIDP_CSNU5'', ''ASKP_RSQN1'', ''ASKP_RSQN2'',
       ''ASKP_RSQN3'', ''ASKP_RSQN4'', ''ASKP_RSQN5'', ''BIDP_RSQN1'', ''BIDP_RSQN2'', ''BIDP_RSQN3'',
       ''BIDP_RSQN4'', ''BIDP_RSQN5'', ''TOTAL_ASKP_CSNU'', ''TOTAL_BIDP_CSNU'', ''TOTAL_ASKP_RSQN'',
       ''TOTAL_BIDP_RSQN'', ''TOTAL_ASKP_RSQN_ICDC'', ''TOTAL_BIDP_RSQN_ICDC''],
     obr_field_cnt = 38,
     obr_bids =
      [(''FUTS_BIDP1'', ''BIDP_RSQN1''), (''FUTS_BIDP2'', ''BIDP_RSQN2''),
       (''FUTS_BIDP3'', ''BIDP_RSQN3''), (''FUTS_BIDP4'', ''BIDP_RSQN4''), (''FUTS_BIDP5'', ''BIDP_RSQN5'')],
     obr_asks =
      [(''FUTS_ASKP1'', ''ASKP_RSQN1''), (''FUTS_ASKP2'', ''ASKP_RSQN2''),
       (''FUTS_ASKP3'', ''ASKP_RSQN3''), (''FUTS_ASKP4'', ''ASKP_RSQN4''), (''FUTS_ASKP5'', ''ASKP_RSQN5'')]\<rparr>"

definition night_option_orderbook_response :: orderbook_response where
  "night_option_orderbook_response = \<lparr>obr_fields =
      [''OPTN_SHRN_ISCD'', ''BSOP_HOUR'', ''OPTN_ASKP1'', ''OPTN_ASKP2'', ''OPTN_ASKP3'', ''OPTN_ASKP4'',
       ''OPTN_ASKP5'', ''OPTN_BIDP1'', ''OPTN_BIDP2'', ''OPTN_BIDP3'', ''OPTN_BIDP4'', ''OPTN_BIDP5'',
       ''ASKP_CSNU1'', ''ASKP_CSNU2'', ''ASKP_CSNU3'', ''ASKP_CSNU4'', ''ASKP_CSNU5'', ''BIDP_CSNU1'',
       ''BIDP_CSNU2'', ''BIDP_CSNU3'', ''BIDP_CSNU4'', ''BIDP_CSNU5'', ''ASKP_RSQN1'', ''ASKP_RSQN2'',
       ''ASKP_RSQN3'', ''ASKP_RSQN4'', ''ASKP_RSQN5'', ''BIDP_RSQN1'', ''BIDP_RSQN2'', ''BIDP_RSQN3'',
       ''BIDP_RSQN4'', ''BIDP_RSQN5'', ''TOTAL_ASKP_CSNU'', ''TOTAL_BIDP_CSNU'', ''TOTAL_ASKP_RSQN'',
       ''TOTAL_BIDP_RSQN'', ''TOTAL_ASKP_RSQN_ICDC'', ''TOTAL_BIDP_RSQN_ICDC''],
     obr_field_cnt = 38,
     obr_bids =
      [(''OPTN_BIDP1'', ''BIDP_RSQN1''), (''OPTN_BIDP2'', ''BIDP_RSQN2''),
       (''OPTN_BIDP3'', ''BIDP_RSQN3''), (''OPTN_BIDP4'', ''BIDP_RSQN4''), (''OPTN_BIDP5'', ''BIDP_RSQN5'')],
     obr_asks =
      [(''OPTN_ASKP1'', ''ASKP_RSQN1''), (''OPTN_ASKP2'', ''ASKP_RSQN2''),
       (''OPTN_ASKP3'', ''ASKP_RSQN3''), (''OPTN_ASKP4'', ''ASKP_RSQN4''), (''OPTN_ASKP5'', ''ASKP_RSQN5'')]\<rparr>"


subsection \<open>Trade records\<close>

definition index_futures_trade_response :: trade_response where
  "index_futures_trade_response = \<lparr>tdr_fields =
      [''FUTS_SHRN_ISCD'', ''BSOP_HOUR'', ''FUTS_PRDY_VRSS'', ''PRDY_VRSS_SIGN'', ''FUTS_PRDY_CTRT'',
       ''FUTS_PRPR'', ''FUTS_OPRC'', ''FUTS_HGPR'', ''FUTS_LWPR'', ''LAST_CNQN'', ''ACML_VOL'',
       ''ACML_TR_PBMN'', ''HTS_THPR'', ''MRKT_BASIS'', ''DPRT'', ''NMSC_FCTN_STPL_PRC'',
       ''FMSC_FCTN_STPL_PRC'', ''SPEAD_PRC'', ''HTS_OTST_STPL_QTY'', ''OTST_STPL_QTY_ICDC'', ''OPRC_HOUR'',
       ''OPRC_VRSS_PRPR_SIGN'', ''OPRC_VRSS_NMIX_PRPR'', ''HGPR_HOUR'', ''HGPR_VRSS_PRPR_SIGN'',
       ''HGPR_VRSS_NMIX_PRPR'', ''LWPR_HOUR'', ''LWPR_VRSS_PRPR_SIGN'', ''LWPR_VRSS_NMIX_PRPR'',
       ''SHNU_RATE'', ''CTTR'', ''ESDG'', ''OTST_STPL_RGBF_QTY_ICDC'', ''THPR_BASIS'', ''FUTS_ASKP1'',
       ''FUTS_BIDP1'', ''ASKP_RSQN1'', ''BIDP_RSQN1'', ''SELN_CNTG_CSNU'', ''SHNU_CNTG_CSNU'',
       ''NTBY_CNTG_CSNU'', ''SELN_CNTG_SMTN'', ''SHNU_CNTG_SMTN'', ''TOTAL_ASKP_RSQN'',
       ''TOTAL_BIDP_RSQN'', ''PRDY_VOL_VRSS_ACML_VOL_RATE'', ''DSCS_BLTR_ACML_QTY'', ''DYNM_MXPR'',
       ''DYNM_LLAM'', ''DYNM_PRC_LIMT_YN''],
     tdr_field_cnt = 50, tdr_price = ''FUTS_PRPR'', tdr_cum_qty = ''LAST_CNQN'', tdr_cum_buy_qty = ''SHNU_CNTG_SMTN''\<rparr>"

definition index_option_trade_response :: trade_response where
  "index_option_trade_response = \<lparr>tdr_fields =
      [''OPTN_SHRN_ISCD'', ''BSOP_HOUR'', ''OPTN_PRPR'', ''PRDY_VRSS_SIGN'', ''OPTN_PRDY_VRSS'',
       ''PRDY_CTRT'', ''OPTN_OPRC'', ''OPTN_HGPR'', ''OPTN_LWPR'', ''LAST_CNQN'', ''ACML_VOL'',
       ''ACML_TR_PBMN'', ''HTS_THPR'', ''HTS_OTST_STPL_QTY'', ''OTST_STPL_QTY_ICDC'', ''OPRC_HOUR'',
       ''OPRC_VRSS_PRPR_SIGN'', ''OPRC_VRSS_NMIX_PRPR'', ''HGPR_HOUR'', ''HGPR_VRSS_PRPR_SIGN'',
       ''HGPR_VRSS_NMIX_PRPR'', ''LWPR_HOUR'', ''LWPR_VRSS_PRPR_SIGN'', ''LWPR_VRSS_NMIX_PRPR'',
       ''SHNU_RATE'', ''PRMM_VAL'', ''INVL_VAL'', ''TMVL_VAL'', ''DELTA'', ''GAMA'', ''VEGA'', ''THETA'',
       ''RHO'', ''HTS_INTS_VLTL'', ''ESDG'', ''OTST_STPL_RGBF_QTY_ICDC'', ''THPR_BASIS'',
       ''UNAS_HIST_VLTL'', ''CTTR'', ''DPRT'', ''MRKT_BASIS'', ''OPTN_ASKP1'', ''OPTN_BIDP1'',
       ''ASKP_RSQN1'', ''BIDP_RSQN1'', ''SELN_CNTG_CSNU'', ''SHNU_CNTG_CSNU'', ''NTBY_CNTG_CSNU'',
       ''SELN_CNTG_SMTN'', ''SHNU_CNTG_SMTN'', ''TOTAL_ASKP_RSQN'', ''TOTAL_BIDP_RSQN'',
       ''PRDY_VOL_VRSS_ACML_VOL_RATE'', ''AVRG_VLTL'', ''DSCS_LRQN_VOL'', ''DYNM_MXPR'', ''DYNM_LLAM'',
       ''DYNM_PRC_LIMT_YN''],
     tdr_field_cnt = 58, tdr_price = ''OPTN_PRPR'', tdr_cum_qty = ''LAST_CNQN'', tdr_cum_buy_qty = ''SHNU_CNTG_SMTN''\<rparr>"

definition stock_futures_trade_response :: trade_response where
  "stock_futures_trade_response = \<lparr>tdr_fields =
      [''FUTS_SHRN_ISCD'', ''BSOP_HOUR'', ''STCK_PRPR'', ''PRDY_VRSS_SIGN'', ''PRDY_VRSS'',
       ''FUTS_PRDY_CTRT'', ''STCK_OPRC'', ''STCK_HGPR'', ''STCK_LWPR'', ''LAST_CNQN'', ''ACML_VOL'',
       ''ACML_TR_PBMN'', ''HTS_THPR'', ''MRKT_BASIS'', ''DPRT'', ''NMSC_FCTN_STPL_PRC'',
       ''FMSC_FCTN_STPL_PRC'', ''SPEAD_PRC'', ''HTS_OTST_STPL_QTY'', ''OTST_STPL_QTY_ICDC'', ''OPRC_HOUR'',
       ''OPRC_VRSS_PRPR_SIGN'', ''OPRC_VRSS_PRPR'', ''HGPR_HOUR'', ''HGPR_VRSS_PRPR_SIGN'',
       ''HGPR_VRSS_PRPR'', ''LWPR_HOUR'', ''LWPR_VRSS_PRPR_SIGN'', ''LWPR_VRSS_PRPR'', ''SHNU_RATE'',
       ''CTTR'', ''ESDG'', ''OTST_STPL_RGBF_QTY_ICDC'', ''THPR_BASIS'', ''ASKP1'', ''BIDP1'',
       ''ASKP_RSQN1'', ''BIDP_RSQN1'', ''SELN_CNTG_CSNU'', ''SHNU_CNTG_CSNU'', ''NTBY_CNTG_CSNU'',
       ''SELN_CNTG_SMTN'', ''SHNU_CNTG_SMTN'', ''TOTAL_ASKP_RSQN'', ''TOTAL_BIDP_RSQN'',
       ''PRDY_VOL_VRSS_ACML_VOL_RATE'', ''DYNM_MXPR'', ''DYNM_LLAM'', ''DYNM_PRC_LIMT_YN''],
     tdr_field_cnt = 49, tdr_price = ''STCK_PRPR'', tdr_cum_qty = ''LAST_CNQN'', tdr_cum_buy_qty = ''SHNU_CNTG_SMTN''\<rparr>"

definition stock_option_trade_response :: trade_response where
  "stock_option_trade_response = \<lparr>tdr_fields =
      [''OPTN_SHRN_ISCD'', ''BSOP_HOUR'', ''OPTN_PRPR'', ''PRDY_VRSS_SIGN'', ''OPTN_PRDY_VRSS'',
       ''PRDY_CTRT'', ''OPTN_OPRC'', ''OPTN_HGPR'', ''OPTN_LWPR'', ''LAST_CNQN'', ''ACML_VOL'',
       ''ACML_TR_PBMN'', ''HTS_THPR'', ''HTS_OTST_STPL_QTY'', ''OTST_STPL_QTY_ICDC'', ''OPRC_HOUR'',
       ''OPRC_VRSS_PRPR_SIGN'', ''OPRC_VRSS_NMIX_PRPR'', ''HGPR_HOUR'', ''HGPR_VRSS_PRPR_SIGN'',
       ''HGPR_VRSS_NMIX_PRPR'', ''LWPR_HOUR'', ''LWPR_VRSS_PRPR_SIGN'', ''LWPR_VRSS_NMIX_PRPR'',
       ''SHNU_RATE'', ''PRMM_VAL'', ''INVL_VAL'', ''TMVL_VAL'', ''DELTA'', ''GAMA'', ''VEGA'', ''THETA'',
       ''RHO'', ''HTS_INTS_VLTL'', ''ESDG'', ''OTST_STPL_RGBF_QTY_ICDC'', ''THPR_BASIS'',
       ''UNAS_HIST_VLTL'', ''CTTR'', ''DPRT'', ''MRKT_BASIS'', ''OPTN_ASKP1'', ''OPTN_BIDP1'',
       ''ASKP_RSQN1'', ''BIDP_RSQN1'', ''SELN_CNTG_CSNU'', ''SHNU_CNTG_CSNU'', ''NTBY_CNTG_CSNU'',
       ''SELN_CNTG_SMTN'', ''SHNU_CNTG_SMTN'', ''TOTAL_ASKP_RSQN'', ''TOTAL_BIDP_RSQN'',
       ''PRDY_VOL_VRSS_ACML_VOL_RATE''],
     tdr_field_cnt = 53, tdr_price = ''OPTN_PRPR'', tdr_cum_qty = ''LAST_CNQN'', tdr_cum_buy_qty = ''SHNU_CNTG_SMTN''\<rparr>"

definition commodity_futures_trade_response :: trade_response where
  "commodity_futures_trade_response = \<lparr>tdr_fields =
      [''FUTS_SHRN_ISCD'', ''BSOP_HOUR'', ''FUTS_PRDY_VRSS'', ''PRDY_VRSS_SIGN'', ''FUTS_PRDY_CTRT'',
       ''FUTS_PRPR'', ''FUTS_OPRC'', ''FUTS_HGPR'', ''FUTS_LWPR'', ''LAST_CNQN'', ''ACML_VOL'',
       ''ACML_TR_PBMN'', ''HTS_THPR'', ''MRKT_BASIS'', ''DPRT'', ''NMSC_FCTN_STPL_PRC'',
       ''FMSC_FCTN_STPL_PRC'', ''SPEAD_PRC'', ''HTS_OTST_STPL_QTY'', ''OTST_STPL_QTY_ICDC'', ''OPRC_HOUR'',
       ''OPRC_VRSS_PRPR_SIGN'', ''OPRC_VRSS_NMIX_PRPR'', ''HGPR_HOUR'', ''HGPR_VRSS_PRPR_SIGN'',
       ''HGPR_VRSS_NMIX_PRPR'', ''LWPR_HOUR'', ''LWPR_VRSS_PRPR_SIGN'', ''LWPR_VRSS_NMIX_PRPR'',
       ''SHNU_RATE'', ''CTTR'', ''ESDG'', ''OTST_STPL_RGBF_QTY_ICDC'', ''THPR_BASIS'', ''FUTS_ASKP1'',
       ''FUTS_BIDP1'', ''ASKP_RSQN1'', ''BIDP_RSQN1'', ''SELN_CNTG_CSNU'', ''SHNU_CNTG_CSNU'',
       ''NTBY_CNTG_CSNU'', ''SELN_CNTG_SMTN'', ''SHNU_CNTG_SMTN'', ''TOTAL_ASKP_RSQN'',
       ''TOTAL_BIDP_RSQN'', ''PRDY_VOL_VRSS_ACML_VOL_RATE'', ''DSCS_BLTR_ACML_QTY'', ''DYNM_MXPR'',
       ''DYNM_LLAM'', ''DYNM_PRC_LIMT_YN''],
     tdr_field_cnt = 50, tdr_price = ''FUTS_PRPR'', tdr_cum_qty = ''LAST_CNQN'', tdr_cum_buy_qty = ''SHNU_CNTG_SMTN''\<rparr>"

definition night_futures_trade_response :: trade_response where
  "night_futures_trade_response = \<lparr>tdr_fields =
      [''FUTS_SHRN_ISCD'', ''BSOP_HOUR'', ''FUTS_PRDY_VRSS'', ''PRDY_VRSS_SIGN'', ''FUTS_PRDY_CTRT'',
       ''FUTS_PRPR'', ''FUTS_OPRC'', ''FUTS_HGPR'', ''FUTS_LWPR'', ''LAST_CNQN'', ''ACML_VOL'',
       ''ACML_TR_PBMN'', ''HTS_THPR'', ''MRKT_BASIS'', ''DPRT'', ''NMSC_FCTN_STPL_PRC'',
       ''FMSC_FCTN_STPL_PRC'', ''SPEAD_PRC'', ''HTS_OTST_STPL_QTY'', ''OTST_STPL_QTY_ICDC'', ''OPRC_HOUR'',
       ''OPRC_VRSS_PRPR_SIGN'', ''OPRC_VRSS_NMIX_PRPR'', ''HGPR_HOUR'', ''HGPR_VRSS_PRPR_SIGN'',
       ''HGPR_VRSS_NMIX_PRPR'', ''LWPR_HOUR'', ''LWPR_VRSS_PRPR_SIGN'', ''LWPR_VRSS_NMIX_PRPR'',
       ''SHNU_RATE'', ''CTTR'', ''ESDG'', ''OTST_STPL_RGBF_QTY_ICDC'', ''THPR_BASIS'', ''FUTS_ASKP1'',
       ''FUTS_BIDP1'', ''ASKP_RSQN1'', ''BIDP_RSQN1'', ''SELN_CNTG_CSNU'', ''SHNU_CNTG_CSNU'',
       ''NTBY_CNTG_CSNU'', ''SELN_CNTG_SMTN'', ''SHNU_CNTG_SMTN'', ''TOTAL_ASKP_RSQN'',
       ''TOTAL_BIDP_RSQN'', ''PRDY_VOL_VRSS_ACML_VOL_RATE'', ''DYNM_MXPR'', ''DYNM_LLAM'',
       ''DYNM_PRC_LIMT_YN''],
     tdr_field_cnt = 49, tdr_price = ''FUTS_PRPR'', tdr_cum_qty = ''LAST_CNQN'', tdr_cum_buy_qty = ''SHNU_CNTG_SMTN''\<rparr>"

definition night_option_trade_response :: trade_response where
  "night_option_trade_response = \<lparr>tdr_fields =
      [''OPTN_SHRN_ISCD'', ''BSOP_HOUR'', ''OPTN_PRPR'', ''PRDY_VRSS_SIGN'', ''OPTN_PRDY_VRSS'',
       ''PRDY_CTRT'', ''OPTN_OPRC'', ''OPTN_HGPR'', ''OPTN_LWPR'', ''LAST_CNQN'', ''ACML_VOL'',
       ''ACML_TR_PBMN'', ''HTS_THPR'', ''HTS_OTST_STPL_QTY'', ''OTST_STPL_QTY_ICDC'', ''OPRC_HOUR'',
       ''OPRC_VRSS_PRPR_SIGN'', ''OPRC_VRSS_NMIX_PRPR'', ''HGPR_HOUR'', ''HGPR_VRSS_PRPR_SIGN'',
       ''HGPR_VRSS_NMIX_PRPR'', ''LWPR_HOUR'', ''LWPR_VRSS_PRPR_SIGN'', ''LWPR_VRSS_NMIX_PRPR'',
       ''SHNU_RATE'', ''PRMM_VAL'', ''INVL_VAL'', ''TMVL_VAL'', ''DELTA'', ''GAMA'', ''VEGA'', ''THETA'',
       ''RHO'', ''HTS_INTS_VLTL'', ''ESDG'', ''OTST_STPL_RGBF_QTY_ICDC'', ''THPR_BASIS'',
       ''UNAS_HIST_VLTL'', ''CTTR'', ''DPRT'', ''MRKT_BASIS'', ''OPTN_ASKP1'', ''OPTN_BIDP1'',
       ''ASKP_RSQN1'', ''BIDP_RSQN1'', ''SELN_CNTG_CSNU'', ''SHNU_CNTG_CSNU'', ''NTBY_CNTG_CSNU'',
       ''SELN_CNTG_SMTN'', ''SHNU_CNTG_SMTN'', ''TOTAL_ASKP_RSQN'', ''TOTAL_BIDP_RSQN'',
       ''PRDY_VOL_VRSS_ACML_VOL_RATE'', ''DYNM_MXPR'', ''DYNM_PRC_LIMT_YN'', ''DYNM_LLAM''],
     tdr_field_cnt = 56, tdr_price = ''OPTN_PRPR'', tdr_cum_qty = ''LAST_CNQN'', tdr_cum_buy_qty = ''SHNU_CNTG_SMTN''\<rparr>"


subsection \<open>Execution records\<close>

definition day_execution_response_fields :: "string list" where
  "day_execution_response_fields =
      [''CUST_ID'', ''ACNT_NO'', ''ODER_NO'', ''OODER_NO'', ''SELN_BYOV_CLS'', ''RCTF_CLS'',
       ''ODER_KIND2'', ''STCK_SHRN_ISCD'', ''CNTG_QTY'', ''CNTG_UNPR'', ''STCK_CNTG_HOUR'', ''RFUS_YN'',
       ''CNTG_YN'', ''ACPT_YN'', ''BRNC_NO'', ''ODER_QTY'', ''ACNT_NAME'', ''CNTG_ISNM'', ''ODER_COND'',
       ''ORD_GRP'', ''ORD_GRPSEQ'', ''ORDER_PRC'']"

definition day_execution_response_field_cnt :: nat where
  "day_execution_response_field_cnt = 22"

definition night_execution_response_fields :: "string list" where
  "night_execution_response_fields =
      [''CUST_ID'', ''ACNT_NO'', ''ODER_NO'', ''OODER_NO'', ''SELN_BYOV_CLS'', ''RCTF_CLS'',
       ''ODER_KIND2'', ''STCK_SHRN_ISCD'', ''CNTG_QTY'', ''CNTG_UNPR'', ''STCK_CNTG_HOUR'', ''RFUS_YN'',
       ''CNTG_YN'', ''ACPT_YN'', ''BRNC_NO'', ''ODER_QTY'', ''ACNT_NAME'', ''CNTG_ISNM'', ''ODER_COND'']"

definition night_execution_response_field_cnt :: nat where
  "night_execution_response_field_cnt = 19"

definition normalize_day_execution :: "response \<Rightarrow> execution_data option" where
  "normalize_day_execution r =
     (let is_executed = (field r ''CNTG_YN'' = ''2'') in
      case (stod_or_nan (field r ''ORDER_PRC''), stod_or_nan (field r ''ODER_QTY''),
            stod_or_nan (field r ''CNTG_UNPR''), stod_or_nan (field r ''CNTG_QTY'')) of
        (Some op, Some oq, Some ep, Some eq) \<Rightarrow>
          Some (execution_data_init\<lparr>ed_account_no := field r ''ACNT_NO'', ed_order_no := field r ''ODER_NO'',
            ed_original_order_no := field r ''OODER_NO'', ed_short_product := field r ''STCK_SHRN_ISCD'',
            ed_full_product := field r ''CNTG_ISNM'', ed_is_accept_data := \<not> is_executed,
            ed_is_place := (field r ''RCTF_CLS'' = ''0''), ed_is_cancel := (field r ''RCTF_CLS'' = ''2''),
            ed_is_bid := (field r ''SELN_BYOV_CLS'' = ''02''),
            ed_is_accepted := (if is_executed then False else field r ''ACPT_YN'' = ''1''),
            ed_is_rejected := (if is_executed then False else field r ''RFUS_YN'' \<noteq> []),
            ed_is_executed := is_executed, ed_order_price := Some op, ed_order_qty := Some oq,
            ed_execute_price := Some ep, ed_execute_qty := Some eq\<rparr>)
      | _ \<Rightarrow> None)"

definition normalize_night_execution :: "response \<Rightarrow> execution_data option" where
  "normalize_night_execution r =
     (let is_executed = (field r ''CNTG_YN'' = ''2'') in
      case (stod_or_nan (field r ''ODER_QTY''), stod_or_nan (field r ''CNTG_UNPR''), stod_or_nan (field r ''CNTG_QTY'')) of
        (Some oq, Some ep, Some eq) \<Rightarrow>
          Some (execution_data_init\<lparr>ed_account_no := field r ''ACNT_NO'', ed_order_no := field r ''ODER_NO'',
            ed_original_order_no := field r ''OODER_NO'', ed_short_product := field r ''STCK_SHRN_ISCD'',
            ed_full_product := field r ''CNTG_ISNM'', ed_is_accept_data := \<not> is_executed,
            ed_is_bid := (field r ''SELN_BYOV_CLS'' = ''02''),
            ed_is_accepted := (if is_executed then False else field r ''ACPT_YN'' = ''1''),
            ed_is_rejected := (if is_executed then False else field r ''RFUS_YN'' \<noteq> []),
            ed_is_executed := is_executed, ed_order_qty := Some oq,
            ed_execute_price := Some ep, ed_execute_qty := Some eq\<rparr>)
      | _ \<Rightarrow> None)"

section \<open>Parsing\<close>

text \<open>The struct the switch on the product type picks, if any.\<close>

fun orderbook_response_of :: "product_type \<Rightarrow> orderbook_response option" where
  "orderbook_response_of IndexFutures = Some index_futures_orderbook_response"
| "orderbook_response_of IndexOption = Some index_option_orderbook_response"
| "orderbook_response_of StockFutures = Some stock_futures_orderbook_response"
| "orderbook_response_of StockOption = Some stock_option_orderbook_response"
| "orderbook_response_of CommodityFutures = Some commodity_futures_orderbook_response"
| "orderbook_response_of NightFutures = Some night_futures_orderbook_response"
| "orderbook_response_of NightOption = Some night_option_orderbook_response"
| "orderbook_response_of NoProductType = None"

fun trade_response_of :: "product_type \<Rightarrow> trade_response option" where
  "trade_response_of IndexFutures = Some index_futures_trade_response"
| "trade_response_of IndexOption = Some index_option_trade_response"
| "trade_response_of StockFutures = Some stock_futures_trade_response"
| "trade_response_of StockOption = Some stock_option_trade_response"
| "trade_response_of CommodityFutures = Some commodity_futures_trade_response"
| "trade_response_of NightFutures = Some night_futures_trade_response"
| "trade_response_of NightOption = Some night_option_trade_response"
| "trade_response_of NoProductType = None"

text \<open>A parser gives the message and the number of fields it used; \<open>None\<close> is an exception.\<close>

definition parse_orderbook_data ::
  "product_manager \<Rightarrow> string \<Rightarrow> nat \<Rightarrow> string list \<Rightarrow> (listener_event \<times> nat) option" where
  "parse_orderbook_data pm product offset data =
     (case orderbook_response_of (get_product_type pm (get_short_product product)) of
        None \<Rightarrow> Some (OrderbookEvent product \<lparr>bid_book = [], ask_book = [], ob_server_tstamp_ms = None\<rparr>, 0)
      | Some ob \<Rightarrow>
          map_option (\<lambda>d. (OrderbookEvent product d, obr_field_cnt ob))
            (normalize_orderbook ob (vector_to_struct_impl (obr_fields ob) (obr_field_cnt ob) data offset)))"

definition parse_trade_data ::
  "product_manager \<Rightarrow> string \<Rightarrow> nat \<Rightarrow> string list \<Rightarrow> (listener_event \<times> nat) option" where
  "parse_trade_data pm product offset data =
     (case trade_response_of (get_product_type pm (get_short_product product)) of
        None \<Rightarrow> Some (TradeEvent product \<lparr>td_trade_price = None, td_cum_trade_qty = None,
            td_cum_buy_trade_qty = None, td_server_tstamp_ms = None\<rparr>, 0)
      | Some td \<Rightarrow>
          map_option (\<lambda>d. (TradeEvent product d, tdr_field_cnt td))
            (normalize_trade td (vector_to_struct_impl (tdr_fields td) (tdr_field_cnt td) data offset)))"

text \<open>The first field from the offset on that is a known product decides the layout.\<close>

definition execution_product :: "product_manager \<Rightarrow> nat \<Rightarrow> string list \<Rightarrow> string option" where
  "execution_product pm offset data =
     List.find (\<lambda>s. s \<noteq> [] \<and> get_product_type pm s \<noteq> NoProductType) (drop offset data)"

definition parse_execution_data ::
  "product_manager \<Rightarrow> nat \<Rightarrow> string list \<Rightarrow> (listener_event \<times> nat) option" where
  "parse_execution_data pm offset data =
     (case execution_product pm offset data of
        None \<Rightarrow> Some (ExecutionEvent [] execution_data_init, 0)
      | Some s \<Rightarrow>
          if get_product_type pm s = NightFutures \<or> get_product_type pm s = NightOption
          then map_option (\<lambda>d. (ExecutionEvent (get_full_product s) d, night_execution_response_field_cnt))
                 (normalize_night_execution (vector_to_struct_impl night_execution_response_fields
                    night_execution_response_field_cnt data offset))
          else map_option (\<lambda>d. (ExecutionEvent (get_full_product s) d, day_execution_response_field_cnt))
                 (normalize_day_execution (vector_to_struct_impl day_execution_response_fields
                    day_execution_response_field_cnt data offset)))"

section \<open>Frames\<close>

record ws_market_data_response =
  wm_tr_id_type :: tr_id_type
  wm_data_num :: int
  wm_market_data :: "string list"

definition parse_record ::
  "product_manager \<Rightarrow> tr_id_type \<Rightarrow> nat \<Rightarrow> string list \<Rightarrow> (listener_event list \<times> nat) option" where
  "parse_record pm ty offset data =
     (case ty of
        OrderbookTrId \<Rightarrow> map_option (\<lambda>(e, n). ([e], n)) (parse_orderbook_data pm (data ! offset) offset data)
      | TradeTrId \<Rightarrow> map_option (\<lambda>(e, n). ([e], n)) (parse_trade_data pm (data ! offset) offset data)
      | ExecutionTrId \<Rightarrow> map_option (\<lambda>(e, n). ([e], n)) (parse_execution_data pm offset data)
      | NoTrIdType \<Rightarrow> Some ([], 0))"

text \<open>
  The loop of \<open>on_market_data\<close>: the events of the records before an exception, and whether one
  was thrown.
\<close>

fun market_data_loop :: "product_manager \<Rightarrow> tr_id_type \<Rightarrow> string list \<Rightarrow> nat \<Rightarrow> nat \<Rightarrow> bool \<times> listener_event list" where
  "market_data_loop pm ty data 0 offset = (False, [])"
| "market_data_loop pm ty data (Suc k) offset =
     (if length data \<le> offset then (False, [])
      else (case parse_record pm ty offset data of
              None \<Rightarrow> (True, [])
            | Some (es, n) \<Rightarrow>
                (case market_data_loop pm ty data k (offset + n) of (threw, es') \<Rightarrow> (threw, es @ es'))))"

section \<open>Splitting and joining\<close>

fun join :: "char \<Rightarrow> string list \<Rightarrow> string" where
  "join sep [] = []"
| "join sep [x] = x"
| "join sep (x # y # xs) = x @ sep # join sep (y # xs)"

lemma split_msg_no_sep: "sep \<notin> set s \<Longrightarrow> split_msg sep s = [s]"
proof -
  assume "sep \<notin> set s"
  then have "dropWhile (\<lambda>c. c \<noteq> sep) s = []" by (auto simp: dropWhile_eq_Nil_conv)
  then show ?thesis by (subst split_msg.simps) (simp only: list.case)
qed

lemma split_msg_sep: "sep \<notin> set s \<Longrightarrow> split_msg sep (s @ sep # rest) = s # split_msg sep rest"
proof -
  assume "sep \<notin> set s"
  then have "\<forall>c \<in> set s. c \<noteq> sep" by auto
  then show ?thesis
    by (simp add: split_msg.simps [of sep "s @ sep # rest"] dropWhile_append takeWhile_append)
qed

lemma split_msg_join:
  "xs \<noteq> [] \<Longrightarrow> \<forall>x \<in> set xs. sep \<notin> set x \<Longrightarrow> split_msg sep (join sep xs) = xs"
  by (induction sep xs rule: join.induct) (simp_all add: split_msg_no_sep split_msg_sep)

section \<open>The layouts\<close>

text \<open>
  Every struct takes exactly its members from the wire, under different names, and its \<open>normalize\<close>
  reads members it has.
\<close>

definition orderbook_layout_ok :: "orderbook_response \<Rightarrow> bool" where
  "orderbook_layout_ok ob \<longleftrightarrow> length (obr_fields ob) = obr_field_cnt ob \<and> distinct (obr_fields ob) \<and> 0 < obr_field_cnt ob
     \<and> list_all (\<lambda>(p, q). p \<in> set (obr_fields ob) \<and> q \<in> set (obr_fields ob)) (obr_bids ob @ obr_asks ob)
     \<and> obr_bids ob \<noteq> []"

definition trade_layout_ok :: "trade_response \<Rightarrow> bool" where
  "trade_layout_ok td \<longleftrightarrow> length (tdr_fields td) = tdr_field_cnt td \<and> distinct (tdr_fields td) \<and> 0 < tdr_field_cnt td
     \<and> tdr_price td \<in> set (tdr_fields td) \<and> tdr_cum_qty td \<in> set (tdr_fields td) \<and> tdr_cum_buy_qty td \<in> set (tdr_fields td)"

lemma orderbook_layouts_ok: "orderbook_response_of ty = Some ob \<Longrightarrow> orderbook_layout_ok ob"
  by (cases ty; simp; hypsubst; code_simp)

lemma trade_layouts_ok: "trade_response_of ty = Some td \<Longrightarrow> trade_layout_ok td"
  by (cases ty; simp; hypsubst; code_simp)

lemma execution_layouts_ok:
  "length day_execution_response_fields = day_execution_response_field_cnt"
  "length night_execution_response_fields = night_execution_response_field_cnt"
  "0 < day_execution_response_field_cnt" "0 < night_execution_response_field_cnt"
  by (simp_all add: day_execution_response_fields_def day_execution_response_field_cnt_def
      night_execution_response_fields_def night_execution_response_field_cnt_def)

section \<open>Records one after the other\<close>

lemma struct_at:
  assumes "length r = n"
  shows "vector_to_struct_impl ms n (pre @ r @ post) (length pre) = vector_to_struct_impl ms n r 0"
  using assms by (simp add: vector_to_struct_impl_def)

lemma short_struct: "length vec < offset + n \<Longrightarrow> field (vector_to_struct_impl ms n vec offset) m = []"
  by (auto simp: vector_to_struct_impl_def field_def split: option.splits dest: map_of_SomeD)

lemma find_append: "List.find P (xs @ ys) = (case List.find P xs of None \<Rightarrow> List.find P ys | Some x \<Rightarrow> Some x)"
  by (induction xs) auto

text \<open>
  A record that is parsed as a whole on its own is parsed the same way anywhere in the data.
\<close>

lemma parse_record_at:
  assumes "parse_record pm ty 0 r = Some ([e], length r)" "r \<noteq> []"
  shows "parse_record pm ty (length pre) (pre @ r @ post) = Some ([e], length r)"
proof -
  have hd: "(pre @ r @ post) ! length pre = r ! 0" using assms(2) by (simp add: nth_append)
  show ?thesis
  proof (cases ty)
    case OrderbookTrId
    with assms hd show ?thesis
      by (cases "orderbook_response_of (get_product_type pm (get_short_product (r ! 0)))")
        (auto simp: parse_record_def parse_orderbook_data_def struct_at)
  next
    case TradeTrId
    with assms hd show ?thesis
      by (cases "trade_response_of (get_product_type pm (get_short_product (r ! 0)))")
        (auto simp: parse_record_def parse_trade_data_def struct_at)
  next
    case ExecutionTrId
    with assms obtain s where "execution_product pm 0 r = Some s"
      by (cases "execution_product pm 0 r") (auto simp: parse_record_def parse_execution_data_def)
    moreover from this have "execution_product pm (length pre) (pre @ r @ post) = Some s"
      by (simp add: execution_product_def find_append)
    ultimately show ?thesis using assms ExecutionTrId
      by (auto simp: parse_record_def parse_execution_data_def struct_at split: if_splits)
  next
    case NoTrIdType
    with assms show ?thesis by (simp add: parse_record_def)
  qed
qed

lemma market_data_loop_records:
  assumes "list_all2 (\<lambda>r e. r \<noteq> [] \<and> parse_record pm ty 0 r = Some ([e], length r)) rs es" "length rs \<le> k"
  shows "market_data_loop pm ty (pre @ concat rs) k (length pre) = (False, es)"
  using assms
proof (induction rs es arbitrary: k pre rule: list_all2_induct)
  case Nil
  then show ?case by (cases k) simp_all
next
  case (Cons r rs e es)
  then obtain k' where k: "k = Suc k'" "length rs \<le> k'" by (cases k) auto
  have "parse_record pm ty (length pre) (pre @ r @ concat rs) = Some ([e], length r)"
    using parse_record_at Cons.hyps(1) by blast
  moreover have "market_data_loop pm ty ((pre @ r) @ concat rs) k' (length (pre @ r)) = (False, es)"
    by (rule Cons.IH) (rule k(2))
  ultimately show ?case using Cons.hyps(1) k(1) by simp
qed

section \<open>Data that cannot be read\<close>

lemma stod_empty: "stod [] = None"
  by code_simp

text \<open>
  A record of a known product that is cut short throws: its struct is left empty, and \<open>normalize\<close>
  reads numbers from it.
\<close>

lemma short_orderbook_throws:
  assumes "orderbook_response_of (get_product_type pm (get_short_product p)) = Some ob"
    "length data < offset + obr_field_cnt ob"
  shows "parse_orderbook_data pm p offset data = None"
proof -
  let ?r = "vector_to_struct_impl (obr_fields ob) (obr_field_cnt ob) data offset"
  obtain x xs where "obr_bids ob = x # xs"
    using orderbook_layouts_ok [OF assms(1)] by (cases "obr_bids ob") (auto simp: orderbook_layout_ok_def)
  then have "normalize_levels ?r (obr_bids ob) = None"
    using short_struct [OF assms(2)] by (cases x) (simp add: stod_empty)
  then show ?thesis using assms(1) by (simp add: parse_orderbook_data_def normalize_orderbook_def)
qed

lemma short_trade_throws:
  assumes "trade_response_of (get_product_type pm (get_short_product p)) = Some td"
    "length data < offset + tdr_field_cnt td"
  shows "parse_trade_data pm p offset data = None"
  using assms short_struct [OF assms(2)] by (simp add: parse_trade_data_def normalize_trade_def stod_empty)

end
