(* ===== verification/Kis_Config.thy ===== *)
theory Kis_Config
  imports Binance_Rest
begin

text \<open>
  Configuration files of the exchanges: the loader and the endpoint tables of
  \<open>config_handlers/config_utils.cpp\<close>, and for KIS the account and the two session tokens with their
  refresh (\<open>config_handlers/kis/kis_config.cpp\<close>).  A \<open>std::pair<bool, T>\<close> is an option, whose
  \<open>second\<close> without a value is the default of \<open>T\<close>.  The world a refresh acts on is the file system,
  the network and the clock; the JSON library and curl are parameters, a writer that throws
  (\<open>kc_token_text\<close> is \<open>None\<close>) does so after the file has been truncated.

  \<open>std::get_time\<close> reads its fields in order and stops at the first that does not match, \<open>timegm\<close>
  counts seconds on the Gregorian calendar.
\<close>

section \<open>Files\<close>

record 'j kc_env =
  kc_rest :: "'j rest_env"
  kc_string_map :: "'j \<Rightarrow> (string, string) omap option"
  kc_request_text :: "(string \<times> string) list \<Rightarrow> string"
  kc_token_text :: "string \<Rightarrow> int \<Rightarrow> string option"
  kc_writable :: "string \<Rightarrow> bool"
  kc_now_sec :: "nat \<Rightarrow> int"

type_synonym files = "string \<Rightarrow> string option"

record kc_world =
  kw_files :: files
  kw_net :: net
  kw_clock_reads :: nat

definition read_config_file :: "'j kc_env \<Rightarrow> ('j \<Rightarrow> 'a option) \<Rightarrow> files \<Rightarrow> string \<Rightarrow> 'a option" where
  "read_config_file kc conv files file_path =
     (case files file_path of
        None \<Rightarrow> None
      | Some text \<Rightarrow> (case js_parse (re_json (kc_rest kc)) text of None \<Rightarrow> None | Some j \<Rightarrow> conv j))"

definition account_dir :: "string \<Rightarrow> string" where
  "account_dir exchange = ''./account/'' @ exchange"

definition domain_file :: "string \<Rightarrow> string" where
  "domain_file exchange = ''./domain/'' @ exchange @ ''.json''"

record auth_keys =
  ak_key :: string
  ak_secret :: string

definition two_strings :: "'j kc_env \<Rightarrow> string \<Rightarrow> string \<Rightarrow> 'j \<Rightarrow> (string \<times> string) option" where
  "two_strings kc a b j =
     (let js = re_json (kc_rest kc) in
      case at_str js a j of None \<Rightarrow> None | Some x \<Rightarrow> map_option (Pair x) (at_str js b j))"

definition get_auth_keys :: "'j kc_env \<Rightarrow> files \<Rightarrow> string \<Rightarrow> auth_keys option" where
  "get_auth_keys kc files exchange =
     read_config_file kc (\<lambda>j. map_option (\<lambda>(k, s). \<lparr>ak_key = k, ak_secret = s\<rparr>) (two_strings kc ''key'' ''secret'' j))
       files (account_dir exchange @ ''/auth_keys.json'')"

definition get_domains :: "'j kc_env \<Rightarrow> files \<Rightarrow> string \<Rightarrow> (string, string) omap option" where
  "get_domains kc files exchange = read_config_file kc (kc_string_map kc) files (domain_file exchange)"

definition get_domain :: "'j kc_env \<Rightarrow> files \<Rightarrow> string \<Rightarrow> string \<Rightarrow> string option" where
  "get_domain kc files exchange domain_type =
     (case get_domains kc files exchange of None \<Rightarrow> None | Some domains \<Rightarrow> map_of domains domain_type)"

section \<open>The KIS account and tokens\<close>

definition kis_exchange :: string where
  "kis_exchange = ''kis''"

record account_info =
  ai_front :: string
  ai_rear :: string
  ai_hts_id :: string

definition account_info_path :: string where
  "account_info_path = ''./account/kis/account_info.json''"

definition rest_token_path :: string where
  "rest_token_path = ''./account/kis/rest_access.json''"

definition websocket_token_path :: string where
  "websocket_token_path = ''./account/kis/websocket_access.json''"

definition get_account_info :: "'j kc_env \<Rightarrow> files \<Rightarrow> account_info option" where
  "get_account_info kc files =
     read_config_file kc
       (\<lambda>j. case two_strings kc ''front'' ''rear'' j of
              None \<Rightarrow> None
            | Some (f, r) \<Rightarrow> map_option (\<lambda>h. \<lparr>ai_front = f, ai_rear = r, ai_hts_id = h\<rparr>)
                              (at_str (re_json (kc_rest kc)) ''hts_id'' j))
       files account_info_path"

text \<open>\<open>RestAccessConfig\<close> and \<open>WebsocketAccessConfig\<close> have the same two fields.\<close>

record access_config =
  ac_access_token :: string
  ac_access_token_expire_time :: int

definition read_access_config :: "'j kc_env \<Rightarrow> 'j \<Rightarrow> access_config option" where
  "read_access_config kc j =
     (let js = re_json (kc_rest kc) in
      case at_str js ''access_token'' j of
        None \<Rightarrow> None
      | Some t \<Rightarrow>
          (case js_at js ''access_token_expire_time'' j of
             None \<Rightarrow> None
           | Some v \<Rightarrow> map_option (\<lambda>e. \<lparr>ac_access_token = t, ac_access_token_expire_time = e\<rparr>) (js_long js v)))"

definition get_rest_access_config :: "'j kc_env \<Rightarrow> files \<Rightarrow> access_config option" where
  "get_rest_access_config kc files = read_config_file kc (read_access_config kc) files rest_token_path"

definition get_rest_access_token :: "'j kc_env \<Rightarrow> files \<Rightarrow> string option" where
  "get_rest_access_token kc files = map_option ac_access_token (get_rest_access_config kc files)"

definition get_websocket_access_config :: "'j kc_env \<Rightarrow> files \<Rightarrow> access_config option" where
  "get_websocket_access_config kc files = read_config_file kc (read_access_config kc) files websocket_token_path"

definition get_websocket_access_token :: "'j kc_env \<Rightarrow> files \<Rightarrow> string option" where
  "get_websocket_access_token kc files = map_option ac_access_token (get_websocket_access_config kc files)"

section \<open>Dates\<close>

record tm =
  tm_year :: int
  tm_mon :: int
  tm_mday :: int
  tm_hour :: int
  tm_min :: int
  tm_sec :: int

definition tm_zero :: tm where
  "tm_zero = \<lparr>tm_year = 0, tm_mon = 0, tm_mday = 0, tm_hour = 0, tm_min = 0, tm_sec = 0\<rparr>"

text \<open>One numeric field of at most \<open>w\<close> digits within its range, then the text after it.\<close>

definition scan_field :: "nat \<Rightarrow> int \<Rightarrow> int \<Rightarrow> string \<Rightarrow> (int \<times> string) option" where
  "scan_field w lo hi s =
     (let ds = takeWhile is_digit (take w s); v = digits_val ds
      in if ds = [] \<or> v < lo \<or> hi < v then None else Some (v, drop (length ds) s))"

definition scan_literal :: "char \<Rightarrow> string \<Rightarrow> string option" where
  "scan_literal c s = (case s of [] \<Rightarrow> None | d # r \<Rightarrow> if d = c then Some r else None)"

text \<open>The fields of a format in order: their width, range, the character after them and the member they set.\<close>

type_synonym time_field = "nat \<times> int \<times> int \<times> char option \<times> (int \<Rightarrow> tm \<Rightarrow> tm)"

fun get_time :: "time_field list \<Rightarrow> string \<Rightarrow> tm \<Rightarrow> tm" where
  "get_time [] s t = t"
| "get_time ((w, lo, hi, sep, set_member) # fs) s t =
     (case scan_field w lo hi s of
        None \<Rightarrow> t
      | Some (v, r) \<Rightarrow>
          (case sep of
             None \<Rightarrow> get_time fs r (set_member v t)
           | Some c \<Rightarrow>
               (case scan_literal c r of
                  None \<Rightarrow> set_member v t
                | Some r' \<Rightarrow> get_time fs r' (set_member v t))))"

definition datetime_format :: "time_field list" where
  "datetime_format =
     [(4, 0, 9999, Some (CHR ''-''), \<lambda>v t. t\<lparr>tm_year := v - 1900\<rparr>),
      (2, 1, 12, Some (CHR ''-''), \<lambda>v t. t\<lparr>tm_mon := v - 1\<rparr>),
      (2, 1, 31, Some (CHR '' ''), \<lambda>v t. t\<lparr>tm_mday := v\<rparr>),
      (2, 0, 23, Some (CHR '':''), \<lambda>v t. t\<lparr>tm_hour := v\<rparr>),
      (2, 0, 59, Some (CHR '':''), \<lambda>v t. t\<lparr>tm_min := v\<rparr>),
      (2, 0, 60, None, \<lambda>v t. t\<lparr>tm_sec := v\<rparr>)]"

definition is_leap :: "int \<Rightarrow> bool" where
  "is_leap y \<longleftrightarrow> y mod 4 = 0 \<and> (y mod 100 \<noteq> 0 \<or> y mod 400 = 0)"

definition days_before_year :: "int \<Rightarrow> int" where
  "days_before_year y = 365 * (y - 1970) + (y - 1) div 4 - (y - 1) div 100 + (y - 1) div 400 - 477"

definition days_before_month :: "int \<Rightarrow> int \<Rightarrow> int" where
  "days_before_month y mon =
     [0, 31, 59, 90, 120, 151, 181, 212, 243, 273, 304, 334] ! nat mon + (if is_leap y \<and> 2 \<le> mon then 1 else 0)"

definition timegm :: "tm \<Rightarrow> int" where
  "timegm t =
     (let y = tm_year t + 1900 in
      (((days_before_year y + days_before_month y (tm_mon t) + tm_mday t - 1) * 24 + tm_hour t) * 60 + tm_min t) * 60
        + tm_sec t)"

definition parse_datetime :: "string \<Rightarrow> int" where
  "parse_datetime datetime_str =
     timegm (get_time datetime_format (dropWhile is_space datetime_str) tm_zero) - 9 * 3600"

section \<open>Refreshing the tokens\<close>

definition is_token_expired :: "'j kc_env \<Rightarrow> int \<Rightarrow> kc_world \<Rightarrow> bool \<times> kc_world" where
  "is_token_expired kc token_expire_time w =
     (token_expire_time < kc_now_sec kc (kw_clock_reads w), w\<lparr>kw_clock_reads := Suc (kw_clock_reads w)\<rparr>)"

definition new_token_needed :: "'j kc_env \<Rightarrow> access_config option \<Rightarrow> kc_world \<Rightarrow> bool \<times> kc_world" where
  "new_token_needed kc config w =
     (case config of None \<Rightarrow> (True, w) | Some c \<Rightarrow> is_token_expired kc (ac_access_token_expire_time c) w)"

text \<open>The POST that asks for a token, where the keys and the endpoint are known.\<close>

definition request_token ::
  "'j kc_env \<Rightarrow> string \<Rightarrow> string \<Rightarrow> kc_world \<Rightarrow> (rest_response \<times> kc_world) option" where
  "request_token kc endpoint secret_name w =
     (case (get_auth_keys kc (kw_files w) kis_exchange, get_domain kc (kw_files w) kis_exchange ''rest_real'') of
        (Some keys, Some domain) \<Rightarrow>
          (case rest_post (kc_rest kc) default_timeout_sec (domain @ endpoint)
                  (kc_request_text kc [(''grant_type'', ''client_credentials''), (''appkey'', ak_key keys),
                     (secret_name, ak_secret keys)]) [] (kw_net w) of
             (response, n) \<Rightarrow> Some (response, w\<lparr>kw_net := n\<rparr>))
      | _ \<Rightarrow> None)"

text \<open>\<open>std::ofstream\<close> truncates the file when it opens it.\<close>

definition save_token :: "'j kc_env \<Rightarrow> string \<Rightarrow> string \<Rightarrow> int \<Rightarrow> kc_world \<Rightarrow> kc_world" where
  "save_token kc path token expire_time w =
     (if \<not> kc_writable kc path then w
      else w\<lparr>kw_files := (kw_files w)(path \<mapsto> (case kc_token_text kc token expire_time of None \<Rightarrow> [] | Some t \<Rightarrow> t))\<rparr>)"

definition read_rest_access_response :: "'j kc_env \<Rightarrow> string \<Rightarrow> (string \<times> string) option" where
  "read_rest_access_response kc body =
     (let js = re_json (kc_rest kc) in
      case js_parse js body of
        None \<Rightarrow> None
      | Some j \<Rightarrow>
          (case two_strings kc ''access_token'' ''access_token_token_expired'' j of
             None \<Rightarrow> None
           | Some r \<Rightarrow>
               (case at_str js ''token_type'' j of
                  None \<Rightarrow> None
                | Some _ \<Rightarrow>
                    (case js_at js ''expires_in'' j of
                       None \<Rightarrow> None
                     | Some v \<Rightarrow> map_option (\<lambda>_. r) (js_long js v)))))"

definition update_rest_access_token :: "'j kc_env \<Rightarrow> string \<Rightarrow> kc_world \<Rightarrow> kc_world" where
  "update_rest_access_token kc token_save_path w =
     (case new_token_needed kc (get_rest_access_config kc (kw_files w)) w of
        (False, w) \<Rightarrow> w
      | (True, w) \<Rightarrow>
          (case request_token kc ''/oauth2/tokenP'' ''appsecret'' w of
             None \<Rightarrow> w
           | Some (response, w) \<Rightarrow>
               if \<not> response_ok response then w
               else (case read_rest_access_response kc (rr_body response) of
                       None \<Rightarrow> w
                     | Some (token, expired) \<Rightarrow> save_token kc token_save_path token (parse_datetime expired) w)))"

definition update_websocket_access_token :: "'j kc_env \<Rightarrow> string \<Rightarrow> kc_world \<Rightarrow> kc_world" where
  "update_websocket_access_token kc token_save_path w =
     (case new_token_needed kc (get_websocket_access_config kc (kw_files w)) w of
        (False, w) \<Rightarrow> w
      | (True, w) \<Rightarrow>
          (case request_token kc ''/oauth2/Approval'' ''secretkey'' w of
             None \<Rightarrow> w
           | Some (response, w) \<Rightarrow>
               if \<not> response_ok response then w
               else (case js_parse (re_json (kc_rest kc)) (rr_body response) of
                       None \<Rightarrow> w
                     | Some j \<Rightarrow>
                         (case at_str (re_json (kc_rest kc)) ''approval_key'' j of
                            None \<Rightarrow> w
                          | Some approval_key \<Rightarrow>
                              save_token kc token_save_path approval_key
                                (kc_now_sec kc (kw_clock_reads w) + 24 * 3600)
                                (w\<lparr>kw_clock_reads := Suc (kw_clock_reads w)\<rparr>)))))"

definition update_access_tokens :: "'j kc_env \<Rightarrow> kc_world \<Rightarrow> kc_world" where
  "update_access_tokens kc w =
     update_websocket_access_token kc ''./account/kis/websocket_access.json''
       (update_rest_access_token kc ''./account/kis/rest_access.json'' w)"

section \<open>The calendar\<close>

lemma div_pred:
  fixes y k :: int
  assumes "1 < k"
  shows "y div k - (y - 1) div k = (if y mod k = 0 then 1 else 0)"
proof (cases "y mod k = 0")
  case True
  have "y - 1 = k * (y div k - 1) + (k - 1)" using True mult_div_mod_eq [of k y] by (simp add: right_diff_distrib)
  from int_div_pos_eq [OF this] have "(y - 1) div k = y div k - 1" using assms by simp
  with True show ?thesis by simp
next
  case False
  have "y - 1 = k * (y div k) + (y mod k - 1)" by simp
  moreover have "0 \<le> y mod k - 1" "y mod k - 1 < k"
    using False assms pos_mod_sign [of k y] pos_mod_bound [of k y] by linarith+
  ultimately have "(y - 1) div k = y div k" by (rule int_div_pos_eq)
  with False show ?thesis by simp
qed

lemma days_of_year: "days_before_year (y + 1) = days_before_year y + (if is_leap y then 366 else 365)"
proof -
  have "365 * (y + 1 - 1970) + a - b + c - 477 - (365 * (y - 1970) + a' - b' + c' - 477) = 365 + (a - a') - (b - b') + (c - c')"
    for a b c a' b' c' :: int by simp
  then have "days_before_year (y + 1) - days_before_year y
      = 365 + (if y mod 4 = 0 then 1 else 0) - (if y mod 100 = 0 then 1 else 0) + (if y mod 400 = 0 then 1 else 0)"
    using div_pred [of 4 y] div_pred [of 100 y] div_pred [of 400 y]
    by (simp only: days_before_year_def add_diff_cancel_right')
  moreover have "y mod 100 mod 4 = y mod 4" "y mod 400 mod 100 = y mod 100" by (simp_all add: mod_mod_cancel)
  then have "y mod 100 = 0 \<Longrightarrow> y mod 4 = 0" "y mod 400 = 0 \<Longrightarrow> y mod 100 = 0" by fastforce+
  ultimately show ?thesis
    unfolding is_leap_def by (cases "y mod 400 = 0"; cases "y mod 100 = 0"; cases "y mod 4 = 0") simp_all
qed

lemma epoch_parsed: "parse_datetime ''1970-01-01 09:00:00'' = 0" "parse_datetime ''2024-03-01 00:00:00'' = 1709218800"
  by code_simp+

section \<open>What a refresh does\<close>

text \<open>A token that is on file and has not expired at \<open>t\<close>.\<close>

definition usable :: "int \<Rightarrow> access_config option \<Rightarrow> bool" where
  "usable t config \<longleftrightarrow> (case config of None \<Rightarrow> False | Some c \<Rightarrow> t \<le> ac_access_token_expire_time c)"

text \<open>The JSON writer writes what the reader reads.\<close>

definition token_codec :: "'j kc_env \<Rightarrow> bool" where
  "token_codec kc \<longleftrightarrow> (\<forall>t e. \<exists>x j. kc_token_text kc t e = Some x \<and> js_parse (re_json (kc_rest kc)) x = Some j
     \<and> read_access_config kc j = Some \<lparr>ac_access_token = t, ac_access_token_expire_time = e\<rparr>)"

lemma new_token_needed_eq:
  "fst (new_token_needed kc config w) \<longleftrightarrow> \<not> usable (kc_now_sec kc (kw_clock_reads w)) config"
  "kw_files (snd (new_token_needed kc config w)) = kw_files w" "kw_net (snd (new_token_needed kc config w)) = kw_net w"
  by (auto simp: new_token_needed_def is_token_expired_def usable_def split: option.splits)

lemma request_token_Some:
  assumes "request_token kc endpoint secret w = Some (response, w1)"
  shows "kw_files w1 = kw_files w \<and> kw_clock_reads w1 = kw_clock_reads w
    \<and> (\<exists>rqs. net_requests (kw_net w1) = net_requests (kw_net w) @ rqs \<and> length rqs \<le> 1
        \<and> (response_ok response \<longrightarrow> length rqs = 1))"
  using assms
  by (auto simp: request_token_def rest_post_def perform_def Let_def response_ok_def failed_response_def
      split: option.splits if_splits prod.splits curl_result.splits)

lemma save_token_read:
  assumes "token_codec kc" "kc_writable kc path"
  shows "read_config_file kc (read_access_config kc) (kw_files (save_token kc path t e w)) path
    = Some \<lparr>ac_access_token = t, ac_access_token_expire_time = e\<rparr>"
proof -
  from assms(1) obtain x j where "kc_token_text kc t e = Some x" "js_parse (re_json (kc_rest kc)) x = Some j"
    "read_access_config kc j = Some \<lparr>ac_access_token = t, ac_access_token_expire_time = e\<rparr>"
    unfolding token_codec_def by blast
  with assms(2) show ?thesis by (simp add: save_token_def read_config_file_def)
qed

lemma save_token_others:
  "p \<noteq> path \<Longrightarrow> kw_files (save_token kc path t e w) p = kw_files w p" "kw_net (save_token kc path t e w) = kw_net w"
  by (simp_all add: save_token_def)

text \<open>One refresh: nothing while the token is usable, at most one request, and a file that is as before or holds a new token.\<close>

definition refreshes :: "'j kc_env \<Rightarrow> string \<Rightarrow> kc_world \<Rightarrow> kc_world \<Rightarrow> bool" where
  "refreshes kc path w w' \<longleftrightarrow>
     (usable (kc_now_sec kc (kw_clock_reads w)) (read_config_file kc (read_access_config kc) (kw_files w) path)
        \<longrightarrow> kw_files w' = kw_files w \<and> kw_net w' = kw_net w)
     \<and> (\<forall>p. p \<noteq> path \<longrightarrow> kw_files w' p = kw_files w p)
     \<and> (\<exists>rqs. net_requests (kw_net w') = net_requests (kw_net w) @ rqs \<and> length rqs \<le> 1
         \<and> (kw_files w' path = kw_files w path
             \<or> length rqs = 1 \<and> read_config_file kc (read_access_config kc) (kw_files w') path \<noteq> None))"

lemma refreshes_saved:
  assumes "token_codec kc" "kc_writable kc path"
    "\<not> usable (kc_now_sec kc (kw_clock_reads w)) (read_config_file kc (read_access_config kc) (kw_files w) path)"
    "kw_files w1 = kw_files w" "net_requests (kw_net w1) = net_requests (kw_net w) @ rqs" "length rqs = 1"
  shows "refreshes kc path w (save_token kc path t e w1)"
  using assms(3-6) save_token_others(1) [of _ path kc t e w1] save_token_others(2) [of kc path t e w1] save_token_read [OF assms(1,2), of t e w1]
  by (auto simp: refreshes_def intro!: exI [of _ rqs])

lemma refreshes_failed:
  assumes "\<not> usable (kc_now_sec kc (kw_clock_reads w)) (read_config_file kc (read_access_config kc) (kw_files w) path)"
    "kw_files w1 = kw_files w" "net_requests (kw_net w1) = net_requests (kw_net w) @ rqs" "length rqs \<le> 1"
  shows "refreshes kc path w w1"
  using assms by (auto simp: refreshes_def)

lemma refreshes_usable:
  "kw_files w1 = kw_files w \<Longrightarrow> kw_net w1 = kw_net w \<Longrightarrow> refreshes kc path w w1"
  by (auto simp: refreshes_def)

text \<open>Both refreshes have this shape; \<open>k\<close> is what they do with a good response.\<close>

definition refresh_with ::
  "'j kc_env \<Rightarrow> string \<Rightarrow> string \<Rightarrow> string \<Rightarrow> (rest_response \<Rightarrow> kc_world \<Rightarrow> kc_world) \<Rightarrow> kc_world \<Rightarrow> kc_world" where
  "refresh_with kc path endpoint secret k w =
     (case new_token_needed kc (read_config_file kc (read_access_config kc) (kw_files w) path) w of
        (False, w) \<Rightarrow> w
      | (True, w) \<Rightarrow>
          (case request_token kc endpoint secret w of
             None \<Rightarrow> w
           | Some (response, w) \<Rightarrow> if \<not> response_ok response then w else k response w))"

lemma refreshes_with:
  assumes "token_codec kc" "kc_writable kc path"
    and k: "\<And>r w1. k r w1 = w1 \<or> (\<exists>t e w2. k r w1 = save_token kc path t e w2 \<and> kw_files w2 = kw_files w1 \<and> kw_net w2 = kw_net w1)"
  shows "refreshes kc path w (refresh_with kc path endpoint secret k w)"
proof (cases "new_token_needed kc (read_config_file kc (read_access_config kc) (kw_files w) path) w")
  case (Pair needed w0)
  let ?rq = "request_token kc endpoint secret w0"
  note same = new_token_needed_eq [of kc "read_config_file kc (read_access_config kc) (kw_files w) path" w,
      unfolded Pair fst_conv snd_conv]
  show ?thesis
  proof (cases "needed \<and> ?rq \<noteq> None")
    case False
    then have "refresh_with kc path endpoint secret k w = w0"
      using Pair by (cases needed; cases ?rq) (auto simp: refresh_with_def)
    then show ?thesis using same refreshes_usable by metis
  next
    case True
    then obtain response w1 where r: "?rq = Some (response, w1)" by auto
    have old: "\<not> usable (kc_now_sec kc (kw_clock_reads w)) (read_config_file kc (read_access_config kc) (kw_files w) path)"
      using True same(1) by simp
    from request_token_Some [OF r] same obtain rqs where w1: "kw_files w1 = kw_files w"
      "net_requests (kw_net w1) = net_requests (kw_net w) @ rqs" "length rqs \<le> 1" "response_ok response \<Longrightarrow> length rqs = 1"
      by auto
    have "refresh_with kc path endpoint secret k w = (if response_ok response then k response w1 else w1)"
      using True Pair r by (simp add: refresh_with_def)
    then show ?thesis
      using w1 k [of response w1] refreshes_failed [OF old w1(1-3)] refreshes_saved [OF assms(1,2) old, of _ rqs]
      by auto
  qed
qed

lemma rest_refreshes:
  assumes "token_codec kc" "kc_writable kc rest_token_path"
  shows "refreshes kc rest_token_path w (update_rest_access_token kc rest_token_path w)"
proof -
  let ?k = "\<lambda>response w. case read_rest_access_response kc (rr_body response) of
      None \<Rightarrow> w | Some (token, expired) \<Rightarrow> save_token kc rest_token_path token (parse_datetime expired) w"
  have "update_rest_access_token kc rest_token_path w = refresh_with kc rest_token_path ''/oauth2/tokenP'' ''appsecret'' ?k w"
    by (simp add: update_rest_access_token_def refresh_with_def get_rest_access_config_def)
  moreover have "refreshes kc rest_token_path w (refresh_with kc rest_token_path ''/oauth2/tokenP'' ''appsecret'' ?k w)"
    using assms by (rule refreshes_with) (auto split: option.splits)
  ultimately show ?thesis by simp
qed

lemma saved_ticked:
  "\<exists>t' e' w2. save_token kc path t e (w1\<lparr>kw_clock_reads := n\<rparr>) = save_token kc path t' e' w2
    \<and> kw_files w2 = kw_files w1 \<and> kw_net w2 = kw_net w1"
  by (rule exI [of _ t], rule exI [of _ e], rule exI [of _ "w1\<lparr>kw_clock_reads := n\<rparr>"]) simp

lemma websocket_refreshes:
  assumes "token_codec kc" "kc_writable kc websocket_token_path"
  shows "refreshes kc websocket_token_path w (update_websocket_access_token kc websocket_token_path w)"
proof -
  let ?k = "\<lambda>response w. case js_parse (re_json (kc_rest kc)) (rr_body response) of
      None \<Rightarrow> w
    | Some j \<Rightarrow> (case at_str (re_json (kc_rest kc)) ''approval_key'' j of
         None \<Rightarrow> w
       | Some approval_key \<Rightarrow> save_token kc websocket_token_path approval_key
           (kc_now_sec kc (kw_clock_reads w) + 24 * 3600) (w\<lparr>kw_clock_reads := Suc (kw_clock_reads w)\<rparr>))"
  have "update_websocket_access_token kc websocket_token_path w
      = refresh_with kc websocket_token_path ''/oauth2/Approval'' ''secretkey'' ?k w"
    by (simp add: update_websocket_access_token_def refresh_with_def get_websocket_access_config_def)
  moreover have "refreshes kc websocket_token_path w (refresh_with kc websocket_token_path ''/oauth2/Approval'' ''secretkey'' ?k w)"
    using assms by (rule refreshes_with) (auto split: option.splits intro: saved_ticked)
  ultimately show ?thesis by simp
qed

text \<open>
  Refreshing the KIS tokens at start makes at most two requests, and none while both tokens on
  file are usable; it touches no other file; and a token file is left as it was, or holds a token
  that the next reader finds.
\<close>

theorem kis_tokens_refreshed:
  assumes "token_codec kc" "kc_writable kc rest_token_path" "kc_writable kc websocket_token_path"
    "update_access_tokens kc w = w'"
  shows "(\<exists>rqs. net_requests (kw_net w') = net_requests (kw_net w) @ rqs \<and> length rqs \<le> 2)
    \<and> ((\<forall>n. usable (kc_now_sec kc n) (get_rest_access_config kc (kw_files w))
            \<and> usable (kc_now_sec kc n) (get_websocket_access_config kc (kw_files w)))
         \<longrightarrow> kw_files w' = kw_files w \<and> kw_net w' = kw_net w)
    \<and> (\<forall>p. p \<noteq> rest_token_path \<and> p \<noteq> websocket_token_path \<longrightarrow> kw_files w' p = kw_files w p)
    \<and> (kw_files w' rest_token_path = kw_files w rest_token_path \<or> get_rest_access_token kc (kw_files w') \<noteq> None)
    \<and> (kw_files w' websocket_token_path = kw_files w websocket_token_path
        \<or> get_websocket_access_token kc (kw_files w') \<noteq> None)"
proof -
  define w1 where "w1 = update_rest_access_token kc rest_token_path w"
  have r: "refreshes kc rest_token_path w w1" unfolding w1_def by (rule rest_refreshes [OF assms(1,2)])
  have w': "w' = update_websocket_access_token kc websocket_token_path w1"
    using assms(4) by (simp add: update_access_tokens_def w1_def rest_token_path_def websocket_token_path_def)
  have s: "refreshes kc websocket_token_path w1 w'" unfolding w' by (rule websocket_refreshes [OF assms(1,3)])
  have ne: "rest_token_path \<noteq> websocket_token_path" by (simp add: rest_token_path_def websocket_token_path_def)
  have f: "kw_files w' rest_token_path = kw_files w1 rest_token_path" "kw_files w1 websocket_token_path = kw_files w websocket_token_path"
    using r s ne by (auto simp: refreshes_def)
  obtain a b where "net_requests (kw_net w1) = net_requests (kw_net w) @ a" "length a \<le> 1"
      "net_requests (kw_net w') = net_requests (kw_net w1) @ b" "length b \<le> 1"
    using r s by (auto simp: refreshes_def)
  then have "\<exists>rqs. net_requests (kw_net w') = net_requests (kw_net w) @ rqs \<and> length rqs \<le> 2"
    by (intro exI [of _ "a @ b"]) simp
  moreover have "kw_files w' = kw_files w \<and> kw_net w' = kw_net w"
    if "\<forall>n. usable (kc_now_sec kc n) (get_rest_access_config kc (kw_files w))
            \<and> usable (kc_now_sec kc n) (get_websocket_access_config kc (kw_files w))"
    using r s that by (simp add: refreshes_def get_rest_access_config_def get_websocket_access_config_def)
  moreover have "\<forall>p. p \<noteq> rest_token_path \<and> p \<noteq> websocket_token_path \<longrightarrow> kw_files w' p = kw_files w p"
    using r s by (simp add: refreshes_def)
  moreover have "kw_files w' rest_token_path = kw_files w rest_token_path \<or> get_rest_access_token kc (kw_files w') \<noteq> None"
    using r f(1) by (auto simp: refreshes_def get_rest_access_token_def get_rest_access_config_def read_config_file_def)
  moreover have "kw_files w' websocket_token_path = kw_files w websocket_token_path \<or> get_websocket_access_token kc (kw_files w') \<noteq> None"
    using s f(2) by (auto simp: refreshes_def get_websocket_access_token_def get_websocket_access_config_def)
  ultimately show ?thesis by blast
qed

section \<open>A start without tokens\<close>

datatype demo_doc = DemoToken string int | DemoKeys | DemoDomains | DemoString string | DemoNumber int

text \<open>A codec for tokens: a sign, the number in strokes, a colon and the token.\<close>

definition demo_token_text :: "string \<Rightarrow> int \<Rightarrow> string option" where
  "demo_token_text t e = Some (CHR ''T'' # (if e < 0 then CHR ''-'' else CHR ''+'') # replicate (nat \<bar>e\<bar>) (CHR ''x'') @ CHR '':'' # t)"

definition demo_read_token :: "string \<Rightarrow> demo_doc" where
  "demo_read_token s =
     (let n = int (length (takeWhile (\<lambda>c. c = CHR ''x'') (tl s)))
      in DemoToken (drop 1 (dropWhile (\<lambda>c. c = CHR ''x'') (tl s))) (if hd s = CHR ''-'' then - n else n))"

definition demo_parse :: "string \<Rightarrow> demo_doc option" where
  "demo_parse s =
     (if s = ''keys'' then Some DemoKeys else if s = ''domains'' then Some DemoDomains
      else if s \<noteq> [] \<and> hd s = CHR ''T'' then Some (demo_read_token (tl s)) else None)"

fun demo_at :: "string \<Rightarrow> demo_doc \<Rightarrow> demo_doc option" where
  "demo_at k (DemoToken t e) =
     (if k = ''access_token'' then Some (DemoString t)
      else if k = ''access_token_expire_time'' then Some (DemoNumber e) else None)"
| "demo_at k DemoKeys = (if k = ''key'' \<or> k = ''secret'' then Some (DemoString k) else None)"
| "demo_at k _ = None"

definition demo_kis_json :: "demo_doc json_api" where
  "demo_kis_json = \<lparr>js_parse = demo_parse, js_at = demo_at, js_index = (\<lambda>_ _. None), js_items = (\<lambda>_. []),
     js_str = (\<lambda>j. case j of DemoString t \<Rightarrow> Some t | _ \<Rightarrow> None),
     js_long = (\<lambda>j. case j of DemoNumber i \<Rightarrow> Some i | _ \<Rightarrow> None), js_value_str = (\<lambda>_ _ _. None)\<rparr>"

definition demo_kc :: "demo_doc kc_env" where
  "demo_kc = \<lparr>kc_rest = \<lparr>re_curl_init = True, re_transfer = (\<lambda>_ _. CurlFailed ''timeout''), re_clk_ms = (\<lambda>_. 0), re_domain = [],
       re_keys = None, re_hmac = (\<lambda>_ _. []), re_json = demo_kis_json\<rparr>,
     kc_string_map = (\<lambda>j. if j = DemoDomains then Some [(''rest_real'', ''https://kis'')] else None),
     kc_request_text = (\<lambda>_. ''{}''), kc_token_text = demo_token_text, kc_writable = (\<lambda>_. True), kc_now_sec = (\<lambda>n. 100)\<rparr>"

definition demo_kw :: kc_world where
  "demo_kw = \<lparr>kw_files = (\<lambda>p. if p = ''./account/kis/auth_keys.json'' then Some ''keys''
       else if p = ''./domain/kis.json'' then Some ''domains'' else None),
     kw_net = \<lparr>net_requests = [], net_clock_reads = 0\<rparr>, kw_clock_reads = 0\<rparr>"

lemma demo_token_codec: "token_codec demo_kc"
  unfolding token_codec_def
proof (intro allI)
  fix t e
  let ?s = "CHR ''T'' # (if e < 0 then CHR ''-'' else CHR ''+'') # replicate (nat \<bar>e\<bar>) (CHR ''x'') @ CHR '':'' # t"
  have "takeWhile (\<lambda>c. c = CHR ''x'') (replicate n (CHR ''x'') @ CHR '':'' # t) = replicate n (CHR ''x'')"
    "dropWhile (\<lambda>c. c = CHR ''x'') (replicate n (CHR ''x'') @ CHR '':'' # t) = CHR '':'' # t" for n
    by (induction n) simp_all
  then have "demo_read_token (tl ?s) = DemoToken t e" by (simp add: demo_read_token_def Let_def)
  then have "demo_parse ?s = Some (DemoToken t e)" by (simp add: demo_parse_def)
  then show "\<exists>x j. kc_token_text demo_kc t e = Some x \<and> js_parse (re_json (kc_rest demo_kc)) x = Some j
      \<and> read_access_config demo_kc j = Some \<lparr>ac_access_token = t, ac_access_token_expire_time = e\<rparr>"
    by (intro exI [of _ ?s] exI [of _ "DemoToken t e"])
      (simp add: demo_kc_def demo_token_text_def demo_kis_json_def read_access_config_def at_str_def)
qed

lemma demo_refresh_requests: "length (net_requests (kw_net (update_access_tokens demo_kc demo_kw))) = 2"
  by code_simp

theorem kis_tokens_refreshed_witness:
  "length (net_requests (kw_net (update_access_tokens demo_kc demo_kw))) = 2
    \<and> kw_files (update_access_tokens demo_kc demo_kw) ''./domain/kis.json'' = Some ''domains''"
proof -
  have "kc_writable demo_kc rest_token_path" "kc_writable demo_kc websocket_token_path" by (simp_all add: demo_kc_def)
  note refreshed = kis_tokens_refreshed [OF demo_token_codec this refl, of demo_kw]
  have "''./domain/kis.json'' \<noteq> rest_token_path" "''./domain/kis.json'' \<noteq> websocket_token_path"
    by (simp_all add: rest_token_path_def websocket_token_path_def)
  then have "kw_files (update_access_tokens demo_kc demo_kw) ''./domain/kis.json'' = kw_files demo_kw ''./domain/kis.json''"
    using refreshed by blast
  then show ?thesis using demo_refresh_requests by (simp add: demo_kw_def)
qed

end
