(* ===== verification/Kis_Listener.thy ===== *)
theory Kis_Listener
  imports Kis_Feed Kis_Config Redial "HOL-Library.Sublist"
begin

text \<open>
  The KIS adapter (\<open>market_listener/exchange/kis/kis_listener.cpp\<close>) with its socket
  (\<open>connection_handlers/websocket/kis/kis_ws_client.cpp\<close>): one websocket whose handlers queue
  status changes and market frames, a worker that processes the queue, and the redial timer.  The
  worker has no exception handler: an exception ends the process and is an error value here.
  OpenSSL, the JSON reader, the session token and websocketpp's \<open>send\<close> are parameters; the two
  flags of the timer thread are taken at its own steps.
\<close>

section \<open>State\<close>

datatype ws_response = WsStatusUpdate bool bool | WsMarketData ws_market_data_response

datatype kis_error = UnsupportedMarket | NullClient | SendThrows | BadNumber

record kl_env =
  kv_config :: listener_config
  kv_files :: "string \<Rightarrow> string option"
  kv_hts_id :: string
  kv_ws_token :: "string option"
  kv_base64 :: "string \<Rightarrow> string option"
  kv_ctx_new :: bool
  kv_decrypt_init :: "string \<Rightarrow> string \<Rightarrow> bool"
  kv_decrypt_update :: "string \<Rightarrow> string \<Rightarrow> string \<Rightarrow> string option"
  kv_decrypt_final :: "string \<Rightarrow> string \<Rightarrow> string \<Rightarrow> string option"
  kv_subscribe_success :: "string \<Rightarrow> (string option \<times> string option) option"
  kv_dial_throws :: "nat \<Rightarrow> bool"
  kv_send_throws :: "nat \<Rightarrow> bool"

record kis_listener =
  kl_product_manager :: product_manager
  kl_subscription_messages :: "string list"
  kl_ws_response_queue :: "ws_response list"
  kl_ws_client :: "ws_client option"
  kl_ws_iv :: string
  kl_ws_key :: string
  kl_connecting :: bool
  kl_opened :: bool
  kl_reconnect_cnt :: int
  kl_reconnect_pending :: bool
  kl_reconnect_timer :: "int option"
  kl_running :: bool
  kl_dials :: nat
  kl_sends :: nat
  kl_sent :: "string list"
  kl_event_queue :: "listener_event list"

section \<open>Construction\<close>

definition write_ws_request_msg :: "kl_env \<Rightarrow> subscription_input \<Rightarrow> string" where
  "write_ws_request_msg kv input =
     (case kv_ws_token kv of
        None \<Rightarrow> []
      | Some token \<Rightarrow>
          ''{\"header\":{\"approval_key\":\"'' @ token
            @ ''\",\"custtype\":\"P\",\"tr_type\":\"1\",\"content-type\":\"utf-8\"},''
            @ ''\"body\":{\"input\":{\"tr_id\":\"'' @ si_tr_id input @ ''\",\"tr_key\":\"'' @ si_tr_key input @ ''\"}}}'')"

definition subscription_messages :: "kl_env \<Rightarrow> product_manager \<Rightarrow> string list" where
  "subscription_messages kv pm =
     concat (map (\<lambda>product. [write_ws_request_msg kv (get_orderbook_subscription_input pm product),
                            write_ws_request_msg kv (get_trade_subscription_input pm product),
                            write_ws_request_msg kv (get_execution_subscription_input pm product)])
        (lc_products (kv_config kv)))"

definition products_db_path :: "listener_config \<Rightarrow> string" where
  "products_db_path config =
     lc_products_db_base_path config @ ''/'' @ lc_region config @ ''/'' @ lc_market_type config"

definition make_kis_listener :: "kl_env \<Rightarrow> kis_error + kis_listener" where
  "make_kis_listener kv =
     (if lc_market_type (kv_config kv) \<noteq> ''derivatives'' then Inl UnsupportedMarket
      else let pm = make_product_manager (kv_files kv) (products_db_path (kv_config kv)) (kv_hts_id kv)
                      (lc_is_night (kv_config kv))
        in Inr \<lparr>kl_product_manager = pm, kl_subscription_messages = subscription_messages kv pm,
             kl_ws_response_queue = [], kl_ws_client = None, kl_ws_iv = [], kl_ws_key = [], kl_connecting = False,
             kl_opened = False, kl_reconnect_cnt = 0, kl_reconnect_pending = False, kl_reconnect_timer = None,
             kl_running = False, kl_dials = 0, kl_sends = 0, kl_sent = [], kl_event_queue = []\<rparr>)"

text \<open>
  The constructor on the file system: the tokens are refreshed first, then the account and the
  websocket token are read from the files as they are then.
\<close>

definition kis_listener_of_files :: "'j kc_env \<Rightarrow> kl_env \<Rightarrow> kc_world \<Rightarrow> kis_error + kis_listener" where
  "kis_listener_of_files kc kv w =
     (let files = kw_files (update_access_tokens kc w)
      in make_kis_listener
           (kv\<lparr>kv_hts_id := (case get_account_info kc files of None \<Rightarrow> [] | Some info \<Rightarrow> ai_hts_id info),
               kv_ws_token := get_websocket_access_token kc files\<rparr>))"

text \<open>The status callback of the socket: \<open>notify_websocket_status\<close>.\<close>

definition queue_notes :: "ws_note list \<Rightarrow> kis_listener \<Rightarrow> kis_listener" where
  "queue_notes notes l =
     l\<lparr>kl_ws_response_queue := kl_ws_response_queue l @ map (\<lambda>(c, opened). WsStatusUpdate c opened) notes\<rparr>"

definition create_ws_client :: "kl_env \<Rightarrow> kis_listener \<Rightarrow> kis_listener" where
  "create_ws_client kv l =
     (case new_ws_client (kv_dial_throws kv (kl_dials l)) of (notes, c) \<Rightarrow>
        queue_notes notes (l\<lparr>kl_dials := Suc (kl_dials l), kl_ws_client := Some c, kl_ws_iv := [], kl_ws_key := []\<rparr>))"

definition kl_start :: "kl_env \<Rightarrow> kis_listener \<Rightarrow> kis_listener" where
  "kl_start kv l = create_ws_client kv (l\<lparr>kl_running := True\<rparr>)"

definition kl_stop :: "kis_listener \<Rightarrow> kis_listener" where
  "kl_stop l =
     (if \<not> kl_running l then l
      else l\<lparr>kl_running := False,
             kl_ws_response_queue := kl_ws_response_queue l @ [WsStatusUpdate False False],
             kl_reconnect_timer := None, kl_ws_client := None\<rparr>)"

section \<open>The socket\<close>

definition base64_decode :: "kl_env \<Rightarrow> string \<Rightarrow> string" where
  "base64_decode kv cipher_b64 = (case kv_base64 kv cipher_b64 of None \<Rightarrow> [] | Some out \<Rightarrow> out)"

definition aes_cbc_decrypt :: "kl_env \<Rightarrow> string \<Rightarrow> string \<Rightarrow> string \<Rightarrow> string" where
  "aes_cbc_decrypt kv key iv cipher_b64 =
     (let cipher_bin = base64_decode kv cipher_b64
      in if \<not> kv_ctx_new kv then []
         else if \<not> kv_decrypt_init kv key iv then []
         else (case kv_decrypt_update kv key iv cipher_bin of
                 None \<Rightarrow> []
               | Some out1 \<Rightarrow>
                   (case kv_decrypt_final kv key iv cipher_bin of None \<Rightarrow> [] | Some out2 \<Rightarrow> out1 @ out2)))"

text \<open>\<open>on_stream_message\<close>; what throws is caught there and leaves what was stored before.\<close>

definition on_stream_message :: "kl_env \<Rightarrow> string \<Rightarrow> kis_listener \<Rightarrow> kis_listener" where
  "on_stream_message kv msg l =
     (if msg = [] then l
      else if hd msg = CHR ''0'' \<or> hd msg = CHR ''1''
      then let msg_segments = split_msg (CHR ''|'') msg
           in if length msg_segments < 4 then l
              else let ty = get_tr_id_type (kl_product_manager l) (msg_segments ! 1);
                       data_segments = split_msg (CHR ''^'')
                         (if ty = ExecutionTrId then aes_cbc_decrypt kv (kl_ws_key l) (kl_ws_iv l) (msg_segments ! 3)
                          else msg_segments ! 3)
                in (case stoull (msg_segments ! 2) of
                      None \<Rightarrow> l
                    | Some n \<Rightarrow> l\<lparr>kl_ws_response_queue := kl_ws_response_queue l
                        @ [WsMarketData \<lparr>wm_tr_id_type = ty, wm_data_num = n, wm_market_data = data_segments\<rparr>]\<rparr>)
      else if sublist ''header'' msg
      then (case kv_subscribe_success kv msg of
              None \<Rightarrow> l
            | Some (iv, key) \<Rightarrow>
                (case iv of
                   None \<Rightarrow> l
                 | Some i \<Rightarrow>
                     (case key of None \<Rightarrow> l\<lparr>kl_ws_iv := i\<rparr> | Some k \<Rightarrow> l\<lparr>kl_ws_iv := i, kl_ws_key := k\<rparr>)))
      else l)"

definition kl_socket_event :: "ws_event \<Rightarrow> ws_client \<Rightarrow> kis_listener \<Rightarrow> kis_listener" where
  "kl_socket_event e c l =
     (case ws_handle e c of (notes, c') \<Rightarrow> queue_notes notes (l\<lparr>kl_ws_client := Some c'\<rparr>))"

section \<open>The worker\<close>

fun send_all :: "kl_env \<Rightarrow> string list \<Rightarrow> kis_listener \<Rightarrow> kis_error + kis_listener" where
  "send_all kv [] l = Inr l"
| "send_all kv (m # ms) l =
     (if kv_send_throws kv (kl_sends l) then Inl SendThrows
      else send_all kv ms (l\<lparr>kl_sends := Suc (kl_sends l), kl_sent := kl_sent l @ [m]\<rparr>))"

definition on_ws_client_open :: "kl_env \<Rightarrow> kis_listener \<Rightarrow> kis_error + kis_listener" where
  "on_ws_client_open kv l =
     (let l1 = l\<lparr>kl_reconnect_cnt := 0, kl_reconnect_pending := False\<rparr>
      in if kl_subscription_messages l1 \<noteq> [] \<and> kl_ws_client l1 = None then Inl NullClient
         else send_all kv (kl_subscription_messages l1) l1)"

definition max_backoff_step :: int where
  "max_backoff_step = 5"

definition on_ws_client_fail :: "kis_listener \<Rightarrow> kis_listener" where
  "on_ws_client_fail l =
     l\<lparr>kl_ws_client := None, kl_reconnect_pending := True,
       kl_reconnect_timer := Some (2 ^ nat (min (kl_reconnect_cnt l) max_backoff_step) - 1),
       kl_reconnect_cnt := s32 (kl_reconnect_cnt l + 1)\<rparr>"

definition on_reconnect_timer :: "kl_env \<Rightarrow> kis_listener \<Rightarrow> kis_listener" where
  "on_reconnect_timer kv l =
     (let l1 = l\<lparr>kl_reconnect_timer := None\<rparr>
      in if kl_running l1 then create_ws_client kv (l1\<lparr>kl_reconnect_pending := False\<rparr>) else l1)"

definition kl_on_ws_status :: "kl_env \<Rightarrow> bool \<Rightarrow> bool \<Rightarrow> kis_listener \<Rightarrow> kis_error + kis_listener" where
  "kl_on_ws_status kv connecting opened l =
     (case (if \<not> kl_opened l \<and> opened then on_ws_client_open kv l
            else if \<not> opened \<and> \<not> connecting \<and> \<not> kl_reconnect_pending l then Inr (on_ws_client_fail l)
            else Inr l) of
        Inl e \<Rightarrow> Inl e
      | Inr l1 \<Rightarrow>
          Inr (l1\<lparr>kl_connecting := connecting, kl_opened := opened,
                 kl_event_queue := kl_event_queue l1
                   @ [StatusEvent \<lparr>su_connection = ''kis'', su_connecting = connecting, su_opened = opened\<rparr>]\<rparr>))"

definition on_market_data :: "ws_market_data_response \<Rightarrow> kis_listener \<Rightarrow> kis_error + kis_listener" where
  "on_market_data r l =
     (case market_data_loop (kl_product_manager l) (wm_tr_id_type r) (wm_market_data r) (nat (wm_data_num r)) 0 of
        (threw, es) \<Rightarrow>
          if threw then Inl BadNumber else Inr (l\<lparr>kl_event_queue := kl_event_queue l @ es\<rparr>))"

definition kl_worker_round :: "kl_env \<Rightarrow> kis_listener \<Rightarrow> kis_error + kis_listener" where
  "kl_worker_round kv l =
     (case kl_ws_response_queue l of
        [] \<Rightarrow> Inr l
      | response # rest \<Rightarrow>
          let l1 = l\<lparr>kl_ws_response_queue := rest\<rparr>
          in if \<not> kl_running l1 then Inr l1
             else (case response of
                     WsStatusUpdate connecting opened \<Rightarrow> kl_on_ws_status kv connecting opened l1
                   | WsMarketData r \<Rightarrow> on_market_data r l1))"

section \<open>Runs\<close>

text \<open>
  The worker, the socket's thread and the timer's thread, one handler at a time.  A round of the
  worker that throws ends the process, so that no step follows it.
\<close>

inductive kl_step :: "kl_env \<Rightarrow> kis_listener \<Rightarrow> kis_listener \<Rightarrow> bool" for kv where
  worker: "kl_worker_round kv l = Inr l' \<Longrightarrow> kl_step kv l l'"
| socket: "kl_ws_client l = Some c \<Longrightarrow> ws_enabled e c \<Longrightarrow> kl_step kv l (kl_socket_event e c l)"
| message: "kl_ws_client l = Some c \<Longrightarrow> wc_thread c \<Longrightarrow> kl_step kv l (on_stream_message kv msg l)"
| timer: "kl_reconnect_timer l = Some d \<Longrightarrow> kl_step kv l (on_reconnect_timer kv l)"

inductive_cases kl_stepE: "kl_step kv l l'"

definition kl_reach :: "kl_env \<Rightarrow> kis_listener \<Rightarrow> bool" where
  "kl_reach kv l \<longleftrightarrow> (\<exists>l0. make_kis_listener kv = Inr l0 \<and> (kl_step kv)\<^sup>*\<^sup>* (kl_start kv l0) l)"

lemma kl_reach_induct [consumes 1, case_names start step]:
  assumes "kl_reach kv l" "\<And>l0. make_kis_listener kv = Inr l0 \<Longrightarrow> P (kl_start kv l0)"
    "\<And>l l'. kl_reach kv l \<Longrightarrow> P l \<Longrightarrow> kl_step kv l l' \<Longrightarrow> P l'"
  shows "P l"
proof -
  obtain l0 where l0: "make_kis_listener kv = Inr l0" "(kl_step kv)\<^sup>*\<^sup>* (kl_start kv l0) l"
    using assms(1) by (auto simp: kl_reach_def)
  from l0(2) show ?thesis
  proof (induction rule: rtranclp_induct)
    case base
    show ?case by (rule assms(2) [OF l0(1)])
  next
    case (step y z)
    then show ?case using assms(3) [of y z] l0(1) by (auto simp: kl_reach_def)
  qed
qed

text \<open>
  What every run keeps: exactly one of the client and the armed timer is there, a client that is
  neither dialling nor open has a report of that in the queue, and a socket the worker takes for
  open has got every subscription.
\<close>

abbreviation down :: ws_response where
  "down \<equiv> WsStatusUpdate False False"

definition kl_inv :: "kis_listener \<Rightarrow> bool" where
  "kl_inv l \<longleftrightarrow> kl_running l
     \<and> (case kl_ws_client l of
          None \<Rightarrow> \<exists>d. kl_reconnect_timer l = Some d \<and> 0 \<le> d \<and> d \<le> 31
        | Some c \<Rightarrow> \<not> kl_reconnect_pending l \<and> kl_reconnect_timer l = None \<and> ws_inv c
            \<and> (wc_connecting c \<or> wc_opened c \<or> down \<in> set (kl_ws_response_queue l)))
     \<and> (kl_opened l \<longrightarrow> (\<exists>pre. kl_sent l = pre @ kl_subscription_messages l))"

lemma kl_backoff_bounds: "(0::int) \<le> 2 ^ nat (min cnt max_backoff_step) - 1 \<and> 2 ^ nat (min cnt max_backoff_step) - 1 \<le> (31::int)"
proof -
  have "nat (min cnt max_backoff_step) \<le> 5" by (simp add: max_backoff_step_def)
  then have "(2::int) ^ nat (min cnt max_backoff_step) \<le> 2 ^ 5" by (intro power_increasing) simp_all
  then show ?thesis by simp
qed

lemma queue_notes_sel [simp]:
  "kl_running (queue_notes ns l) = kl_running l" "kl_ws_client (queue_notes ns l) = kl_ws_client l"
  "kl_reconnect_pending (queue_notes ns l) = kl_reconnect_pending l" "kl_opened (queue_notes ns l) = kl_opened l"
  "kl_reconnect_timer (queue_notes ns l) = kl_reconnect_timer l" "kl_sent (queue_notes ns l) = kl_sent l"
  "kl_subscription_messages (queue_notes ns l) = kl_subscription_messages l"
  "set (kl_ws_response_queue (queue_notes ns l)) = set (kl_ws_response_queue l) \<union> (\<lambda>(c, opened). WsStatusUpdate c opened) ` set ns"
  by (simp_all add: queue_notes_def)

lemma create_ws_client_inv:
  assumes "kl_running l" "\<not> kl_reconnect_pending l" "kl_reconnect_timer l = None"
    "kl_opened l \<longrightarrow> (\<exists>pre. kl_sent l = pre @ kl_subscription_messages l)"
  shows "kl_inv (create_ws_client kv l)"
  using assms new_ws_client_inv [of "kv_dial_throws kv (kl_dials l)"]
  by (auto simp: kl_inv_def create_ws_client_def new_ws_client_def init_connection_def Let_def split: if_splits)

lemma send_all_result:
  assumes "send_all kv ms l = Inr l'"
  shows "kl_sent l' = kl_sent l @ ms" "kl_running l' = kl_running l" "kl_ws_client l' = kl_ws_client l"
    "kl_reconnect_pending l' = kl_reconnect_pending l" "kl_reconnect_timer l' = kl_reconnect_timer l"
    "kl_subscription_messages l' = kl_subscription_messages l" "kl_ws_response_queue l' = kl_ws_response_queue l"
  using assms by (induction kv ms l rule: send_all.induct) (auto split: if_splits)

lemma kl_on_ws_status_inv:
  assumes "kl_inv (l\<lparr>kl_ws_response_queue := WsStatusUpdate connecting opened # rest\<rparr>)"
    "kl_on_ws_status kv connecting opened (l\<lparr>kl_ws_response_queue := rest\<rparr>) = Inr l'"
  shows "kl_inv l'"
proof -
  let ?l = "l\<lparr>kl_ws_response_queue := rest\<rparr>"
  consider (up) "\<not> kl_opened l" "opened" | (fail) "\<not> opened" "\<not> connecting" "\<not> kl_reconnect_pending l"
    | (other) "\<not> (\<not> kl_opened l \<and> opened)" "\<not> (\<not> opened \<and> \<not> connecting \<and> \<not> kl_reconnect_pending l)" by blast
  then show ?thesis
  proof cases
    case up
    then obtain l1 where l1: "on_ws_client_open kv ?l = Inr l1" and
      l': "l' = l1\<lparr>kl_connecting := connecting, kl_opened := opened, kl_event_queue := kl_event_queue l1
         @ [StatusEvent \<lparr>su_connection = ''kis'', su_connecting = connecting, su_opened = opened\<rparr>]\<rparr>"
      using assms(2) by (auto simp: kl_on_ws_status_def split: sum.splits)
    let ?l0 = "?l\<lparr>kl_reconnect_cnt := 0, kl_reconnect_pending := False\<rparr>"
    have s: "send_all kv (kl_subscription_messages l) ?l0 = Inr l1"
      and null: "kl_subscription_messages l \<noteq> [] \<longrightarrow> kl_ws_client l \<noteq> None"
      using l1 by (auto simp: on_ws_client_open_def Let_def split: if_splits)
    show ?thesis
    proof (cases "kl_ws_client l")
      case None
      with null s have "l1 = ?l0" by simp
      with None assms(1) up l' null show ?thesis by (auto simp: kl_inv_def)
    next
      case (Some c)
      with send_all_result [OF s] assms(1) up l' show ?thesis by (auto simp: kl_inv_def)
    qed
  next
    case fail
    with assms kl_backoff_bounds [of "kl_reconnect_cnt l"] show ?thesis
      by (auto simp: kl_on_ws_status_def on_ws_client_fail_def kl_inv_def)
  next
    case other
    with assms show ?thesis by (auto simp: kl_on_ws_status_def kl_inv_def split: option.splits)
  qed
qed

lemma market_events_inv: "kl_inv l \<Longrightarrow> kl_inv (l\<lparr>kl_event_queue := es\<rparr>)"
  by (auto simp: kl_inv_def split: option.splits)

lemma pop_market_data_inv:
  assumes "kl_inv (l\<lparr>kl_ws_response_queue := WsMarketData r # rest\<rparr>)"
  shows "kl_inv (l\<lparr>kl_ws_response_queue := rest\<rparr>)"
  using assms by (auto simp: kl_inv_def split: option.splits)

lemma worker_round_inv:
  assumes "kl_inv l" "kl_worker_round kv l = Inr l'"
  shows "kl_inv l'"
proof (cases "kl_ws_response_queue l")
  case Nil
  with assms show ?thesis by (simp add: kl_worker_round_def)
next
  case (Cons response rest)
  then have l: "l = l\<lparr>kl_ws_response_queue := response # rest\<rparr>" by simp
  show ?thesis
  proof (cases response)
    case (WsStatusUpdate connecting opened)
    then have "kl_inv (l\<lparr>kl_ws_response_queue := WsStatusUpdate connecting opened # rest\<rparr>)"
      using assms(1) l by metis
    moreover have "kl_on_ws_status kv connecting opened (l\<lparr>kl_ws_response_queue := rest\<rparr>) = Inr l'"
      using assms Cons WsStatusUpdate by (simp add: kl_worker_round_def Let_def kl_inv_def)
    ultimately show ?thesis by (rule kl_on_ws_status_inv)
  next
    case (WsMarketData r)
    then have "kl_inv (l\<lparr>kl_ws_response_queue := rest\<rparr>)"
      using assms(1) l by (metis pop_market_data_inv)
    with WsMarketData assms Cons show ?thesis
      by (auto simp: kl_worker_round_def Let_def on_market_data_def split: prod.splits if_splits intro: market_events_inv)
  qed
qed

lemma kl_socket_event_inv:
  assumes "kl_inv l" "kl_ws_client l = Some c" "ws_enabled e c"
  shows "kl_inv (kl_socket_event e c l)"
proof -
  obtain ns c' where h: "ws_handle e c = (ns, c')" by fastforce
  have c: "ws_inv c" "\<not> kl_reconnect_pending l" "kl_reconnect_timer l = None"
    "wc_connecting c \<or> wc_opened c \<or> down \<in> set (kl_ws_response_queue l)"
    using assms(1,2) by (simp_all add: kl_inv_def)
  have inv: "ws_inv c'" using ws_handle_inv [OF c(1) assms(3)] h by simp
  have "(ns = [] \<and> ws_notify c' = ws_notify c) \<or> ns = [ws_notify c']"
    by (rule ws_handle_notes [OF c(1) assms(3) h])
  then show ?thesis using assms(1) h inv c
    by (auto simp: kl_inv_def kl_socket_event_def ws_notify_def)
qed

lemma message_inv: "kl_inv l \<Longrightarrow> kl_inv (on_stream_message kv msg l)"
  by (auto simp: kl_inv_def on_stream_message_def Let_def split: option.splits prod.splits)

lemma kl_step_inv: "kl_step kv l l' \<Longrightarrow> kl_inv l \<Longrightarrow> kl_inv l'"
proof (induction rule: kl_step.induct)
  case (timer l d)
  then have "kl_running l" "kl_ws_client l = None" "kl_opened l \<longrightarrow> (\<exists>pre. kl_sent l = pre @ kl_subscription_messages l)"
    by (auto simp: kl_inv_def split: option.splits)
  then show ?case by (auto simp: on_reconnect_timer_def Let_def intro!: create_ws_client_inv)
qed (auto intro: worker_round_inv kl_socket_event_inv message_inv)

lemma kl_start_inv: "make_kis_listener kv = Inr l0 \<Longrightarrow> kl_inv (kl_start kv l0)"
  unfolding kl_start_def
  by (rule create_ws_client_inv) (auto simp: make_kis_listener_def Let_def split: if_splits)

lemma kl_reach_inv: "kl_reach kv l \<Longrightarrow> kl_inv l"
  by (induction rule: kl_reach_induct) (auto intro: kl_start_inv kl_step_inv)

subsection \<open>Threads\<close>

text \<open>Unless dialling throws, every client has its thread, so that its events are delivered.\<close>

definition kl_thread :: "kis_listener \<Rightarrow> bool" where
  "kl_thread l \<longleftrightarrow> (case kl_ws_client l of None \<Rightarrow> True | Some c \<Rightarrow> wc_thread c)"

lemma create_ws_client_thread: "\<forall>n. \<not> kv_dial_throws kv n \<Longrightarrow> kl_thread (create_ws_client kv l)"
  by (simp add: kl_thread_def create_ws_client_def new_ws_client_def init_connection_def Let_def)

lemma worker_round_client:
  assumes "kl_worker_round kv l = Inr l'"
  shows "kl_ws_client l' = kl_ws_client l \<or> kl_ws_client l' = None"
proof -
  have open_client: "on_ws_client_open kv x = Inr y \<Longrightarrow> kl_ws_client y = kl_ws_client x" for x y
    using send_all_result(3) by (fastforce simp: on_ws_client_open_def Let_def split: if_splits)
  show ?thesis using assms
    by (auto simp: kl_worker_round_def Let_def on_market_data_def kl_on_ws_status_def on_ws_client_fail_def
        split: list.splits ws_response.splits prod.splits if_splits sum.splits dest: open_client)
qed

lemma kl_step_thread:
  assumes "kl_step kv l l'" "\<forall>n. \<not> kv_dial_throws kv n" "kl_thread l"
  shows "kl_thread l'"
  using assms(1)
proof cases
  case worker
  then show ?thesis using worker_round_client [of kv l l'] assms(3) by (auto simp: kl_thread_def)
next
  case (socket c e)
  then show ?thesis using assms(3) ws_handle_thread [of e c]
    by (cases "ws_handle e c") (simp add: kl_thread_def kl_socket_event_def)
next
  case (message c msg)
  then have "kl_ws_client l' = kl_ws_client l"
    by (auto simp: on_stream_message_def Let_def split: option.splits prod.splits)
  then show ?thesis using assms(3) by (simp add: kl_thread_def)
next
  case (timer d)
  then show ?thesis using assms(3) create_ws_client_thread [OF assms(2)]
    by (auto simp: on_reconnect_timer_def Let_def kl_thread_def)
qed

lemma kl_reach_thread: "kl_reach kv l \<Longrightarrow> \<forall>n. \<not> kv_dial_throws kv n \<Longrightarrow> kl_thread l"
  by (induction rule: kl_reach_induct) (auto simp: kl_start_def intro: create_ws_client_thread kl_step_thread)

section \<open>Frames\<close>

definition kis_frame :: "string \<Rightarrow> nat \<Rightarrow> string \<Rightarrow> string" where
  "kis_frame tr_id n body = join (CHR ''|'') [''0'', tr_id, to_string (int n), body]"

lemma digits_no_bar: "CHR ''|'' \<notin> set (to_string (int n))"
proof -
  have "\<not> is_digit (CHR ''|'')" by code_simp
  then show ?thesis using nat_to_string_digits [of n] by (auto simp: to_string_def)
qed

lemma frame_segments:
  assumes "CHR ''|'' \<notin> set tr_id" "CHR ''|'' \<notin> set body"
  shows "split_msg (CHR ''|'') (kis_frame tr_id n body) = [''0'', tr_id, to_string (int n), body]"
  unfolding kis_frame_def by (rule split_msg_join) (use assms digits_no_bar in auto)

text \<open>The text of a frame as the adapter reads it; executions are encrypted.\<close>

definition frame_text :: "kl_env \<Rightarrow> kis_listener \<Rightarrow> string \<Rightarrow> string \<Rightarrow> string" where
  "frame_text kv l tr_id body =
     (if get_tr_id_type (kl_product_manager l) tr_id = ExecutionTrId
      then aes_cbc_decrypt kv (kl_ws_key l) (kl_ws_iv l) body else body)"

text \<open>
  C23. A well-formed frame is read back record by record: when the text of a frame (decrypted, for
  executions) is the fields of some records, each of which the product manager reads whole, then
  the worker's round on that frame publishes exactly the events of those records, in order, and
  changes nothing else.
\<close>

theorem kis_frames_roundtrip:
  assumes "list_all2 (\<lambda>r e. r \<noteq> [] \<and> parse_record (kl_product_manager l)
      (get_tr_id_type (kl_product_manager l) tr_id) 0 r = Some ([e], length r)) rs es" "rs \<noteq> []"
    "frame_text kv l tr_id body = join (CHR ''^'') (concat rs)" "\<forall>x \<in> set (concat rs). CHR ''^'' \<notin> set x"
    "CHR ''|'' \<notin> set tr_id" "CHR ''|'' \<notin> set body" "length rs < 2 ^ 64"
    "kl_running l" "kl_ws_response_queue l = []"
  shows "kl_worker_round kv (on_stream_message kv (kis_frame tr_id (length rs) body) l)
    = Inr (l\<lparr>kl_event_queue := kl_event_queue l @ es\<rparr>)"
proof -
  let ?pm = "kl_product_manager l" and ?ty = "get_tr_id_type (kl_product_manager l) tr_id"
  let ?r = "\<lparr>wm_tr_id_type = ?ty, wm_data_num = int (length rs), wm_market_data = concat rs\<rparr>"
  let ?msg = "kis_frame tr_id (length rs) body"
  obtain r1 rs' where rs: "rs = r1 # rs'" using assms(2) by (cases rs) auto
  with assms(1) have "concat rs \<noteq> []" by (auto simp: list_all2_Cons1)
  then have data: "split_msg (CHR ''^'') (frame_text kv l tr_id body) = concat rs"
    unfolding assms(3) by (rule split_msg_join) (rule assms(4))
  have "stoull (to_string (int (length rs))) = Some (int (length rs))"
    using assms(7) by (intro stoull_to_string) (simp_all add: nat_less_iff)
  moreover have "hd ?msg = CHR ''0''" "?msg \<noteq> []" by (simp_all add: kis_frame_def)
  ultimately have msg: "on_stream_message kv ?msg l = l\<lparr>kl_ws_response_queue := [WsMarketData ?r]\<rparr>"
    using frame_segments [OF assms(5,6), of "length rs"] data assms(9)
    by (auto simp: on_stream_message_def frame_text_def Let_def split: if_splits)
  have "market_data_loop ?pm ?ty (concat rs) (length rs) 0 = (False, es)"
    using market_data_loop_records [OF assms(1), of "length rs" "[]"] by simp
  then show ?thesis using assms(8,9) msg by (simp add: kl_worker_round_def on_market_data_def Let_def)
qed

text \<open>A listener for one index future, with a product database of one line.\<close>

definition demo_kl_env :: kl_env where
  "demo_kl_env = \<lparr>kv_config = listener_config_init\<lparr>lc_products := [''101V06'']\<rparr>,
     kv_files = (\<lambda>path. if path = ''products//derivatives/fo_idx_code_mts.csv''
        then Some (short_code_column @ CHR 0x0A # ''101V06'') else None),
     kv_hts_id = ''hts'', kv_ws_token = Some ''tok'', kv_base64 = (\<lambda>s. None), kv_ctx_new = True,
     kv_decrypt_init = (\<lambda>k i. False), kv_decrypt_update = (\<lambda>k i s. None), kv_decrypt_final = (\<lambda>k i s. None),
     kv_subscribe_success = (\<lambda>s. None), kv_dial_throws = (\<lambda>n. False), kv_send_throws = (\<lambda>n. False)\<rparr>"

definition demo_kl :: kis_listener where
  "demo_kl = (case make_kis_listener demo_kl_env of Inr l \<Rightarrow> l\<lparr>kl_running := True\<rparr>)"

definition demo_trade_record :: "string list" where
  "demo_trade_record = ''101V06'' # replicate 49 ''0.0''"

lemma demo_kl_products: "get_product_type (kl_product_manager demo_kl) ''101V06'' = IndexFutures"
  by code_simp

lemma demo_trade_ids: "get_tr_id_type (kl_product_manager demo_kl) ''H0IFCNT0'' = TradeTrId"
  by code_simp

lemma demo_trade_fields:
  "field (vector_to_struct_impl (tdr_fields index_futures_trade_response) (tdr_field_cnt index_futures_trade_response)
     demo_trade_record 0) m = ''0.0''"
  if "m \<in> {tdr_price index_futures_trade_response, tdr_cum_qty index_futures_trade_response,
     tdr_cum_buy_qty index_futures_trade_response}"
  using that by (elim insertE emptyE; hypsubst; code_simp)

lemma demo_trade_parsed:
  "parse_record (kl_product_manager demo_kl) (get_tr_id_type (kl_product_manager demo_kl) ''H0IFCNT0'') 0 demo_trade_record
     = Some ([TradeEvent ''101V06'' \<lparr>td_trade_price = Some (Fin 0), td_cum_trade_qty = Some (Fin 0),
         td_cum_buy_trade_qty = Some (Fin 0), td_server_tstamp_ms = None\<rparr>], length demo_trade_record)"
proof -
  have "digits_val ''00'' = 0" "is_digit (CHR ''0'')" by code_simp+
  then have "stod ''0.0'' = Some (Fin 0)" using stod_decimal [of "''0''" "''0''"] by (simp add: stod_range_def)
  moreover have "demo_trade_record ! 0 = ''101V06''" "length demo_trade_record = tdr_field_cnt index_futures_trade_response"
    by (simp_all add: demo_trade_record_def index_futures_trade_response_def)
  ultimately show ?thesis
    by (simp add: parse_record_def demo_trade_ids parse_trade_data_def get_short_product_def demo_kl_products
        normalize_trade_def demo_trade_fields)
qed

theorem kis_frames_roundtrip_witness:
  "kl_worker_round demo_kl_env (on_stream_message demo_kl_env
      (kis_frame ''H0IFCNT0'' 2 (join (CHR ''^'') (demo_trade_record @ demo_trade_record))) demo_kl)
    = Inr (demo_kl\<lparr>kl_event_queue := replicate 2 (TradeEvent ''101V06'' \<lparr>td_trade_price = Some (Fin 0),
         td_cum_trade_qty = Some (Fin 0), td_cum_buy_trade_qty = Some (Fin 0), td_server_tstamp_ms = None\<rparr>)\<rparr>)"
proof -
  let ?e = "TradeEvent ''101V06'' \<lparr>td_trade_price = Some (Fin 0), td_cum_trade_qty = Some (Fin 0),
         td_cum_buy_trade_qty = Some (Fin 0), td_server_tstamp_ms = None\<rparr>"
  let ?body = "join (CHR ''^'') (demo_trade_record @ demo_trade_record)"
  have q: "kl_running demo_kl" "kl_ws_response_queue demo_kl = []" "kl_event_queue demo_kl = []"
    by (simp_all add: demo_kl_def make_kis_listener_def demo_kl_env_def listener_config_init_def Let_def)
  have "demo_trade_record \<noteq> []" by (simp add: demo_trade_record_def)
  moreover have "CHR ''|'' \<notin> set ?body" "list_all (\<lambda>x. CHR ''^'' \<notin> set x) (demo_trade_record @ demo_trade_record)"
    by code_simp+
  ultimately have "kl_worker_round demo_kl_env (on_stream_message demo_kl_env
      (kis_frame ''H0IFCNT0'' (length [demo_trade_record, demo_trade_record]) ?body) demo_kl)
    = Inr (demo_kl\<lparr>kl_event_queue := kl_event_queue demo_kl @ [?e, ?e]\<rparr>)"
    by (intro kis_frames_roundtrip)
      (simp_all add: demo_trade_parsed [unfolded demo_trade_ids] frame_text_def demo_trade_ids q list_all_iff)
  then show ?thesis using q(3) by (simp add: numeral_2_eq_2)
qed

section \<open>The socket\<close>

text \<open>
  C24. The market socket is never given up and never left without its subscriptions: in every state
  the process runs through, and unless dialling throws, the socket is being dialled or open with its
  thread running, or a redial is armed within 31 seconds, or the report that it is down is still
  queued for the worker; and when the worker takes the socket for open, every subscription has been
  sent after everything sent before.
\<close>

theorem kis_socket_never_given_up:
  assumes "kl_reach kv l" "\<forall>n. \<not> kv_dial_throws kv n"
  shows "((\<exists>c. kl_ws_client l = Some c \<and> wc_thread c \<and> (wc_connecting c \<or> wc_opened c))
      \<or> (\<exists>d. kl_reconnect_timer l = Some d \<and> 0 \<le> d \<and> d \<le> 31)
      \<or> WsStatusUpdate False False \<in> set (kl_ws_response_queue l))
    \<and> (kl_ws_client l = None) = (kl_reconnect_timer l \<noteq> None)
    \<and> (\<not> kl_opened l \<or> (\<exists>pre. kl_sent l = pre @ kl_subscription_messages l))"
  using kl_reach_inv [OF assms(1)] kl_reach_thread [OF assms]
  by (cases "kl_ws_client l") (auto simp: kl_inv_def kl_thread_def)

definition demo_kl_started :: kis_listener where
  "demo_kl_started = kl_start demo_kl_env (demo_kl\<lparr>kl_running := False\<rparr>)"

lemma demo_kl_made: "make_kis_listener demo_kl_env = Inr (demo_kl\<lparr>kl_running := False\<rparr>)"
  by (simp add: demo_kl_def make_kis_listener_def demo_kl_env_def listener_config_init_def Let_def)

lemma demo_kl_reach: "kl_reach demo_kl_env demo_kl_started"
  unfolding kl_reach_def demo_kl_started_def using demo_kl_made by blast

theorem kis_socket_never_given_up_witness:
  "kl_reach demo_kl_env demo_kl_started
    \<and> (kl_ws_client demo_kl_started = None) = (kl_reconnect_timer demo_kl_started \<noteq> None)"
  using kis_socket_never_given_up [OF demo_kl_reach] demo_kl_reach by (simp add: demo_kl_env_def)

section \<open>A report too many\<close>

text \<open>
  The watchdog and the close handler can both report the same socket down.  When the second report
  is processed after the next socket has been dialled, it drops that socket, and the report that it
  opened finds no client to subscribe on.
\<close>

definition client_event :: "ws_event \<Rightarrow> kis_listener \<Rightarrow> kis_listener" where
  "client_event e l = kl_socket_event e (the (kl_ws_client l)) l"

definition next_round :: "kis_listener \<Rightarrow> kis_listener" where
  "next_round l = projr (kl_worker_round demo_kl_env l)"

lemma client_event_step: "ws_enabled e (the (kl_ws_client l)) \<Longrightarrow> kl_ws_client l \<noteq> None \<Longrightarrow> kl_step kv l (client_event e l)"
  by (auto simp: client_event_def intro: kl_step.socket)

lemma next_round_step: "isl (kl_worker_round demo_kl_env l) = False \<Longrightarrow> kl_step demo_kl_env l (next_round l)"
  by (cases "kl_worker_round demo_kl_env l") (auto simp: next_round_def intro: kl_step.worker)

definition reported_twice :: kis_listener where
  "reported_twice = client_event WsClosed (client_event WsPingTimer (client_event WsOpened demo_kl_started))"

definition twice_down :: kis_listener where
  "twice_down = next_round (next_round (next_round reported_twice))"

definition dropped_socket :: kis_listener where
  "dropped_socket = next_round (next_round (client_event WsOpened (on_reconnect_timer demo_kl_env twice_down)))"

lemma send_all_ok:
  assumes "\<forall>n. \<not> kv_send_throws kv n"
  shows "send_all kv ms l = Inr (l\<lparr>kl_sends := kl_sends l + length ms, kl_sent := kl_sent l @ ms\<rparr>)"
  by (induction ms arbitrary: l) (simp_all add: assms)

lemma demo_kl_fields:
  "kl_ws_response_queue demo_kl = []" "kl_opened demo_kl = False" "kl_reconnect_cnt demo_kl = 0"
  "kl_reconnect_pending demo_kl = False" "kl_subscription_messages demo_kl \<noteq> []"
  "kv_dial_throws demo_kl_env n = False" "kv_send_throws demo_kl_env n = False"
  by (simp_all add: demo_kl_def make_kis_listener_def demo_kl_env_def listener_config_init_def Let_def subscription_messages_def)

lemmas crash_defs = demo_kl_started_def kl_start_def create_ws_client_def new_ws_client_def init_connection_def
  ws_client_init_def queue_notes_def client_event_def kl_socket_event_def ws_ops next_round_def kl_worker_round_def
  kl_on_ws_status_def on_ws_client_open_def on_ws_client_fail_def on_reconnect_timer_def max_backoff_step_def
  demo_kl_fields send_all_ok Let_def

lemma reported_twice_fields:
  "kl_ws_response_queue reported_twice = [WsStatusUpdate True False, WsStatusUpdate False True,
     WsStatusUpdate False False, WsStatusUpdate False False]" "kl_opened reported_twice = False"
  "kl_running reported_twice" "kl_subscription_messages reported_twice \<noteq> []" "kl_reconnect_pending reported_twice = False"
  "kl_ws_client reported_twice \<noteq> None"
  by (simp_all add: reported_twice_def crash_defs)

lemma twice_down_fields:
  "kl_ws_response_queue twice_down = [WsStatusUpdate False False]" "kl_opened twice_down = False"
  "kl_reconnect_timer twice_down = Some 0" "kl_running twice_down" "kl_subscription_messages twice_down \<noteq> []"
  by (simp_all add: twice_down_def crash_defs reported_twice_fields)

definition new_socket :: kis_listener where
  "new_socket = on_reconnect_timer demo_kl_env twice_down"

lemma new_socket_fields:
  "kl_ws_response_queue new_socket = [WsStatusUpdate False False, WsStatusUpdate True False]" "kl_opened new_socket = False"
  "kl_running new_socket" "kl_subscription_messages new_socket \<noteq> []" "kl_reconnect_pending new_socket = False"
  "kl_ws_client new_socket = Some (ws_client_init\<lparr>wc_connecting := True, wc_thread := True\<rparr>)"
  by (simp_all add: new_socket_def crash_defs twice_down_fields)

lemma second_report_crashes: "\<exists>l. kl_reach demo_kl_env l \<and> kl_worker_round demo_kl_env l = Inl NullClient"
proof -
  let ?s = "kl_step demo_kl_env"
  let ?a = "client_event WsOpened demo_kl_started"
  let ?b = "client_event WsPingTimer ?a"
  have "?s demo_kl_started ?a" by (rule client_event_step) (simp_all add: crash_defs)
  moreover have "?s ?a ?b" by (rule client_event_step) (simp_all add: crash_defs)
  moreover have "?s ?b reported_twice" unfolding reported_twice_def by (rule client_event_step) (simp_all add: crash_defs)
  moreover have "?s reported_twice (next_round reported_twice)"
    by (rule next_round_step) (simp add: crash_defs reported_twice_fields)
  moreover have "?s (next_round reported_twice) (next_round (next_round reported_twice))"
    by (rule next_round_step) (simp add: crash_defs reported_twice_fields)
  moreover have "?s (next_round (next_round reported_twice)) twice_down"
    unfolding twice_down_def by (rule next_round_step) (simp add: crash_defs reported_twice_fields)
  ultimately have down: "?s\<^sup>*\<^sup>* demo_kl_started twice_down" by (meson converse_rtranclp_into_rtranclp rtranclp.rtrancl_refl)
  have timer: "?s twice_down new_socket"
    unfolding new_socket_def by (rule kl_step.timer [OF twice_down_fields(3)])
  let ?l1 = "client_event WsOpened new_socket"
  have "?s new_socket ?l1" by (rule client_event_step) (simp_all add: new_socket_fields)
  moreover have "?s ?l1 (next_round ?l1)" by (rule next_round_step) (simp add: crash_defs new_socket_fields)
  moreover have "?s (next_round ?l1) dropped_socket"
    unfolding dropped_socket_def new_socket_def [symmetric]
    by (rule next_round_step) (simp add: crash_defs new_socket_fields)
  ultimately have drop: "?s\<^sup>*\<^sup>* new_socket dropped_socket" by (meson converse_rtranclp_into_rtranclp rtranclp.rtrancl_refl)
  have "kl_reach demo_kl_env dropped_socket"
    using demo_kl_made rtranclp_trans [OF rtranclp.rtrancl_into_rtrancl [OF down timer] drop]
    unfolding kl_reach_def demo_kl_started_def by blast
  moreover have "kl_worker_round demo_kl_env dropped_socket = Inl NullClient"
    unfolding dropped_socket_def new_socket_def [symmetric] by (simp add: crash_defs new_socket_fields)
  ultimately show ?thesis by blast
qed

text \<open>A frame whose record is cut short ends the process as well.\<close>

lemma short_frame_crashes:
  assumes "trade_response_of (get_product_type (kl_product_manager l) p) = Some td" "kl_running l"
    "wm_tr_id_type r = TradeTrId" "wm_market_data r = [p]" "0 < wm_data_num r"
    "kl_ws_response_queue l = WsMarketData r # rest"
  shows "kl_worker_round kv l = Inl BadNumber"
proof -
  have "length [p] < 0 + tdr_field_cnt td"
    using assms(1) by (cases "get_product_type (kl_product_manager l) p") (auto simp: index_futures_trade_response_def
        index_option_trade_response_def stock_futures_trade_response_def stock_option_trade_response_def
        commodity_futures_trade_response_def night_futures_trade_response_def night_option_trade_response_def)
  then have "parse_trade_data (kl_product_manager l) p 0 [p] = None"
    using assms(1) by (intro short_trade_throws) (simp_all add: get_short_product_def)
  moreover obtain k where "nat (wm_data_num r) = Suc k" using assms(5) by (metis not0_implies_Suc zero_less_nat_eq less_numeral_extra(3))
  ultimately show ?thesis using assms
    by (simp add: kl_worker_round_def on_market_data_def parse_record_def Let_def)
qed

end
