(* ===== verification/Trader_Main.thy ===== *)
theory Trader_Main
  imports Shutdown_Properties Stop_Signal Feed_Clients Market_Listener
begin

text \<open>
  The trader's session (\<open>main\<close> of \<open>trader_main.cpp\<close>, from the loop on): turns of \<open>run()\<close> until a
  signal has requested the shutdown or the market has closed, then the shutdown sequence, however
  the loop ended.  The signals that arrive before a turn, the task its wait dequeues and the
  wall clock are the inputs of the turn.  The first half of \<open>main\<close> is in \<open>Launch\<close>.
\<close>

record session =
  sn_signals :: "nat \<Rightarrow> (stop_signal \<times> int) list"
  sn_now_sec :: "nat \<Rightarrow> int"
  sn_arrivals :: "nat \<Rightarrow> trader_task option"
  sn_timezone_minute_offset :: int
  sn_market_end_intraday_minute :: int

datatype session_end =
    Killed stop_signal
  | ShutdownFailed handler_error
  | ShutdownFinished order_handler

text \<open>The condition of the loop, after the signals of the turn.\<close>

definition keep_trading :: "session \<Rightarrow> nat \<Rightarrow> stop_state \<Rightarrow> bool" where
  "keep_trading sn n st \<longleftrightarrow> \<not> shutdown_requested st
     \<and> (sn_market_end_intraday_minute sn < 0
        \<or> get_curr_intraday_minute (sn_now_sec sn n) (sn_timezone_minute_offset sn) < sn_market_end_intraday_minute sn)"

text \<open>\<open>run()\<close> in its \<open>try\<close> block: a task that throws does so before it changes anything.\<close>

definition guarded_run :: "handler_env \<Rightarrow> trader_task option \<Rightarrow> order_handler \<Rightarrow> order_handler" where
  "guarded_run ev dequeued s = (case run_once ev dequeued s of Inl e \<Rightarrow> s | Inr s' \<Rightarrow> s')"

partial_function (option) trading_loop ::
  "handler_env \<Rightarrow> session \<Rightarrow> nat \<Rightarrow> stop_state \<Rightarrow> order_handler \<Rightarrow> (stop_signal + order_handler \<times> nat) option" where
  "trading_loop ev sn n st s =
     (let st' = signals (sn_signals sn n) st
      in case ss_raised st' of
           Some sig \<Rightarrow> Some (Inl sig)
         | None \<Rightarrow>
             if keep_trading sn n st' then trading_loop ev sn (Suc n) st' (guarded_run ev (sn_arrivals sn n) s)
             else Some (Inr (s, n)))"

definition trader_main :: "handler_env \<Rightarrow> session \<Rightarrow> nat \<Rightarrow> order_handler \<Rightarrow> session_end option" where
  "trader_main ev sn fuel s =
     (case trading_loop ev sn 0 stop_state_init s of
        None \<Rightarrow> None
      | Some (Inl sig) \<Rightarrow> Some (Killed sig)
      | Some (Inr (s1, n)) \<Rightarrow>
          (case shutdown ev (sn_arrivals sn) fuel (s1, n) of
             None \<Rightarrow> None
           | Some (Inl e) \<Rightarrow> Some (ShutdownFailed e)
           | Some (Inr (s2, n2)) \<Rightarrow> Some (ShutdownFinished s2)))"

section \<open>The loop\<close>

lemma guarded_run_tasks: "\<exists>ts. run_tasks ev ts s = Inr (guarded_run ev dequeued s)"
proof (cases dequeued)
  case None
  then show ?thesis by (intro exI [of _ "[]"]) (simp add: guarded_run_def run_once_def)
next
  case (Some t)
  show ?thesis
  proof (cases "handle_task ev t s")
    case (Inl e)
    with Some show ?thesis by (intro exI [of _ "[]"]) (simp add: guarded_run_def run_once_def)
  next
    case (Inr s')
    with Some show ?thesis by (intro exI [of _ "[t]"]) (simp add: guarded_run_def run_once_def)
  qed
qed

lemma run_tasks_append:
  "run_tasks ev (ts @ us) s = (case run_tasks ev ts s of Inl e \<Rightarrow> Inl e | Inr s' \<Rightarrow> run_tasks ev us s')"
  by (induction ts arbitrary: s) (auto split: sum.splits)

text \<open>Signals that come in time: every one less than five seconds after the first.\<close>

definition in_grace :: "session \<Rightarrow> int \<Rightarrow> bool" where
  "in_grace sn t0 \<longleftrightarrow> (\<forall>n. list_all (\<lambda>(sig, now). t0 \<le> now \<and> now < t0 + SHUTDOWN_GRACE_SEC) (sn_signals sn n))"

lemma signals_in_grace:
  assumes "list_all (\<lambda>(sig, now). t0 \<le> now \<and> now < t0 + SHUTDOWN_GRACE_SEC) xs" "ss_raised st = None"
    "ss_requested st \<longrightarrow> t0 \<le> ss_first_sec st"
  shows "ss_raised (signals xs st) = None
    \<and> (ss_requested (signals xs st) \<longrightarrow> t0 \<le> ss_first_sec (signals xs st))
    \<and> (xs \<noteq> [] \<or> ss_requested st \<longrightarrow> ss_requested (signals xs st))"
  using assms
proof (induction xs st rule: signals.induct)
  case (2 sig now rest s)
  then show ?case by (cases "ss_requested s") (simp_all add: stop_defs)
qed simp

text \<open>The loop ends at the latest at a turn before which a signal came.\<close>

lemma trading_loop_ends:
  assumes "in_grace sn t0" "sn_signals sn (n + k) \<noteq> []" "ss_raised st = None" "ss_requested st \<longrightarrow> t0 \<le> ss_first_sec st"
  shows "\<exists>s1 n1 ts. trading_loop ev sn n st s = Some (Inr (s1, n1)) \<and> run_tasks ev ts s = Inr s1"
  using assms(2-4)
proof (induction k arbitrary: n st s)
  case 0
  let ?st = "signals (sn_signals sn n) st"
  have "ss_raised ?st = None" "ss_requested ?st"
    using signals_in_grace [of t0 "sn_signals sn n" st] assms(1) 0 by (auto simp: in_grace_def)
  then have "trading_loop ev sn n st s = Some (Inr (s, n))"
    by (subst trading_loop.simps) (simp add: keep_trading_def shutdown_requested_def)
  then show ?case by (intro exI [of _ s] exI [of _ n] exI [of _ "[]"]) simp
next
  case (Suc k)
  let ?st = "signals (sn_signals sn n) st" and ?s = "guarded_run ev (sn_arrivals sn n) s"
  have st: "ss_raised ?st = None" "ss_requested ?st \<longrightarrow> t0 \<le> ss_first_sec ?st"
    using signals_in_grace [of t0 "sn_signals sn n" st] assms(1) Suc.prems by (auto simp: in_grace_def)
  show ?case
  proof (cases "keep_trading sn n ?st")
    case True
    then have step: "trading_loop ev sn n st s = trading_loop ev sn (Suc n) ?st ?s"
      using st by (subst trading_loop.simps) simp
    from Suc.IH [of "Suc n" ?st ?s] Suc.prems(1) st obtain s1 n1 ts where
      "trading_loop ev sn (Suc n) ?st ?s = Some (Inr (s1, n1))" "run_tasks ev ts ?s = Inr s1" by auto
    moreover obtain us where "run_tasks ev us s = Inr ?s" using guarded_run_tasks by blast
    ultimately show ?thesis using step
      by (intro exI [of _ s1] exI [of _ n1] exI [of _ "us @ ts"]) (simp add: run_tasks_append)
  next
    case False
    then have "trading_loop ev sn n st s = Some (Inr (s, n))" using st by (subst trading_loop.simps) simp
    then show ?thesis by (intro exI [of _ s] exI [of _ n] exI [of _ "[]"]) simp
  qed
qed

section \<open>Tasks that cannot fail\<close>

text \<open>What the trader's producers enqueue: the two feed clients, the gateway's sink and the decision timer.\<close>

definition produced :: "feed_env \<Rightarrow> trader_task \<Rightarrow> bool" where
  "produced fe t \<longleftrightarrow> (\<exists>h m. market_feed_hook fe h = Some m \<and> t = trader_task_of m)
     \<or> (\<exists>h. fair_price_hook fe h = Some t) \<or> (\<exists>r. t = OrderResponseTask r) \<or> (\<exists>p. t = OrderUpdateTask p)"

lemma produced_handled:
  assumes "produced fe t"
  shows "\<exists>s'. handle_task ev t s = Inr s'"
proof -
  have "\<exists>s'. handle_task ev (trader_task_of m) s = Inr s'" if "market_feed_hook fe h = Some m" for h m
    using that by (cases h) (auto simp: market_on_data_line_def emit_feed_def handle_task_def process_market_data_def
        split: if_splits option.splits)
  moreover have "\<exists>s'. handle_task ev t s = Inr s'" if "fair_price_hook fe h = Some t" for h
    using that by (cases h) (auto simp: fair_price_on_data_line_def handle_task_def split: if_splits option.splits)
  ultimately show ?thesis using assms by (auto simp: produced_def handle_task_def)
qed

definition no_throw :: "pump_result \<Rightarrow> bool" where
  "no_throw r \<longleftrightarrow> (\<forall>e. r \<noteq> Some (Inl e))"

definition all_handled :: "handler_env \<Rightarrow> (nat \<Rightarrow> trader_task option) \<Rightarrow> bool" where
  "all_handled ev arr \<longleftrightarrow> (\<forall>n t s. arr n = Some t \<longrightarrow> (\<exists>s'. handle_task ev t s = Inr s'))"

lemma no_throw_pump: "all_handled ev arr \<Longrightarrow> no_throw (pump_until ev arr c d f x)"
proof (induction ev arr c d f x rule: pump_until.induct)
  case (2 ev arr c d f s n)
  then show ?case
    by (auto simp: no_throw_def all_handled_def split: option.splits prod.splits sum.splits)
      (metis Inl_Inr_False)+
qed (simp add: no_throw_def)

lemma no_throw_cancel_all: "all_handled ev arr \<Longrightarrow> no_throw (cancel_all_orders ev arr d f x)"
proof (induction ev arr d f x rule: cancel_all_orders.induct)
  case (2 ev arr d f s n)
  show ?case
    using 2 no_throw_pump [OF 2(2)]
    by (auto simp: no_throw_def Let_def split: option.splits prod.splits sum.splits)
qed (simp add: no_throw_def)

lemma no_throw_passive: "all_handled ev arr \<Longrightarrow> no_throw (passive_flatten ev arr d f x)"
proof (induction ev arr d f x rule: passive_flatten.induct)
  case (2 ev arr d f s n)
  show ?case
    using 2 no_throw_pump [OF 2(2)]
    by (auto simp: no_throw_def Let_def split: option.splits prod.splits sum.splits)
qed (simp add: no_throw_def)

lemma no_throw_then_do: "no_throw r \<Longrightarrow> (\<And>x. no_throw (k x)) \<Longrightarrow> no_throw (then_do r k)"
  by (auto simp: no_throw_def then_do_def split: option.splits sum.splits)

lemma no_throw_simps [simp]: "no_throw (Some (Inr x))" "no_throw None"
  by (simp_all add: no_throw_def)

lemma no_throw_shutdown:
  assumes "all_handled ev arr"
  shows "no_throw (shutdown ev arr f x)"
proof -
  have m: "no_throw (market_flatten ev arr f y)" for y
    by (simp add: market_flatten_def case_prod_unfold Let_def no_throw_then_do no_throw_cancel_all no_throw_pump assms)
  have "no_throw (flatten_positions ev arr d f y)" for d y
    by (simp add: flatten_positions_def case_prod_unfold no_throw_then_do no_throw_passive m assms)
  then show ?thesis
    by (simp add: shutdown_def case_prod_unfold Let_def no_throw_then_do no_throw_cancel_all assms)
qed

section \<open>The session\<close>

lemma run_tasks_flags: "run_tasks ev ts s = Inr s' \<Longrightarrow> stop_flags s' = stop_flags s"
  by (induction ts arbitrary: s) (auto dest: flags_handle_task split: sum.splits)

text \<open>
  C9. However long the trader runs, a signal ends the session in an orderly way: once one has come,
  and as long as repeats come within the grace period, \<open>main\<close> returns with the shutdown sequence
  finished, whatever the trader's producers enqueue meanwhile; then no order is outstanding, or the
  clock was seen to pass a full cancel timeout.
\<close>

theorem signal_ends_session_cleanly:
  assumes "make_order_handler mc strategy tc custom clk = Inr (ev, s0)" "time_passes ev"
    "\<forall>n t. sn_arrivals sn n = Some t \<longrightarrow> produced fe t" "in_grace sn t0" "sn_signals sn N \<noteq> []"
  shows "\<exists>k s'. (\<forall>f \<ge> k. trader_main ev sn f s0 = Some (ShutdownFinished s')) \<and> oh_shutdown_done s'
    \<and> (no_orders_outstanding s' \<or> (\<exists>j k. j < k \<and> k < oh_clock_reads s'
        \<and> ev_clk ev j + ev_shutdown_cancel_timeout_ns ev \<le> ev_clk ev k))"
proof -
  have init: "ss_raised stop_state_init = None" "\<not> ss_requested stop_state_init" by (simp_all add: stop_state_init_def)
  from trading_loop_ends [OF assms(4), of 0 N stop_state_init ev s0] assms(5) init obtain s1 n1 ts where
    loop: "trading_loop ev sn 0 stop_state_init s0 = Some (Inr (s1, n1))" "run_tasks ev ts s0 = Inr s1" by auto
  have "\<not> oh_shutdown_done s0"
    using make_order_handler_ok [OF assms(1)] by (simp add: order_handler_init_def)
  then have fresh: "\<not> oh_shutdown_done s1" using run_tasks_flags [OF loop(2)] by (simp add: stop_flags_def)
  obtain k r where r: "\<forall>f \<ge> k. shutdown ev (sn_arrivals sn) f (s1, n1) = Some r"
    using settles_shutdown [OF assms(2), of "sn_arrivals sn" "(s1, n1)"] unfolding settles_def by blast
  have "all_handled ev (sn_arrivals sn)"
    using assms(3) produced_handled unfolding all_handled_def by blast
  from no_throw_shutdown [OF this, of k "(s1, n1)"] r obtain s2 n2 where s2: "r = Inr (s2, n2)"
    by (cases r) (auto simp: no_throw_def)
  have ran: "shutdown ev (sn_arrivals sn) k (s1, n1) = Some (Inr (s2, n2))" using r s2 by blast
  have "oh_shutdown_done s2"
    using flags_shuts [OF shuts_shutdown(1) [OF ran fresh]] by (simp add: stop_flags_def)
  moreover have "\<forall>f \<ge> k. trader_main ev sn f s0 = Some (ShutdownFinished s2)"
    using loop(1) r s2 by (simp add: trader_main_def)
  moreover note shutdown_outcome [OF ran fresh]
  ultimately show ?thesis by (intro exI [of _ k] exI [of _ s2]) auto
qed

text \<open>A session that decides twice and is then stopped by a double keystroke.\<close>

definition demo_trader_session :: session where
  "demo_trader_session = \<lparr>sn_signals = (\<lambda>n. if n = 2 then [(SIGINT, 100), (SIGINT, 101)] else []), sn_now_sec = (\<lambda>n. 100),
     sn_arrivals = (\<lambda>n. Some (OrderUpdateTask ''A'')), sn_timezone_minute_offset = 0,
     sn_market_end_intraday_minute = - 1\<rparr>"

theorem signal_ends_session_cleanly_witness:
  "\<exists>f s'. trader_main stop_env demo_trader_session f (order_handler_init [''A'']) = Some (ShutdownFinished s') \<and> oh_shutdown_done s'"
proof -
  have "make_order_handler demo_market demo_decide demo_config False (\<lambda>n. 10000000000 * (int n + 1))
      = Inr (stop_env, order_handler_init [''A''])"
    using demo_handler by (simp add: make_order_handler_def stop_env_def demo_env_def env_of_def split: if_splits sum.splits)
  moreover have "in_grace demo_trader_session 100" "sn_signals demo_trader_session 2 \<noteq> []"
    by (simp_all add: in_grace_def demo_trader_session_def SHUTDOWN_GRACE_SEC_def)
  moreover have "\<forall>n t. sn_arrivals demo_trader_session n = Some t \<longrightarrow> produced demo_feed_env t"
    by (simp add: demo_trader_session_def produced_def)
  ultimately have "\<exists>k s'. (\<forall>f \<ge> k. trader_main stop_env demo_trader_session f (order_handler_init [''A'']) = Some (ShutdownFinished s'))
      \<and> oh_shutdown_done s' \<and> (no_orders_outstanding s' \<or> (\<exists>j k. j < k \<and> k < oh_clock_reads s'
        \<and> ev_clk stop_env j + ev_shutdown_cancel_timeout_ns stop_env \<le> ev_clk stop_env k))"
    using time_passes_stop_env by (intro signal_ends_session_cleanly)
  then show ?thesis by blast
qed

end
