(* ===== verification/Json_Config.thy ===== *)
theory Json_Config
  imports Msg_Types
begin

text \<open>
  Launch configurations (\<open>config_handlers/json_config.cpp\<close>): how a process decides between its two
  launch forms, the checked sections of a launch file, and the paths derived from the instance's
  name.  The JSON library is a parameter (\<open>cfg_api\<close>): \<open>find\<close>, the type tests, the keys of an
  object in iteration order and the conversions \<open>get_to\<close>, where \<open>None\<close> stands for an exception.

  \<open>std::filesystem::path\<close> is the text of the path in POSIX form: \<open>parent_path\<close> cuts the last
  component and the separators before it, \<open>/\<close> puts one separator where the left path ends in a
  file name and is the right path where that is absolute.
\<close>

named_theorems section_simps \<open>what a section keeps when a field is read\<close>

section \<open>Errors and the JSON interface\<close>

datatype int_type = U16 | I32 | I64 | SizeT

datatype cfg_error =
    MixedFlag string
  | FileNotFound string
  | ParseFailed string
  | MissingSection string
  | NotAnObject string
  | BadField string string
  | UnknownFields string "string list"
  | ExchangeMismatch string string
  | WrongUsage
  | FactorFileNeeded

record 'j cfg_api =
  ca_parse :: "string \<Rightarrow> 'j option"
  ca_find :: "string \<Rightarrow> 'j \<Rightarrow> 'j option"
  ca_is_object :: "'j \<Rightarrow> bool"
  ca_is_null :: "'j \<Rightarrow> bool"
  ca_keys :: "'j \<Rightarrow> string list"
  ca_string :: "'j \<Rightarrow> string option"
  ca_bool :: "'j \<Rightarrow> bool option"
  ca_int :: "int_type \<Rightarrow> 'j \<Rightarrow> int option"
  ca_double :: "'j \<Rightarrow> dbl option"
  ca_strings :: "'j \<Rightarrow> string list option"

section \<open>The launch form\<close>

text \<open>The arguments are \<open>argv[1..]\<close>; the first character of an empty one is the terminating zero.\<close>

definition is_flag :: "string \<Rightarrow> bool" where
  "is_flag arg \<longleftrightarrow> (case arg of [] \<Rightarrow> False | c # _ \<Rightarrow> c = CHR ''-'')"

definition is_json_launch :: "string list \<Rightarrow> bool" where
  "is_json_launch args \<longleftrightarrow> (case args of [] \<Rightarrow> False | arg # _ \<Rightarrow> \<not> is_flag arg)"

fun json_launch_paths :: "string list \<Rightarrow> cfg_error + string list" where
  "json_launch_paths [] = Inr []"
| "json_launch_paths (arg # args) =
     (if is_flag arg then Inl (MixedFlag arg)
      else case json_launch_paths args of Inl e \<Rightarrow> Inl e | Inr paths \<Rightarrow> Inr (arg # paths))"

definition load_json_file :: "'j cfg_api \<Rightarrow> (string \<Rightarrow> string option) \<Rightarrow> string \<Rightarrow> cfg_error + 'j" where
  "load_json_file cj files file_path =
     (case files file_path of
        None \<Rightarrow> Inl (FileNotFound file_path)
      | Some content \<Rightarrow> (case ca_parse cj content of None \<Rightarrow> Inl (ParseFailed file_path) | Some j \<Rightarrow> Inr j))"

section \<open>Paths\<close>

abbreviation slash :: char where
  "slash \<equiv> CHR ''/''"

definition path_filename :: "string \<Rightarrow> string" where
  "path_filename p = rev (takeWhile (\<lambda>c. c \<noteq> slash) (rev p))"

definition strip_slashes :: "string \<Rightarrow> string" where
  "strip_slashes p = rev (dropWhile (\<lambda>c. c = slash) (rev p))"

definition path_dir :: "string \<Rightarrow> string" where
  "path_dir p = rev (dropWhile (\<lambda>c. c \<noteq> slash) (rev p))"

definition is_absolute :: "string \<Rightarrow> bool" where
  "is_absolute p \<longleftrightarrow> p \<noteq> [] \<and> hd p = slash"

definition parent_path :: "string \<Rightarrow> string" where
  "parent_path p =
     (if strip_slashes p = [] then p
      else let d = strip_slashes (path_dir p) in if d = [] \<and> is_absolute p then ''/'' else d)"

definition path_append :: "string \<Rightarrow> string \<Rightarrow> string" where
  "path_append p q =
     (if is_absolute q then q else if path_filename p \<noteq> [] then p @ ''/'' @ q else p @ q)"

definition named_log_path :: "string \<Rightarrow> string \<Rightarrow> string" where
  "named_log_path log_path name =
     (if name = [] then log_path
      else path_append (path_append (parent_path log_path) name) (path_filename log_path))"

definition named_save_path :: "string \<Rightarrow> string \<Rightarrow> string" where
  "named_save_path save_path name = (if name = [] then save_path else path_append save_path name)"

section \<open>Sections\<close>

record 'j json_section =
  sec_obj :: 'j
  sec_name :: string
  sec_known :: "string list"

definition make_section :: "'j cfg_api \<Rightarrow> 'j \<Rightarrow> string \<Rightarrow> cfg_error + 'j json_section" where
  "make_section cj doc name =
     (case ca_find cj name doc of
        None \<Rightarrow> Inl (MissingSection name)
      | Some obj \<Rightarrow>
          if \<not> ca_is_object cj obj then Inl (NotAnObject name)
          else Inr \<lparr>sec_obj = obj, sec_name = name, sec_known = []\<rparr>)"

definition section_has :: "'j cfg_api \<Rightarrow> string \<Rightarrow> 'j json_section \<Rightarrow> bool" where
  "section_has cj key s \<longleftrightarrow>
     (case ca_find cj key (sec_obj s) of None \<Rightarrow> False | Some v \<Rightarrow> \<not> ca_is_null cj v)"

definition section_skip :: "string \<Rightarrow> 'j json_section \<Rightarrow> 'j json_section" where
  "section_skip key s = s\<lparr>sec_known := os_insert key (sec_known s)\<rparr>"

text \<open>
  \<open>get(key, out)\<close> followed by the statements after it, which see the new value of \<open>out\<close> and of the
  section; \<open>conv\<close> is the conversion of \<open>get_to\<close> at the type of \<open>out\<close>.
\<close>

definition section_get ::
  "'j cfg_api \<Rightarrow> ('j \<Rightarrow> 'a option) \<Rightarrow> string \<Rightarrow> 'a \<Rightarrow> 'j json_section
    \<Rightarrow> ('a \<Rightarrow> 'j json_section \<Rightarrow> cfg_error + 'b) \<Rightarrow> cfg_error + 'b" where
  "section_get cj conv key out s rest =
     (case ca_find cj key (sec_obj s) of
        None \<Rightarrow> rest out (section_skip key s)
      | Some v \<Rightarrow>
          if ca_is_null cj v then rest out (section_skip key s)
          else (case conv v of
                  None \<Rightarrow> Inl (BadField (sec_name s) key)
                | Some x \<Rightarrow> rest x (section_skip key s)))"

definition section_done :: "'j cfg_api \<Rightarrow> 'j json_section \<Rightarrow> 'b \<Rightarrow> cfg_error + 'b" where
  "section_done cj s result =
     (case filter (\<lambda>key. key \<notin> set (sec_known s)) (ca_keys cj (sec_obj s)) of
        [] \<Rightarrow> Inr result
      | unknown \<Rightarrow> Inl (UnknownFields (sec_name s) unknown))"

section \<open>What a section reports\<close>

lemma section_skip_sel [simp, section_simps]:
  "sec_obj (section_skip key s) = sec_obj s"
  "sec_name (section_skip key s) = sec_name s"
  "set (sec_known (section_skip key s)) = insert key (set (sec_known s))"
  "section_has cj k (section_skip key s) = section_has cj k s"
  by (simp_all add: section_skip_def section_has_def)

lemma section_get_Inr:
  "section_get cj conv key out s rest = Inr r \<Longrightarrow> \<exists>x. rest x (section_skip key s) = Inr r"
  by (auto simp: section_get_def split: option.splits if_splits)

lemma section_done_Inr:
  "section_done cj s x = Inr r \<longleftrightarrow> x = r \<and> set (ca_keys cj (sec_obj s)) \<subseteq> set (sec_known s)"
proof (cases "filter (\<lambda>key. key \<notin> set (sec_known s)) (ca_keys cj (sec_obj s))")
  case Nil
  then show ?thesis by (auto simp: section_done_def filter_empty_conv)
next
  case (Cons k ks)
  have "k \<in> set (filter (\<lambda>key. key \<notin> set (sec_known s)) (ca_keys cj (sec_obj s)))"
    unfolding Cons by simp
  then have "k \<in> set (ca_keys cj (sec_obj s))" "k \<notin> set (sec_known s)" by simp_all
  then show ?thesis using Cons by (auto simp: section_done_def)
qed

lemma make_section_Inr:
  "make_section cj doc name = Inr s
    \<longleftrightarrow> (\<exists>obj. ca_find cj name doc = Some obj \<and> ca_is_object cj obj \<and> s = \<lparr>sec_obj = obj, sec_name = name, sec_known = []\<rparr>)"
  by (auto simp: make_section_def split: option.splits)

text \<open>
  \<open>says\<close>: the section states the value \<open>x\<close> for a field, or says nothing about it and \<open>x\<close> is the
  default.
\<close>

definition says :: "'j cfg_api \<Rightarrow> ('j \<Rightarrow> 'a option) \<Rightarrow> 'j \<Rightarrow> string \<Rightarrow> 'a \<Rightarrow> 'a \<Rightarrow> bool" where
  "says cj conv obj key dflt x \<longleftrightarrow>
     (case ca_find cj key obj of
        None \<Rightarrow> x = dflt
      | Some v \<Rightarrow> if ca_is_null cj v then x = dflt else conv v = Some x)"

lemma section_get_says:
  "says cj conv (sec_obj s) key dflt x
    \<Longrightarrow> section_get cj conv key dflt s rest = rest x (section_skip key s)"
  by (auto simp: says_def section_get_def split: option.splits if_splits)

section \<open>Named paths\<close>

lemma json_launch_paths_Inr:
  "json_launch_paths args = Inr paths \<longleftrightarrow> paths = args \<and> (\<forall>arg \<in> set args. \<not> is_flag arg)"
  by (induction args arbitrary: paths) (auto split: sum.splits)

lemma filename_no_slash: "slash \<notin> set (path_filename p)"
  by (auto simp: path_filename_def dest: set_takeWhileD)

lemma path_filename_plain: "slash \<notin> set q \<Longrightarrow> path_filename (p @ slash # q) = q"
  by (simp add: path_filename_def takeWhile_append)

lemma takeWhile_plain: "slash \<notin> set q \<Longrightarrow> takeWhile (\<lambda>c. c \<noteq> slash) q = q"
  by (induction q) auto

lemma path_filename_plain_all: "slash \<notin> set q \<Longrightarrow> path_filename q = q"
  by (simp add: path_filename_def takeWhile_plain)

lemma not_absolute: "slash \<notin> set q \<Longrightarrow> \<not> is_absolute q"
  by (cases q) (auto simp: is_absolute_def)

text \<open>The directory part of a path before an appended name: a text that depends on the path only.\<close>

definition name_prefix :: "string \<Rightarrow> string" where
  "name_prefix p = (if path_filename p \<noteq> [] then p @ ''/'' else p)"

lemma append_name: "slash \<notin> set q \<Longrightarrow> path_append p q = name_prefix p @ q"
  by (simp add: path_append_def name_prefix_def not_absolute)

lemma named_save_path_eq: "name \<noteq> [] \<Longrightarrow> slash \<notin> set name \<Longrightarrow> named_save_path p name = name_prefix p @ name"
  by (simp add: named_save_path_def append_name)

lemma filename_name_prefix: "path_filename (name_prefix p) = []"
  by (auto simp: name_prefix_def path_filename_def)

lemma filename_append_plain:
  assumes "slash \<notin> set q" "path_filename p = []"
  shows "path_filename (p @ q) = q"
proof (cases p rule: rev_cases)
  case Nil
  with assms(1) show ?thesis by (simp add: path_filename_plain_all)
next
  case (snoc p' c)
  then have "c = slash" using assms(2) by (auto simp: path_filename_def split: if_splits)
  with snoc assms(1) show ?thesis by (simp add: path_filename_plain)
qed

lemma named_log_path_eq:
  assumes "name \<noteq> []" "slash \<notin> set name"
  shows "named_log_path p name = name_prefix (parent_path p) @ name @ slash # path_filename p"
proof -
  have "path_append (parent_path p) name = name_prefix (parent_path p) @ name"
    by (rule append_name [OF assms(2)])
  moreover have "path_filename (name_prefix (parent_path p) @ name) = name"
    by (rule filename_append_plain [OF assms(2) filename_name_prefix])
  ultimately show ?thesis
    using assms(1) by (simp add: named_log_path_def append_name filename_no_slash name_prefix_def)
qed

lemma named_paths_apart:
  assumes "name \<noteq> name'" "slash \<notin> set name" "slash \<notin> set name'" "name \<noteq> []" "name' \<noteq> []"
  shows "named_log_path p name \<noteq> named_log_path p name'" "named_save_path p name \<noteq> named_save_path p name'"
  using assms by (simp_all add: named_log_path_eq named_save_path_eq)

end
