(* ===== verification/Launch_Config.thy ===== *)
theory Launch_Config
  imports Json_Config Order_Handler Pricer Listener_Types
begin

text \<open>
  The configuration of the three processes, from either launch form: the \<open>set_parser\<close>, \<open>init\<close>
  and \<open>parse_json\<close> members of \<open>TraderConfig\<close> (\<open>trader/trader_dtypes.hpp\<close>), \<open>MarketConfig\<close>
  (\<open>trader/strategy/base_strategy.hpp\<close>), \<open>GeuantParams\<close> (\<open>geuant_strategy.hpp\<close>),
  \<open>ListenerConfig\<close> (\<open>market_listener_dtypes.hpp\<close>), \<open>PricerConfig\<close> (\<open>pricer_dtypes.hpp\<close>),
  \<open>FactorConfig\<close> and \<open>MicropriceParams\<close> (\<open>pricer/factor\<close>), the factories that choose a strategy or
  a factor by name, and the first half of each \<open>main\<close>.

  The argument parser is a parameter: what \<open>program.get\<close> returns after a successful \<open>parse_args\<close>
  is the record \<open>args\<close>, a declaration (\<open>arg_decl\<close>) is one \<open>add_argument\<close> with its default, and an
  argument parser maps declarations and the command line to \<open>args\<close> or throws (\<open>None\<close>).
\<close>

section \<open>Command-line arguments\<close>

record args =
  ar_string :: "string \<Rightarrow> string"
  ar_int :: "string \<Rightarrow> int"
  ar_bool :: "string \<Rightarrow> bool"
  ar_double :: "string \<Rightarrow> dbl"
  ar_strings :: "string \<Rightarrow> string list"

datatype arg_decl =
    StringArg string string
  | ChoiceArg string string "string list"
  | IntArg string int
  | DoubleArg string dbl
  | FlagArg string
  | ListArg string "string list"

text \<open>\<open>static_cast<unsigned short>\<close> of an \<open>int\<close>.\<close>

definition u16 :: "int \<Rightarrow> int" where
  "u16 i = i mod 65536"

section \<open>The trader's configuration\<close>

definition trader_config_init :: trader_config where
  "trader_config_init = \<lparr>tc_name = [], tc_exchange = ''binance'', tc_strategy_name = ''Geuant'', tc_region = [],
     tc_market_type = ''derivatives'', tc_trade_products = [''BTCUSDT''], tc_subscribe_same_products = True,
     tc_subscribe_products = [\<lparr>ps_product = ''BTCUSDT'', ps_category = futures\<rparr>],
     tc_broadcast_host_address = ''0.0.0.0'', tc_broadcast_port = 8888,
     tc_pricer_host_address = ''0.0.0.0'', tc_pricer_port = 8889, tc_fair_price_max_age_ms = 1000,
     tc_domain_type = ''real'', tc_order_update_interval_ms = 1000, tc_flatten_on_shutdown = True,
     tc_shutdown_cancel_timeout_ms = 5000, tc_shutdown_flatten_timeout_ms = 5000,
     tc_shutdown_market_flatten = True, tc_shutdown_reduce_only = True,
     tc_order_record_save_path = ''logs/order_record'', tc_order_decision_save_path = ''logs/order_decision'',
     tc_timezone_minute_offset = 0, tc_market_end_intraday_minute = - 1, tc_log_base_path = ''./log'',
     tc_log_path = ''logs/trader/trader.log''\<rparr>"

definition trader_set_header_parser :: "arg_decl list" where
  "trader_set_header_parser = [StringArg ''--exchange'' ''binance'', StringArg ''--strategy_name'' ''Geuant'']"

definition trader_set_parser :: "arg_decl list" where
  "trader_set_parser = trader_set_header_parser @
     [StringArg ''--region'' [], StringArg ''--market_type'' ''derivatives'',
      ListArg ''--trade_products'' [''BTCUSDT:futures''], ListArg ''--subscribe_products'' [],
      StringArg ''--broadcast_host_address'' ''0.0.0.0'', IntArg ''--broadcast_port'' 8888,
      StringArg ''--pricer_host_address'' ''0.0.0.0'', IntArg ''--pricer_port'' 8889,
      IntArg ''--fair_price_max_age_ms'' 1000, StringArg ''--domain_type'' ''real'',
      IntArg ''--order_update_interval_ms'' 1000, FlagArg ''--no_flatten_on_shutdown'',
      IntArg ''--shutdown_cancel_timeout_ms'' 5000, IntArg ''--shutdown_flatten_timeout_ms'' 5000,
      FlagArg ''--no_shutdown_market_flatten'', FlagArg ''--no_shutdown_reduce_only'',
      StringArg ''--name'' [], StringArg ''--order_record_save_path'' ''logs/order_record'',
      StringArg ''--order_decision_save_path'' ''logs/order_decision'',
      IntArg ''--timezone_minute_offset'' 0, IntArg ''--market_end_intraday_minute'' (- 1),
      StringArg ''--log_base_path'' ''./log'', StringArg ''--log_path'' ''logs/trader/trader.log'']"

definition trader_init :: "args \<Rightarrow> trader_config" where
  "trader_init a =
     (let trade_specs = map product_spec_from_token (ar_strings a ''--trade_products'');
          subscribe_tokens = ar_strings a ''--subscribe_products'';
          name = ar_string a ''--name''
      in \<lparr>tc_name = name, tc_exchange = ar_string a ''--exchange'', tc_strategy_name = ar_string a ''--strategy_name'',
          tc_region = ar_string a ''--region'', tc_market_type = ar_string a ''--market_type'',
          tc_trade_products = map ps_product trade_specs, tc_subscribe_same_products = (subscribe_tokens = []),
          tc_subscribe_products =
            (if subscribe_tokens = [] then trade_specs else map product_spec_from_token subscribe_tokens),
          tc_broadcast_host_address = ar_string a ''--broadcast_host_address'',
          tc_broadcast_port = u16 (ar_int a ''--broadcast_port''),
          tc_pricer_host_address = ar_string a ''--pricer_host_address'',
          tc_pricer_port = u16 (ar_int a ''--pricer_port''),
          tc_fair_price_max_age_ms = ar_int a ''--fair_price_max_age_ms'',
          tc_domain_type = ar_string a ''--domain_type'',
          tc_order_update_interval_ms = ar_int a ''--order_update_interval_ms'',
          tc_flatten_on_shutdown = (\<not> ar_bool a ''--no_flatten_on_shutdown''),
          tc_shutdown_cancel_timeout_ms = ar_int a ''--shutdown_cancel_timeout_ms'',
          tc_shutdown_flatten_timeout_ms = ar_int a ''--shutdown_flatten_timeout_ms'',
          tc_shutdown_market_flatten = (\<not> ar_bool a ''--no_shutdown_market_flatten''),
          tc_shutdown_reduce_only = (\<not> ar_bool a ''--no_shutdown_reduce_only''),
          tc_order_record_save_path = named_save_path (ar_string a ''--order_record_save_path'') name,
          tc_order_decision_save_path = named_save_path (ar_string a ''--order_decision_save_path'') name,
          tc_timezone_minute_offset = ar_int a ''--timezone_minute_offset'',
          tc_market_end_intraday_minute = ar_int a ''--market_end_intraday_minute'',
          tc_log_base_path = ar_string a ''--log_base_path'',
          tc_log_path = named_log_path (ar_string a ''--log_path'') name\<rparr>)"

text \<open>The product tokens of a launch file, read only where the section has them.\<close>

definition section_tokens ::
  "'j cfg_api \<Rightarrow> string \<Rightarrow> 'j json_section \<Rightarrow> (string list option \<Rightarrow> 'j json_section \<Rightarrow> cfg_error + 'b)
    \<Rightarrow> cfg_error + 'b" where
  "section_tokens cj key s rest =
     (if section_has cj key s
      then section_get cj (ca_strings cj) key [] s (\<lambda>tokens s. rest (Some tokens) (section_skip key s))
      else rest None (section_skip key s))"

definition trader_parse_json :: "'j cfg_api \<Rightarrow> 'j \<Rightarrow> trader_config \<Rightarrow> cfg_error + trader_config" where
  "trader_parse_json cj doc c =
     (case make_section cj doc ''trader_config'' of Inl e \<Rightarrow> Inl e | Inr s \<Rightarrow>
     section_get cj (ca_string cj) ''exchange'' (tc_exchange c) s (\<lambda>exchange s.
     section_get cj (ca_string cj) ''strategy_name'' (tc_strategy_name c) s (\<lambda>strategy_name s.
     section_get cj (ca_string cj) ''region'' (tc_region c) s (\<lambda>region s.
     section_get cj (ca_string cj) ''market_type'' (tc_market_type c) s (\<lambda>market_type s.
     section_tokens cj ''trade_products'' s (\<lambda>tokens s.
     let trade_specs = (case tokens of
           Some ts \<Rightarrow> map product_spec_from_token ts
         | None \<Rightarrow> map product_spec_from_token (tc_trade_products c));
         trade_products = (case tokens of
           Some ts \<Rightarrow> map (\<lambda>t. ps_product (product_spec_from_token t)) ts
         | None \<Rightarrow> tc_trade_products c)
     in
     section_get cj (ca_strings cj) ''subscribe_products'' [] s (\<lambda>subscribe_tokens s.
     section_get cj (ca_string cj) ''broadcast_host_address'' (tc_broadcast_host_address c) s (\<lambda>broadcast_host_address s.
     section_get cj (ca_int cj U16) ''broadcast_port'' (tc_broadcast_port c) s (\<lambda>broadcast_port s.
     section_get cj (ca_string cj) ''pricer_host_address'' (tc_pricer_host_address c) s (\<lambda>pricer_host_address s.
     section_get cj (ca_int cj U16) ''pricer_port'' (tc_pricer_port c) s (\<lambda>pricer_port s.
     section_get cj (ca_int cj I64) ''fair_price_max_age_ms'' (tc_fair_price_max_age_ms c) s (\<lambda>fair_price_max_age_ms s.
     section_get cj (ca_string cj) ''domain_type'' (tc_domain_type c) s (\<lambda>domain_type s.
     section_get cj (ca_int cj I64) ''order_update_interval_ms'' (tc_order_update_interval_ms c) s (\<lambda>order_update_interval_ms s.
     section_get cj (ca_bool cj) ''flatten_on_shutdown'' (tc_flatten_on_shutdown c) s (\<lambda>flatten_on_shutdown s.
     section_get cj (ca_int cj I64) ''shutdown_cancel_timeout_ms'' (tc_shutdown_cancel_timeout_ms c) s (\<lambda>shutdown_cancel_timeout_ms s.
     section_get cj (ca_int cj I64) ''shutdown_flatten_timeout_ms'' (tc_shutdown_flatten_timeout_ms c) s (\<lambda>shutdown_flatten_timeout_ms s.
     section_get cj (ca_bool cj) ''shutdown_market_flatten'' (tc_shutdown_market_flatten c) s (\<lambda>shutdown_market_flatten s.
     section_get cj (ca_bool cj) ''shutdown_reduce_only'' (tc_shutdown_reduce_only c) s (\<lambda>shutdown_reduce_only s.
     section_get cj (ca_string cj) ''name'' (tc_name c) s (\<lambda>name s.
     section_get cj (ca_string cj) ''order_record_save_path'' (tc_order_record_save_path c) s (\<lambda>order_record_save_path s.
     section_get cj (ca_string cj) ''order_decision_save_path'' (tc_order_decision_save_path c) s (\<lambda>order_decision_save_path s.
     section_get cj (ca_int cj I64) ''timezone_minute_offset'' (tc_timezone_minute_offset c) s (\<lambda>timezone_minute_offset s.
     section_get cj (ca_int cj I64) ''market_end_intraday_minute'' (tc_market_end_intraday_minute c) s (\<lambda>market_end_intraday_minute s.
     section_get cj (ca_string cj) ''log_base_path'' (tc_log_base_path c) s (\<lambda>log_base_path s.
     section_get cj (ca_string cj) ''log_path'' (tc_log_path c) s (\<lambda>log_path s.
     section_done cj s \<lparr>tc_name = name,
       tc_exchange = exchange,
       tc_strategy_name = strategy_name,
       tc_region = region,
       tc_market_type = market_type,
       tc_trade_products = trade_products,
       tc_subscribe_same_products = (subscribe_tokens = []),
       tc_subscribe_products =
         (if subscribe_tokens = [] then trade_specs else map product_spec_from_token subscribe_tokens),
       tc_broadcast_host_address = broadcast_host_address,
       tc_broadcast_port = broadcast_port,
       tc_pricer_host_address = pricer_host_address,
       tc_pricer_port = pricer_port,
       tc_fair_price_max_age_ms = fair_price_max_age_ms,
       tc_domain_type = domain_type,
       tc_order_update_interval_ms = order_update_interval_ms,
       tc_flatten_on_shutdown = flatten_on_shutdown,
       tc_shutdown_cancel_timeout_ms = shutdown_cancel_timeout_ms,
       tc_shutdown_flatten_timeout_ms = shutdown_flatten_timeout_ms,
       tc_shutdown_market_flatten = shutdown_market_flatten,
       tc_shutdown_reduce_only = shutdown_reduce_only,
       tc_order_record_save_path = named_save_path order_record_save_path name,
       tc_order_decision_save_path = named_save_path order_decision_save_path name,
       tc_timezone_minute_offset = timezone_minute_offset,
       tc_market_end_intraday_minute = market_end_intraday_minute,
       tc_log_base_path = log_base_path,
       tc_log_path = named_log_path log_path name\<rparr>))))))))))))))))))))))))))"
section \<open>Units and strategy parameters\<close>

definition market_config_init :: market_config where
  "market_config_init = \<lparr>mc_name = [], mc_min_tick_size = Fin 0, mc_default_lot_size = Fin 0, mc_exchange = [],
     mc_tick_func = None, mc_short_sell_unable = False\<rparr>"

definition market_set_parser :: "arg_decl list" where
  "market_set_parser = [DoubleArg ''--min_tick_size'' (Fin 0), DoubleArg ''--default_lot_size'' (Fin 0),
     FlagArg ''--short_sell_unable'']"

definition market_init :: "args \<Rightarrow> market_config \<Rightarrow> market_config" where
  "market_init a c = c\<lparr>mc_min_tick_size := ar_double a ''--min_tick_size'',
     mc_default_lot_size := ar_double a ''--default_lot_size'', mc_exchange := ar_string a ''--exchange'',
     mc_tick_func := get_tick_func (ar_string a ''--exchange''), mc_short_sell_unable := ar_bool a ''--short_sell_unable''\<rparr>"

definition market_parse_json :: "'j cfg_api \<Rightarrow> 'j \<Rightarrow> string \<Rightarrow> market_config \<Rightarrow> cfg_error + market_config" where
  "market_parse_json cj doc default_exchange c =
     (case make_section cj doc ''market_config'' of Inl e \<Rightarrow> Inl e | Inr s \<Rightarrow>
     section_get cj (ca_string cj) ''name'' (mc_name c) s (\<lambda>name s.
     section_get cj (ca_double cj) ''min_tick_size'' (mc_min_tick_size c) s (\<lambda>min_tick_size s.
     section_get cj (ca_double cj) ''default_lot_size'' (mc_default_lot_size c) s (\<lambda>default_lot_size s.
     section_get cj (ca_string cj) ''exchange'' (mc_exchange c) s (\<lambda>exchange s.
     section_get cj (ca_bool cj) ''short_sell_unable'' (mc_short_sell_unable c) s (\<lambda>short_sell_unable s.
     case section_done cj s () of Inl e \<Rightarrow> Inl e | Inr _ \<Rightarrow>
     let c' = c\<lparr>mc_name := name, mc_min_tick_size := min_tick_size, mc_default_lot_size := default_lot_size,
       mc_short_sell_unable := short_sell_unable\<rparr>
     in if exchange = []
        then Inr (c'\<lparr>mc_exchange := default_exchange, mc_tick_func := get_tick_func default_exchange\<rparr>)
        else if default_exchange \<noteq> [] \<and> exchange \<noteq> default_exchange
        then Inl (ExchangeMismatch exchange default_exchange)
        else Inr (c'\<lparr>mc_exchange := exchange, mc_tick_func := get_tick_func exchange\<rparr>)))))))"

definition geuant_set_parser :: "arg_decl list" where
  "geuant_set_parser =
     [DoubleArg ''--spread_const_bp'' (Fin 0),
      DoubleArg ''--skew_ratio'' (Fin 0),
      FlagArg ''--use_spread_cap'',
      DoubleArg ''--spread_cap_bp'' (Fin 0),
      FlagArg ''--use_bbo_cap_buffer'',
      DoubleArg ''--bbo_cap_buffer_bp'' (Fin 0),
      IntArg ''--order_lots'' 0,
      DoubleArg ''--order_dollar'' (Fin 0),
      IntArg ''--position_limit_in_lots'' 0,
      FlagArg ''--position_in_dollar'',
      DoubleArg ''--position_limit_in_dollar'' (Fin 0),
      DoubleArg ''--order_buffer_bp'' (Fin 0),
      IntArg ''--order_num'' 0,
      DoubleArg ''--order_interval_bp'' (Fin 0),
      FlagArg ''--tick_based_order_interval'',
      IntArg ''--order_interval_ticks'' 0]"

definition geuant_init :: "args \<Rightarrow> geuant_params \<Rightarrow> geuant_params" where
  "geuant_init a c = c\<lparr>spread_const_bp := ar_double a ''--spread_const_bp'',
     skew_ratio := ar_double a ''--skew_ratio'',
     use_spread_cap := ar_bool a ''--use_spread_cap'',
     spread_cap_bp := ar_double a ''--spread_cap_bp'',
     use_bbo_cap_buffer := ar_bool a ''--use_bbo_cap_buffer'',
     bbo_cap_buffer_bp := ar_double a ''--bbo_cap_buffer_bp'',
     order_lots := ar_int a ''--order_lots'',
     order_dollar := ar_double a ''--order_dollar'',
     position_limit_in_lots := ar_int a ''--position_limit_in_lots'',
     position_in_dollar := ar_bool a ''--position_in_dollar'',
     position_limit_in_dollar := ar_double a ''--position_limit_in_dollar'',
     order_buffer_bp := ar_double a ''--order_buffer_bp'',
     order_num := nat (ar_int a ''--order_num''),
     order_interval_bp := ar_double a ''--order_interval_bp'',
     tick_based_order_interval := ar_bool a ''--tick_based_order_interval'',
     order_interval_ticks := ar_int a ''--order_interval_ticks''\<rparr>"

definition geuant_parse_json :: "'j cfg_api \<Rightarrow> 'j \<Rightarrow> geuant_params \<Rightarrow> cfg_error + geuant_params" where
  "geuant_parse_json cj doc c =
     (case make_section cj doc ''strategy_params'' of Inl e \<Rightarrow> Inl e | Inr s \<Rightarrow>
     section_get cj (ca_string cj) ''name'' (gp_name c) s (\<lambda>name' s.
     section_get cj (ca_double cj) ''spread_const_bp'' (spread_const_bp c) s (\<lambda>spread_const_bp' s.
     section_get cj (ca_double cj) ''skew_ratio'' (skew_ratio c) s (\<lambda>skew_ratio' s.
     section_get cj (ca_bool cj) ''use_spread_cap'' (use_spread_cap c) s (\<lambda>use_spread_cap' s.
     section_get cj (ca_double cj) ''spread_cap_bp'' (spread_cap_bp c) s (\<lambda>spread_cap_bp' s.
     section_get cj (ca_bool cj) ''use_bbo_cap_buffer'' (use_bbo_cap_buffer c) s (\<lambda>use_bbo_cap_buffer' s.
     section_get cj (ca_double cj) ''bbo_cap_buffer_bp'' (bbo_cap_buffer_bp c) s (\<lambda>bbo_cap_buffer_bp' s.
     section_get cj (ca_int cj I32) ''order_lots'' (order_lots c) s (\<lambda>order_lots' s.
     section_get cj (ca_double cj) ''order_dollar'' (order_dollar c) s (\<lambda>order_dollar' s.
     section_get cj (ca_int cj I32) ''position_limit_in_lots'' (position_limit_in_lots c) s (\<lambda>position_limit_in_lots' s.
     section_get cj (ca_bool cj) ''position_in_dollar'' (position_in_dollar c) s (\<lambda>position_in_dollar' s.
     section_get cj (ca_double cj) ''position_limit_in_dollar'' (position_limit_in_dollar c) s (\<lambda>position_limit_in_dollar' s.
     section_get cj (ca_double cj) ''order_buffer_bp'' (order_buffer_bp c) s (\<lambda>order_buffer_bp' s.
     section_get cj (\<lambda>v. map_option nat (ca_int cj SizeT v)) ''order_num'' (order_num c) s (\<lambda>order_num' s.
     section_get cj (ca_double cj) ''order_interval_bp'' (order_interval_bp c) s (\<lambda>order_interval_bp' s.
     section_get cj (ca_bool cj) ''tick_based_order_interval'' (tick_based_order_interval c) s (\<lambda>tick_based_order_interval' s.
     section_get cj (ca_int cj SizeT) ''order_interval_ticks'' (order_interval_ticks c) s (\<lambda>order_interval_ticks' s.
     section_done cj s \<lparr>gp_name = name',
       spread_const_bp = spread_const_bp',
       skew_ratio = skew_ratio',
       use_spread_cap = use_spread_cap',
       spread_cap_bp = spread_cap_bp',
       use_bbo_cap_buffer = use_bbo_cap_buffer',
       bbo_cap_buffer_bp = bbo_cap_buffer_bp',
       order_lots = order_lots',
       order_dollar = order_dollar',
       position_limit_in_lots = position_limit_in_lots',
       position_in_dollar = position_in_dollar',
       position_limit_in_dollar = position_limit_in_dollar',
       order_buffer_bp = order_buffer_bp',
       order_num = order_num',
       order_interval_bp = order_interval_bp',
       tick_based_order_interval = tick_based_order_interval',
       order_interval_ticks = order_interval_ticks'\<rparr>))))))))))))))))))"

text \<open>A strategy is its units and its parameters, as the constructor of \<open>GeuantStrategy\<close> keeps them.\<close>

type_synonym strategy = "base_strategy \<times> geuant_params"

definition init_strategy :: "market_config \<Rightarrow> args \<Rightarrow> strategy option" where
  "init_strategy mc a =
     (if ar_string a ''--strategy_name'' = ''Geuant'' then Some (base_strategy_of mc, geuant_init a geuant_params_init)
      else None)"

definition init_strategy_from_json ::
  "'j cfg_api \<Rightarrow> market_config \<Rightarrow> string \<Rightarrow> 'j \<Rightarrow> cfg_error + strategy option" where
  "init_strategy_from_json cj mc strategy_name doc =
     (if strategy_name = ''Geuant''
      then (case geuant_parse_json cj doc geuant_params_init of
              Inl e \<Rightarrow> Inl e | Inr params \<Rightarrow> Inr (Some (base_strategy_of mc, params)))
      else Inr None)"

definition set_strategy_specific_parser :: "string \<Rightarrow> arg_decl list" where
  "set_strategy_specific_parser strategy_name = (if strategy_name = ''Geuant'' then geuant_set_parser else [])"

section \<open>The listener's configuration\<close>

definition listener_set_parser :: "arg_decl list" where
  "listener_set_parser =
     [StringArg ''--exchange'' ''binance'', StringArg ''--region'' [], StringArg ''--market_type'' ''derivatives'',
      FlagArg ''--is_night'', IntArg ''--timezone_minute_offset'' 0, IntArg ''--market_end_intraday_minute'' (- 1),
      ListArg ''--products'' [''BTCUSDT:futures''], StringArg ''--products_db_base_path'' ''products'',
      StringArg ''--orderbook_save_path'' ''logs/orderbook_record'',
      StringArg ''--trade_save_path'' ''logs/trade_record'', StringArg ''--name'' [],
      FlagArg ''--no-orderbook-log'', FlagArg ''--no-public-trade-log'', IntArg ''--orderbook_levels'' 20,
      IntArg ''--product_info_refresh_sec'' 300, StringArg ''--broadcast_host_address'' ''0.0.0.0'',
      IntArg ''--broadcast_port'' 8888, StringArg ''--domain_type'' ''real'',
      StringArg ''--log_path'' ''logs/listener/listener.log'']"

definition listener_init :: "args \<Rightarrow> listener_config" where
  "listener_init a =
     (let specs = map product_spec_from_token (ar_strings a ''--products''); name = ar_string a ''--name''
      in \<lparr>lc_name = name, lc_exchange = ar_string a ''--exchange'', lc_region = ar_string a ''--region'',
          lc_market_type = ar_string a ''--market_type'', lc_is_night = ar_bool a ''--is_night'',
          lc_timezone_minute_offset = ar_int a ''--timezone_minute_offset'',
          lc_products = map ps_product specs, lc_product_specs = specs,
          lc_products_db_base_path = ar_string a ''--products_db_base_path'',
          lc_orderbook_save_path = named_save_path (ar_string a ''--orderbook_save_path'') name,
          lc_trade_save_path = named_save_path (ar_string a ''--trade_save_path'') name,
          lc_no_orderbook_log = ar_bool a ''--no-orderbook-log'',
          lc_no_public_trade_log = ar_bool a ''--no-public-trade-log'',
          lc_broadcast_host_address = ar_string a ''--broadcast_host_address'',
          lc_broadcast_port = u16 (ar_int a ''--broadcast_port''), lc_domain_type = ar_string a ''--domain_type'',
          lc_orderbook_levels = ar_int a ''--orderbook_levels'',
          lc_product_info_refresh_sec = ar_int a ''--product_info_refresh_sec'',
          lc_market_end_intraday_minute = ar_int a ''--market_end_intraday_minute'',
          lc_log_path = named_log_path (ar_string a ''--log_path'') name\<rparr>)"

definition listener_parse_json :: "'j cfg_api \<Rightarrow> 'j \<Rightarrow> listener_config \<Rightarrow> cfg_error + listener_config" where
  "listener_parse_json cj doc c =
     (case make_section cj doc ''listener_config'' of Inl e \<Rightarrow> Inl e | Inr s \<Rightarrow>
     section_get cj (ca_string cj) ''exchange'' (lc_exchange c) s (\<lambda>exchange s.
     section_get cj (ca_string cj) ''region'' (lc_region c) s (\<lambda>region s.
     section_get cj (ca_string cj) ''market_type'' (lc_market_type c) s (\<lambda>market_type s.
     section_get cj (ca_bool cj) ''is_night'' (lc_is_night c) s (\<lambda>is_night s.
     section_get cj (ca_int cj I64) ''timezone_minute_offset'' (lc_timezone_minute_offset c) s (\<lambda>timezone_minute_offset s.
     section_get cj (ca_int cj I64) ''market_end_intraday_minute'' (lc_market_end_intraday_minute c) s (\<lambda>market_end_intraday_minute s.
     section_tokens cj ''products'' s (\<lambda>tokens s.
     let specs = (case tokens of Some ts \<Rightarrow> map product_spec_from_token ts | None \<Rightarrow> lc_product_specs c);
         products = (case tokens of
           Some ts \<Rightarrow> map (\<lambda>t. ps_product (product_spec_from_token t)) ts | None \<Rightarrow> lc_products c)
     in
     section_get cj (ca_string cj) ''name'' (lc_name c) s (\<lambda>name s.
     section_get cj (ca_string cj) ''products_db_base_path'' (lc_products_db_base_path c) s (\<lambda>products_db_base_path s.
     section_get cj (ca_string cj) ''orderbook_save_path'' (lc_orderbook_save_path c) s (\<lambda>orderbook_save_path s.
     section_get cj (ca_string cj) ''trade_save_path'' (lc_trade_save_path c) s (\<lambda>trade_save_path s.
     section_get cj (ca_bool cj) ''no_orderbook_log'' (lc_no_orderbook_log c) s (\<lambda>no_orderbook_log s.
     section_get cj (ca_bool cj) ''no_public_trade_log'' (lc_no_public_trade_log c) s (\<lambda>no_public_trade_log s.
     section_get cj (ca_int cj I32) ''orderbook_levels'' (lc_orderbook_levels c) s (\<lambda>orderbook_levels s.
     section_get cj (ca_int cj I64) ''product_info_refresh_sec'' (lc_product_info_refresh_sec c) s (\<lambda>product_info_refresh_sec s.
     section_get cj (ca_string cj) ''broadcast_host_address'' (lc_broadcast_host_address c) s (\<lambda>broadcast_host_address s.
     section_get cj (ca_int cj U16) ''broadcast_port'' (lc_broadcast_port c) s (\<lambda>broadcast_port s.
     section_get cj (ca_string cj) ''domain_type'' (lc_domain_type c) s (\<lambda>domain_type s.
     section_get cj (ca_string cj) ''log_path'' (lc_log_path c) s (\<lambda>log_path s.
     section_done cj s \<lparr>lc_name = name,
       lc_exchange = exchange,
       lc_region = region,
       lc_market_type = market_type,
       lc_is_night = is_night,
       lc_timezone_minute_offset = timezone_minute_offset,
       lc_products = products,
       lc_product_specs = specs,
       lc_products_db_base_path = products_db_base_path,
       lc_orderbook_save_path = named_save_path orderbook_save_path name,
       lc_trade_save_path = named_save_path trade_save_path name,
       lc_no_orderbook_log = no_orderbook_log,
       lc_no_public_trade_log = no_public_trade_log,
       lc_broadcast_host_address = broadcast_host_address,
       lc_broadcast_port = broadcast_port,
       lc_domain_type = domain_type,
       lc_orderbook_levels = orderbook_levels,
       lc_product_info_refresh_sec = product_info_refresh_sec,
       lc_market_end_intraday_minute = market_end_intraday_minute,
       lc_log_path = named_log_path log_path name\<rparr>))))))))))))))))))))"

section \<open>The pricer's configuration\<close>

definition pricer_set_parser :: "arg_decl list" where
  "pricer_set_parser =
     [ChoiceArg ''--fair_price_mode'' ''MID'' [''MID'', ''VWAP'', ''FACTOR''],
      ListArg ''--products'' [''BTCUSDT:futures''], StringArg ''--broadcast_host_address'' ''0.0.0.0'',
      IntArg ''--broadcast_port'' 8888, StringArg ''--publish_host_address'' ''0.0.0.0'',
      IntArg ''--publish_port'' 8889, IntArg ''--publish_interval_ms'' 100, IntArg ''--timezone_minute_offset'' 0,
      IntArg ''--market_end_intraday_minute'' (- 1), StringArg ''--name'' [], FlagArg ''--no-pricer-log'',
      StringArg ''--log_path'' ''logs/pricer/pricer.log'']"

definition pricer_init :: "args \<Rightarrow> pricer_config" where
  "pricer_init a = \<lparr>pc_name = ar_string a ''--name'',
     pc_mode = fair_price_mode_from_string (ar_string a ''--fair_price_mode''),
     pc_products = map product_spec_from_token (ar_strings a ''--products''),
     pc_broadcast_host_address = ar_string a ''--broadcast_host_address'',
     pc_broadcast_port = u16 (ar_int a ''--broadcast_port''),
     pc_publish_host_address = ar_string a ''--publish_host_address'',
     pc_publish_port = u16 (ar_int a ''--publish_port''),
     pc_publish_interval_ms = ar_int a ''--publish_interval_ms'',
     pc_timezone_minute_offset = ar_int a ''--timezone_minute_offset'',
     pc_market_end_intraday_minute = ar_int a ''--market_end_intraday_minute'',
     pc_no_pricer_log = ar_bool a ''--no-pricer-log'',
     pc_log_path = named_log_path (ar_string a ''--log_path'') (ar_string a ''--name'')\<rparr>"

definition section_mode ::
  "'j cfg_api \<Rightarrow> fair_price_mode \<Rightarrow> 'j json_section \<Rightarrow> (fair_price_mode \<Rightarrow> 'j json_section \<Rightarrow> cfg_error + 'b)
    \<Rightarrow> cfg_error + 'b" where
  "section_mode cj mode s rest =
     (if section_has cj ''fair_price_mode'' s
      then section_get cj (ca_string cj) ''fair_price_mode'' [] s
             (\<lambda>mode_name s. rest (fair_price_mode_from_string mode_name) (section_skip ''fair_price_mode'' s))
      else rest mode (section_skip ''fair_price_mode'' s))"

definition pricer_parse_json :: "'j cfg_api \<Rightarrow> 'j \<Rightarrow> pricer_config \<Rightarrow> cfg_error + pricer_config" where
  "pricer_parse_json cj doc c =
     (case make_section cj doc ''pricer_config'' of Inl e \<Rightarrow> Inl e | Inr s \<Rightarrow>
     section_mode cj (pc_mode c) s (\<lambda>mode s.
     section_tokens cj ''products'' s (\<lambda>tokens s.
     section_get cj (ca_string cj) ''broadcast_host_address'' (pc_broadcast_host_address c) s (\<lambda>broadcast_host_address s.
     section_get cj (ca_int cj U16) ''broadcast_port'' (pc_broadcast_port c) s (\<lambda>broadcast_port s.
     section_get cj (ca_string cj) ''publish_host_address'' (pc_publish_host_address c) s (\<lambda>publish_host_address s.
     section_get cj (ca_int cj U16) ''publish_port'' (pc_publish_port c) s (\<lambda>publish_port s.
     section_get cj (ca_int cj I64) ''publish_interval_ms'' (pc_publish_interval_ms c) s (\<lambda>publish_interval_ms s.
     section_get cj (ca_int cj I64) ''timezone_minute_offset'' (pc_timezone_minute_offset c) s (\<lambda>timezone_minute_offset s.
     section_get cj (ca_int cj I64) ''market_end_intraday_minute'' (pc_market_end_intraday_minute c) s (\<lambda>market_end_intraday_minute s.
     section_get cj (ca_bool cj) ''no_pricer_log'' (pc_no_pricer_log c) s (\<lambda>no_pricer_log s.
     section_get cj (ca_string cj) ''name'' (pc_name c) s (\<lambda>name s.
     section_get cj (ca_string cj) ''log_path'' (pc_log_path c) s (\<lambda>log_path s.
     section_done cj s \<lparr>pc_name = name,
       pc_mode = mode,
       pc_products =
         (case tokens of Some ts \<Rightarrow> map product_spec_from_token ts | None \<Rightarrow> pc_products c),
       pc_broadcast_host_address = broadcast_host_address,
       pc_broadcast_port = broadcast_port,
       pc_publish_host_address = publish_host_address,
       pc_publish_port = publish_port,
       pc_publish_interval_ms = publish_interval_ms,
       pc_timezone_minute_offset = timezone_minute_offset,
       pc_market_end_intraday_minute = market_end_intraday_minute,
       pc_no_pricer_log = no_pricer_log,
       pc_log_path = named_log_path log_path name\<rparr>)))))))))))))"

definition factor_set_header_parser :: "arg_decl list" where
  "factor_set_header_parser = [StringArg ''--factor_name'' ''Microprice'']"

definition factor_set_parser :: "arg_decl list" where
  "factor_set_parser = factor_set_header_parser @
     [DoubleArg ''--factor_ema_alpha'' (Fin 1), DoubleArg ''--factor_cap_bp'' (Fin 20)]"

definition factor_init :: "args \<Rightarrow> factor_config \<Rightarrow> factor_config" where
  "factor_init a c = c\<lparr>fc_factor_name := ar_string a ''--factor_name'',
     fc_ema_alpha := ar_double a ''--factor_ema_alpha'', fc_cap_bp := ar_double a ''--factor_cap_bp''\<rparr>"

definition factor_parse_json :: "'j cfg_api \<Rightarrow> 'j \<Rightarrow> factor_config \<Rightarrow> cfg_error + factor_config" where
  "factor_parse_json cj doc c =
     (case make_section cj doc ''factor_config'' of Inl e \<Rightarrow> Inl e | Inr s \<Rightarrow>
     section_get cj (ca_string cj) ''name'' (fc_name c) s (\<lambda>name s.
     section_get cj (ca_string cj) ''factor_name'' (fc_factor_name c) s (\<lambda>factor_name s.
     section_get cj (ca_double cj) ''ema_alpha'' (fc_ema_alpha c) s (\<lambda>ema_alpha s.
     section_get cj (ca_double cj) ''cap_bp'' (fc_cap_bp c) s (\<lambda>cap_bp s.
     section_done cj s \<lparr>fc_name = name, fc_factor_name = factor_name, fc_ema_alpha = ema_alpha, fc_cap_bp = cap_bp\<rparr>)))))"

definition microprice_set_parser :: "arg_decl list" where
  "microprice_set_parser = [DoubleArg ''--imbalance_exponent'' (Fin 1)]"

definition microprice_init :: "args \<Rightarrow> microprice_params" where
  "microprice_init a = \<lparr>mp_imbalance_exponent = ar_double a ''--imbalance_exponent''\<rparr>"

definition microprice_parse_json :: "'j cfg_api \<Rightarrow> 'j \<Rightarrow> microprice_params \<Rightarrow> cfg_error + microprice_params" where
  "microprice_parse_json cj doc c =
     (case make_section cj doc ''factor_params'' of Inl e \<Rightarrow> Inl e | Inr s \<Rightarrow>
     section_get cj (ca_double cj) ''imbalance_exponent'' (mp_imbalance_exponent c) s (\<lambda>imbalance_exponent s.
     section_done cj s \<lparr>mp_imbalance_exponent = imbalance_exponent\<rparr>))"

definition microprice_params_init :: microprice_params where
  "microprice_params_init = \<lparr>mp_imbalance_exponent = Fin 1\<rparr>"

definition init_factor_from_json ::
  "'j cfg_api \<Rightarrow> factor_config \<Rightarrow> 'j \<Rightarrow> cfg_error + microprice_factor option" where
  "init_factor_from_json cj c doc =
     (if fc_factor_name c = ''Microprice''
      then (case microprice_parse_json cj doc microprice_params_init of
              Inl e \<Rightarrow> Inl e | Inr params \<Rightarrow> Inr (Some (make_microprice_factor c params)))
      else Inr None)"

definition set_factor_specific_parser :: "string \<Rightarrow> arg_decl list" where
  "set_factor_specific_parser factor_name = (if factor_name = ''Microprice'' then microprice_set_parser else [])"

end
