(* ===== verification/Launch.thy ===== *)
theory Launch
  imports Launch_Config
begin

text \<open>
  The first half of the three \<open>main\<close> functions (\<open>trader_main.cpp\<close>, \<open>listener_main.cpp\<close>,
  \<open>pricer_main.cpp\<close>): from the command line to the running object.  An \<open>Inl\<close> is an exit with
  status 1, except \<open>Uncaught\<close>: the header parse stands outside every \<open>try\<close> block.

  Shown here: a launch from files and a launch from flags that state the same settings start the same
  process, and a file is accepted only when the process knows every field of it.
\<close>

record 'j launch_env =
  le_json :: "'j cfg_api"
  le_files :: "string \<Rightarrow> string option"
  le_parse_args :: "arg_decl list \<Rightarrow> string list \<Rightarrow> args option"
  le_parse_known_args :: "arg_decl list \<Rightarrow> string list \<Rightarrow> args option"

datatype launch_error =
    ConfigError cfg_error
  | ArgumentError
  | Uncaught
  | UnknownStrategy string
  | HandlerError handler_error
  | PricerError pricer_error

section \<open>The trader\<close>

definition trader_from_files ::
  "'j launch_env \<Rightarrow> string list \<Rightarrow> cfg_error + trader_config \<times> market_config \<times> strategy option" where
  "trader_from_files lv argv =
     (let cj = le_json lv; load = load_json_file cj (le_files lv) in
      case json_launch_paths argv of
        Inl e \<Rightarrow> Inl e
      | Inr [p0, p1, p2] \<Rightarrow>
          (case load p0 of Inl e \<Rightarrow> Inl e | Inr d0 \<Rightarrow>
          (case trader_parse_json cj d0 trader_config_init of Inl e \<Rightarrow> Inl e | Inr config \<Rightarrow>
          (case load p1 of Inl e \<Rightarrow> Inl e | Inr d1 \<Rightarrow>
          (case market_parse_json cj d1 (tc_exchange config) market_config_init of Inl e \<Rightarrow> Inl e | Inr market \<Rightarrow>
          (case load p2 of Inl e \<Rightarrow> Inl e | Inr d2 \<Rightarrow>
          (case init_strategy_from_json cj market (tc_strategy_name config) d2 of Inl e \<Rightarrow> Inl e | Inr strategy \<Rightarrow>
           Inr (config, market, strategy)))))))
      | Inr _ \<Rightarrow> Inl WrongUsage)"

definition trader_from_flags ::
  "'j launch_env \<Rightarrow> string list \<Rightarrow> launch_error + trader_config \<times> market_config \<times> strategy option" where
  "trader_from_flags lv argv =
     (case le_parse_known_args lv trader_set_header_parser argv of
        None \<Rightarrow> Inl Uncaught
      | Some header \<Rightarrow>
          (case le_parse_args lv
                  (trader_set_parser @ market_set_parser
                     @ set_strategy_specific_parser (ar_string header ''--strategy_name'')) argv of
             None \<Rightarrow> Inl ArgumentError
           | Some a \<Rightarrow>
               (let market = market_init a market_config_init
                in Inr (trader_init a, market, init_strategy market a))))"

definition trader_config_of ::
  "'j launch_env \<Rightarrow> string list \<Rightarrow> launch_error + trader_config \<times> market_config \<times> strategy" where
  "trader_config_of lv argv =
     (case (if is_json_launch argv
            then (case trader_from_files lv argv of Inl e \<Rightarrow> Inl (ConfigError e) | Inr r \<Rightarrow> Inr r)
            else trader_from_flags lv argv) of
        Inl e \<Rightarrow> Inl e
      | Inr (config, market, None) \<Rightarrow> Inl (UnknownStrategy (tc_strategy_name config))
      | Inr (config, market, Some strategy) \<Rightarrow> Inr (config, market, strategy))"

text \<open>The order handler on the chosen strategy, without a gateway factory of its own.\<close>

definition trader_start ::
  "'j launch_env \<Rightarrow> (nat \<Rightarrow> int) \<Rightarrow> string list \<Rightarrow> launch_error + trader_config \<times> handler_env \<times> order_handler" where
  "trader_start lv clk argv =
     (case trader_config_of lv argv of
        Inl e \<Rightarrow> Inl e
      | Inr (config, market, units, params) \<Rightarrow>
          (case make_order_handler market (make_decision units params) config False clk of
             Inl e \<Rightarrow> Inl (HandlerError e)
           | Inr (ev, s) \<Rightarrow> Inr (config, ev, s)))"

section \<open>The listener and the pricer\<close>

definition listener_config_of :: "'j launch_env \<Rightarrow> string list \<Rightarrow> launch_error + listener_config" where
  "listener_config_of lv argv =
     (let cj = le_json lv in
      if is_json_launch argv
      then (case json_launch_paths argv of
              Inl e \<Rightarrow> Inl (ConfigError e)
            | Inr [p] \<Rightarrow>
                (case load_json_file cj (le_files lv) p of
                   Inl e \<Rightarrow> Inl (ConfigError e)
                 | Inr doc \<Rightarrow>
                     (case listener_parse_json cj doc listener_config_init of
                        Inl e \<Rightarrow> Inl (ConfigError e) | Inr config \<Rightarrow> Inr config))
            | Inr _ \<Rightarrow> Inl (ConfigError WrongUsage))
      else (case le_parse_args lv listener_set_parser argv of
              None \<Rightarrow> Inl ArgumentError | Some a \<Rightarrow> Inr (listener_init a)))"

text \<open>
  The factor builder is called by the pricer's constructor, in \<open>FACTOR\<close> mode only; what it returns
  or throws is \<open>built\<close>.
\<close>

definition pricer_from_files ::
  "'j launch_env \<Rightarrow> string list \<Rightarrow> cfg_error + pricer_config \<times> factor_config \<times> (cfg_error + microprice_factor option)" where
  "pricer_from_files lv argv =
     (let cj = le_json lv; load = load_json_file cj (le_files lv) in
      case json_launch_paths argv of
        Inl e \<Rightarrow> Inl e
      | Inr (p0 # ps) \<Rightarrow>
          if 1 < length ps then Inl WrongUsage
          else (case load p0 of Inl e \<Rightarrow> Inl e | Inr d0 \<Rightarrow>
            (case pricer_parse_json cj d0 pricer_config_init of Inl e \<Rightarrow> Inl e | Inr config \<Rightarrow>
            (case ps of
               p1 # _ \<Rightarrow>
                 (case load p1 of Inl e \<Rightarrow> Inl e | Inr d1 \<Rightarrow>
                 (case factor_parse_json cj d1 factor_config_init of Inl e \<Rightarrow> Inl e | Inr fconfig \<Rightarrow>
                  Inr (config, fconfig, init_factor_from_json cj fconfig d1)))
             | [] \<Rightarrow>
                 if pc_mode config = FACTOR then Inl FactorFileNeeded
                 else Inr (config, factor_config_init, Inr None))))
      | Inr [] \<Rightarrow> Inl WrongUsage)"

definition pricer_from_flags ::
  "'j launch_env \<Rightarrow> string list \<Rightarrow> launch_error + pricer_config \<times> factor_config \<times> (cfg_error + microprice_factor option)" where
  "pricer_from_flags lv argv =
     (case le_parse_known_args lv factor_set_header_parser argv of
        None \<Rightarrow> Inl Uncaught
      | Some header \<Rightarrow>
          (case le_parse_args lv (pricer_set_parser @ factor_set_parser
                  @ set_factor_specific_parser (ar_string header ''--factor_name'')) argv of
             None \<Rightarrow> Inl ArgumentError
           | Some a \<Rightarrow>
               (let fconfig = factor_init a factor_config_init
                in Inr (pricer_init a, fconfig, Inr (init_factor fconfig (microprice_init a))))))"

definition pricer_start :: "'j launch_env \<Rightarrow> string list \<Rightarrow> launch_error + pricer_config \<times> pricer" where
  "pricer_start lv argv =
     (case (if is_json_launch argv
            then (case pricer_from_files lv argv of Inl e \<Rightarrow> Inl (ConfigError e) | Inr r \<Rightarrow> Inr r)
            else pricer_from_flags lv argv) of
        Inl e \<Rightarrow> Inl e
      | Inr (config, fconfig, built) \<Rightarrow>
          (case (if pc_mode config = FACTOR \<and> pc_products config \<noteq> [] then built else Inr None) of
             Inl e \<Rightarrow> Inl (ConfigError e)
           | Inr made \<Rightarrow>
               (case make_pricer config fconfig made of
                  Inl e \<Rightarrow> Inl (PricerError e) | Inr s \<Rightarrow> Inr (config, s))))"

section \<open>When a file and the flags state the same\<close>

text \<open>
  The key of a launch file that corresponds to an argument; \<open>NegKey\<close> where the flag switches off
  what the key switches on.  A file that leaves a key out agrees with the argument's default, as
  declared by \<open>set_parser\<close>.
\<close>

datatype launch_key = Key int_type string | NegKey string

fun key_name :: "launch_key \<Rightarrow> string" where
  "key_name (Key t k) = k"
| "key_name (NegKey k) = k"

fun agrees :: "'j cfg_api \<Rightarrow> 'j \<Rightarrow> args \<Rightarrow> launch_key \<Rightarrow> arg_decl \<Rightarrow> bool" where
  "agrees cj obj a (Key t k) (StringArg n d) \<longleftrightarrow> says cj (ca_string cj) obj k d (ar_string a n)"
| "agrees cj obj a (Key t k) (ChoiceArg n d cs) \<longleftrightarrow> says cj (ca_string cj) obj k d (ar_string a n)"
| "agrees cj obj a (Key t k) (IntArg n d) \<longleftrightarrow> says cj (ca_int cj t) obj k d (ar_int a n)"
| "agrees cj obj a (Key t k) (DoubleArg n d) \<longleftrightarrow> says cj (ca_double cj) obj k d (ar_double a n)"
| "agrees cj obj a (Key t k) (FlagArg n) \<longleftrightarrow> says cj (ca_bool cj) obj k False (ar_bool a n)"
| "agrees cj obj a (Key t k) (ListArg n d) \<longleftrightarrow> says cj (ca_strings cj) obj k d (ar_strings a n)"
| "agrees cj obj a (NegKey k) (FlagArg n) \<longleftrightarrow> says cj (ca_bool cj) obj k True (\<not> ar_bool a n)"
| "agrees cj obj a (NegKey k) _ \<longleftrightarrow> False"

definition trader_keys :: "launch_key list" where
  "trader_keys = [Key I64 ''exchange'', Key I64 ''strategy_name'', Key I64 ''region'', Key I64 ''market_type'',
     Key I64 ''trade_products'', Key I64 ''subscribe_products'', Key I64 ''broadcast_host_address'',
     Key U16 ''broadcast_port'', Key I64 ''pricer_host_address'', Key U16 ''pricer_port'',
     Key I64 ''fair_price_max_age_ms'', Key I64 ''domain_type'', Key I64 ''order_update_interval_ms'',
     NegKey ''flatten_on_shutdown'', Key I64 ''shutdown_cancel_timeout_ms'', Key I64 ''shutdown_flatten_timeout_ms'',
     NegKey ''shutdown_market_flatten'', NegKey ''shutdown_reduce_only'', Key I64 ''name'',
     Key I64 ''order_record_save_path'', Key I64 ''order_decision_save_path'', Key I64 ''timezone_minute_offset'',
     Key I64 ''market_end_intraday_minute'', Key I64 ''log_base_path'', Key I64 ''log_path'']"

definition market_keys :: "launch_key list" where
  "market_keys = [Key I64 ''min_tick_size'', Key I64 ''default_lot_size'', Key I64 ''short_sell_unable'']"

definition geuant_keys :: "launch_key list" where
  "geuant_keys = [Key I64 ''spread_const_bp'', Key I64 ''skew_ratio'', Key I64 ''use_spread_cap'',
     Key I64 ''spread_cap_bp'', Key I64 ''use_bbo_cap_buffer'', Key I64 ''bbo_cap_buffer_bp'',
     Key I32 ''order_lots'', Key I64 ''order_dollar'', Key I32 ''position_limit_in_lots'',
     Key I64 ''position_in_dollar'', Key I64 ''position_limit_in_dollar'', Key I64 ''order_buffer_bp'',
     Key SizeT ''order_num'', Key I64 ''order_interval_bp'', Key I64 ''tick_based_order_interval'',
     Key SizeT ''order_interval_ticks'']"

definition listener_keys :: "launch_key list" where
  "listener_keys = [Key I64 ''exchange'', Key I64 ''region'', Key I64 ''market_type'', Key I64 ''is_night'',
     Key I64 ''timezone_minute_offset'', Key I64 ''market_end_intraday_minute'', Key I64 ''products'',
     Key I64 ''products_db_base_path'', Key I64 ''orderbook_save_path'', Key I64 ''trade_save_path'',
     Key I64 ''name'', Key I64 ''no_orderbook_log'', Key I64 ''no_public_trade_log'',
     Key I32 ''orderbook_levels'', Key I64 ''product_info_refresh_sec'', Key I64 ''broadcast_host_address'',
     Key U16 ''broadcast_port'', Key I64 ''domain_type'', Key I64 ''log_path'']"

definition pricer_keys :: "launch_key list" where
  "pricer_keys = [Key I64 ''fair_price_mode'', Key I64 ''products'', Key I64 ''broadcast_host_address'',
     Key U16 ''broadcast_port'', Key I64 ''publish_host_address'', Key U16 ''publish_port'',
     Key I64 ''publish_interval_ms'', Key I64 ''timezone_minute_offset'', Key I64 ''market_end_intraday_minute'',
     Key I64 ''name'', Key I64 ''no_pricer_log'', Key I64 ''log_path'']"

definition factor_keys :: "launch_key list" where
  "factor_keys = [Key I64 ''factor_name'', Key I64 ''ema_alpha'', Key I64 ''cap_bp'']"

text \<open>The section is there, is an object and has no key beyond those listed.\<close>

definition section_of :: "'j cfg_api \<Rightarrow> 'j \<Rightarrow> string \<Rightarrow> 'j \<Rightarrow> string list \<Rightarrow> bool" where
  "section_of cj doc name obj ks \<longleftrightarrow>
     ca_find cj name doc = Some obj \<and> ca_is_object cj obj \<and> set (ca_keys cj obj) \<subseteq> set ks"

text \<open>The conversion to \<open>unsigned short\<close> yields one.\<close>

definition ports_in_range :: "'j cfg_api \<Rightarrow> bool" where
  "ports_in_range cj \<longleftrightarrow> (\<forall>v i. ca_int cj U16 v = Some i \<longrightarrow> 0 \<le> i \<and> i < 65536)"

section \<open>Reading a section\<close>

lemma says_port:
  "ports_in_range cj \<Longrightarrow> says cj (ca_int cj U16) obj k d x \<Longrightarrow> 0 \<le> d \<Longrightarrow> d < 65536 \<Longrightarrow> u16 x = x"
  by (auto simp: says_def ports_in_range_def u16_def split: option.splits if_splits)

lemma says_nat:
  "says cj (ca_int cj t) obj k d x \<Longrightarrow> says cj (\<lambda>v. map_option nat (ca_int cj t v)) obj k (nat d) (nat x)"
  by (auto simp: says_def split: option.splits if_splits)

lemma section_tokens_says:
  assumes "says cj (ca_strings cj) (sec_obj s) k d ts"
  shows "section_tokens cj k s rest =
    rest (if section_has cj k s then Some ts else None)
      (if section_has cj k s then section_skip k (section_skip k s) else section_skip k s)"
  using assms
  by (auto simp: says_def section_tokens_def section_get_def section_has_def split: option.splits if_splits)

lemma says_absent: "says cj conv (sec_obj s) k d x \<Longrightarrow> \<not> section_has cj k s \<Longrightarrow> x = d"
  by (auto simp: says_def section_has_def split: option.splits if_splits)

lemma make_section_of:
  "section_of cj doc name obj ks
    \<Longrightarrow> make_section cj doc name = Inr \<lparr>sec_obj = obj, sec_name = name, sec_known = []\<rparr>"
  by (simp add: section_of_def make_section_def)

lemma section_done_ok:
  "set (ca_keys cj obj) \<subseteq> set ks \<Longrightarrow> sec_obj s = obj \<Longrightarrow> set ks \<subseteq> set (sec_known s) \<Longrightarrow> section_done cj s x = Inr x"
  by (auto simp: section_done_Inr)

lemma section_of_keys: "section_of cj doc name obj ks \<Longrightarrow> set (ca_keys cj obj) \<subseteq> set ks"
  by (simp add: section_of_def)

lemma default_product: "product_spec_from_token ''BTCUSDT'' = product_spec_from_token ''BTCUSDT:futures''"
  "ps_product (product_spec_from_token ''BTCUSDT:futures'') = ''BTCUSDT''"
  by (simp_all add: product_spec_from_token_def category_from_string_def)

lemma default_spec: "product_spec_from_token ''BTCUSDT:futures'' = \<lparr>ps_product = ''BTCUSDT'', ps_category = futures\<rparr>"
  by (simp add: product_spec_from_token_def category_from_string_def)

section \<open>The two launch forms\<close>

lemma trader_forms:
  assumes "section_of cj doc ''trader_config'' obj (map key_name trader_keys)"
    "list_all2 (agrees cj obj a) trader_keys trader_set_parser" "ports_in_range cj"
  shows "trader_parse_json cj doc trader_config_init = Inr (trader_init a)"
proof -
  note s = assms(2) [unfolded trader_keys_def trader_set_parser_def trader_set_header_parser_def append.simps
      list_all2_Cons agrees.simps]
  note keys = section_of_keys [OF assms(1), unfolded trader_keys_def list.map key_name.simps]
  have "u16 (ar_int a ''--broadcast_port'') = ar_int a ''--broadcast_port''"
    "u16 (ar_int a ''--pricer_port'') = ar_int a ''--pricer_port''"
    using s says_port [OF assms(3)] by auto
  moreover have "\<not> section_has cj ''trade_products'' \<lparr>sec_obj = obj, sec_name = ''trader_config'', sec_known = []\<rparr>
      \<Longrightarrow> ar_strings a ''--trade_products'' = [''BTCUSDT:futures'']"
    using s by (elim conjE, intro says_absent [where conv = "ca_strings cj" and k = "''trade_products''"]) simp_all
  ultimately show ?thesis
    using s
    by (elim conjE) (simp add: trader_parse_json_def make_section_of [OF assms(1)] trader_config_init_def comp_def
      section_get_says section_tokens_says section_done_ok [OF keys] trader_init_def Let_def default_product)
qed

lemma market_forms:
  assumes "section_of cj doc ''market_config'' obj (''name'' # ''exchange'' # map key_name market_keys)"
    "list_all2 (agrees cj obj a) market_keys market_set_parser"
    "says cj (ca_string cj) obj ''name'' [] mn" "says cj (ca_string cj) obj ''exchange'' [] me"
    "me = [] \<or> me = ar_string a ''--exchange''"
  shows "market_parse_json cj doc (ar_string a ''--exchange'') market_config_init
    = Inr ((market_init a market_config_init)\<lparr>mc_name := mn\<rparr>)"
proof -
  note s = assms(2) [unfolded market_keys_def market_set_parser_def list_all2_Cons agrees.simps]
  note keys = section_of_keys [OF assms(1), unfolded market_keys_def list.map key_name.simps]
  show ?thesis
    using s assms(3,4,5)
    by (elim conjE disjE) (simp_all add: market_parse_json_def make_section_of [OF assms(1)] market_config_init_def
      section_get_says section_done_ok [OF keys] market_init_def Let_def)
qed

lemma geuant_forms:
  assumes "section_of cj doc ''strategy_params'' obj (''name'' # map key_name geuant_keys)"
    "list_all2 (agrees cj obj a) geuant_keys geuant_set_parser" "says cj (ca_string cj) obj ''name'' [] sn"
  shows "geuant_parse_json cj doc geuant_params_init = Inr ((geuant_init a geuant_params_init)\<lparr>gp_name := sn\<rparr>)"
proof -
  note s = assms(2) [unfolded geuant_keys_def geuant_set_parser_def list_all2_Cons agrees.simps]
  note keys = section_of_keys [OF assms(1), unfolded geuant_keys_def list.map key_name.simps]
  have "says cj (\<lambda>v. map_option nat (ca_int cj SizeT v)) obj ''order_num'' 0 (nat (ar_int a ''--order_num''))"
    using s says_nat [of cj SizeT obj "''order_num''" 0] by simp
  then show ?thesis
    using s assms(3)
    by (elim conjE) (simp add: geuant_parse_json_def make_section_of [OF assms(1)] geuant_params_init_def
      section_get_says section_done_ok [OF keys] geuant_init_def)
qed

lemma listener_forms:
  assumes "section_of cj doc ''listener_config'' obj (map key_name listener_keys)"
    "list_all2 (agrees cj obj a) listener_keys listener_set_parser" "ports_in_range cj"
  shows "listener_parse_json cj doc listener_config_init = Inr (listener_init a)"
proof -
  note s = assms(2) [unfolded listener_keys_def listener_set_parser_def list_all2_Cons agrees.simps]
  note keys = section_of_keys [OF assms(1), unfolded listener_keys_def list.map key_name.simps]
  have "u16 (ar_int a ''--broadcast_port'') = ar_int a ''--broadcast_port''"
    using s says_port [OF assms(3)] by auto
  moreover have "\<not> section_has cj ''products'' \<lparr>sec_obj = obj, sec_name = ''listener_config'', sec_known = []\<rparr>
      \<Longrightarrow> ar_strings a ''--products'' = [''BTCUSDT:futures'']"
    using s by (elim conjE, intro says_absent [where conv = "ca_strings cj" and k = "''products''"]) simp_all
  ultimately show ?thesis
    using s
    by (elim conjE) (simp add: listener_parse_json_def make_section_of [OF assms(1)] listener_config_init_def comp_def
      section_get_says section_tokens_says section_done_ok [OF keys] listener_init_def Let_def default_product default_spec)
qed

lemma section_mode_says:
  assumes "says cj (ca_string cj) (sec_obj s) ''fair_price_mode'' ''MID'' m"
  shows "section_mode cj MID s rest = rest (fair_price_mode_from_string m)
    (if section_has cj ''fair_price_mode'' s then section_skip ''fair_price_mode'' (section_skip ''fair_price_mode'' s)
     else section_skip ''fair_price_mode'' s)"
  using assms
  by (auto simp: says_def section_mode_def section_get_def section_has_def fair_price_mode_from_string_def
      split: option.splits if_splits)

lemma pricer_forms:
  assumes "section_of cj doc ''pricer_config'' obj (map key_name pricer_keys)"
    "list_all2 (agrees cj obj a) pricer_keys pricer_set_parser" "ports_in_range cj"
  shows "pricer_parse_json cj doc pricer_config_init = Inr (pricer_init a)"
proof -
  note s = assms(2) [unfolded pricer_keys_def pricer_set_parser_def list_all2_Cons agrees.simps]
  note keys = section_of_keys [OF assms(1), unfolded pricer_keys_def list.map key_name.simps]
  have "u16 (ar_int a ''--broadcast_port'') = ar_int a ''--broadcast_port''"
    "u16 (ar_int a ''--publish_port'') = ar_int a ''--publish_port''"
    using s says_port [OF assms(3)] by auto
  moreover have "\<not> section_has cj ''products'' \<lparr>sec_obj = obj, sec_name = ''pricer_config'', sec_known = []\<rparr>
      \<Longrightarrow> ar_strings a ''--products'' = [''BTCUSDT:futures'']"
    using s by (elim conjE, intro says_absent [where conv = "ca_strings cj" and k = "''products''"]) simp_all
  ultimately show ?thesis
    using s
    by (elim conjE) (simp add: pricer_parse_json_def make_section_of [OF assms(1)] pricer_config_init_def
      section_get_says section_tokens_says section_mode_says section_done_ok [OF keys] pricer_init_def default_spec)
qed

text \<open>The name of a parameter set is carried, not used.\<close>

lemma quote_parts_name:
  "position_limit_usage bs (ps\<lparr>gp_name := n\<rparr>) = position_limit_usage bs ps"
  "delta_bid (ps\<lparr>gp_name := n\<rparr>) = delta_bid ps" "delta_ask (ps\<lparr>gp_name := n\<rparr>) = delta_ask ps"
  "bid_qty_limit bs (ps\<lparr>gp_name := n\<rparr>) = bid_qty_limit bs ps" "ask_qty_limit bs (ps\<lparr>gp_name := n\<rparr>) = ask_qty_limit bs ps"
  "ladder_bid_price bs (ps\<lparr>gp_name := n\<rparr>) = ladder_bid_price bs ps"
  "ladder_ask_price bs (ps\<lparr>gp_name := n\<rparr>) = ladder_ask_price bs ps"
  "get_order_qty_in_lots bs (ps\<lparr>gp_name := n\<rparr>) = get_order_qty_in_lots bs ps"
  by (intro ext, simp add: position_limit_usage_def delta_bid_def delta_ask_def clip_delta_def bid_qty_limit_def
      ask_qty_limit_def position_limit_def ladder_bid_price_def ladder_ask_price_def price_offset_def
      bid_price_limit_def ask_price_limit_def get_order_qty_in_lots_def)+

lemma ladder_step_name: "ladder_step bs (ps\<lparr>gp_name := n\<rparr>) = ladder_step bs ps"
  unfolding ladder_step_def quote_parts_name by (rule refl)

lemma make_decision_name: "make_decision bs (ps\<lparr>gp_name := n\<rparr>) = make_decision bs ps"
  by (intro ext) (simp add: make_decision_def choose_orders_to_cancel_def ladder_def ladder_step_name)

lemma env_of_name: "env_of (mc\<lparr>mc_name := n\<rparr>) = env_of mc"
  by (intro ext) (simp add: env_of_def)

lemma make_order_handler_name: "make_order_handler (mc\<lparr>mc_name := n\<rparr>) = make_order_handler mc"
  by (intro ext) (simp add: make_order_handler_def env_of_name cong: sum.case_cong)

lemma base_strategy_of_name: "base_strategy_of (mc\<lparr>mc_name := n\<rparr>) = base_strategy_of mc"
  by (simp add: base_strategy_of_def)

lemma config_from_files:
  assumes "ar_string a ''--strategy_name'' = ''Geuant''"
    and "\<not> is_flag p0" "\<not> is_flag p1" "\<not> is_flag p2"
    "load_json_file cj (le_files lv) p0 = Inr d0" "load_json_file cj (le_files lv) p1 = Inr d1"
    "load_json_file cj (le_files lv) p2 = Inr d2" "le_json lv = cj" "ports_in_range cj"
    and "section_of cj d0 ''trader_config'' o0 (map key_name trader_keys)"
    "list_all2 (agrees cj o0 a) trader_keys trader_set_parser"
    and "section_of cj d1 ''market_config'' o1 (''name'' # ''exchange'' # map key_name market_keys)"
    "list_all2 (agrees cj o1 a) market_keys market_set_parser" "says cj (ca_string cj) o1 ''name'' [] mn"
    "says cj (ca_string cj) o1 ''exchange'' [] me" "me = [] \<or> me = ar_string a ''--exchange''"
    and "section_of cj d2 ''strategy_params'' o2 (''name'' # map key_name geuant_keys)"
    "list_all2 (agrees cj o2 a) geuant_keys geuant_set_parser" "says cj (ca_string cj) o2 ''name'' [] sn"
  shows "trader_config_of lv [p0, p1, p2] = Inr (trader_init a, (market_init a market_config_init)\<lparr>mc_name := mn\<rparr>,
    base_strategy_of (market_init a market_config_init), (geuant_init a geuant_params_init)\<lparr>gp_name := sn\<rparr>)"
proof -
  let ?mc = "market_init a market_config_init" and ?ps = "geuant_init a geuant_params_init"
  have "json_launch_paths [p0, p1, p2] = Inr [p0, p1, p2]" using assms(2-4) by simp
  moreover have "trader_parse_json cj d0 trader_config_init = Inr (trader_init a)"
    by (rule trader_forms [OF assms(10,11,9)])
  moreover have "market_parse_json cj d1 (ar_string a ''--exchange'') market_config_init = Inr (?mc\<lparr>mc_name := mn\<rparr>)"
    by (rule market_forms [OF assms(12-16)])
  moreover have "geuant_parse_json cj d2 geuant_params_init = Inr (?ps\<lparr>gp_name := sn\<rparr>)"
    by (rule geuant_forms [OF assms(17-19)])
  moreover have "tc_exchange (trader_init a) = ar_string a ''--exchange''" "tc_strategy_name (trader_init a) = ''Geuant''"
    using assms(1) by (simp_all add: trader_init_def Let_def)
  ultimately have "trader_from_files lv [p0, p1, p2]
      = Inr (trader_init a, ?mc\<lparr>mc_name := mn\<rparr>, Some (base_strategy_of ?mc, ?ps\<lparr>gp_name := sn\<rparr>))"
    using assms(5-8)
    by (simp add: trader_from_files_def init_strategy_from_json_def base_strategy_of_name del: json_launch_paths.simps)
  moreover have "is_json_launch [p0, p1, p2]" using assms(2) by (simp add: is_json_launch_def)
  ultimately show ?thesis by (simp add: trader_config_of_def)
qed

text \<open>
  C22. The two launch forms of the trader are one: when the three files state, field by field, what
  the flags state (a field left out meaning the default that the argument parser declares, and the
  \<open>no_\<close> flags meaning the opposite of their fields), and the files have no field the trader does not
  know, then the trader that starts from the files is the trader that starts from the flags: the same
  configuration, the same handler environment with the same strategy, or the same refusal.
\<close>

theorem launch_forms_agree:
  assumes "\<not> is_json_launch argv" "le_parse_known_args lv trader_set_header_parser argv = Some h"
    "ar_string h ''--strategy_name'' = ''Geuant''"
    "le_parse_args lv (trader_set_parser @ market_set_parser @ geuant_set_parser) argv = Some a"
    "ar_string a ''--strategy_name'' = ''Geuant''"
    and "\<not> is_flag p0" "\<not> is_flag p1" "\<not> is_flag p2"
    "load_json_file cj (le_files lv) p0 = Inr d0" "load_json_file cj (le_files lv) p1 = Inr d1"
    "load_json_file cj (le_files lv) p2 = Inr d2" "le_json lv = cj" "ports_in_range cj"
    and "section_of cj d0 ''trader_config'' o0 (map key_name trader_keys)"
    "list_all2 (agrees cj o0 a) trader_keys trader_set_parser"
    and "section_of cj d1 ''market_config'' o1 (''name'' # ''exchange'' # map key_name market_keys)"
    "list_all2 (agrees cj o1 a) market_keys market_set_parser" "says cj (ca_string cj) o1 ''name'' [] mn"
    "says cj (ca_string cj) o1 ''exchange'' [] me" "me = [] \<or> me = ar_string a ''--exchange''"
    and "section_of cj d2 ''strategy_params'' o2 (''name'' # map key_name geuant_keys)"
    "list_all2 (agrees cj o2 a) geuant_keys geuant_set_parser" "says cj (ca_string cj) o2 ''name'' [] sn"
  shows "trader_start lv clk [p0, p1, p2] = trader_start lv clk argv"
proof -
  have "trader_from_flags lv argv = Inr (trader_init a, market_init a market_config_init,
      Some (base_strategy_of (market_init a market_config_init), geuant_init a geuant_params_init))"
    using assms(2-5)
    by (simp add: trader_from_flags_def set_strategy_specific_parser_def init_strategy_def Let_def)
  then show ?thesis
    using assms(1) config_from_files [OF assms(5-23)]
    by (simp add: trader_start_def make_decision_name make_order_handler_name) (simp add: trader_config_of_def)
qed

section \<open>Accepted files\<close>

lemma section_get_E:
  assumes "section_get cj conv key out s rest = Inr r"
  obtains x where "rest x (section_skip key s) = Inr r"
  using section_get_Inr [OF assms] by blast

lemma section_tokens_E:
  assumes "section_tokens cj key s rest = Inr r"
  obtains ts s' where "rest ts s' = Inr r" "sec_obj s' = sec_obj s" "set (sec_known s') = insert key (set (sec_known s))"
  using assms by (auto simp: section_tokens_def elim!: section_get_E split: if_splits)

lemma accepted_section:
  assumes "(case make_section cj doc name of Inl e \<Rightarrow> Inl e | Inr s \<Rightarrow> rest s) = Inr r"
    "\<And>s. rest s = Inr r \<Longrightarrow> sec_known s = [] \<Longrightarrow> set (ca_keys cj (sec_obj s)) \<subseteq> set ks"
  shows "\<exists>obj. section_of cj doc name obj ks"
  using assms(1) by (auto simp: make_section_Inr section_of_def split: sum.splits dest!: assms(2))

lemma trader_accepts:
  "trader_parse_json cj doc c = Inr c' \<Longrightarrow> \<exists>obj. section_of cj doc ''trader_config'' obj (map key_name trader_keys)"
  unfolding trader_parse_json_def
  by (erule accepted_section) (auto simp: Let_def section_done_Inr trader_keys_def elim!: section_get_E section_tokens_E)

lemma market_accepts:
  assumes "market_parse_json cj doc ex c = Inr c'"
  shows "\<exists>obj. section_of cj doc ''market_config'' obj (''name'' # ''exchange'' # map key_name market_keys)"
    "ex \<noteq> [] \<Longrightarrow> mc_exchange c' = ex"
proof -
  show "\<exists>obj. section_of cj doc ''market_config'' obj (''name'' # ''exchange'' # map key_name market_keys)"
    using assms unfolding market_parse_json_def
    by (rule accepted_section)
      (auto simp: section_done_Inr market_keys_def split: sum.splits elim!: section_get_E)
  show "mc_exchange c' = ex" if "ex \<noteq> []"
    using assms that
    by (auto simp: market_parse_json_def Let_def split: sum.splits if_splits elim!: section_get_E)
qed

lemma geuant_accepts:
  "geuant_parse_json cj doc c = Inr c' \<Longrightarrow> \<exists>obj. section_of cj doc ''strategy_params'' obj (''name'' # map key_name geuant_keys)"
  unfolding geuant_parse_json_def
  by (erule accepted_section) (auto simp: section_done_Inr geuant_keys_def elim!: section_get_E)

text \<open>
  The contract of a \<open>parse_json\<close>: it accepts a document only when the document has its section and
  the section has no key beyond the known ones.  Every configuration of the three processes keeps it.
\<close>

locale checked_section =
  fixes cj :: "'j cfg_api" and read_doc :: "'j \<Rightarrow> cfg_error + 'c" and sec :: string and known :: "string list"
  assumes accepts: "read_doc doc = Inr c \<Longrightarrow> \<exists>obj. section_of cj doc sec obj known"
begin

lemma unknown_key_refused:
  assumes "ca_find cj sec doc = Some obj" "k \<in> set (ca_keys cj obj)" "k \<notin> set known"
  shows "isl (read_doc doc)"
proof (cases "read_doc doc")
  case (Inr c)
  with accepts [OF Inr] assms show ?thesis by (auto simp: section_of_def)
qed simp

lemma missing_section_refused: "ca_find cj sec doc = None \<Longrightarrow> isl (read_doc doc)"
  using accepts [of doc] by (cases "read_doc doc") (auto simp: section_of_def)

end

lemma listener_accepts:
  "listener_parse_json cj doc c = Inr c' \<Longrightarrow> \<exists>obj. section_of cj doc ''listener_config'' obj (map key_name listener_keys)"
  unfolding listener_parse_json_def
  by (erule accepted_section) (auto simp: Let_def section_done_Inr listener_keys_def elim!: section_get_E section_tokens_E)

lemma section_mode_E:
  assumes "section_mode cj m s rest = Inr r"
  obtains m' s' where "rest m' s' = Inr r" "sec_obj s' = sec_obj s"
    "set (sec_known s') = insert ''fair_price_mode'' (set (sec_known s))"
  using assms by (auto simp: section_mode_def elim!: section_get_E split: if_splits)

lemma pricer_accepts:
  "pricer_parse_json cj doc c = Inr c' \<Longrightarrow> \<exists>obj. section_of cj doc ''pricer_config'' obj (map key_name pricer_keys)"
  unfolding pricer_parse_json_def
  by (erule accepted_section)
    (auto simp: section_done_Inr pricer_keys_def elim!: section_get_E section_tokens_E section_mode_E)

lemma factor_accepts:
  "factor_parse_json cj doc c = Inr c' \<Longrightarrow> \<exists>obj. section_of cj doc ''factor_config'' obj (''name'' # map key_name factor_keys)"
  unfolding factor_parse_json_def
  by (erule accepted_section) (auto simp: section_done_Inr factor_keys_def elim!: section_get_E)

lemma microprice_accepts:
  "microprice_parse_json cj doc c = Inr c' \<Longrightarrow> \<exists>obj. section_of cj doc ''factor_params'' obj [''imbalance_exponent'']"
  unfolding microprice_parse_json_def
  by (erule accepted_section) (auto simp: section_done_Inr elim!: section_get_E)

interpretation trader_doc: checked_section cj "\<lambda>doc. trader_parse_json cj doc c" "''trader_config''" "map key_name trader_keys"
  by unfold_locales (rule trader_accepts)

interpretation market_doc: checked_section cj "\<lambda>doc. market_parse_json cj doc ex c" "''market_config''"
    "''name'' # ''exchange'' # map key_name market_keys"
  by unfold_locales (rule market_accepts)

interpretation geuant_doc: checked_section cj "\<lambda>doc. geuant_parse_json cj doc c" "''strategy_params''"
    "''name'' # map key_name geuant_keys"
  by unfold_locales (rule geuant_accepts)

interpretation listener_doc: checked_section cj "\<lambda>doc. listener_parse_json cj doc c" "''listener_config''"
    "map key_name listener_keys"
  by unfold_locales (rule listener_accepts)

interpretation pricer_doc: checked_section cj "\<lambda>doc. pricer_parse_json cj doc c" "''pricer_config''" "map key_name pricer_keys"
  by unfold_locales (rule pricer_accepts)

interpretation factor_doc: checked_section cj "\<lambda>doc. factor_parse_json cj doc c" "''factor_config''"
    "''name'' # map key_name factor_keys"
  by unfold_locales (rule factor_accepts)

interpretation microprice_doc: checked_section cj "\<lambda>doc. microprice_parse_json cj doc c" "''factor_params''"
    "[''imbalance_exponent'']"
  by unfold_locales (rule microprice_accepts)

text \<open>
  C25. A trader that starts from files has read three of them, each with the section it needs, and in
  none of them a field it does not know: a misspelled field stops the launch.  The exchange whose
  units it trades in is the exchange it sends its orders to.
\<close>

theorem misspelled_field_stops_launch:
  assumes "trader_config_of lv argv = Inr (config, market, strategy)" "is_json_launch argv"
  shows "\<exists>p0 p1 p2 d0 d1 d2. argv = [p0, p1, p2]
    \<and> load_json_file (le_json lv) (le_files lv) p0 = Inr d0 \<and> load_json_file (le_json lv) (le_files lv) p1 = Inr d1
    \<and> load_json_file (le_json lv) (le_files lv) p2 = Inr d2
    \<and> (\<exists>obj. section_of (le_json lv) d0 ''trader_config'' obj (map key_name trader_keys))
    \<and> (\<exists>obj. section_of (le_json lv) d1 ''market_config'' obj (''name'' # ''exchange'' # map key_name market_keys))
    \<and> (\<exists>obj. section_of (le_json lv) d2 ''strategy_params'' obj (''name'' # map key_name geuant_keys))
    \<and> (tc_exchange config = [] \<or> mc_exchange market = tc_exchange config)"
proof -
  obtain so where f: "trader_from_files lv argv = Inr (config, market, so)" and so: "so = Some strategy"
    using assms by (auto simp: trader_config_of_def split: sum.splits option.splits if_splits)
  obtain paths where "json_launch_paths argv = Inr paths"
    using f by (auto simp: trader_from_files_def Let_def split: sum.splits)
  then have "json_launch_paths argv = Inr argv" by (simp add: json_launch_paths_Inr)
  with f obtain p0 p1 p2 d0 d1 d2 where argv: "argv = [p0, p1, p2]"
    and l: "load_json_file (le_json lv) (le_files lv) p0 = Inr d0" "load_json_file (le_json lv) (le_files lv) p1 = Inr d1"
      "load_json_file (le_json lv) (le_files lv) p2 = Inr d2"
    and c: "trader_parse_json (le_json lv) d0 trader_config_init = Inr config"
      "market_parse_json (le_json lv) d1 (tc_exchange config) market_config_init = Inr market"
      "init_strategy_from_json (le_json lv) market (tc_strategy_name config) d2 = Inr so"
    by (auto simp: trader_from_files_def Let_def split: sum.splits list.splits simp del: json_launch_paths.simps)
  obtain ps where "geuant_parse_json (le_json lv) d2 geuant_params_init = Inr ps"
    using c(3) so by (auto simp: init_strategy_from_json_def split: sum.splits if_splits)
  note accepted = trader_accepts [OF c(1)] market_accepts(1) [OF c(2)] geuant_accepts [OF this]
  have "tc_exchange config = [] \<or> mc_exchange market = tc_exchange config"
    using market_accepts(2) [OF c(2)] by blast
  then show ?thesis
    by (intro exI [of _ p0] exI [of _ p1] exI [of _ p2] exI [of _ d0] exI [of _ d1] exI [of _ d2] conjI argv l accepted)
qed

text \<open>The same for the listener and the pricer, whose first file is their own.\<close>

lemma listener_unknown_field:
  assumes "\<not> is_flag p" "load_json_file (le_json lv) (le_files lv) p = Inr doc"
    "ca_find (le_json lv) ''listener_config'' doc = Some obj" "k \<in> set (ca_keys (le_json lv) obj)"
    "k \<notin> set (map key_name listener_keys)"
  shows "isl (listener_config_of lv [p])"
  using listener_doc.unknown_key_refused [OF assms(3-5), of listener_config_init] assms(1,2)
  by (auto simp: listener_config_of_def is_json_launch_def Let_def isl_def)

lemma pricer_unknown_field:
  assumes "\<not> is_flag p" "load_json_file (le_json lv) (le_files lv) p = Inr doc"
    "ca_find (le_json lv) ''pricer_config'' doc = Some obj" "k \<in> set (ca_keys (le_json lv) obj)"
    "k \<notin> set (map key_name pricer_keys)"
  shows "isl (pricer_start lv (p # ps))"
proof -
  obtain e where "pricer_parse_json (le_json lv) doc pricer_config_init = Inl e"
    using pricer_doc.unknown_key_refused [OF assms(3-5), of pricer_config_init] by (auto simp: isl_def)
  then have "isl (pricer_from_files lv (p # ps))"
    using assms(1,2) by (auto simp: pricer_from_files_def Let_def split: sum.splits)
  moreover have "is_json_launch (p # ps)" using assms(1) by (simp add: is_json_launch_def)
  ultimately show ?thesis by (auto simp: pricer_start_def isl_def split: sum.splits)
qed

text \<open>Two traders with different names and the same paths write to different files.\<close>

lemma instances_write_apart:
  assumes "ar_string a ''--name'' \<noteq> ar_string b ''--name''" "ar_string a ''--name'' \<noteq> []" "ar_string b ''--name'' \<noteq> []"
    "slash \<notin> set (ar_string a ''--name'')" "slash \<notin> set (ar_string b ''--name'')"
    "ar_string a ''--log_path'' = ar_string b ''--log_path''"
    "ar_string a ''--order_record_save_path'' = ar_string b ''--order_record_save_path''"
    "ar_string a ''--order_decision_save_path'' = ar_string b ''--order_decision_save_path''"
  shows "tc_log_path (trader_init a) \<noteq> tc_log_path (trader_init b)"
    "tc_order_record_save_path (trader_init a) \<noteq> tc_order_record_save_path (trader_init b)"
    "tc_order_decision_save_path (trader_init a) \<noteq> tc_order_decision_save_path (trader_init b)"
  using assms by (simp_all add: trader_init_def Let_def named_log_path_eq named_save_path_eq)

section \<open>A launch in both forms\<close>

datatype demo_cfg_json = DBool bool | DNum int | DText string | DObj "(string \<times> demo_cfg_json) list"

fun demo_find :: "string \<Rightarrow> demo_cfg_json \<Rightarrow> demo_cfg_json option" where
  "demo_find k (DObj kvs) = map_of kvs k"
| "demo_find k _ = None"

fun demo_keys :: "demo_cfg_json \<Rightarrow> string list" where
  "demo_keys (DObj kvs) = map fst kvs"
| "demo_keys _ = []"

fun demo_string :: "demo_cfg_json \<Rightarrow> string option" where
  "demo_string (DText t) = Some t"
| "demo_string _ = None"

fun demo_bool :: "demo_cfg_json \<Rightarrow> bool option" where
  "demo_bool (DBool b) = Some b"
| "demo_bool _ = None"

fun demo_int :: "int_type \<Rightarrow> demo_cfg_json \<Rightarrow> int option" where
  "demo_int t (DNum i) = Some (if t = U16 then i mod 65536 else i)"
| "demo_int t _ = None"

fun demo_double :: "demo_cfg_json \<Rightarrow> dbl option" where
  "demo_double (DNum i) = Some (Fin (of_int i))"
| "demo_double _ = None"

definition demo_docs :: "string \<Rightarrow> demo_cfg_json option" where
  "demo_docs t =
     (if t = ''T'' then Some (DObj [(''trader_config'',
           DObj [(''order_update_interval_ms'', DNum 500), (''flatten_on_shutdown'', DBool False)])])
      else if t = ''M'' then Some (DObj [(''market_config'', DObj [(''min_tick_size'', DNum 1), (''default_lot_size'', DNum 1)])])
      else if t = ''S'' then Some (DObj [(''strategy_params'', DObj [(''name'', DText ''1''), (''order_lots'', DNum 2)])])
      else None)"

definition demo_cfg_api :: "demo_cfg_json cfg_api" where
  "demo_cfg_api = \<lparr>ca_parse = demo_docs, ca_find = demo_find, ca_is_object = (\<lambda>j. case j of DObj _ \<Rightarrow> True | _ \<Rightarrow> False),
     ca_is_null = (\<lambda>_. False), ca_keys = demo_keys, ca_string = demo_string, ca_bool = demo_bool, ca_int = demo_int,
     ca_double = demo_double, ca_strings = (\<lambda>_. None)\<rparr>"

definition string_default :: "arg_decl list \<Rightarrow> string \<Rightarrow> string" where
  "string_default ds n = (case [v. StringArg m v \<leftarrow> ds, m = n] of v # _ \<Rightarrow> v | [] \<Rightarrow> [])"

definition int_default :: "arg_decl list \<Rightarrow> string \<Rightarrow> int" where
  "int_default ds n = (case [v. IntArg m v \<leftarrow> ds, m = n] of v # _ \<Rightarrow> v | [] \<Rightarrow> 0)"

definition strings_default :: "arg_decl list \<Rightarrow> string \<Rightarrow> string list" where
  "strings_default ds n = (case [v. ListArg m v \<leftarrow> ds, m = n] of v # _ \<Rightarrow> v | [] \<Rightarrow> [])"

definition demo_args :: "arg_decl list \<Rightarrow> args" where
  "demo_args ds = \<lparr>ar_string = string_default ds,
     ar_int = (\<lambda>n. if n = ''--order_update_interval_ms'' then 500 else if n = ''--order_lots'' then 2 else int_default ds n),
     ar_bool = (\<lambda>n. n = ''--no_flatten_on_shutdown''),
     ar_double = (\<lambda>n. if n = ''--min_tick_size'' \<or> n = ''--default_lot_size'' then Fin 1 else Fin 0),
     ar_strings = strings_default ds\<rparr>"

definition demo_launch :: "demo_cfg_json launch_env" where
  "demo_launch = \<lparr>le_json = demo_cfg_api,
     le_files = (\<lambda>p. if p = ''t.json'' then Some ''T'' else if p = ''m.json'' then Some ''M'' else if p = ''s.json'' then Some ''S'' else None),
     le_parse_args = (\<lambda>ds argv. Some (demo_args ds)), le_parse_known_args = (\<lambda>ds argv. Some (demo_args ds))\<rparr>"

definition demo_argv :: "string list" where
  "demo_argv = [''--order_update_interval_ms'', ''500'', ''--no_flatten_on_shutdown'', ''--min_tick_size'', ''1'',
     ''--default_lot_size'', ''1'', ''--order_lots'', ''2'']"

definition demo_obj :: "string \<Rightarrow> string \<Rightarrow> demo_cfg_json" where
  "demo_obj t name = the (demo_find name (the (demo_docs t)))"

abbreviation demo_all_args :: args where
  "demo_all_args \<equiv> demo_args (trader_set_parser @ market_set_parser @ geuant_set_parser)"

lemma demo_ports: "ports_in_range demo_cfg_api"
  unfolding ports_in_range_def
proof (intro allI impI)
  fix v i assume "ca_int demo_cfg_api U16 v = Some i"
  then show "0 \<le> i \<and> i < 65536" by (cases v) (auto simp: demo_cfg_api_def)
qed

lemma demo_agrees:
  "list_all2 (agrees demo_cfg_api (demo_obj ''T'' ''trader_config'') demo_all_args) trader_keys trader_set_parser"
  "list_all2 (agrees demo_cfg_api (demo_obj ''M'' ''market_config'') demo_all_args) market_keys market_set_parser"
  "list_all2 (agrees demo_cfg_api (demo_obj ''S'' ''strategy_params'') demo_all_args) geuant_keys geuant_set_parser"
  by code_simp+

lemma demo_sections:
  "section_of demo_cfg_api (the (demo_docs ''T'')) ''trader_config'' (demo_obj ''T'' ''trader_config'') (map key_name trader_keys)"
  "section_of demo_cfg_api (the (demo_docs ''M'')) ''market_config'' (demo_obj ''M'' ''market_config'')
     (''name'' # ''exchange'' # map key_name market_keys)"
  "section_of demo_cfg_api (the (demo_docs ''S'')) ''strategy_params'' (demo_obj ''S'' ''strategy_params'')
     (''name'' # map key_name geuant_keys)"
  by code_simp+

lemma demo_files:
  "load_json_file demo_cfg_api (le_files demo_launch) ''t.json'' = Inr (the (demo_docs ''T''))"
  "load_json_file demo_cfg_api (le_files demo_launch) ''m.json'' = Inr (the (demo_docs ''M''))"
  "load_json_file demo_cfg_api (le_files demo_launch) ''s.json'' = Inr (the (demo_docs ''S''))"
  by code_simp+

lemma demo_names:
  "says demo_cfg_api (ca_string demo_cfg_api) (demo_obj ''M'' ''market_config'') ''name'' [] []"
  "says demo_cfg_api (ca_string demo_cfg_api) (demo_obj ''M'' ''market_config'') ''exchange'' [] []"
  "says demo_cfg_api (ca_string demo_cfg_api) (demo_obj ''S'' ''strategy_params'') ''name'' [] ''1''"
  by code_simp+

lemma demo_flags_form:
  "\<not> is_json_launch demo_argv" "\<not> is_flag ''t.json''" "\<not> is_flag ''m.json''" "\<not> is_flag ''s.json''"
  "ar_string demo_all_args ''--strategy_name'' = ''Geuant''"
  "ar_string (demo_args trader_set_header_parser) ''--strategy_name'' = ''Geuant''"
  by code_simp+

lemma demo_parsed:
  "le_parse_known_args demo_launch trader_set_header_parser demo_argv = Some (demo_args trader_set_header_parser)"
  "le_parse_args demo_launch (trader_set_parser @ market_set_parser @ geuant_set_parser) demo_argv = Some demo_all_args"
  "le_json demo_launch = demo_cfg_api"
  by (simp_all add: demo_launch_def)

theorem launch_forms_agree_witness:
  "trader_start demo_launch (\<lambda>n. int n) [''t.json'', ''m.json'', ''s.json''] = trader_start demo_launch (\<lambda>n. int n) demo_argv"
  by (rule launch_forms_agree [OF demo_flags_form(1) demo_parsed(1) demo_flags_form(6) demo_parsed(2) demo_flags_form(5)
    demo_flags_form(2-4) demo_files demo_parsed(3) demo_ports demo_sections(1) demo_agrees(1) demo_sections(2) demo_agrees(2)
    demo_names(1,2) _ demo_sections(3) demo_agrees(3) demo_names(3)]) simp

lemmas demo_accepted = config_from_files [OF demo_flags_form(5) demo_flags_form(2-4) demo_files demo_parsed(3) demo_ports
  demo_sections(1) demo_agrees(1) demo_sections(2) demo_agrees(2) demo_names(1,2) disjI1 [OF refl]
  demo_sections(3) demo_agrees(3) demo_names(3)]

theorem misspelled_field_stops_launch_witness:
  "\<exists>c mc st p0 d0 obj. trader_config_of demo_launch [''t.json'', ''m.json'', ''s.json''] = Inr (c, mc, st)
    \<and> p0 = ''t.json'' \<and> load_json_file (le_json demo_launch) (le_files demo_launch) p0 = Inr d0
    \<and> section_of (le_json demo_launch) d0 ''trader_config'' obj (map key_name trader_keys)"
proof -
  have "is_json_launch [''t.json'', ''m.json'', ''s.json'']" by (simp add: is_json_launch_def is_flag_def)
  from misspelled_field_stops_launch [OF demo_accepted this] show ?thesis using demo_accepted by blast
qed

end
