(* ===== verification/Tcp_Service.thy ===== *)
theory Tcp_Service
  imports Tcp_Server
begin

text \<open>
  The feed server as a whole (\<open>TcpServer\<close> of \<open>connection_handlers/tcp/tcp_server.cpp\<close>): accepting,
  the task queue between the io thread, the owner's thread and the worker, and stopping.  The queue
  keeps the order of each producer and none between producers, so it is two lists here: the tasks of
  the io thread (sessions) and those of the owner (broadcasts, product information); the worker takes
  the head of either.  Stopping is two steps, around the join of the worker; in between the worker may
  still finish what it has taken (here: any number of tasks).  A session is the state machine of \<open>Tcp_Server\<close>; its number is the order of
  acceptance.  \<open>sc_handled\<close> is history: the tasks the worker has done.

  Shown here: what the worker sends to a session is written to its socket, in order, and a broadcast
  reaches every session that was subscribed when the worker came to it.
\<close>

record tcp_service =
  sc_running :: bool
  sc_worker :: bool
  sc_accepting :: bool
  sc_next :: nat
  sc_sessions :: "nat \<Rightarrow> tcp_session option"
  sc_io_tasks :: "server_task list"
  sc_feed_tasks :: "server_task list"
  sc_tables :: tcp_server
  sc_handled :: "server_task list"

section \<open>Operations\<close>

definition make_service :: tcp_service where
  "make_service = \<lparr>sc_running = False, sc_worker = False, sc_accepting = False, sc_next = 0, sc_sessions = Map.empty,
     sc_io_tasks = [], sc_feed_tasks = [], sc_tables = tcp_server_init, sc_handled = []\<rparr>"

definition service_start :: "tcp_service \<Rightarrow> tcp_service" where
  "service_start sc = sc\<lparr>sc_running := True, sc_worker := True, sc_accepting := True\<rparr>"

definition broadcast_to_subscribers :: "product \<Rightarrow> string \<Rightarrow> tcp_service \<Rightarrow> tcp_service" where
  "broadcast_to_subscribers p json sc =
     (if \<not> sc_running sc then sc else sc\<lparr>sc_feed_tasks := sc_feed_tasks sc @ [BroadcastMessage p json]\<rparr>)"

definition set_product_info :: "product \<Rightarrow> product_info_data \<Rightarrow> tcp_service \<Rightarrow> tcp_service" where
  "set_product_info p info sc =
     (if \<not> sc_running sc then sc else sc\<lparr>sc_feed_tasks := sc_feed_tasks sc @ [ProductInfoUpdate p info]\<rparr>)"

text \<open>A completed accept: the new session is started (\<open>add_session\<close>), and the next accept is armed while running.\<close>

definition on_accept :: "bool \<Rightarrow> tcp_service \<Rightarrow> tcp_service" where
  "on_accept ec sc =
     (let sc1 =
        (if ec then sc
         else case session_start (sc_next sc) tcp_session_init of (s, ts) \<Rightarrow>
           sc\<lparr>sc_sessions := (sc_sessions sc)(sc_next sc \<mapsto> s), sc_io_tasks := sc_io_tasks sc @ ts,
              sc_next := Suc (sc_next sc)\<rparr>)
      in sc1\<lparr>sc_accepting := sc_running sc1\<rparr>)"

text \<open>The tasks a completion of a session queues (\<open>remove_session\<close>, \<open>notify_subscribe\<close>, \<open>notify_unsubscribe\<close>).\<close>

fun session_tasks :: "tcp_env \<Rightarrow> nat \<Rightarrow> session_event \<Rightarrow> tcp_session \<Rightarrow> server_task list" where
  "session_tasks te sid (Written ec pr) s = snd (session_on_written sid ec pr s)"
| "session_tasks te sid (ReadDone ec bytes) s = snd (session_on_read te sid ec bytes s)"
| "session_tasks te sid _ s = []"

definition on_session_event :: "tcp_env \<Rightarrow> nat \<Rightarrow> session_event \<Rightarrow> tcp_session \<Rightarrow> tcp_service \<Rightarrow> tcp_service" where
  "on_session_event te sid e s sc =
     sc\<lparr>sc_sessions := (sc_sessions sc)(sid \<mapsto> session_step te sid e s),
        sc_io_tasks := sc_io_tasks sc @ session_tasks te sid e s\<rparr>"

text \<open>One round of the worker: its task, and the messages the task sends, each to its session.\<close>

definition messages_to :: "nat \<Rightarrow> (nat \<times> string) list \<Rightarrow> string list" where
  "messages_to sid sent = map snd (filter (\<lambda>e. fst e = sid) sent)"

definition handle_server_task :: "tcp_env \<Rightarrow> server_task \<Rightarrow> tcp_service \<Rightarrow> tcp_service" where
  "handle_server_task te t sc =
     (let tables = worker_task te t (sc_tables sc);
          sent = drop (length (sv_sent (sc_tables sc))) (sv_sent tables)
      in sc\<lparr>sc_tables := tables, sc_handled := sc_handled sc @ [t],
            sc_sessions := (\<lambda>sid. map_option (fold (send_message Worker_Thread) (messages_to sid sent)) (sc_sessions sc sid))\<rparr>)"

definition begin_stop :: "tcp_service \<Rightarrow> tcp_service" where
  "begin_stop sc = (if \<not> sc_running sc then sc else sc\<lparr>sc_running := False\<rparr>)"

text \<open>After the join: close every session of the tables, and clear them.\<close>

definition end_stop :: "tcp_service \<Rightarrow> tcp_service" where
  "end_stop sc =
     (let sids = om_keys (sv_session_to_products (sc_tables sc))
      in sc\<lparr>sc_worker := False,
            sc_sessions := (\<lambda>sid. if sid \<in> set sids then map_option (\<lambda>s. fst (session_close sid s)) (sc_sessions sc sid)
                                  else sc_sessions sc sid),
            sc_io_tasks := sc_io_tasks sc @ map RemoveSession sids,
            sc_tables := (sc_tables sc)\<lparr>sv_session_to_products := [], sv_product_to_sessions := []\<rparr>\<rparr>)"

section \<open>Runs\<close>

inductive service_step :: "tcp_env \<Rightarrow> tcp_service \<Rightarrow> tcp_service \<Rightarrow> bool" for te where
  broadcast: "service_step te sc (broadcast_to_subscribers p json sc)"
| product_info: "service_step te sc (set_product_info p info sc)"
| accept: "sc_accepting sc \<Longrightarrow> service_step te sc (on_accept ec sc)"
| session: "sc_sessions sc sid = Some s \<Longrightarrow> session_event_ok e s \<Longrightarrow> \<forall>pr m. e \<noteq> SendMessage pr m
    \<Longrightarrow> service_step te sc (on_session_event te sid e s sc)"
| io_task: "sc_worker sc \<Longrightarrow> sc_io_tasks sc = t # ts
    \<Longrightarrow> service_step te sc (handle_server_task te t (sc\<lparr>sc_io_tasks := ts\<rparr>))"
| feed_task: "sc_worker sc \<Longrightarrow> sc_feed_tasks sc = t # ts
    \<Longrightarrow> service_step te sc (handle_server_task te t (sc\<lparr>sc_feed_tasks := ts\<rparr>))"
| stopping: "service_step te sc (begin_stop sc)"
| stopped: "\<not> sc_running sc \<Longrightarrow> sc_worker sc \<Longrightarrow> service_step te sc (end_stop sc)"

inductive service_reach :: "tcp_env \<Rightarrow> tcp_service \<Rightarrow> bool" for te where
  start: "service_reach te (service_start make_service)"
| step: "service_reach te sc \<Longrightarrow> service_step te sc sc' \<Longrightarrow> service_reach te sc'"

section \<open>Sessions and the worker's messages\<close>

lemma worker_messages_sel:
  "ss_active (fold (send_message Worker_Thread) ms s) = ss_active s"
  "ss_active s \<Longrightarrow> ss_accepted (fold (send_message Worker_Thread) ms s) Worker_Thread = ss_accepted s Worker_Thread @ ms"
  "session_inv s \<Longrightarrow> session_inv (fold (send_message Worker_Thread) ms s)"
  by (induction ms arbitrary: s) (simp_all add: inv_send_message, simp_all add: send_message_def)

lemma handle_lines_keeps:
  "ss_active (fst (session_handle_lines te sid ls s)) = ss_active s
    \<and> ss_accepted (fst (session_handle_lines te sid ls s)) Worker_Thread = ss_accepted s Worker_Thread"
proof (induction te sid ls s rule: session_handle_lines.induct)
  case (2 te sid l ls s)
  have "ss_active (fst (session_handle_message te sid l s)) = ss_active s
      \<and> ss_accepted (fst (session_handle_message te sid l s)) Worker_Thread = ss_accepted s Worker_Thread"
    by (auto simp: session_handle_message_def answer_subscription_def send_message_def split: option.splits)
  then show ?case using 2 by (auto simp: case_prod_unfold prod_eq_iff)
qed simp

lemma session_step_keeps:
  assumes "\<forall>pr m. e \<noteq> SendMessage pr m" "ss_active (session_step te sid e s)"
  shows "ss_active s \<and> ss_accepted (session_step te sid e s) Worker_Thread = ss_accepted s Worker_Thread"
proof (cases e)
  case (ReadDone ec bytes)
  with assms(2) have "\<not> ec" "ss_active s" by (auto simp: session_on_read_def session_close_def split: if_splits)
  with ReadDone show ?thesis by (simp add: session_on_read_def case_prod_unfold handle_lines_keeps)
qed (use assms in \<open>auto simp: session_run_posted_def session_do_write_def session_on_written_def session_close_def Let_def
    split: list.splits if_splits\<close>)

lemma session_step_inv: "session_inv s \<Longrightarrow> session_event_ok e s \<Longrightarrow> session_inv (session_step te sid e s)"
  by (cases e) (simp_all add: inv_send_message inv_run_posted inv_on_written inv_on_read)

lemma messages_to_simps [simp]:
  "messages_to sid [] = []"
  "messages_to sid (xs @ ys) = messages_to sid xs @ messages_to sid ys"
  by (simp_all add: messages_to_def)

lemma worker_task_grows: "\<exists>new. sv_sent (worker_task te t s) = sv_sent s @ new"
  by (cases t) (auto simp: remove_session_task_def subscribe_task_def unsubscribe_task_def Let_def split: option.splits)

section \<open>The order of the tasks\<close>

fun task_below :: "nat \<Rightarrow> server_task \<Rightarrow> bool" where
  "task_below n (AddSession sid) = (sid < n)"
| "task_below n (RemoveSession sid) = (sid < n)"
| "task_below n (SubscribeProduct sid p) = (sid < n)"
| "task_below n (UnsubscribeProduct sid p) = (sid < n)"
| "task_below n _ = True"

fun from_owner :: "server_task \<Rightarrow> bool" where
  "from_owner (BroadcastMessage p json) = True"
| "from_owner (ProductInfoUpdate p info) = True"
| "from_owner _ = False"

fun adds_session :: "server_task \<Rightarrow> bool" where
  "adds_session (AddSession sid) = True"
| "adds_session _ = False"

lemma tasks_ok_owner: "from_owner t \<Longrightarrow> tasks_ok known (ts @ t # us) = tasks_ok known (ts @ us)"
  by (induction known ts rule: tasks_ok.induct) (cases t; simp)+

lemma tasks_ok_requests: "list_all (\<lambda>t. \<not> adds_session t) us \<Longrightarrow> tasks_ok known us"
  by (induction known us rule: tasks_ok.induct) simp_all

lemma tasks_ok_append_requests:
  "tasks_ok known ts \<Longrightarrow> list_all (\<lambda>t. \<not> adds_session t) us \<Longrightarrow> tasks_ok known (ts @ us)"
  by (induction known ts rule: tasks_ok.induct) (simp_all add: tasks_ok_requests)

lemma tasks_ok_append_add:
  "tasks_ok known ts \<Longrightarrow> list_all (task_below n) ts \<Longrightarrow> \<forall>sid\<in>set known. sid < n \<Longrightarrow> tasks_ok known (ts @ [AddSession n])"
  by (induction known ts rule: tasks_ok.induct) auto

lemma task_below_mono: "task_below n t \<Longrightarrow> n \<le> m \<Longrightarrow> task_below m t"
  by (cases t) simp_all

lemma handle_lines_tasks:
  "list_all (\<lambda>t. \<not> adds_session t \<and> (\<forall>n > sid. task_below n t)) (snd (session_handle_lines te sid ls s))"
proof (induction te sid ls s rule: session_handle_lines.induct)
  case (2 te sid l ls s)
  have "list_all (\<lambda>t. \<not> adds_session t \<and> (\<forall>n > sid. task_below n t)) (snd (session_handle_message te sid l s))"
    by (simp add: session_handle_message_def answer_subscription_def split: option.splits)
  then show ?case using 2 by (simp add: case_prod_unfold prod_eq_iff)
qed simp

lemma session_tasks_ok: "list_all (\<lambda>t. \<not> adds_session t \<and> (\<forall>n > sid. task_below n t)) (session_tasks te sid e s)"
  by (cases e) (simp_all add: session_on_written_def session_on_read_def session_close_def Let_def case_prod_unfold handle_lines_tasks)

definition tables_below :: "nat \<Rightarrow> tcp_server \<Rightarrow> bool" where
  "tables_below n s \<longleftrightarrow> (\<forall>p. \<forall>sid\<in>set (subscribers s p). sid < n) \<and> (\<forall>e\<in>set (sv_sent s). fst e < n)"

definition registered_below :: "nat \<Rightarrow> tcp_server \<Rightarrow> bool" where
  "registered_below n s \<longleftrightarrow> fst ` set (sv_session_to_products s) \<subseteq> {..<n}"

lemma worker_task_registered:
  assumes "registered_below n s" "task_below n t"
  shows "registered_below n (worker_task te t s)"
proof (cases t)
  case (RemoveSession sid)
  then show ?thesis
    using assms by (auto simp: registered_below_def remove_session_task_def om_erase_def split: option.splits)
next
  case (SubscribeProduct sid p)
  then show ?thesis using assms by (simp add: registered_below_def subscribe_task_def Let_def split: option.splits)
next
  case (UnsubscribeProduct sid p)
  then show ?thesis using assms by (simp add: registered_below_def unsubscribe_task_def Let_def split: option.splits)
qed (use assms in \<open>simp_all add: registered_below_def split: option.splits\<close>)

lemma worker_task_below:
  assumes "tables_below n s" "task_below n t"
  shows "tables_below n (worker_task te t s)"
proof (cases t)
  case (RemoveSession sid)
  then show ?thesis
    using assms by (auto simp: tables_below_def remove_session_task_def subscribers_def om_at_drops split: option.splits if_splits)
next
  case (SubscribeProduct sid p)
  have "set (sv_sent (subscribe_task te sid p s)) \<subseteq> set (sv_sent s) \<union> {sid} \<times> UNIV"
    by (auto simp: subscribe_task_def Let_def split: option.splits)
  then show ?thesis
    using SubscribeProduct assms by (fastforce simp: tables_below_def subscribe_tables split: if_splits)
next
  case (UnsubscribeProduct sid p)
  have "sv_sent (unsubscribe_task sid p s) = sv_sent s" by (simp add: unsubscribe_task_def Let_def split: option.splits)
  then show ?thesis using UnsubscribeProduct assms by (auto simp: tables_below_def unsubscribe_tables split: if_splits)
next
  case (BroadcastMessage p json)
  have "\<forall>sid\<in>set ss. sid < n" if "map_of (sv_product_to_sessions s) p = Some ss" for ss
  proof -
    have "subscribers s p = ss" using that by (simp add: subscribers_def om_at_def)
    then show ?thesis using assms(1) by (auto simp: tables_below_def)
  qed
  then show ?thesis
    using BroadcastMessage assms by (fastforce simp: tables_below_def subscribers_def split: option.splits)
qed (use assms in \<open>simp_all add: tables_below_def subscribers_def\<close>)

lemma messages_to_fresh: "tables_below n s \<Longrightarrow> n \<le> sid \<Longrightarrow> messages_to sid (sv_sent s) = []"
  by (auto simp: messages_to_def tables_below_def filter_empty_conv)

section \<open>The invariant of a run\<close>

definition sessions_inv :: "tcp_service \<Rightarrow> bool" where
  "sessions_inv sc \<longleftrightarrow> (\<forall>sid s. sc_sessions sc sid = Some s \<longrightarrow> sid < sc_next sc \<and> session_inv s
     \<and> (ss_active s \<longrightarrow> ss_accepted s Worker_Thread = messages_to sid (sv_sent (sc_tables sc))))"

definition queues_inv :: "tcp_service \<Rightarrow> bool" where
  "queues_inv sc \<longleftrightarrow> tasks_ok [] (sc_handled sc @ sc_io_tasks sc)
     \<and> list_all (task_below (sc_next sc)) (sc_handled sc @ sc_io_tasks sc)
     \<and> list_all from_owner (sc_feed_tasks sc)"

definition tables_inv :: "tcp_env \<Rightarrow> tcp_service \<Rightarrow> bool" where
  "tables_inv te sc \<longleftrightarrow> tables_below (sc_next sc) (sc_tables sc) \<and> registered_below (sc_next sc) (sc_tables sc)
     \<and> sv_sent (sc_tables sc) = sv_sent (broadcast_worker te (sc_handled sc) tcp_server_init)
     \<and> (sc_worker sc \<longrightarrow> sc_tables sc = broadcast_worker te (sc_handled sc) tcp_server_init)"

definition service_inv :: "tcp_env \<Rightarrow> tcp_service \<Rightarrow> bool" where
  "service_inv te sc \<longleftrightarrow> sessions_inv sc \<and> queues_inv sc \<and> tables_inv te sc"

lemmas service_inv_defs = service_inv_def sessions_inv_def queues_inv_def tables_inv_def

lemma inv_start: "service_inv te (service_start make_service)"
  by (simp add: service_inv_defs service_start_def make_service_def tables_below_def registered_below_def
      subscribers_def om_at_def tcp_server_init_def broadcast_worker_def)

lemma inv_owner:
  "service_inv te sc \<Longrightarrow> service_inv te (broadcast_to_subscribers p json sc)"
  "service_inv te sc \<Longrightarrow> service_inv te (set_product_info p info sc)"
  by (simp_all add: service_inv_defs broadcast_to_subscribers_def set_product_info_def)

lemma tables_below_mono:
  "tables_below n s \<Longrightarrow> n \<le> m \<Longrightarrow> tables_below m s"
  "registered_below n s \<Longrightarrow> n \<le> m \<Longrightarrow> registered_below m s"
  by (fastforce simp: tables_below_def, auto simp: registered_below_def)

lemma inv_accept:
  assumes "service_inv te sc"
  shows "service_inv te (on_accept ec sc)"
proof (cases ec)
  case False
  let ?n = "sc_next sc"
  have start: "session_inv tcp_session_init" "ss_accepted tcp_session_init pr = []" for pr
    by (simp_all add: session_inv_def tcp_session_init_def framed_def written_by_def)
  have ok: "tasks_ok [] (sc_handled sc @ sc_io_tasks sc)" and below: "list_all (task_below ?n) (sc_handled sc @ sc_io_tasks sc)"
    and tables: "tables_below ?n (sc_tables sc)"
    using assms by (simp_all add: service_inv_defs)
  have "tasks_ok [] ((sc_handled sc @ sc_io_tasks sc) @ [AddSession ?n])"
    by (rule tasks_ok_append_add [OF ok below]) simp
  moreover have "list_all (task_below (Suc ?n)) (sc_handled sc @ sc_io_tasks sc)"
    using below task_below_mono [of ?n _ "Suc ?n"] by (simp add: list_all_iff)
  moreover have "tables_below (Suc ?n) (sc_tables sc)" using tables by (rule tables_below_mono(1)) simp
  moreover have "registered_below (Suc ?n) (sc_tables sc)"
    by (rule tables_below_mono(2) [of ?n]) (use assms in \<open>simp_all add: service_inv_defs\<close>)
  moreover have "messages_to ?n (sv_sent (sc_tables sc)) = []" using tables by (rule messages_to_fresh) simp
  ultimately show ?thesis
    using assms False start by (auto simp: service_inv_defs on_accept_def session_start_def less_Suc_eq)
qed (use assms in \<open>simp add: service_inv_defs on_accept_def\<close>)

lemma inv_session:
  assumes inv: "service_inv te sc" and sid: "sc_sessions sc sid = Some s" and e: "session_event_ok e s" "\<forall>pr m. e \<noteq> SendMessage pr m"
  shows "service_inv te (on_session_event te sid e s sc)"
proof -
  have below: "sid < sc_next sc" and "session_inv s" using inv sid by (simp_all add: service_inv_defs)
  then have "session_inv (session_step te sid e s)" using e by (simp add: session_step_inv)
  moreover have "ss_accepted (session_step te sid e s) Worker_Thread = messages_to sid (sv_sent (sc_tables sc))"
    if "ss_active (session_step te sid e s)"
    using session_step_keeps [OF e(2) that] inv sid by (simp add: service_inv_defs)
  ultimately have "sessions_inv (on_session_event te sid e s sc)"
    using inv below by (auto simp: service_inv_def sessions_inv_def on_session_event_def)
  moreover have "tasks_ok [] ((sc_handled sc @ sc_io_tasks sc) @ session_tasks te sid e s)"
    by (rule tasks_ok_append_requests)
      (use inv session_tasks_ok [of sid te e s] in \<open>auto simp: service_inv_defs list_all_iff\<close>)
  moreover have "list_all (task_below (sc_next sc)) (session_tasks te sid e s)"
    using session_tasks_ok [of sid te e s] below by (auto simp: list_all_iff)
  ultimately show ?thesis using inv by (simp add: service_inv_def queues_inv_def tables_inv_def on_session_event_def)
qed

text \<open>The worker's round, on a state whose queue has just given up the task.\<close>

lemma handle_server_task_sel:
  "sc_io_tasks (handle_server_task te t sc) = sc_io_tasks sc" "sc_feed_tasks (handle_server_task te t sc) = sc_feed_tasks sc"
  "sc_handled (handle_server_task te t sc) = sc_handled sc @ [t]" "sc_next (handle_server_task te t sc) = sc_next sc"
  by (simp_all add: handle_server_task_def Let_def)

lemma inv_queue_frame:
  "sessions_inv (sc\<lparr>sc_io_tasks := ts\<rparr>) = sessions_inv sc" "tables_inv te (sc\<lparr>sc_io_tasks := ts\<rparr>) = tables_inv te sc"
  "sessions_inv (sc\<lparr>sc_feed_tasks := ts\<rparr>) = sessions_inv sc" "tables_inv te (sc\<lparr>sc_feed_tasks := ts\<rparr>) = tables_inv te sc"
  by (simp_all add: sessions_inv_def tables_inv_def)

lemma inv_worker:
  assumes inv: "sessions_inv sc" "tables_inv te sc" and w: "sc_worker sc" and t: "task_below (sc_next sc) t"
  shows "sessions_inv (handle_server_task te t sc) \<and> tables_inv te (handle_server_task te t sc)"
proof -
  let ?tables = "worker_task te t (sc_tables sc)"
  obtain new where new: "sv_sent ?tables = sv_sent (sc_tables sc) @ new"
    using worker_task_grows by blast
  then have sel: "sc_tables (handle_server_task te t sc) = ?tables" "sc_handled (handle_server_task te t sc) = sc_handled sc @ [t]"
    "sc_next (handle_server_task te t sc) = sc_next sc"
    "sc_sessions (handle_server_task te t sc) sid = map_option (fold (send_message Worker_Thread) (messages_to sid new)) (sc_sessions sc sid)" for sid
    by (simp_all add: handle_server_task_def Let_def)
  have "sessions_inv (handle_server_task te t sc)"
    using inv(1) by (auto simp: sessions_inv_def sel new worker_messages_sel)
  moreover have "?tables = broadcast_worker te (sc_handled sc @ [t]) tcp_server_init"
    using inv(2) w by (simp add: tables_inv_def broadcast_worker_def)
  ultimately show ?thesis
    using inv(2) t worker_task_below [of "sc_next sc" "sc_tables sc" t te] worker_task_registered [of "sc_next sc" "sc_tables sc" t te]
    by (simp add: tables_inv_def sel)
qed

lemma inv_io_task:
  assumes inv: "service_inv te sc" and w: "sc_worker sc" and q: "sc_io_tasks sc = t # ts"
  shows "service_inv te (handle_server_task te t (sc\<lparr>sc_io_tasks := ts\<rparr>))"
proof -
  have "task_below (sc_next sc) t" using inv q by (simp add: service_inv_def queues_inv_def)
  then show ?thesis
    using inv_worker [of "sc\<lparr>sc_io_tasks := ts\<rparr>" te t] inv w q
    by (simp add: service_inv_def queues_inv_def handle_server_task_sel inv_queue_frame)
qed

lemma inv_feed_task:
  assumes inv: "service_inv te sc" and w: "sc_worker sc" and q: "sc_feed_tasks sc = t # ts"
  shows "service_inv te (handle_server_task te t (sc\<lparr>sc_feed_tasks := ts\<rparr>))"
proof -
  have t: "from_owner t" using inv q by (simp add: service_inv_def queues_inv_def)
  then have "task_below (sc_next sc) t" by (cases t) simp_all
  then show ?thesis
    using inv_worker [of "sc\<lparr>sc_feed_tasks := ts\<rparr>" te t] inv w q tasks_ok_owner [OF t]
    by (simp add: service_inv_def queues_inv_def handle_server_task_sel inv_queue_frame)
qed

lemma inv_end_stop:
  assumes "service_inv te sc"
  shows "service_inv te (end_stop sc)"
proof -
  let ?sids = "om_keys (sv_session_to_products (sc_tables sc))"
  have "session_inv s \<Longrightarrow> session_inv (fst (session_close sid s))" for sid s
    by (auto simp: session_close_def session_inv_def written_by_def)
  then have "sessions_inv (end_stop sc)"
    using assms by (auto simp: service_inv_def sessions_inv_def end_stop_def session_close_def Let_def split: if_splits)
  moreover have "tasks_ok [] ((sc_handled sc @ sc_io_tasks sc) @ map RemoveSession ?sids)"
    by (rule tasks_ok_append_requests) (use assms in \<open>simp_all add: service_inv_defs list_all_iff\<close>)
  moreover have "list_all (task_below (sc_next sc)) (map RemoveSession ?sids)"
    using assms by (auto simp: service_inv_defs registered_below_def om_keys_def list_all_iff)
  ultimately have "queues_inv (end_stop sc)" using assms by (simp add: service_inv_def queues_inv_def end_stop_def Let_def)
  moreover have "tables_inv te (end_stop sc)"
    using assms by (simp add: service_inv_def tables_inv_def end_stop_def Let_def tables_below_def registered_below_def
        subscribers_def om_at_def)
  ultimately show ?thesis using \<open>sessions_inv (end_stop sc)\<close> by (simp add: service_inv_def)
qed

lemma service_reach_inv: "service_reach te sc \<Longrightarrow> service_inv te sc"
proof (induction rule: service_reach.induct)
  case (step sc sc')
  from step(2,3) show ?case
  proof (cases rule: service_step.cases)
    case stopping
    with step(3) show ?thesis by (simp add: service_inv_defs begin_stop_def)
  qed (use step(3) in \<open>simp_all add: inv_owner inv_accept inv_session inv_io_task inv_feed_task inv_end_stop\<close>)
qed (rule inv_start)

lemma tasks_ok_prefix: "tasks_ok known (ts @ us) \<Longrightarrow> tasks_ok known ts"
  by (induction known ts rule: tasks_ok.induct) simp_all

lemma broadcast_worker_grows: "\<exists>new. sv_sent (broadcast_worker te ts s) = sv_sent s @ new"
proof (induction ts arbitrary: s)
  case (Cons t ts)
  obtain a b where "sv_sent (worker_task te t s) = sv_sent s @ a"
    and "sv_sent (broadcast_worker te ts (worker_task te t s)) = sv_sent (worker_task te t s) @ b"
    using worker_task_grows [of te t s] Cons [of "worker_task te t s"] by blast
  then show ?case by (simp add: broadcast_worker_def)
qed (simp add: broadcast_worker_def)

lemma broadcast_in_sent:
  assumes "tasks_ok [] ts" "(sid, p) \<in> fold subscriptions_after ts {}"
  shows "json \<in> set (messages_to sid (sv_sent (broadcast_worker te (ts @ BroadcastMessage p json # us) tcp_server_init)))"
proof -
  let ?s = "broadcast_worker te ts tcp_server_init"
  have "sid \<in> set (subscribers ?s p)"
    using broadcast_worker_from_init [OF assms(1), of te] assms(2) by (auto simp: subscribed_def)
  then have "(sid, json) \<in> set (sv_sent (worker_task te (BroadcastMessage p json) ?s))" unfolding broadcast_sends by auto
  moreover have "broadcast_worker te (ts @ BroadcastMessage p json # us) tcp_server_init
      = broadcast_worker te us (worker_task te (BroadcastMessage p json) ?s)"
    by (simp add: broadcast_worker_def)
  moreover obtain new where "sv_sent (broadcast_worker te us (worker_task te (BroadcastMessage p json) ?s))
      = sv_sent (worker_task te (BroadcastMessage p json) ?s) @ new"
    using broadcast_worker_grows by blast
  ultimately have "(sid, json) \<in> set (sv_sent (broadcast_worker te (ts @ BroadcastMessage p json # us) tcp_server_init))"
    by (simp only: set_append Un_iff) blast
  then show ?thesis by (force simp: messages_to_def)
qed

lemma worker_messages_accepted:
  assumes "service_reach te sc" "sc_sessions sc sid = Some s" "ss_active s"
  shows "session_inv s"
    and "ss_accepted s Worker_Thread = messages_to sid (sv_sent (broadcast_worker te (sc_handled sc) tcp_server_init))"
  using service_reach_inv [OF assms(1)] assms(2,3) by (simp_all add: service_inv_defs)

lemma broadcast_accepted:
  assumes "service_reach te sc" "sc_sessions sc sid = Some s" "ss_active s"
    and "sc_handled sc = ts @ BroadcastMessage p json # us" "(sid, p) \<in> fold subscriptions_after ts {}"
  shows "json \<in> set (ss_accepted s Worker_Thread)"
proof -
  have "tasks_ok [] (ts @ (BroadcastMessage p json # us @ sc_io_tasks sc))"
    using service_reach_inv [OF assms(1)] assms(4) by (simp add: service_inv_defs)
  then have "tasks_ok [] ts" by (rule tasks_ok_prefix)
  from broadcast_in_sent [OF this assms(5), of json te us] show ?thesis
    using worker_messages_accepted(2) [OF assms(1-3)] assms(4) by simp
qed

text \<open>The byte stream of an idle session is a framing of messages among which are all accepted ones.\<close>

lemma idle_wire:
  assumes "session_inv s" "ss_active s" "\<not> ss_in_flight s" "ss_posted s = 0"
  obtains ms where "concat (map snd (ss_wire s)) = frame ms" "\<forall>pr. set (ss_accepted s pr) \<subseteq> set ms"
proof -
  let ?ms = "map (butlast \<circ> snd) (ss_wire s)"
  have wire: "written_by pr s = framed (ss_accepted s pr)" for pr using assms by (rule inv_idle)
  have "snd e = butlast (snd e) @ [newline]" if "e \<in> set (ss_wire s)" for e
  proof -
    have "snd e \<in> set (written_by (fst e) s)" using that by (auto simp: written_by_def)
    then show ?thesis unfolding wire by (auto simp: framed_def)
  qed
  then have "map snd (ss_wire s) = framed ?ms" unfolding framed_def by (simp add: comp_def)
  then have "concat (map snd (ss_wire s)) = frame ?ms" by (simp only: frame_def framed_def)
  moreover have "m \<in> set ?ms" if "m \<in> set (ss_accepted s pr)" for m pr
  proof -
    have "m @ [newline] \<in> set (written_by pr s)" using that unfolding wire by (simp add: framed_def)
    then show ?thesis by (force simp: written_by_def)
  qed
  ultimately show ?thesis using that by blast
qed

section \<open>Properties\<close>

text \<open>
  C13. A broadcast reaches every subscriber, end to end: in every interleaving of the owner's thread, the
  worker and the io thread, with sessions coming, failing and going, once an open session has no
  write and no drive outstanding, its socket has been given, of the worker's messages, exactly
  those that the worker's tasks so far address to it, newline-terminated and in the worker's order; and each
  broadcast the worker came to while the session was subscribed to its product is among them.
\<close>

theorem broadcasts_reach_subscribers:
  assumes "service_reach te sc" "sc_sessions sc sid = Some s"
    and "ss_active s" "\<not> ss_in_flight s" "ss_posted s = 0"
    and "sc_handled sc = ts @ BroadcastMessage p json # us" "(sid, p) \<in> fold subscriptions_after ts {}"
  shows "written_by Worker_Thread s = framed (messages_to sid (sv_sent (broadcast_worker te (sc_handled sc) tcp_server_init)))
    \<and> json @ [newline] \<in> set (written_by Worker_Thread s)"
proof -
  have "written_by Worker_Thread s = framed (ss_accepted s Worker_Thread)"
    using worker_messages_accepted(1) [OF assms(1-3)] assms(3-5) by (rule inv_idle)
  then show ?thesis
    using worker_messages_accepted(2) [OF assms(1-3)] broadcast_accepted [OF assms(1-3,6,7)] by (simp add: framed_def)
qed

text \<open>
  A run: one client connects, subscribes to \<open>A\<close>, the worker registers it, the owner broadcasts, and the
  session writes the acknowledgement and the broadcast.
\<close>

definition demo_accepted :: tcp_service where
  "demo_accepted = on_accept False (service_start make_service)"

definition demo_requested :: tcp_service where
  "demo_requested = on_session_event demo_tcp_env 0 (ReadDone False [CHR ''A'', newline]) tcp_session_init demo_accepted"

definition demo_subscriber :: tcp_session where
  "demo_subscriber = send_message Io_Thread ''ack'' tcp_session_init"

definition demo_registered :: tcp_service where
  "demo_registered = handle_server_task demo_tcp_env (AddSession 0)
     (demo_requested\<lparr>sc_io_tasks := [SubscribeProduct 0 ''A'']\<rparr>)"

definition demo_subscribed :: tcp_service where
  "demo_subscribed = handle_server_task demo_tcp_env (SubscribeProduct 0 ''A'') (demo_registered\<lparr>sc_io_tasks := []\<rparr>)"

definition demo_queued :: "string \<Rightarrow> tcp_service" where
  "demo_queued json = broadcast_to_subscribers ''A'' json demo_subscribed"

definition demo_broadcast :: "string \<Rightarrow> tcp_service" where
  "demo_broadcast json = handle_server_task demo_tcp_env (BroadcastMessage ''A'' json) ((demo_queued json)\<lparr>sc_feed_tasks := []\<rparr>)"

lemma demo_requested_state:
  "demo_requested = make_service\<lparr>sc_running := True, sc_worker := True, sc_accepting := True, sc_next := 1,
     sc_sessions := [0 \<mapsto> demo_subscriber], sc_io_tasks := [AddSession 0, SubscribeProduct 0 ''A'']\<rparr>"
  using take_lines_line [of "''A''" "[]"] take_lines_no_newline [of "[]"]
  by (simp add: demo_requested_def demo_accepted_def demo_subscriber_def on_accept_def session_start_def service_start_def make_service_def
      on_session_event_def session_on_read_def on_bytes_def session_handle_message_def answer_subscription_def demo_tcp_env_def
      tcp_session_init_def Let_def)

definition demo_told :: "string \<Rightarrow> tcp_session" where
  "demo_told json = send_message Worker_Thread json demo_subscriber"

lemma demo_subscribed_state:
  "sc_running demo_subscribed \<and> sc_worker demo_subscribed \<and> sc_io_tasks demo_subscribed = [] \<and> sc_feed_tasks demo_subscribed = []
    \<and> sc_handled demo_subscribed = [AddSession 0, SubscribeProduct 0 ''A''] \<and> sc_sessions demo_subscribed = [0 \<mapsto> demo_subscriber]
    \<and> sv_product_to_sessions (sc_tables demo_subscribed) = [(''A'', [0])] \<and> sv_sent (sc_tables demo_subscribed) = []"
  by (simp add: demo_subscribed_def demo_registered_def demo_requested_state handle_server_task_def make_service_def
      tcp_server_init_def subscribe_task_def demo_tcp_env_def om_at_def fun_eq_iff Let_def)

lemma demo_broadcast_state:
  "sc_handled (demo_broadcast json) = [AddSession 0, SubscribeProduct 0 ''A'', BroadcastMessage ''A'' json]
    \<and> sc_sessions (demo_broadcast json) = [0 \<mapsto> (demo_told json)]"
  using demo_subscribed_state
  by (simp add: demo_broadcast_def demo_queued_def broadcast_to_subscribers_def handle_server_task_def messages_to_def
      demo_told_def fun_eq_iff Let_def)

definition demo_events :: "session_event list" where
  "demo_events = [RunPosted Io_Thread, Written False Io_Thread, RunPosted Io_Thread, Written False Io_Thread]"

text \<open>The session's events one after the other.\<close>

fun session_run :: "tcp_env \<Rightarrow> nat \<Rightarrow> session_event list \<Rightarrow> tcp_session \<Rightarrow> tcp_session" where
  "session_run te sid [] s = s"
| "session_run te sid (e # es) s = session_run te sid es (session_step te sid e s)"

fun session_run_ok :: "tcp_env \<Rightarrow> nat \<Rightarrow> session_event list \<Rightarrow> tcp_session \<Rightarrow> bool" where
  "session_run_ok te sid [] s = True"
| "session_run_ok te sid (e # es) s =
     (session_event_ok e s \<and> (case e of SendMessage pr m \<Rightarrow> False | _ \<Rightarrow> True) \<and> session_run_ok te sid es (session_step te sid e s))"

lemma session_run_reach:
  "service_reach te sc \<Longrightarrow> sc_sessions sc sid = Some s \<Longrightarrow> session_run_ok te sid es s
    \<Longrightarrow> \<exists>sc'. service_reach te sc' \<and> sc_sessions sc' sid = Some (session_run te sid es s) \<and> sc_handled sc' = sc_handled sc"
proof (induction es arbitrary: sc s)
  case (Cons e es)
  let ?sc = "on_session_event te sid e s sc"
  have "service_reach te ?sc"
    by (rule service_reach.step [OF Cons.prems(1) service_step.session [where e = e]]) (use Cons.prems in \<open>auto split: session_event.splits\<close>)
  moreover have "sc_sessions ?sc sid = Some (session_step te sid e s)" "sc_handled ?sc = sc_handled sc"
    by (simp_all add: on_session_event_def)
  ultimately show ?case using Cons.IH [of ?sc "session_step te sid e s"] Cons.prems(3) by auto
qed auto

lemma demo_run_ok: "session_run_ok demo_tcp_env 0 demo_events (demo_told json)"
  by (simp add: demo_events_def demo_told_def demo_subscriber_def tcp_session_init_def send_message_def session_run_posted_def
      session_do_write_def dequeue_from_def session_on_written_def)

definition demo_written :: "string \<Rightarrow> tcp_session" where
  "demo_written json = session_run demo_tcp_env 0 demo_events (demo_told json)"

lemma demo_written_idle: "ss_active (demo_written json)" "\<not> ss_in_flight (demo_written json)" "ss_posted (demo_written json) = 0"
  by (simp_all add: demo_written_def demo_events_def demo_told_def demo_subscriber_def tcp_session_init_def send_message_def
      session_run_posted_def session_do_write_def dequeue_from_def session_on_written_def)

lemma demo_broadcast_reach: "service_reach demo_tcp_env (demo_broadcast json)"
proof -
  have "service_reach demo_tcp_env demo_accepted" unfolding demo_accepted_def
    by (intro service_reach.step [OF service_reach.start] service_step.accept) (simp add: service_start_def)
  then have "service_reach demo_tcp_env demo_requested" unfolding demo_requested_def
    by (rule service_reach.step [OF _ service_step.session])
      (simp_all add: demo_accepted_def on_accept_def session_start_def service_start_def make_service_def)
  then have "service_reach demo_tcp_env demo_registered" unfolding demo_registered_def
    by (rule service_reach.step [OF _ service_step.io_task]) (simp_all add: demo_requested_state)
  then have "service_reach demo_tcp_env demo_subscribed" unfolding demo_subscribed_def
    by (rule service_reach.step [OF _ service_step.io_task])
      (simp_all add: demo_registered_def handle_server_task_def demo_requested_state Let_def)
  then have "service_reach demo_tcp_env (demo_queued json)" unfolding demo_queued_def
    by (rule service_reach.step [OF _ service_step.broadcast])
  then show ?thesis unfolding demo_broadcast_def
    by (rule service_reach.step [OF _ service_step.feed_task])
      (simp_all add: demo_queued_def broadcast_to_subscribers_def demo_subscribed_state)
qed

lemma demo_service_run:
  "\<exists>sc. service_reach demo_tcp_env sc \<and> sc_sessions sc 0 = Some (demo_written json)
     \<and> sc_handled sc = [AddSession 0, SubscribeProduct 0 ''A''] @ BroadcastMessage ''A'' json # []"
  using session_run_reach [OF demo_broadcast_reach [of json], of 0 "demo_told json" demo_events] demo_run_ok [of json]
    demo_broadcast_state [of json]
  by (auto simp: demo_written_def)

lemma demo_subscription: "(0, ''A'') \<in> fold subscriptions_after [AddSession 0, SubscribeProduct 0 ''A''] {}"
  by simp

theorem broadcasts_reach_subscribers_witness: "''x'' @ [newline] \<in> set (written_by Worker_Thread (demo_written ''x''))"
  using demo_service_run [of "''x''"] broadcasts_reach_subscribers [OF _ _ demo_written_idle _ demo_subscription] by blast

end
