(* ===== verification/Decision_Timer.thy ===== *)
theory Decision_Timer
  imports Trader_Main
begin

text \<open>
  What surrounds the order handler in \<open>order_handler.cpp\<close>: the decision timer on its io thread, the
  files of the two CSV records, and the two texts an operator reads in the log.  The timer and the
  trader thread meet in the queue and in \<open>shutting_down_\<close>; their interleavings are a step relation.  The
  queue orders the tasks of one producer only, so the trader thread may take any task.

  Shown here: ticks fall on multiples of the interval and go on until the shutdown begins, no tick
  enters the queue after that and those still in it do nothing; a record stays in the file of the day
  of its first row; the residual text says \<open>(clean)\<close> exactly when nothing is left.
\<close>

section \<open>The timer\<close>

text \<open>\<open>None\<close>: the interval is zero and the remainder is undefined.\<close>

definition order_update_delay :: "handler_env \<Rightarrow> int \<Rightarrow> int option" where
  "order_update_delay ev now =
     (if ev_order_update_interval_ns ev = 0 then None
      else Some (ev_order_update_interval_ns ev - cpp_mod now (ev_order_update_interval_ns ev)))"

record trader_process =
  tp_handler :: order_handler
  tp_queue :: "trader_task list"
  tp_timer :: "int option"

definition set_order_update_timer :: "handler_env \<Rightarrow> int \<Rightarrow> trader_process \<Rightarrow> trader_process option" where
  "set_order_update_timer ev now tp =
     (case order_update_delay ev now of None \<Rightarrow> None | Some d \<Rightarrow> Some (tp\<lparr>tp_timer := Some d\<rparr>))"

definition on_order_update_timer :: "handler_env \<Rightarrow> bool \<Rightarrow> int \<Rightarrow> trader_process \<Rightarrow> trader_process option" where
  "on_order_update_timer ev ec now tp =
     (let tp1 = tp\<lparr>tp_timer := None\<rparr> in
      if ec then Some tp1
      else if oh_shutting_down (tp_handler tp1) then Some tp1
      else set_order_update_timer ev now
        (tp1\<lparr>tp_queue := tp_queue tp1 @ map OrderUpdateTask (ev_trade_products ev)\<rparr>))"

fun is_tick :: "trader_task \<Rightarrow> bool" where
  "is_tick (OrderUpdateTask p) = True"
| "is_tick _ = False"

definition ticks :: "trader_process \<Rightarrow> nat" where
  "ticks tp = length (filter is_tick (tp_queue tp))"

text \<open>
  \<open>sequence\<close> is a step of the shutdown sequence on the handler itself.
\<close>

inductive process_step :: "handler_env \<Rightarrow> trader_process \<Rightarrow> trader_process \<Rightarrow> bool" for ev where
  timer: "tp_timer tp \<noteq> None \<Longrightarrow> on_order_update_timer ev False now tp = Some tp' \<Longrightarrow> process_step ev tp tp'"
| produce: "\<not> is_tick t \<Longrightarrow> process_step ev tp (tp\<lparr>tp_queue := tp_queue tp @ [t]\<rparr>)"
| run: "tp_queue tp = us @ t # vs
    \<Longrightarrow> process_step ev tp (tp\<lparr>tp_queue := us @ vs, tp_handler := guarded_run ev (Some t) (tp_handler tp)\<rparr>)"
| begin_shutdown: "process_step ev tp (tp\<lparr>tp_handler := stopping (tp_handler tp)\<rparr>)"
| sequence: "shut_step ev (tp_handler tp) s \<Longrightarrow> process_step ev tp (tp\<lparr>tp_handler := s\<rparr>)"

text \<open>A tick falls on the next multiple of the interval.\<close>

lemma order_update_delay_aligned:
  assumes "0 < ev_order_update_interval_ns ev" "0 \<le> now"
  shows "\<exists>d. order_update_delay ev now = Some d \<and> 0 < d \<and> d \<le> ev_order_update_interval_ns ev
    \<and> (now + d) mod ev_order_update_interval_ns ev = 0"
proof -
  let ?i = "ev_order_update_interval_ns ev"
  have m: "cpp_mod now ?i = now mod ?i" using assms by (auto simp: cpp_mod_def sgn_if)
  have "now + (?i - now mod ?i) = ?i * (now div ?i + 1)" by (simp add: distrib_left minus_mod_eq_mult_div)
  then have "(now + (?i - now mod ?i)) mod ?i = 0" by simp
  moreover have "0 < ?i - now mod ?i" "?i - now mod ?i \<le> ?i" using assms by simp_all
  ultimately show ?thesis using assms by (simp add: order_update_delay_def m)
qed

lemma guarded_run_flags: "stop_flags (guarded_run ev dequeued s) = stop_flags s"
proof (cases dequeued)
  case None
  then show ?thesis by (simp add: guarded_run_def run_once_def)
next
  case (Some t)
  then show ?thesis
    by (cases "handle_task ev t s") (simp_all add: guarded_run_def run_once_def flags_handle_task)
qed

lemma tick_while_stopping: "oh_shutting_down s \<Longrightarrow> guarded_run ev (Some (OrderUpdateTask p)) s = s"
  by (simp add: guarded_run_def run_once_def handle_task_def update_orders_def)

text \<open>Until the shutdown begins there is always a next tick: the timer is armed, or the process has stopped for it.\<close>

lemma ticks_go_on:
  assumes "process_step ev tp tp'" "tp_timer tp \<noteq> None \<or> oh_shutting_down (tp_handler tp)"
  shows "tp_timer tp' \<noteq> None \<or> oh_shutting_down (tp_handler tp')"
  using assms
proof (cases rule: process_step.cases)
  case (timer now)
  then show ?thesis
    using assms(2) by (auto simp: on_order_update_timer_def set_order_update_timer_def Let_def split: if_splits option.splits)
next
  case (run us t vs)
  then show ?thesis using assms(2) guarded_run_flags [of ev "Some t" "tp_handler tp"] by (auto simp: stop_flags_def)
next
  case (sequence s)
  then show ?thesis using assms(2) flags_shut_step [OF sequence(2)] by (auto simp: stop_flags_def)
qed (use assms(2) in auto)

lemma step_after_shutdown:
  assumes "process_step ev tp tp'" "oh_shutting_down (tp_handler tp)"
  shows "oh_shutting_down (tp_handler tp') \<and> ticks tp' \<le> ticks tp \<and> (tp_timer tp = None \<longrightarrow> tp_timer tp' = None)"
  using assms
proof (cases rule: process_step.cases)
  case (timer now)
  then show ?thesis using assms(2) by (auto simp: on_order_update_timer_def ticks_def Let_def)
next
  case (run us t vs)
  then show ?thesis using assms(2) guarded_run_flags [of ev "Some t" "tp_handler tp"] by (auto simp: stop_flags_def ticks_def)
next
  case (sequence s)
  then show ?thesis using assms(2) flags_shut_step [OF sequence(2)] by (auto simp: stop_flags_def ticks_def)
qed (use assms(2) in \<open>auto simp: ticks_def\<close>)

text \<open>
  Once the shutdown has begun, in whatever way the io thread and the trader thread interleave, the
  flag stays set and the ticks in the queue only get fewer; none of them changes the handler.
\<close>

theorem ticks_stop_at_shutdown:
  assumes "(process_step ev)\<^sup>*\<^sup>* tp tp'" "oh_shutting_down (tp_handler tp)"
  shows "oh_shutting_down (tp_handler tp') \<and> ticks tp' \<le> ticks tp
    \<and> guarded_run ev (Some (OrderUpdateTask p)) (tp_handler tp') = tp_handler tp'"
proof -
  have "oh_shutting_down (tp_handler tp') \<and> ticks tp' \<le> ticks tp"
    using assms
  proof (induction rule: rtranclp_induct)
    case (step tp1 tp2)
    then show ?case using step_after_shutdown [OF step(2)] by auto
  qed simp
  then show ?thesis by (simp add: tick_while_stopping)
qed

section \<open>The files of the records\<close>

record record_files =
  rf_order_record_loggers :: "(product, string \<times> string) omap"
  rf_order_decision_loggers :: "(product, string \<times> string) omap"

definition dated_log :: "trader_config \<Rightarrow> string \<Rightarrow> product \<Rightarrow> int \<Rightarrow> string" where
  "dated_log tc save_path p now_sec =
     save_path @ ''/'' @ tc_exchange tc @ ''/'' @ p @ ''/''
       @ to_string (get_curr_date now_sec (tc_timezone_minute_offset tc)) @ ''.log''"

text \<open>The logger of a product is its name and its file; \<open>None\<close>: the record is turned off.\<close>

definition get_order_record_logger ::
  "trader_config \<Rightarrow> int \<Rightarrow> product \<Rightarrow> record_files \<Rightarrow> (string \<times> string) option \<times> record_files" where
  "get_order_record_logger tc now_sec p rf =
     (if tc_order_record_save_path tc = [] then (None, rf)
      else case map_of (rf_order_record_loggers rf) p of
        Some csv \<Rightarrow> (Some csv, rf)
      | None \<Rightarrow>
          (let csv = (tc_exchange tc @ ''_'' @ p @ ''_order_record_logger'', dated_log tc (tc_order_record_save_path tc) p now_sec)
           in (Some csv, rf\<lparr>rf_order_record_loggers := om_put p csv (rf_order_record_loggers rf)\<rparr>)))"

definition get_order_decision_logger ::
  "trader_config \<Rightarrow> int \<Rightarrow> product \<Rightarrow> record_files \<Rightarrow> (string \<times> string) option \<times> record_files" where
  "get_order_decision_logger tc now_sec p rf =
     (if tc_order_decision_save_path tc = [] then (None, rf)
      else case map_of (rf_order_decision_loggers rf) p of
        Some csv \<Rightarrow> (Some csv, rf)
      | None \<Rightarrow>
          (let csv = (tc_exchange tc @ ''_'' @ p @ ''_order_decision_logger'', dated_log tc (tc_order_decision_save_path tc) p now_sec)
           in (Some csv, rf\<lparr>rf_order_decision_loggers := om_put p csv (rf_order_decision_loggers rf)\<rparr>)))"

definition record_lookups :: "trader_config \<Rightarrow> (int \<times> product) list \<Rightarrow> record_files \<Rightarrow> record_files" where
  "record_lookups tc calls rf = fold (\<lambda>(t, p) rf. snd (get_order_decision_logger tc t p (snd (get_order_record_logger tc t p rf)))) calls rf"

lemma record_lookup_keeps:
  "map_of (rf_order_record_loggers rf) p = Some csv
    \<Longrightarrow> map_of (rf_order_record_loggers (snd (get_order_decision_logger tc t q (snd (get_order_record_logger tc t q rf))))) p = Some csv"
  by (auto simp: get_order_record_logger_def get_order_decision_logger_def Let_def om_simps split: option.splits)

text \<open>A record stays in the file of the day of its first row: a later day opens no new file.\<close>

lemma record_file_is_kept:
  assumes "tc_order_record_save_path tc \<noteq> []" "get_order_record_logger tc t p rf = (Some csv, rf1)"
  shows "fst (get_order_record_logger tc t' p (record_lookups tc calls rf1)) = Some csv"
proof -
  have "map_of (rf_order_record_loggers rf1) p = Some csv"
    using assms by (auto simp: get_order_record_logger_def Let_def om_simps split: option.splits)
  then have "map_of (rf_order_record_loggers (record_lookups tc calls rf1)) p = Some csv"
  proof (induction calls arbitrary: rf1)
    case (Cons c calls)
    then show ?case by (cases c) (simp add: record_lookups_def record_lookup_keeps)
  qed (simp add: record_lookups_def)
  then show ?thesis using assms(1) by (simp add: get_order_record_logger_def)
qed

section \<open>What the operator reads\<close>

text \<open>\<open>fmt\<close>'s text of a double is the parameter \<open>show\<close>.\<close>

definition residual_entry :: "(dbl \<Rightarrow> string) \<Rightarrow> handler_env \<Rightarrow> product \<times> product_state \<Rightarrow> string" where
  "residual_entry sh ev e =
     fst e @ ''(orders='' @ to_string (int (length (st_outstanding_orders (snd e)))) @ '',position=''
       @ sh (oh_double_qty ev (st_position_in_lots (snd e))) @ '')''"

definition residual_text :: "(dbl \<Rightarrow> string) \<Rightarrow> handler_env \<Rightarrow> (product \<times> product_state) list \<Rightarrow> string \<Rightarrow> string" where
  "residual_text sh ev = fold (\<lambda>e out.
     if st_outstanding_orders (snd e) = [] \<and> st_position_in_lots (snd e) = 0 then out
     else (if out \<noteq> [] then out @ '' '' else out) @ residual_entry sh ev e)"

definition format_residual :: "(dbl \<Rightarrow> string) \<Rightarrow> handler_env \<Rightarrow> order_handler \<Rightarrow> string" where
  "format_residual sh ev s =
     (let out = residual_text sh ev (oh_product_states s) [] in if out = [] then ''(clean)'' else out)"

definition format_positions :: "(dbl \<Rightarrow> string) \<Rightarrow> order_handler \<Rightarrow> string" where
  "format_positions sh s =
     (if oh_positions s = [] then ''(none)''
      else fold (\<lambda>(p, pos) out. (if out \<noteq> [] then out @ '' '' else out) @ p @ ''(balance='' @ sh (or_nan (pd_balance pos)) @ '',avail=''
                   @ sh (or_nan (pd_available_balance pos)) @ '')'') (oh_positions s) [])"

lemma residual_entry_length: "18 < length (residual_entry sh ev e)"
  by (simp add: residual_entry_def)

text \<open>The text is \<open>(clean)\<close> exactly when no product has an order or a position left.\<close>

theorem residual_clean_iff:
  "format_residual sh ev s = ''(clean)''
    \<longleftrightarrow> (\<forall>e\<in>set (oh_product_states s). st_outstanding_orders (snd e) = [] \<and> st_position_in_lots (snd e) = 0)"
proof -
  let ?dirty = "\<lambda>es. \<exists>e\<in>set es. \<not> (st_outstanding_orders (snd e) = [] \<and> st_position_in_lots (snd e) = 0)"
  have "(if ?dirty es \<or> 18 < length out then 18 < length (residual_text sh ev es out) else residual_text sh ev es out = out)" for es out
  proof (induction es arbitrary: out)
    case (Cons e es)
    define out' where "out' = (if st_outstanding_orders (snd e) = [] \<and> st_position_in_lots (snd e) = 0 then out
      else (if out \<noteq> [] then out @ '' '' else out) @ residual_entry sh ev e)"
    have "residual_text sh ev (e # es) out = residual_text sh ev es out'" by (simp add: residual_text_def out'_def)
    moreover have "if st_outstanding_orders (snd e) = [] \<and> st_position_in_lots (snd e) = 0 then out' = out else 18 < length out'"
      using residual_entry_length [of sh ev e] by (simp add: out'_def)
    ultimately show ?case using Cons [of out'] by (auto split: if_splits)
  qed (simp add: residual_text_def)
  from this [of "oh_product_states s" "[]"] have "if ?dirty (oh_product_states s) then 18 < length (residual_text sh ev (oh_product_states s) [])
      else residual_text sh ev (oh_product_states s) [] = []" by simp
  then show ?thesis by (auto simp: format_residual_def Let_def split: if_splits)
qed

end
