(* ===== verification/Feed_Mains.thy ===== *)
theory Feed_Mains
  imports Market_Listener Pricer_Properties
begin

text \<open>
  The loops of \<open>listener_main.cpp\<close> and \<open>pricer_main.cpp\<close>: turns of \<open>listen()\<close> or \<open>run()\<close>, what they throw
  being caught and logged, until the minute of the day reaches the configured end.  A turn waits for
  its event without a time limit; \<open>None\<close> in the stream of arrivals is a wait that never ends, and a
  loop that does not return has the value \<open>None\<close>.

  Shown here: the loop returns exactly when events keep coming until a turn begins after the market
  end, having processed them all in order; without a market end, or when the venue falls silent
  before it, it never returns.
\<close>

partial_function (option) market_loop :: "(nat \<Rightarrow> bool) \<Rightarrow> (nat \<Rightarrow> ('a \<Rightarrow> 'a) option) \<Rightarrow> nat \<Rightarrow> 'a \<Rightarrow> ('a \<times> nat) option" where
  "market_loop keep turn n s =
     (if \<not> keep n then Some (s, n)
      else case turn n of None \<Rightarrow> None | Some f \<Rightarrow> market_loop keep turn (Suc n) (f s))"

definition before_market_end :: "int \<Rightarrow> int \<Rightarrow> int \<Rightarrow> bool" where
  "before_market_end market_end offset now_sec \<longleftrightarrow> market_end < 0 \<or> get_curr_intraday_minute now_sec offset < market_end"

definition listener_main_loop ::
  "ml_env \<Rightarrow> (nat \<Rightarrow> int) \<Rightarrow> (nat \<Rightarrow> listener_event option) \<Rightarrow> market_listener \<Rightarrow> (market_listener \<times> nat) option" where
  "listener_main_loop me now_sec arrivals =
     market_loop (\<lambda>n. before_market_end (lc_market_end_intraday_minute (me_config me)) (lc_timezone_minute_offset (me_config me)) (now_sec n))
       (\<lambda>n. map_option (listen me) (arrivals n)) 0"

definition guarded_pr_run :: "pricer_env \<Rightarrow> pricer_task \<Rightarrow> pricer \<Rightarrow> pricer" where
  "guarded_pr_run pe t s = (case pr_run pe t s of Inl e \<Rightarrow> s | Inr s' \<Rightarrow> s')"

definition pricer_main_loop ::
  "pricer_env \<Rightarrow> (nat \<Rightarrow> int) \<Rightarrow> (nat \<Rightarrow> pricer_task option) \<Rightarrow> pricer \<Rightarrow> (pricer \<times> nat) option" where
  "pricer_main_loop pe now_sec arrivals =
     market_loop (\<lambda>n. before_market_end (pc_market_end_intraday_minute (pe_config pe)) (pc_timezone_minute_offset (pe_config pe)) (now_sec n))
       (\<lambda>n. map_option (guarded_pr_run pe) (arrivals n)) 0"

section \<open>When a loop returns\<close>

lemma market_loop_returns:
  assumes "k \<le> n" "\<forall>j\<in>{k..<n}. keep j \<and> turn j \<noteq> None" "\<not> keep n"
  shows "market_loop keep turn k s = Some (fold (\<lambda>j. the (turn j)) [k..<n] s, n)"
  using assms(1,2)
proof (induction "n - k" arbitrary: k s)
  case 0
  then show ?case using assms(3) by (subst market_loop.simps) simp
next
  case (Suc d)
  then obtain f where f: "keep k" "turn k = Some f" by fastforce
  have "market_loop keep turn (Suc k) (f s) = Some (fold (\<lambda>j. the (turn j)) [Suc k..<n] (f s), n)"
    using Suc by (intro Suc.hyps(1)) auto
  moreover have "[k..<n] = k # [Suc k..<n]" using Suc by (simp add: upt_conv_Cons)
  ultimately show ?case using f by (subst market_loop.simps) simp
qed

definition ends_at :: "(nat \<Rightarrow> bool) \<Rightarrow> (nat \<Rightarrow> ('a \<Rightarrow> 'a) option) \<Rightarrow> nat \<Rightarrow> nat \<Rightarrow> bool" where
  "ends_at keep turn k n \<longleftrightarrow> k \<le> n \<and> (\<forall>j\<in>{k..<n}. keep j \<and> turn j \<noteq> None) \<and> \<not> keep n"

lemma ends_at_Suc: "keep k \<Longrightarrow> turn k \<noteq> None \<Longrightarrow> ends_at keep turn (Suc k) n \<Longrightarrow> ends_at keep turn k n"
  unfolding ends_at_def by (metis Suc_leD Suc_leI atLeastLessThan_iff le_neq_implies_less)

lemma market_loop_only_if:
  assumes "market_loop keep turn k s = Some r"
  shows "ends_at keep turn k (snd r)"
proof (rule market_loop.raw_induct [where P = "\<lambda>keep turn k s r. ends_at keep turn k (snd r)", OF _ assms])
  fix loop :: "(nat \<Rightarrow> bool) \<Rightarrow> (nat \<Rightarrow> ('a \<Rightarrow> 'a) option) \<Rightarrow> nat \<Rightarrow> 'a \<Rightarrow> ('a \<times> nat) option" and keep turn k s r
  assume IH: "\<And>keep turn k s r. loop keep turn k s = Some r \<Longrightarrow> ends_at keep turn k (snd r)"
    and body: "(if \<not> keep k then Some (s, k) else case turn k of None \<Rightarrow> None | Some f \<Rightarrow> loop keep turn (Suc k) (f s)) = Some r"
  show "ends_at keep turn k (snd r)"
  proof (cases "keep k")
    case True
    then obtain f where f: "turn k = Some f" "loop keep turn (Suc k) (f s) = Some r"
      using body by (cases "turn k") simp_all
    have "turn k \<noteq> None" using f(1) by simp
    with True show ?thesis by (rule ends_at_Suc) (rule IH [OF f(2)])
  next
    case False
    then show ?thesis using body by (auto simp: ends_at_def)
  qed
qed

lemma market_loop_iff:
  "market_loop keep turn k s = Some (s', n) \<longleftrightarrow>
     k \<le> n \<and> (\<forall>j\<in>{k..<n}. keep j \<and> turn j \<noteq> None) \<and> \<not> keep n \<and> s' = fold (\<lambda>j. the (turn j)) [k..<n] s"
proof
  assume loop: "market_loop keep turn k s = Some (s', n)"
  then have ends: "k \<le> n \<and> (\<forall>j\<in>{k..<n}. keep j \<and> turn j \<noteq> None) \<and> \<not> keep n"
    using market_loop_only_if [OF loop] by (simp add: ends_at_def)
  then have "market_loop keep turn k s = Some (fold (\<lambda>j. the (turn j)) [k..<n] s, n)" by (intro market_loop_returns) simp_all
  with loop ends show "k \<le> n \<and> (\<forall>j\<in>{k..<n}. keep j \<and> turn j \<noteq> None) \<and> \<not> keep n \<and> s' = fold (\<lambda>j. the (turn j)) [k..<n] s" by simp
qed (simp add: market_loop_returns)

text \<open>A loop whose condition always holds, or that waits for an event that never comes, does not return.\<close>

lemma market_loop_never:
  assumes "\<forall>n. keep n \<or> (\<exists>j<n. keep j \<and> turn j = None)"
  shows "market_loop keep turn 0 s = None"
proof (cases "market_loop keep turn 0 s")
  case (Some r)
  from market_loop_only_if [OF Some] have "\<forall>j<snd r. turn j \<noteq> None" "\<not> keep (snd r)" by (auto simp: ends_at_def)
  then show ?thesis using assms by blast
qed

section \<open>The two processes\<close>

text \<open>
  The listener returns at the first turn that begins at or after the market end, with every event
  before it processed: the tasks of its feed server are those of the events, in order.
\<close>

lemma listener_returns_at_market_end:
  assumes "\<forall>j<n. before_market_end (lc_market_end_intraday_minute (me_config me)) (lc_timezone_minute_offset (me_config me)) (now_sec j)"
    and "\<not> before_market_end (lc_market_end_intraday_minute (me_config me)) (lc_timezone_minute_offset (me_config me)) (now_sec n)"
    and "\<forall>j<n. arrivals j = Some (events j)"
  shows "\<exists>m'. listener_main_loop me now_sec arrivals m = Some (m', n)
    \<and> ml_tasks m' = ml_tasks m @ concat (map (event_tasks me \<circ> events) [0..<n])"
proof -
  let ?m = "fold (\<lambda>j. the (map_option (listen me) (arrivals j))) [0..<n] m"
  have "listener_main_loop me now_sec arrivals m = Some (?m, n)"
    unfolding listener_main_loop_def using assms by (intro market_loop_returns) auto
  moreover have "?m = fold (\<lambda>j. listen me (events j)) [0..<n] m" by (intro fold_cong) (use assms(3) in auto)
  then have "?m = fold (listen me) (map events [0..<n]) m" by (simp add: fold_map comp_def)
  ultimately show ?thesis by (simp add: listen_all_tasks comp_def)
qed

text \<open>The venue falls silent before the end of the session: the market end is never noticed.\<close>

lemma silent_listener_never_returns:
  assumes "before_market_end (lc_market_end_intraday_minute (me_config me)) (lc_timezone_minute_offset (me_config me)) (now_sec k)"
    and "arrivals k = None"
    and "\<forall>j<k. before_market_end (lc_market_end_intraday_minute (me_config me)) (lc_timezone_minute_offset (me_config me)) (now_sec j)"
  shows "listener_main_loop me now_sec arrivals m = None"
  unfolding listener_main_loop_def
  by (rule market_loop_never) (use assms in \<open>metis linorder_neqE_nat map_option_is_None\<close>)

text \<open>The pricer has run the tasks of the turns before the market end, as its loop over them does.\<close>

lemma pr_main_loop_fold: "pr_main_loop pe ts s = fold (guarded_pr_run pe) ts s"
  by (induction ts arbitrary: s) (simp_all add: guarded_pr_run_def)

lemma pricer_returns_at_market_end:
  assumes "pricer_main_loop pe now_sec arrivals s = Some (s', n)"
  shows "s' = pr_main_loop pe (map (the \<circ> arrivals) [0..<n]) s
    \<and> \<not> before_market_end (pc_market_end_intraday_minute (pe_config pe)) (pc_timezone_minute_offset (pe_config pe)) (now_sec n)"
proof -
  have loop: "\<forall>j\<in>{0..<n}. map_option (guarded_pr_run pe) (arrivals j) \<noteq> None"
    "s' = fold (\<lambda>j. the (map_option (guarded_pr_run pe) (arrivals j))) [0..<n] s"
    and ends: "\<not> before_market_end (pc_market_end_intraday_minute (pe_config pe)) (pc_timezone_minute_offset (pe_config pe)) (now_sec n)"
    using assms unfolding pricer_main_loop_def market_loop_iff by auto
  have "s' = fold (\<lambda>j. guarded_pr_run pe (the (arrivals j))) [0..<n] s"
    unfolding loop(2) by (intro fold_cong) (use loop(1) in \<open>auto simp: option.map_sel\<close>)
  then show ?thesis using ends by (simp add: pr_main_loop_fold fold_map comp_def)
qed

end
