(* ===== verification/Url_Encoding.thy ===== *)
theory Url_Encoding
  imports Prelude
begin

text \<open>
  Percent encoding (\<open>RestClient::url_encode\<close> of \<open>connection_handlers/rest/rest_client.cpp\<close>).  A \<open>char\<close> is
  a byte; \<open>std::isalnum\<close> is that of the \<open>"C"\<close> locale, in which the program runs.  The decoder is the
  reference: it accepts exactly unreserved characters and \<open>%\<close> with two hexadecimal digits.
\<close>

definition byte_of :: "char \<Rightarrow> nat" where
  "byte_of c = of_char c"

definition isalnum :: "char \<Rightarrow> bool" where
  "isalnum c \<longleftrightarrow> 48 \<le> byte_of c \<and> byte_of c \<le> 57 \<or> 65 \<le> byte_of c \<and> byte_of c \<le> 90 \<or> 97 \<le> byte_of c \<and> byte_of c \<le> 122"

definition unreserved :: "char \<Rightarrow> bool" where
  "unreserved c \<longleftrightarrow> isalnum c \<or> c = CHR ''-'' \<or> c = CHR ''_'' \<or> c = CHR ''.'' \<or> c = CHR ''~''"

definition hex_digits :: string where
  "hex_digits = ''0123456789ABCDEF''"

definition encode_byte :: "char \<Rightarrow> string" where
  "encode_byte c =
     (if unreserved c then [c] else [CHR ''%'', hex_digits ! (byte_of c div 16), hex_digits ! (byte_of c mod 16)])"

definition url_encode :: "string \<Rightarrow> string" where
  "url_encode value = concat (map encode_byte value)"

section \<open>The reference decoder\<close>

definition hex_value :: "char \<Rightarrow> nat option" where
  "hex_value c = map_of (zip hex_digits [0..<16]) c"

fun url_decode :: "string \<Rightarrow> string option" where
  "url_decode [] = Some []"
| "url_decode (c # s) =
     (if c = CHR ''%'' then
        (case s of
           a # b # rest \<Rightarrow>
             (case (hex_value a, hex_value b) of
                (Some h, Some l) \<Rightarrow> map_option (\<lambda>t. char_of (16 * h + l) # t) (url_decode rest)
              | _ \<Rightarrow> None)
         | _ \<Rightarrow> None)
      else if unreserved c then map_option (\<lambda>t. c # t) (url_decode s)
      else None)"

lemma byte_of_less: "byte_of c < 256"
  by (simp add: byte_of_def)

lemma hex_value_digit: "n < 16 \<Longrightarrow> hex_value (hex_digits ! n) = Some n"
proof -
  have "list_all (\<lambda>n. hex_value (hex_digits ! n) = Some n) [0..<16]" by code_simp
  then show "n < 16 \<Longrightarrow> ?thesis" by (simp add: list_all_iff)
qed

lemma percent_reserved: "\<not> unreserved CHR ''%''"
  by (simp add: unreserved_def isalnum_def byte_of_def)

lemma decode_byte: "url_decode (encode_byte c @ s) = map_option (\<lambda>t. c # t) (url_decode s)"
proof (cases "unreserved c")
  case True
  then show ?thesis using percent_reserved by (auto simp: encode_byte_def)
next
  case False
  have "byte_of c div 16 < 16" "byte_of c mod 16 < 16" using byte_of_less [of c] by simp_all
  moreover have "char_of (16 * (byte_of c div 16) + byte_of c mod 16) = c" by (simp add: byte_of_def)
  ultimately show ?thesis using False by (simp add: encode_byte_def hex_value_digit)
qed

text \<open>
  Encoding loses nothing and yields only what a URL may carry: the reference decoder reads every encoded
  value back, so two values never have the same encoding.
\<close>

theorem url_encode_roundtrip: "url_decode (url_encode s) = Some s"
  by (induction s) (simp_all add: url_encode_def decode_byte)

lemma url_encode_inj: "url_encode s = url_encode t \<Longrightarrow> s = t"
  by (metis option.inject url_encode_roundtrip)

lemma url_encode_safe: "list_all (\<lambda>c. unreserved c \<or> c = CHR ''%'') (url_encode s)"
proof -
  have "list_all unreserved hex_digits" by code_simp
  then have "unreserved (hex_digits ! n)" if "n < 16" for n using that by (auto simp: list_all_length hex_digits_def)
  then show ?thesis
    using byte_of_less by (induction s) (simp_all add: url_encode_def encode_byte_def less_mult_imp_div_less)
qed

end
