(* ===== verification/Published_Books.thy ===== *)
theory Published_Books
  imports Listener_Properties
begin

text \<open>
  Where every published book of the Binance adapter comes from.  One step of the adapter, from any
  reachable state, is accounted for against its inputs: the payload at the head of the websocket
  queue and the depth requests it makes with their answers.  The abstract book of a product is the
  pair of price functions of \<open>Order_Book\<close>; the levels an event shows are specified by these functions,
  without the maps of the code.
\<close>

fun book_events :: "listener_event \<Rightarrow> (product \<times> orderbook_data) list" where
  "book_events (OrderbookEvent p d) = [(p, d)]"
| "book_events _ = []"

definition published :: "binance_listener \<Rightarrow> (product \<times> orderbook_data) list" where
  "published l = concat (map book_events (bl_event_queue l))"

section \<open>The specification\<close>

text \<open>The best levels of a price function: at most \<open>n\<close>, in order, none with an empty quantity, and everything left out is worse.\<close>

definition best_levels :: "(dbl \<Rightarrow> dbl \<Rightarrow> bool) \<Rightarrow> int \<Rightarrow> side_fun \<Rightarrow> orderbook_level list \<Rightarrow> bool" where
  "best_levels better n f levels \<longleftrightarrow>
     (\<exists>B. levels = map (\<lambda>(price, qty). \<lparr>ol_price = Some price, ol_qty = Some qty\<rparr>) B
        \<and> length B = min (nat n) (card (dom f)) \<and> sorted_wrt better (map fst B)
        \<and> (\<forall>(price, qty) \<in> set B. f price = Some qty \<and> \<not> d_le qty (Fin 0))
        \<and> (\<forall>price \<in> dom f - fst ` set B. \<forall>e \<in> set B. better (fst e) price))"

definition shows_book :: "int \<Rightarrow> side_fun \<Rightarrow> side_fun \<Rightarrow> int option \<Rightarrow> orderbook_data \<Rightarrow> bool" where
  "shows_book n f g t d \<longleftrightarrow> best_levels (>) n f (bid_book d) \<and> best_levels (<) n g (ask_book d) \<and> ob_server_tstamp_ms d = t"

text \<open>The worker is about to process a market payload of the given event type.\<close>

definition received :: "'j bl_env \<Rightarrow> binance_listener \<Rightarrow> string \<Rightarrow> string \<Rightarrow> bool" where
  "received be l event_type payload \<longleftrightarrow> bl_running l \<and> be_classify_market be payload = Some event_type
     \<and> (\<exists>so rest. so \<noteq> UserSocket \<and> bl_ws_event_queue l = WsPayload so payload # rest)"

text \<open>The event is the best-price message: its bid and its ask, each with its own quantity.\<close>

definition from_ticker :: "'j bl_env \<Rightarrow> binance_listener \<Rightarrow> product \<Rightarrow> orderbook_data \<Rightarrow> bool" where
  "from_ticker be l p d \<longleftrightarrow>
     (\<exists>payload t bid bid_qty ask ask_qty. received be l ''bookTicker'' payload \<and> be_book_ticker be payload = Some t
        \<and> bt_s t = p \<and> sd (bt_b t) = Some bid \<and> sd (bt_B t) = Some bid_qty \<and> sd (bt_a t) = Some ask \<and> sd (bt_A t) = Some ask_qty
        \<and> bid_book d = [\<lparr>ol_price = Some bid, ol_qty = Some bid_qty\<rparr>]
        \<and> ask_book d = [\<lparr>ol_price = Some ask, ol_qty = Some ask_qty\<rparr>]
        \<and> ob_server_tstamp_ms d = (if 0 < bt_E t then Some (bt_E t) else None))"

text \<open>
  A received depth update of the product, for a book in sync, that is stale and changes nothing, or follows
  on and writes its levels in order, an empty quantity deleting its price.
\<close>

definition diff_received :: "'j bl_env \<Rightarrow> binance_listener \<Rightarrow> binance_listener \<Rightarrow> product \<Rightarrow> int \<Rightarrow> bool" where
  "diff_received be l l' p time \<longleftrightarrow>
     (\<exists>payload u bid_levels ask_levels. received be l ''depthUpdate'' payload \<and> be_depth_update be payload = Some u
        \<and> du_s u = p \<and> du_E u = time \<and> sd_levels (du_b u) = Some bid_levels \<and> sd_levels (du_a u) = Some ask_levels
        \<and> synced (book_of l p)
        \<and> (if du_u u < last_update_id (book_of l p)
           then bid_view (book_of l' p) = bid_view (book_of l p) \<and> ask_view (book_of l' p) = ask_view (book_of l p)
           else (du_pu u = last_update_id (book_of l p)
                 \<or> du_U u \<le> s64 (last_update_id (book_of l p) + 1) \<and> s64 (last_update_id (book_of l p) + 1) \<le> du_u u)
             \<and> bid_view (book_of l' p) = fold level_write bid_levels (bid_view (book_of l p))
             \<and> ask_view (book_of l' p) = fold level_write ask_levels (ask_view (book_of l p))))"

text \<open>A good answer to a depth request for the product, made in this step; an answer is a function of the number of its request.\<close>

definition snapshot_received :: "'j bl_env \<Rightarrow> binance_listener \<Rightarrow> binance_listener \<Rightarrow> product \<Rightarrow> depth_snapshot \<Rightarrow> bool" where
  "snapshot_received be l l' p snap \<longleftrightarrow> ds_ok snap
     \<and> (\<exists>i n. length (net_requests (bl_net l)) \<le> i \<and> i < length (net_requests (bl_net l'))
          \<and> net_requests (bl_net l') ! i = depth_request (be_rest be) p
          \<and> length (net_requests n) = i \<and> fst (fetch_depth (be_rest be) p 1000 n) = snap)"

definition snapshot_bids :: "depth_snapshot \<Rightarrow> side_fun" where
  "snapshot_bids snap = fold level_write (positive_levels (ds_bids snap)) Map.empty"

definition snapshot_asks :: "depth_snapshot \<Rightarrow> side_fun" where
  "snapshot_asks snap = fold level_write (positive_levels (ds_asks snap)) Map.empty"

definition holds_snapshot :: "order_book \<Rightarrow> depth_snapshot \<Rightarrow> bool" where
  "holds_snapshot ob snap \<longleftrightarrow> bid_view ob = snapshot_bids snap \<and> ask_view ob = snapshot_asks snap"

text \<open>What a step may do to the feed of a product: the event it publishes, and the change of the book's levels.\<close>

definition from_diff :: "'j bl_env \<Rightarrow> binance_listener \<Rightarrow> binance_listener \<Rightarrow> product \<Rightarrow> orderbook_data \<Rightarrow> bool" where
  "from_diff be l l' p d \<longleftrightarrow>
     (\<exists>time. diff_received be l l' p time
        \<and> shows_book (lc_orderbook_levels (be_config be)) (bid_view (book_of l' p)) (ask_view (book_of l' p)) (event_time time) d)"

definition from_snapshot :: "'j bl_env \<Rightarrow> binance_listener \<Rightarrow> binance_listener \<Rightarrow> product \<Rightarrow> orderbook_data \<Rightarrow> bool" where
  "from_snapshot be l l' p d \<longleftrightarrow>
     (\<exists>snap. snapshot_received be l l' p snap
        \<and> shows_book (lc_orderbook_levels (be_config be)) (snapshot_bids snap) (snapshot_asks snap) None d
        \<and> (distinct (bl_futures_products l) \<longrightarrow> synced (book_of l' p) \<and> holds_snapshot (book_of l' p) snap))"

definition same_views :: "binance_listener \<Rightarrow> binance_listener \<Rightarrow> product \<Rightarrow> bool" where
  "same_views l l' p \<longleftrightarrow> bid_view (book_of l' p) = bid_view (book_of l p) \<and> ask_view (book_of l' p) = ask_view (book_of l p)"

definition levels_accounted :: "'j bl_env \<Rightarrow> binance_listener \<Rightarrow> binance_listener \<Rightarrow> product \<Rightarrow> bool" where
  "levels_accounted be l l' p \<longleftrightarrow> same_views l l' p \<or> (\<exists>time. diff_received be l l' p time)
     \<or> (\<exists>snap. snapshot_received be l l' p snap \<and> holds_snapshot (book_of l' p) snap)"

section \<open>The levels of a book\<close>

lemma om_inv_dom_card: "om_inv m \<Longrightarrow> card (dom (map_of m)) = length m"
  by (metis card_image dom_map_of_conv_image_fst length_map om_inv_distinct set_map distinct_card)

lemma best_levels_side:
  assumes "om_inv m" "\<forall>q \<in> snd ` set m. \<not> d_le q (Fin 0)" "inj key"
    "\<And>k k'. better (key k) (key k') = (k < k')"
    "\<And>k. f (key k) = map_of m k" "dom f = key ` dom (map_of m)"
  shows "best_levels better n f (map (\<lambda>(k, q). \<lparr>ol_price = Some (key k), ol_qty = Some q\<rparr>) (take (nat n) m))"
proof -
  let ?T = "take (nat n) m" and ?B = "map (\<lambda>e. (key (fst e), snd e)) (take (nat n) m)"
  have card: "card (dom f) = length m"
    using assms(3,6) om_inv_dom_card [OF assms(1)] by (simp add: card_image inj_on_subset)
  have sorted: "sorted_wrt better (map fst ?B)"
    using take_om_inv [OF assms(1), of "nat n"] by (simp add: om_inv_def sorted_wrt_map assms(4))
  have mem: "f price = Some qty \<and> \<not> d_le qty (Fin 0)" if "(price, qty) \<in> set ?B" for price qty
    using that om_lookup_mem [OF assms(1)] assms(2) by (auto simp: assms(5) dest!: in_set_takeD)
  have left_out: "better (fst e) price" if p: "price \<in> dom f - fst ` set ?B" and e: "e \<in> set ?B" for price e
  proof -
    from p obtain k q where k: "price = key k" "(k, q) \<in> set m"
      using om_lookup_mem [OF assms(1)] by (auto simp: assms(6))
    have "(k, q) \<notin> set ?T" using p k(1) by force
    with take_sorted_side [OF assms(1) _ k(2)] e show ?thesis by (auto simp: k(1) assms(4))
  qed
  show ?thesis
    unfolding best_levels_def using card sorted mem left_out
    by (intro exI [of _ ?B]) (auto simp: case_prod_unfold)
qed

lemma to_data_shows:
  assumes "book_inv ob"
  shows "shows_book n (bid_view ob) (ask_view ob) t ((to_data n ob)\<lparr>ob_server_tstamp_ms := t\<rparr>)"
proof -
  have b: "om_inv (bids ob)" "\<forall>q \<in> snd ` set (bids ob). \<not> d_le q (Fin 0)"
    and a: "om_inv (asks ob)" "\<forall>q \<in> snd ` set (asks ob). \<not> d_le q (Fin 0)"
    using assms by (simp_all add: book_inv_def side_inv_def)
  have inj: "inj undesc" by (metis desc.expand injI)
  have order: "undesc k > undesc k' \<longleftrightarrow> k < k'" for k k' :: "dbl desc" by (simp add: less_desc_def)
  have view: "bid_view ob (undesc k) = map_of (bids ob) k" for k by (simp add: bid_view_def)
  have dom: "dom (bid_view ob) = undesc ` dom (map_of (bids ob))"
    by (auto simp: bid_view_def image_iff dom_def) (metis desc.sel)
  show ?thesis
    using best_levels_side [OF b inj order view dom, of n]
      best_levels_side [OF a, of "\<lambda>p. p" "(<)" "ask_view ob" n]
    by (simp add: shows_book_def to_data_def ask_view_def)
qed

section \<open>What the other operations leave alone\<close>

definition pub_view :: "binance_listener \<Rightarrow> (product, order_book) omap \<times> (product \<times> orderbook_data) list" where
  "pub_view l = (bl_order_books l, published l)"

lemma pub_view_upd [simp]:
  "pub_view (l\<lparr>bl_net := n\<rparr>) = pub_view l" "pub_view (l\<lparr>bl_filters := fs\<rparr>) = pub_view l"
  "pub_view (l\<lparr>bl_market_opened := b\<rparr>) = pub_view l" "pub_view (l\<lparr>bl_trade_opened := b\<rparr>) = pub_view l"
  "pub_view (l\<lparr>bl_user_opened := b\<rparr>) = pub_view l" "pub_view (l\<lparr>bl_listen_key := k\<rparr>) = pub_view l"
  "pub_view (l\<lparr>bl_keepalive := b\<rparr>) = pub_view l" "pub_view (l\<lparr>bl_dials := ds\<rparr>) = pub_view l"
  "pub_view (l\<lparr>bl_ws_event_queue := q\<rparr>) = pub_view l" "pub_view (l\<lparr>bl_start_posted := b\<rparr>) = pub_view l"
  "pub_view (l\<lparr>bl_user := r\<rparr>) = pub_view l" "pub_view (upd_redial so f l) = pub_view l"
  by (cases so; simp add: pub_view_def published_def)+

lemma published_emit: "published (bl_emit ev l) = published l @ book_events ev"
  by (simp add: published_def bl_emit_def)

lemma pub_view_emit [simp]: "book_events ev = [] \<Longrightarrow> pub_view (bl_emit ev l) = pub_view l"
  by (simp add: pub_view_def published_emit) (simp add: bl_emit_def)

lemma pub_view_fold: "(\<And>x l. pub_view (f x l) = pub_view l) \<Longrightarrow> pub_view (fold f xs l) = pub_view l"
  by (induction xs arbitrary: l) simp_all

lemma pub_view_snapshots [simp]:
  "pub_view (publish_user_state be l) = pub_view l" "pub_view (publish_product_info be l) = pub_view l"
  by (simp_all add: publish_user_state_def publish_product_info_def Let_def pub_view_fold split: prod.splits)

lemma pub_view_emit_account [simp]: "pub_view (snd (emit_account xs l)) = pub_view l"
  by (induction xs l rule: emit_account.induct) (simp_all split: option.splits)

lemma pub_view_emit_opt: "(\<And>e. ev = Some e \<Longrightarrow> book_events e = []) \<Longrightarrow> pub_view (emit_opt ev l) = pub_view l"
  by (simp add: emit_opt_def split: option.splits)

lemma pub_view_agg_trade [simp]: "pub_view (emit_opt (Option.bind x read_agg_trade) l) = pub_view l"
  by (rule pub_view_emit_opt) (auto simp: read_agg_trade_def split: Option.bind_splits)

lemma pub_view_user [simp]: "pub_view (handle_user_payload be payload l) = pub_view l"
proof -
  have "pub_view (handle_account_update u l) = pub_view l" for u
  proof (cases "emit_account (map (\<lambda>b. (ab_a b, ab_wb b)) (au_B u)) l")
    case (Pair ok l1)
    then have "pub_view l1 = pub_view l"
      using pub_view_emit_account [of "map (\<lambda>b. (ab_a b, ab_wb b)) (au_B u)" l] by simp
    with Pair show ?thesis by (simp add: handle_account_update_def)
  qed
  moreover have "pub_view (emit_opt (Option.bind x read_order_update) l) = pub_view l" for x
    by (rule pub_view_emit_opt) (auto simp: read_order_update_def Let_def split: Option.bind_splits if_splits)
  ultimately show ?thesis by (simp add: handle_user_payload_def split: option.splits)
qed

lemma pub_view_create [simp]: "pub_view (create_socket be so l) = pub_view l"
proof -
  have "pub_view (dial_socket be so' url l') = pub_view l'" for so' url l'
    by (simp add: dial_socket_def del: upd_redial.simps split: prod.splits)
  then show ?thesis
    by (cases so) (simp_all add: create_market_client_def create_trade_client_def create_user_client_def Let_def
        del: upd_redial.simps split: prod.splits)
qed

lemma pub_view_step:
  assumes "bl_step be l l'"
  shows "pub_view l' = pub_view l
    \<or> bl_running l \<and> (\<exists>ev rest. bl_ws_event_queue l = ev # rest \<and> l' = worker_event be ev (l\<lparr>bl_ws_event_queue := rest\<rparr>))"
  using assms
proof (induction rule: bl_step.induct)
  case (start l)
  have "pub_view (create_socket be UserSocket x) = pub_view x" "pub_view (create_socket be TradeSocket x) = pub_view x"
    "pub_view (create_socket be MarketSocket x) = pub_view x" for x by (rule pub_view_create)+
  then show ?case by (simp add: bl_run_start_def schedule_keepalive_def Let_def)
next
  case (socket so l c e)
  then show ?case by (simp add: bl_socket_event_def del: upd_redial.simps split: prod.splits)
next
  case (message so l payload)
  then show ?case by (simp add: bl_socket_message_def)
next
  case (schedule so l)
  then show ?case
    by (cases so) (simp_all add: schedule_market_reconnect_def schedule_trade_reconnect_def schedule_user_reconnect_def
        del: upd_redial.simps)
next
  case (timer so l)
  then show ?case by (simp add: bl_on_timer_def Let_def del: upd_redial.simps)
next
  case (worker l)
  then show ?case by (cases "bl_ws_event_queue l") (simp_all add: worker_round_def Let_def)
next
  case (keepalive l)
  then show ?case by (simp add: bl_on_keepalive_def schedule_keepalive_def Let_def)
qed simp_all

section \<open>Where the books come from\<close>

definition net_extends :: "binance_listener \<Rightarrow> binance_listener \<Rightarrow> bool" where
  "net_extends l l' \<longleftrightarrow> (\<exists>rs. net_requests (bl_net l') = net_requests (bl_net l) @ rs)"

lemma net_extends_refl [simp]: "net_extends l l"
  by (simp add: net_extends_def)

lemma net_extends_trans: "net_extends l l1 \<Longrightarrow> net_extends l1 l2 \<Longrightarrow> net_extends l l2"
  by (auto simp: net_extends_def)

lemma snapshot_received_mono:
  assumes "snapshot_received be l1 l2 p snap" "net_extends l l1" "net_extends l2 l'"
  shows "snapshot_received be l l' p snap"
proof -
  from assms(1) obtain i n where i: "length (net_requests (bl_net l1)) \<le> i" "i < length (net_requests (bl_net l2))"
    "net_requests (bl_net l2) ! i = depth_request (be_rest be) p" "length (net_requests n) = i"
    "fst (fetch_depth (be_rest be) p 1000 n) = snap" and ok: "ds_ok snap"
    unfolding snapshot_received_def by blast
  moreover have "length (net_requests (bl_net l)) \<le> length (net_requests (bl_net l1))"
    "net_requests (bl_net l') ! i = net_requests (bl_net l2) ! i"
    "length (net_requests (bl_net l2)) \<le> length (net_requests (bl_net l'))"
    using assms(2,3) i(2) by (auto simp: net_extends_def nth_append)
  ultimately show ?thesis unfolding snapshot_received_def by (metis le_trans less_le_trans)
qed

lemma snapshot_views:
  "holds_snapshot (apply_snapshot i (ds_bids snap) (ds_asks snap) ob) snap"
  by (simp add: holds_snapshot_def snapshot_bids_def snapshot_asks_def bid_view_def ask_view_def apply_snapshot_def
      fill_bids_apply fill_asks_apply apply_side_bids_view apply_side_asks_view)

text \<open>What a resync may do: nothing that shows, or the answer taken over and published.\<close>

definition resynced :: "'j bl_env \<Rightarrow> binance_listener \<Rightarrow> binance_listener \<Rightarrow> product \<Rightarrow> depth_snapshot \<Rightarrow> orderbook_data \<Rightarrow> bool" where
  "resynced be l l' p snap d \<longleftrightarrow> snapshot_received be l l' p snap \<and> synced (book_of l' p) \<and> holds_snapshot (book_of l' p) snap
     \<and> shows_book (lc_orderbook_levels (be_config be)) (snapshot_bids snap) (snapshot_asks snap) None d"

lemma resync_cases:
  assumes "l' = resync_order_book be p l"
  shows "net_extends l l'" "q \<noteq> p \<Longrightarrow> book_of l' q = book_of l q"
    "same_views l l' p \<and> published l' = published l
      \<or> (\<exists>snap d. resynced be l l' p snap d \<and> published l' = published l @ [(p, d)])"
proof -
  obtain snap n where f: "fetch_depth (be_rest be) p 1000 (bl_net l) = (snap, n)"
    by (cases "fetch_depth (be_rest be) p 1000 (bl_net l)")
  define ob where "ob = apply_snapshot (ds_last_update_id snap) (ds_bids snap) (ds_asks snap) (mark_desynced (book_of l p))"
  note res = resync_result [OF f assms ob_def]
  have off: "\<not> re_curl_init (be_rest be) \<Longrightarrow> \<not> ds_ok snap \<and> n = bl_net l"
    using f by (auto simp: fetch_depth_def rest_get_def perform_def response_ok_def failed_response_def depth_snapshot_init_def)
  have req: "re_curl_init (be_rest be) \<Longrightarrow> net_requests n = net_requests (bl_net l) @ [depth_request (be_rest be) p]"
    using fetch_depth_requests [OF _ f] by simp
  show "net_extends l l'" using off req res(1) by (cases "re_curl_init (be_rest be)") (auto simp: net_extends_def)
  show "q \<noteq> p \<Longrightarrow> book_of l' q = book_of l q" by (rule res(2))
  show "same_views l l' p \<and> published l' = published l
      \<or> (\<exists>snap d. resynced be l l' p snap d \<and> published l' = published l @ [(p, d)])"
  proof (cases "ds_ok snap")
    case False
    with res(5) show ?thesis by (simp add: same_views_def published_def mark_desynced_def bid_view_def ask_view_def)
  next
    case True
    then have curl: "net_requests (bl_net l') = net_requests (bl_net l) @ [depth_request (be_rest be) p]"
      using off req res(1) by blast
    have rcv: "snapshot_received be l l' p snap"
      unfolding snapshot_received_def using True curl f
      by (intro conjI exI [of _ "length (net_requests (bl_net l))"] exI [of _ "bl_net l"]) simp_all
    have hold: "holds_snapshot ob snap" unfolding ob_def by (rule snapshot_views)
    have sy: "synced ob" by (simp add: ob_def apply_snapshot_def)
    have "book_inv ob" unfolding ob_def by (rule snapshot_inv)
    from to_data_shows [OF this, of "lc_orderbook_levels (be_config be)" None] hold
    have "shows_book (lc_orderbook_levels (be_config be)) (snapshot_bids snap) (snapshot_asks snap) None
        (to_data (lc_orderbook_levels (be_config be)) ob)"
      by (simp add: holds_snapshot_def to_data_def)
    then have "resynced be l l' p snap (to_data (lc_orderbook_levels (be_config be)) ob)"
      using rcv hold sy res(3) [OF True] by (simp add: resynced_def)
    with res(4) [OF True] show ?thesis by (auto simp: published_def)
  qed
qed

text \<open>The resync of every product after the market socket opened: what it may publish, and what it does to the books.\<close>

definition snapshot_event :: "'j bl_env \<Rightarrow> product list \<Rightarrow> binance_listener \<Rightarrow> binance_listener \<Rightarrow> product \<Rightarrow> orderbook_data \<Rightarrow> bool" where
  "snapshot_event be ps l l' p d \<longleftrightarrow> p \<in> set ps
     \<and> (\<exists>snap. snapshot_received be l l' p snap
          \<and> shows_book (lc_orderbook_levels (be_config be)) (snapshot_bids snap) (snapshot_asks snap) None d
          \<and> (distinct ps \<longrightarrow> synced (book_of l' p) \<and> holds_snapshot (book_of l' p) snap))"

definition snapshot_levels :: "'j bl_env \<Rightarrow> binance_listener \<Rightarrow> binance_listener \<Rightarrow> product \<Rightarrow> bool" where
  "snapshot_levels be l l' p \<longleftrightarrow> same_views l l' p
     \<or> (\<exists>snap. snapshot_received be l l' p snap \<and> holds_snapshot (book_of l' p) snap)"

definition all_resynced :: "'j bl_env \<Rightarrow> product list \<Rightarrow> binance_listener \<Rightarrow> binance_listener \<Rightarrow> bool" where
  "all_resynced be ps l l' \<longleftrightarrow> net_extends l l' \<and> (\<forall>p. p \<notin> set ps \<longrightarrow> book_of l' p = book_of l p)
     \<and> (\<forall>p. snapshot_levels be l l' p)
     \<and> (\<exists>new. published l' = published l @ new \<and> (\<forall>(p, d) \<in> set new. snapshot_event be ps l l' p d))"

lemma snapshot_levels_trans:
  assumes "snapshot_levels be l l1 p" "snapshot_levels be l1 l2 p" "net_extends l l1" "net_extends l1 l2"
  shows "snapshot_levels be l l2 p"
proof (cases "same_views l1 l2 p")
  case True
  then have "holds_snapshot (book_of l1 p) snap \<Longrightarrow> holds_snapshot (book_of l2 p) snap" for snap
    by (simp add: same_views_def holds_snapshot_def)
  with assms(1) True snapshot_received_mono [OF _ net_extends_refl assms(4), of be l p] show ?thesis
    unfolding snapshot_levels_def same_views_def by metis
next
  case False
  with assms(2) snapshot_received_mono [OF _ assms(3) net_extends_refl, of be l2 p] show ?thesis
    unfolding snapshot_levels_def by blast
qed

lemma snapshot_event_later:
  assumes "snapshot_event be ps l1 l2 p d" "net_extends l l1"
  shows "snapshot_event be (a # ps) l l2 p d"
  using assms(1) snapshot_received_mono [OF _ assms(2) net_extends_refl, of be l2 p]
  unfolding snapshot_event_def by (metis distinct.simps(2) list.set_intros(2))

lemma snapshot_event_first:
  assumes "resynced be l l1 a snap d" "net_extends l1 l2" "\<forall>p. p \<notin> set ps \<longrightarrow> book_of l2 p = book_of l1 p"
  shows "snapshot_event be (a # ps) l l2 a d"
  using assms(1,3) snapshot_received_mono [OF _ net_extends_refl assms(2), of be l a]
  unfolding snapshot_event_def resynced_def by (metis distinct.simps(2) list.set_intros(1))

lemma all_resynced_Cons:
  assumes "l1 = resync_order_book be a l" "all_resynced be ps l1 l2"
  shows "all_resynced be (a # ps) l l2"
proof -
  note head = resync_cases [OF assms(1)]
  from assms(2) obtain new where tail: "net_extends l1 l2" "\<forall>p. p \<notin> set ps \<longrightarrow> book_of l2 p = book_of l1 p"
    "\<forall>p. snapshot_levels be l1 l2 p" "published l2 = published l1 @ new" "\<forall>(p, d) \<in> set new. snapshot_event be ps l1 l2 p d"
    unfolding all_resynced_def by blast
  have rest: "\<forall>(p, d) \<in> set new. snapshot_event be (a # ps) l l2 p d"
    using tail(5) snapshot_event_later [OF _ head(1)] by blast
  have "snapshot_levels be l l1 p" for p
    using head(2) [of p] head(3) unfolding snapshot_levels_def resynced_def same_views_def by (cases "p = a") auto
  then have levels: "snapshot_levels be l l2 p" for p using snapshot_levels_trans tail(1,3) head(1) by blast
  have "\<exists>new. published l2 = published l @ new \<and> (\<forall>(p, d) \<in> set new. snapshot_event be (a # ps) l l2 p d)"
    using head(3)
  proof (elim disjE exE conjE)
    assume "published l1 = published l"
    with tail(4) rest show ?thesis by auto
  next
    fix snap d assume s: "resynced be l l1 a snap d" "published l1 = published l @ [(a, d)]"
    from snapshot_event_first [OF s(1) tail(1,2)] tail(4) s(2) rest show ?thesis
      by (intro exI [of _ "(a, d) # new"]) auto
  qed
  then show ?thesis
    using levels tail(2) head(2) net_extends_trans [OF head(1) tail(1)] unfolding all_resynced_def
    by (intro conjI allI) simp_all
qed

lemma resync_all: "all_resynced be ps l (fold (resync_order_book be) ps l)"
proof (induction ps arbitrary: l)
  case Nil
  then show ?case by (simp add: all_resynced_def snapshot_levels_def same_views_def)
next
  case (Cons a ps)
  show ?case unfolding fold_simps by (rule all_resynced_Cons [OF refl Cons.IH])
qed

section \<open>What the worker publishes\<close>

text \<open>A step is accounted for: its new book events, and every change of a book.\<close>

definition feed_accounted :: "'j bl_env \<Rightarrow> binance_listener \<Rightarrow> binance_listener \<Rightarrow> bool" where
  "feed_accounted be l l' \<longleftrightarrow>
     (\<exists>new. published l' = published l @ new
        \<and> (\<forall>(p, d) \<in> set new. from_ticker be l p d \<or> from_diff be l l' p d \<or> from_snapshot be l l' p d))
     \<and> (\<forall>p. levels_accounted be l l' p)"

lemma feed_accountedI:
  assumes "published l' = published l @ new"
    "\<And>p d. (p, d) \<in> set new \<Longrightarrow> from_ticker be l p d \<or> from_diff be l l' p d \<or> from_snapshot be l l' p d"
    "\<And>p. levels_accounted be l l' p"
  shows "feed_accounted be l l'"
  using assms unfolding feed_accounted_def by blast

lemma feed_accounted_same:
  assumes "pub_view l' = pub_view l"
  shows "feed_accounted be l l'"
  by (rule feed_accountedI [of _ _ "[]"])
    (use assms in \<open>simp_all add: pub_view_def levels_accounted_def same_views_def book_of_def\<close>)

text \<open>The worker has taken the event off the queue; nothing else of the state has changed.\<close>

lemma dequeued:
  "book_of (l\<lparr>bl_ws_event_queue := q\<rparr>) p = book_of l p" "published (l\<lparr>bl_ws_event_queue := q\<rparr>) = published l"
  "net_extends l (l\<lparr>bl_ws_event_queue := q\<rparr>)" "same_views (l\<lparr>bl_ws_event_queue := q\<rparr>) l' p = same_views l l' p"
  by (simp_all add: book_of_def published_def net_extends_def same_views_def)

lemma market_open_accounted:
  assumes "l' = on_market_open be l1" "pub_view l1 = pub_view l" "bl_net l1 = bl_net l"
    "bl_futures_products l1 = bl_futures_products l"
  shows "feed_accounted be l l'"
proof -
  have l': "l' = fold (resync_order_book be) (bl_futures_products l) l1" by (simp add: assms(1,4) on_market_open_def)
  have pub: "published l1 = published l" and same: "same_views l1 l' p = same_views l l' p" for p
    using assms(2) by (simp_all add: pub_view_def same_views_def book_of_def)
  have rcv: "snapshot_received be l1 l' p snap = snapshot_received be l l' p snap" for p snap
    by (simp add: snapshot_received_def assms(3))
  note all = resync_all [of be "bl_futures_products l" l1, folded l', unfolded all_resynced_def snapshot_levels_def
      snapshot_event_def pub same rcv]
  then obtain new where "published l' = published l @ new"
    "\<And>p d. (p, d) \<in> set new \<Longrightarrow> from_snapshot be l l' p d" unfolding from_snapshot_def by blast
  moreover have "levels_accounted be l l' p" for p using all unfolding levels_accounted_def by blast
  ultimately show ?thesis by (intro feed_accountedI) auto
qed

lemma status_accounted:
  assumes "l1 = l\<lparr>bl_ws_event_queue := rest\<rparr>" "l' = on_ws_status be so connecting opened l1"
  shows "feed_accounted be l l'"
proof (cases "so = MarketSocket \<and> \<not> bl_market_opened l1 \<and> opened")
  case True
  let ?l1 = "upd_redial MarketSocket redial_reset_cnt l1"
  have m: "feed_accounted be l (on_market_open be ?l1)"
    by (rule market_open_accounted [OF refl]) (simp_all add: assms(1) pub_view_def published_def)
  have "pub_view l' = pub_view (on_market_open be ?l1)" "bl_net l' = bl_net (on_market_open be ?l1)"
    using True by (simp_all add: assms(2) on_ws_status_def Let_def)
  then have v: "published l' = published (on_market_open be ?l1)" "book_of l' = book_of (on_market_open be ?l1)"
    "bl_net l' = bl_net (on_market_open be ?l1)" by (auto simp: pub_view_def book_of_def)
  from m show ?thesis
    unfolding feed_accounted_def from_diff_def from_snapshot_def levels_accounted_def diff_received_def
      snapshot_received_def same_views_def v .
next
  case False
  then have "pub_view l' = pub_view l1"
    by (cases so) (auto simp: assms(2) on_ws_status_def Let_def on_user_open_def simp del: upd_redial.simps)
  then show ?thesis by (intro feed_accounted_same) (simp add: assms(1))
qed

lemma ticker_from:
  assumes "received be l ''bookTicker'' payload" "be_book_ticker be payload = Some t" "read_book_ticker t = Some ev"
  shows "\<exists>d. book_events ev = [(bt_s t, d)] \<and> from_ticker be l (bt_s t) d"
proof -
  from assms(3) obtain b B a A where r: "sd (bt_b t) = Some b" "sd (bt_B t) = Some B" "sd (bt_a t) = Some a" "sd (bt_A t) = Some A"
    "ev = OrderbookEvent (bt_s t) \<lparr>bid_book = [\<lparr>ol_price = Some b, ol_qty = Some B\<rparr>],
        ask_book = [\<lparr>ol_price = Some a, ol_qty = Some A\<rparr>], ob_server_tstamp_ms = event_time (bt_E t)\<rparr>"
    by (auto simp: read_book_ticker_def split: Option.bind_splits)
  with assms(1,2) show ?thesis unfolding from_ticker_def by (auto simp: event_time_def)
qed

lemma depth_refused:
  assumes "apply_diff df (book_of l p) = (False, ob)" "l1 = l\<lparr>bl_ws_event_queue := rest\<rparr>"
    "l' = resync_order_book be p (set_book p ob l1)"
  shows "feed_accounted be l l'"
proof -
  let ?l1 = "set_book p ob l1"
  have ob: "bid_view ob = bid_view (book_of l p)" "ask_view ob = ask_view (book_of l p)"
    using assms(1) by (auto simp: apply_diff_def bid_view_def ask_view_def split: if_splits)
  have pub: "published ?l1 = published l" and same: "same_views ?l1 l' q = same_views l l' q" for q
    using ob by (simp_all add: published_def same_views_def assms(2) dequeued)
  have rcv: "snapshot_received be ?l1 l' q snap = snapshot_received be l l' q snap" for q snap
    by (simp add: snapshot_received_def assms(2))
  note res = resync_cases [OF assms(3), unfolded pub same resynced_def rcv]
  have other: "same_views l l' q" if "q \<noteq> p" for q using res(2) [OF that] that by (simp add: same_views_def assms(2) dequeued)
  show ?thesis
    using res(3)
  proof (elim disjE exE conjE)
    assume "same_views l l' p" "published l' = published l"
    then have "same_views l l' q" for q using other [of q] by (cases "q = p") simp_all
    with \<open>published l' = published l\<close> show ?thesis by (intro feed_accountedI [of _ _ "[]"]) (auto simp: levels_accounted_def)
  next
    fix snap d
    assume s: "snapshot_received be l l' p snap" "synced (book_of l' p)" "holds_snapshot (book_of l' p) snap"
      "shows_book (lc_orderbook_levels (be_config be)) (snapshot_bids snap) (snapshot_asks snap) None d"
      "published l' = published l @ [(p, d)]"
    then have "from_snapshot be l l' p d" unfolding from_snapshot_def by blast
    moreover have "levels_accounted be l l' q" for q
      using s(1,3) other [of q] unfolding levels_accounted_def by (cases "q = p") auto
    ultimately show ?thesis using s(5) by (intro feed_accountedI [of _ _ "[(p, d)]"]) auto
  qed
qed

lemma depth_accepted:
  assumes "received be l ''depthUpdate'' payload" "be_depth_update be payload = Some u" "depth_diff_of u = Some df"
    "apply_diff df (book_of l (du_s u)) = (True, ob)" "book_of l' (du_s u) = ob"
  shows "diff_received be l l' (du_s u) (du_E u)"
proof -
  from assms(3) obtain bs as where df: "sd_levels (du_b u) = Some bs" "sd_levels (du_a u) = Some as"
    "df = \<lparr>df_U = du_U u, df_u = du_u u, df_pu = du_pu u, df_bids = bs, df_asks = as\<rparr>"
    by (auto simp: depth_diff_of_def split: Option.bind_splits)
  have ok: "fst (apply_diff df (book_of l (du_s u)))" "snd (apply_diff df (book_of l (du_s u))) = ob"
    using assms(4) by simp_all
  have seq: "df_u df < last_update_id (book_of l (du_s u)) \<or> first_ok (book_of l (du_s u)) df \<or> chain_ok (book_of l (du_s u)) df"
    "synced (book_of l (du_s u))"
    using ok(1) by (auto simp: apply_diff_def split: if_splits)
  show ?thesis
    unfolding diff_received_def
    by (rule exI [of _ payload], rule exI [of _ u], rule exI [of _ bs], rule exI [of _ as])
      (use assms(1,2,5) df seq diff_ok_view(1,2) [OF ok(1), unfolded ok(2)] in \<open>auto simp: first_ok_def chain_ok_def\<close>)
qed

lemma depth_accounted:
  assumes "received be l ''depthUpdate'' payload" "be_depth_update be payload = Some u" "book_inv (book_of l (du_s u))"
    "l1 = l\<lparr>bl_ws_event_queue := rest\<rparr>" "l' = handle_depth be u l1"
  shows "feed_accounted be l l'"
proof (cases "om_has (bl_order_books l1) (du_s u)")
  case False
  then show ?thesis by (intro feed_accounted_same) (simp add: assms(4,5) handle_depth_def)
next
  case has: True
  let ?p = "du_s u"
  show ?thesis
  proof (cases "depth_diff_of u")
    case None
    then show ?thesis by (intro feed_accounted_same) (simp add: assms(4,5) handle_depth_def)
  next
    case (Some df)
    obtain ok ob where ad: "apply_diff df (book_of l1 ?p) = (ok, ob)" by (cases "apply_diff df (book_of l1 ?p)")
    then have adl: "apply_diff df (book_of l ?p) = (ok, ob)" by (simp add: assms(4) dequeued)
    let ?lv = "lc_orderbook_levels (be_config be)"
    let ?d = "(to_data ?lv ob)\<lparr>ob_server_tstamp_ms := event_time (du_E u)\<rparr>"
    show ?thesis
    proof (cases ok)
      case False
      then have l': "l' = resync_order_book be ?p (set_book ?p ob l1)" using has Some ad by (simp add: assms(5) handle_depth_def Let_def)
      show ?thesis by (rule depth_refused [OF _ assms(4) l']) (use adl False in simp)
    next
      case True
      then have l': "l' = bl_emit (OrderbookEvent ?p ?d) (set_book ?p ob l1)"
        using has Some ad by (simp add: assms(5) handle_depth_def Let_def)
      have diff: "diff_received be l l' ?p (du_E u)"
        by (rule depth_accepted [OF assms(1,2) Some]) (use adl True l' in simp_all)
      have inv: "book_inv ob" using diff_inv [OF assms(3), of df] adl by simp
      have "from_diff be l l' ?p ?d"
        unfolding from_diff_def using diff to_data_shows [OF inv, of ?lv "event_time (du_E u)"] by (auto simp: l')
      moreover have "published l' = published l @ [(?p, ?d)]"
        by (simp add: l' published_emit) (simp add: published_def set_book_def assms(4))
      moreover have "levels_accounted be l l' q" for q
        using diff unfolding levels_accounted_def same_views_def
        by (cases "q = ?p") (auto simp: l' assms(4) dequeued)
      ultimately show ?thesis by (intro feed_accountedI [of _ _ "[(?p, ?d)]"]) auto
    qed
  qed
qed

lemma payload_accounted:
  assumes "so \<noteq> UserSocket" "bl_running l" "bl_ws_event_queue l = WsPayload so payload # rest" "\<And>p. book_inv (book_of l p)"
    "l1 = l\<lparr>bl_ws_event_queue := rest\<rparr>" "l' = handle_market_payload be payload l1"
  shows "feed_accounted be l l'"
proof (cases "be_classify_market be payload")
  case None
  then show ?thesis by (intro feed_accounted_same) (simp add: assms(5,6) handle_market_payload_def)
next
  case (Some event_type)
  then have rcv: "received be l event_type payload" using assms(1-3) unfolding received_def by blast
  note other = feed_accounted_same [of l' l be] and dispatch = assms(6) [unfolded handle_market_payload_def Some option.case]
  consider (ticker) "event_type = ''bookTicker''" | (depth) "event_type = ''depthUpdate''"
    | (rest) "event_type \<noteq> ''bookTicker''" "event_type \<noteq> ''depthUpdate''" by blast
  then show ?thesis
  proof cases
    case ticker
    show ?thesis
    proof (cases "Option.bind (be_book_ticker be payload) read_book_ticker")
      case None
      then show ?thesis by (intro other) (simp add: dispatch ticker emit_opt_def assms(5))
    next
      case (Some ev)
      then obtain t where t: "be_book_ticker be payload = Some t" "read_book_ticker t = Some ev"
        by (auto split: Option.bind_splits)
      from ticker_from [OF rcv [unfolded ticker] t] obtain d
        where d: "book_events ev = [(bt_s t, d)]" "from_ticker be l (bt_s t) d" by blast
      have l': "l' = bl_emit ev l1" using Some by (simp add: dispatch ticker emit_opt_def)
      from d show ?thesis
        by (intro feed_accountedI [of _ _ "[(bt_s t, d)]"])
          (auto simp: l' published_emit assms(5) dequeued levels_accounted_def same_views_def)
    qed
  next
    case depth
    show ?thesis
    proof (cases "be_depth_update be payload")
      case None
      then show ?thesis by (intro other) (simp add: dispatch depth assms(5))
    next
      case (Some u)
      then have l': "l' = handle_depth be u l1" by (simp add: dispatch depth)
      show ?thesis by (rule depth_accounted [OF rcv [unfolded depth] Some assms(4,5) l'])
    qed
  next
    case rest
    then show ?thesis by (intro other) (simp add: dispatch assms(5))
  qed
qed

lemma step_accounted:
  assumes "bl_step be l l'" "\<And>p. book_inv (book_of l p)"
  shows "feed_accounted be l l'"
  using pub_view_step [OF assms(1)]
proof (elim disjE conjE exE)
  assume "pub_view l' = pub_view l"
  then show ?thesis by (rule feed_accounted_same)
next
  fix ev rest
  assume run: "bl_running l" and q: "bl_ws_event_queue l = ev # rest"
    and l': "l' = worker_event be ev (l\<lparr>bl_ws_event_queue := rest\<rparr>)"
  show ?thesis
  proof (cases ev)
    case (WsStatus so connecting opened)
    show ?thesis by (rule status_accounted [OF refl]) (simp add: l' WsStatus worker_event_def)
  next
    case (WsPayload so payload)
    show ?thesis
    proof (cases "so = UserSocket")
      case True
      then show ?thesis by (intro feed_accounted_same) (simp add: l' WsPayload worker_event_def)
    next
      case False
      show ?thesis
        by (rule payload_accounted [OF False run q [unfolded WsPayload] assms(2) refl])
          (simp add: l' WsPayload worker_event_def False)
    qed
  qed
qed

section \<open>Properties\<close>

text \<open>
  C16. In every step of a reachable adapter, each book it publishes for a product is accounted for by an input of
  that step.  Either it is the best-price message at the head of the queue, each price with its own
  quantity.  Or that message is a depth update of this product that a book in sync accepted, and the event shows the
  best levels of this product's book as it now is, which is the previous one with the update's levels written in
  order.  Or a depth request for this product was answered in this step, and the event shows the best levels of the
  answer, which the book now holds in sync (unless the product is configured twice).  The levels of a product's book
  change in no other way.  The levels shown are at most the configured number, in order, never of an empty quantity,
  and none left out is better.
\<close>

theorem published_books_are_real:
  assumes "bl_reach be l" "bl_step be l l'"
  shows "(\<exists>new. published l' = published l @ new
      \<and> (\<forall>(p, d) \<in> set new. from_ticker be l p d \<or> from_diff be l l' p d \<or> from_snapshot be l l' p d))
    \<and> (\<forall>p. same_views l l' p \<or> (\<exists>time. diff_received be l l' p time)
        \<or> (\<exists>snap. snapshot_received be l l' p snap \<and> holds_snapshot (book_of l' p) snap))"
proof -
  have "book_inv (book_of l p)" for p
    by (rule book_reach_inv_core [OF pub_ok_book [OF bl_reach_pub [OF assms(1)]]])
  from step_accounted [OF assms(2) this] show ?thesis by (simp add: feed_accounted_def levels_accounted_def)
qed

text \<open>The adapter about to process a best-price message, after the reports of its first two dials.\<close>

definition demo_waiting :: binance_listener where
  "demo_waiting = worker_round demo_bl_env (worker_round demo_bl_env (bl_socket_message MarketSocket ''{}'' demo_listener))"

lemma demo_waiting_reach:
  "bl_reach demo_bl_env demo_waiting" "bl_ws_event_queue demo_waiting = [WsPayload MarketSocket ''{}'']" "bl_running demo_waiting"
proof -
  let ?l = "bl_socket_message MarketSocket ''{}'' demo_listener"
  have m: "bl_step demo_bl_env demo_listener ?l"
    by (rule bl_step.message) (use demo_listener_state(1) in simp)
  have q: "bl_ws_event_queue ?l = [WsStatus MarketSocket True False, WsStatus TradeSocket True False, WsPayload MarketSocket ''{}'']"
    by (simp add: bl_socket_message_def demo_listener_state)
  have w: "bl_ws_event_queue l = ev # rest \<Longrightarrow> bl_running l \<Longrightarrow>
      bl_step be l (worker_round be l) \<and> bl_ws_event_queue (worker_round be l) = bl_ws_event_queue (worker_event be ev (l\<lparr>bl_ws_event_queue := rest\<rparr>))
      \<and> bl_running (worker_round be l) = bl_running (worker_event be ev (l\<lparr>bl_ws_event_queue := rest\<rparr>))" for l ev rest and be :: "string bl_env"
    using bl_step.worker [of l be] by (simp add: worker_round_def Let_def)
  have ev: "bl_ws_event_queue (worker_event be (WsStatus so True False) l) = bl_ws_event_queue l"
    "bl_running (worker_event be (WsStatus so True False) l) = bl_running l" for l so and be :: "string bl_env"
    using on_ws_status_view [of be so True False l] by (simp_all add: worker_event_def sock_view_def)
  let ?l1 = "worker_round demo_bl_env ?l" let ?l2 = "worker_round demo_bl_env ?l1"
  have r: "bl_running ?l" by (simp add: bl_socket_message_def demo_listener_state)
  have s1: "bl_step demo_bl_env ?l ?l1" "bl_ws_event_queue ?l1 = [WsStatus TradeSocket True False, WsPayload MarketSocket ''{}'']"
    "bl_running ?l1" using w [OF q r, of demo_bl_env] r by (simp_all add: ev)
  have s2: "bl_step demo_bl_env ?l1 ?l2" "bl_ws_event_queue ?l2 = [WsPayload MarketSocket ''{}'']"
    "bl_running ?l2" using w [OF s1(2,3), of demo_bl_env] s1(3) by (simp_all add: ev)
  show "bl_ws_event_queue demo_waiting = [WsPayload MarketSocket ''{}'']" "bl_running demo_waiting"
    using s2 by (simp_all add: demo_waiting_def)
  have "(bl_step demo_bl_env)\<^sup>*\<^sup>* demo_listener demo_waiting"
    unfolding demo_waiting_def using m s1(1) s2(1) by (meson rtranclp.rtrancl_into_rtrancl rtranclp.rtrancl_refl)
  with demo_listener_reach show "bl_reach demo_bl_env demo_waiting" by (simp add: bl_reach_def)
qed

lemma demo_waiting_published:
  "\<exists>d. published (worker_round demo_bl_env demo_waiting) = published demo_waiting @ [(''BTCUSDT'', d)]"
proof -
  have "be_classify_market demo_bl_env ''{}'' = Some ''bookTicker''" "be_book_ticker demo_bl_env ''{}'' = Some demo_ticker"
    by (simp_all add: demo_bl_env_def)
  then show ?thesis
    by (simp add: worker_round_def demo_waiting_reach(2,3) Let_def worker_event_def handle_market_payload_def emit_opt_def
        read_book_ticker_def demo_ticker_def sd_def published_emit) (simp add: published_def)
qed

theorem published_books_are_real_witness:
  "\<exists>d. published (worker_round demo_bl_env demo_waiting) = published demo_waiting @ [(''BTCUSDT'', d)]
    \<and> (from_ticker demo_bl_env demo_waiting ''BTCUSDT'' d
        \<or> from_diff demo_bl_env demo_waiting (worker_round demo_bl_env demo_waiting) ''BTCUSDT'' d
        \<or> from_snapshot demo_bl_env demo_waiting (worker_round demo_bl_env demo_waiting) ''BTCUSDT'' d)"
proof -
  have "bl_step demo_bl_env demo_waiting (worker_round demo_bl_env demo_waiting)"
    by (rule bl_step.worker) (simp add: demo_waiting_reach(2))
  from published_books_are_real [OF demo_waiting_reach(1) this] demo_waiting_published show ?thesis by auto
qed

end
