(* ===== verification/Spec2Isabelle.thy ===== *)
theory Spec2Isabelle
  imports Shutdown_Properties Stop_Signal Pricer_Properties Feed_Clients Binance_Gateway Kis_Gateway Listener_Properties
    Market_Listener Kis_Listener Trader_Main Launch Tcp_Service
    Decision_Timer Feed_Mains Url_Encoding Published_Books
begin

text \<open>
  OmniTrader: a market listener, a pricer and a trader as three processes joined by TCP feeds, in C++
  under \<open>src/src\<close>.  This library models the program and proves what makes it correct.

  \<^bold>\<open>The parts and how they meet.\<close>  An exchange adapter (Binance or KIS) turns the venue's sockets into
  normalised events; the market listener broadcasts them over its TCP server to every client that
  subscribed.  The pricer is such a client and a server itself: it keeps a market state per product
  and publishes a fair price with a factor.  The trader is a client of both: one queue of tasks feeds
  the order handler, which keeps positions and orders, asks the strategy for a decision and sends
  requests through an order gateway, whose replies come back as tasks.  A signal or the market close
  ends the trader's loop and runs its shutdown sequence.

  \<^bold>\<open>Theories, in the order they build on each other.\<close>
  \<^item> \<open>Prelude\<close> (maps and sets of the C++ library, fixed-width integers; locale \<open>ordered_map\<close>),
    \<open>Float64\<close> (\<open>double\<close> as exact binary64: every operation is rounded; locale \<open>rounding\<close>),
    \<open>Text_Numbers\<close> (numbers as text) and \<open>Msg_Types\<close> (\<open>common/\<close> and the order and price structs).
  \<^item> Market data.  \<open>Order_Book\<close> (\<open>order_book.cpp\<close>): snapshots and diffs refine a price function, and a
    gap freezes the book.  \<open>Binance_Rest\<close> and \<open>Wire_Format\<close> (\<open>connection_handlers/rest\<close>, \<open>signer.cpp\<close>):
    prices and quantities are written on the venue's grid; \<open>Url_Encoding\<close> (percent encoding is a round
    trip).  \<open>Ws_Client\<close>, \<open>Redial\<close> (\<open>websocket_client.hpp\<close>
    and the redial pattern its owners share).  \<open>Listener_Types\<close>, \<open>Binance_Listener\<close>,
    \<open>Listener_Properties\<close>, \<open>Published_Books\<close> (\<open>exchange/binance\<close>): every published book is traced to
    the message or the depth answer it was made of, depth is applied or resynchronised, sockets are never
    given up.  \<open>Kis_Feed\<close>, \<open>Kis_Config\<close>,
    \<open>Kis_Listener\<close> (\<open>exchange/kis\<close>, \<open>websocket/kis\<close>, \<open>config_handlers/kis\<close>): frames are read back
    record by record, the socket is never given up, tokens are refreshed at most once.
    \<open>Market_Listener\<close> (\<open>market_listener.cpp\<close>, \<open>utils/datetime.cpp\<close>).
  \<^item> Internal links.  \<open>Tcp_Framing\<close>, \<open>Tcp_Server\<close>, \<open>Tcp_Service\<close>, \<open>Tcp_Client\<close>, \<open>Feed_Clients\<close>
    (\<open>connection_handlers/tcp\<close>): framing is a round trip under every chunking, sessions write every
    message once and in the order of its producer, the server's tables implement a subscription
    relation, a broadcast goes through the owner's thread, the worker and the io thread to every
    subscriber's socket, the client is never stuck, tasks carry what their tag announces.
  \<^item> Pricing.  \<open>Pricer\<close>, \<open>Pricer_Properties\<close> (\<open>pricer/\<close>; locale \<open>bounded_factor\<close>): fair prices are
    bounded and everything broadcast is priced and of a configured product.
  \<^item> Trading.  \<open>Strategy\<close> (\<open>trader/strategy\<close>; locale \<open>strategy_contract\<close>): quotes never cross, orders
    stay within capacity, resting orders are paired with wanted prices.  \<open>Order_Handler\<close>,
    \<open>Handler_Invariant\<close>, \<open>Handler_Properties\<close> (\<open>order_handler.cpp\<close>): routing of client ids, accounting
    of fills and replies, guards of a decision, release of waits.  \<open>Shutdown\<close>, \<open>Shutdown_Properties\<close>:
    the shutdown ends, and leaves orders only after a full timeout.  \<open>Decision_Timer\<close>: the decision
    ticks stop when the shutdown begins; the files of the records.  \<open>Order_Gateway\<close> (the contract of
    a gateway, locale \<open>order_gateway\<close>), \<open>Binance_Gateway\<close>, \<open>Kis_Gateway\<close> with the task runner: every
    request is sent in order or answered at once.
  \<^item> Processes.  \<open>Stop_Signal\<close> (\<open>utils/shutdown.cpp\<close>), \<open>Json_Config\<close>, \<open>Launch_Config\<close>, \<open>Launch\<close> (the
    configuration structs, \<open>json_config.cpp\<close>, the three \<open>main\<close> functions up to the running object;
    locale \<open>checked_section\<close>), \<open>Trader_Main\<close> (the trader's \<open>main\<close> from its loop on), \<open>Feed_Mains\<close> (the
    loops of the other two): the launch forms
    agree, a misspelled field stops a launch, a signal ends a session in order.
  \<^item> This theory: what needs several processes, from the pricer to the trader's queue and from the exchange
    to the position.

  \<^bold>\<open>State and operations.\<close>  A class is a record of its members, prefixed with an abbreviation of the
  class; a method is a function on that record with the source's name.  Calls that leave the process
  (requests, broadcasts, csv rows, timers) are appended to fields of the state, in order.  Exceptions
  are values of a sum type; \<open>std::optional\<close> is \<open>option\<close>.  Threads meet in the queues of the source:
  each handler runs to its end, and the interleavings are the step relations (\<open>kl_step\<close> and its
  siblings) or the sequences of tasks; \<open>Stop_Signal\<close> also splits the signal handler at its atomics.
  Clocks are functions of the number of readings.

  \<^bold>\<open>Bounds and fuel.\<close>  Loops over data are recursive.  The pump loops of the shutdown take fuel, and
  \<open>shutdown_terminates\<close> shows that on a clock that passes every deadline some fuel suffices, and then
  every larger one gives the same result; the trader's loop is a partial function into \<open>option\<close>, and
  \<open>signal_ends_session_cleanly\<close> shows that it returns once a signal has come, and so is the loop of the
  listener and the pricer, with \<open>market_loop_iff\<close> saying exactly when it returns.  Integers are \<open>int\<close> with the
  reduction of their width written out; hypotheses that keep a clock below its width are stated.

  \<^bold>\<open>Parameters.\<close>  nlohmann::json, argparse, curl, websocketpp, OpenSSL (HMAC, base64, AES), asio's timers
  and \<open>std::pow\<close> are arguments (the \<open>_env\<close> and \<open>_api\<close> records).  What is assumed of them stands in
  named predicates: that a JSON writer's text is read back (\<open>codec_ok\<close>, \<open>token_codec\<close>), that a conversion to
  \<open>unsigned short\<close> yields one (\<open>ports_in_range\<close>); each has a concrete instance in a witness.

  \<^bold>\<open>Not modelled.\<close>  The construction of log sinks (\<open>loggers/\<close>) and process log lines; the set-up of TLS
  contexts; the creation of directories and the start of the logging backend in the mains;
  memory order of the atomics beyond their interleaving, and data races on plain members; the Python plotting
  scripts, configuration data and build files.
\<close>

section \<open>From the pricer to the trader\<close>

definition codec_ok :: "pricer_env \<Rightarrow> client_env \<Rightarrow> feed_env \<Rightarrow> bool" where
  "codec_ok pe ce fe \<longleftrightarrow> (\<forall>m j. pe_write_json pe m = Some j \<longrightarrow>
     j \<noteq> [] \<and> newline \<notin> set j \<and> ce_feed ce j = Some ''fair_price'' \<and> fe_fair_price fe j = Some m)"

definition demo_codec_client :: client_env where
  "demo_codec_client = demo_client_env\<lparr>ce_feed := \<lambda>l. Some ''fair_price''\<rparr>"

definition demo_codec_feed :: feed_env where
  "demo_codec_feed = demo_feed_env\<lparr>fe_fair_price := \<lambda>l. Some demo_fair_msg\<rparr>"

lemma demo_codec_ok: "codec_ok demo_pricer_env demo_codec_client demo_codec_feed"
  by (simp add: codec_ok_def demo_pricer_env_def demo_codec_client_def demo_client_env_def demo_codec_feed_def)

text \<open>
  C34. A price travels whole from the pricer to the trader's queue, across both processes and their threads: when the
  pricer has broadcast it, its server's worker has come to the broadcast while the trader's session
  was subscribed to the product, that session is open and has nothing left to write, and the
  trader's client has read the session's bytes, in pieces of any size, then the client's feed hook
  has been called with that very line, and turns it into a fair-price task for the product with the
  data of the priced result that was broadcast.
\<close>

theorem prices_reach_the_trader:
  assumes "make_pricer (pe_config pe) fc made = Inr q0" "(p, json) \<in> set (pr_broadcasts (pr_main_loop pe ts q0))"
    and codec: "codec_ok pe ce fe"
    and server: "service_reach te sc" "sc_sessions sc sid = Some s" "ss_active s" "\<not> ss_in_flight s" "ss_posted s = 0"
    and handled: "sc_handled sc = us @ BroadcastMessage p json # vs" "(sid, p) \<in> fold subscriptions_after us {}"
    and client: "cl_running c" "cl_read_message c = []" "concat chunks = concat (map snd (ss_wire s))"
  shows "OnDataLine ''fair_price'' json \<in> set (cl_hooks (fold (client_on_read ce False) chunks c))
    \<and> (\<exists>k res. priceable res \<and> fair_price_hook fe (OnDataLine ''fair_price'' json)
        = Some (FairPriceTask \<lparr>fr_product = p, fr_data = fm_fair_price_data (fair_price_msg_of p (pe_clk pe k) res)\<rparr>))"
proof -
  have "broadcast_ok pe (pr_clock_reads (pr_main_loop pe ts q0)) (p, json)"
    using pricer_inv_loop [OF make_pricer_inv [OF assms(1)], of ts] assms(2) by (auto simp: pricer_inv_def)
  then obtain k res where w: "pe_write_json pe (fair_price_msg_of p (pe_clk pe k) res) = Some json" and res: "priceable res"
    by (auto simp: broadcast_ok_def)
  have j: "json \<noteq> []" "newline \<notin> set json" "ce_feed ce json = Some ''fair_price''"
    "fe_fair_price fe json = Some (fair_price_msg_of p (pe_clk pe k) res)"
    using codec w by (auto simp: codec_ok_def)
  obtain ms where ms: "concat (map snd (ss_wire s)) = frame ms" "\<forall>pr. set (ss_accepted s pr) \<subseteq> set ms"
    using idle_wire [OF worker_messages_accepted(1) [OF server(1-3)] server(3-5)] .
  then have "json \<in> set ms" using broadcast_accepted [OF server(1-3) handled] by blast
  then have "json \<in> set (fst (read_all [] chunks))"
    using take_lines_finds [OF _ j(1,2)] read_all_concat [of "[]" chunks] client(3) ms(1) by simp
  moreover have "line_hooks ce json = [OnDataLine ''fair_price'' json]" using j(3) by (simp add: line_hooks_def)
  ultimately have "OnDataLine ''fair_price'' json \<in> set (cl_hooks (fold (client_on_read ce False) chunks c))"
    unfolding client_reads_all [OF client(1)] client(2) by force
  moreover have "fair_price_hook fe (OnDataLine ''fair_price'' json)
      = Some (FairPriceTask \<lparr>fr_product = p, fr_data = fm_fair_price_data (fair_price_msg_of p (pe_clk pe k) res)\<rparr>)"
    using j(4) by (simp add: fair_price_on_data_line_def fair_price_msg_of_def)
  ultimately show ?thesis using res by blast
qed

theorem prices_reach_the_trader_witness:
  "OnDataLine ''fair_price'' ''fair'' \<in> set (cl_hooks (fold (client_on_read demo_codec_client False)
     [concat (map snd (ss_wire (demo_written ''fair'')))] (tcp_client_init\<lparr>cl_running := True\<rparr>)))"
proof -
  obtain q0 where q0: "make_pricer (pe_config demo_pricer_env) factor_config_init None = Inr q0"
    "pr_broadcasts (pr_main_loop demo_pricer_env demo_pricer_tasks q0) = [(''A'', ''fair'')]"
    using demo_pricer_run by blast
  have "(''A'', ''fair'') \<in> set (pr_broadcasts (pr_main_loop demo_pricer_env demo_pricer_tasks q0))" using q0(2) by simp
  moreover have "cl_running (tcp_client_init\<lparr>cl_running := True\<rparr>)" "cl_read_message (tcp_client_init\<lparr>cl_running := True\<rparr>) = []"
    by (simp_all add: tcp_client_init_def)
  ultimately show ?thesis
    using demo_service_run [of "''fair''"] prices_reach_the_trader [OF q0(1) _ demo_codec_ok _ _ demo_written_idle _ demo_subscription]
    by (metis concat.simps append.right_neutral)
qed

section \<open>From the exchange to the position\<close>

text \<open>
  An execution that is an acceptance, a cancel or an adoption, or that leaves the position to the
  account stream, never touches a position.
\<close>

lemma reserve_cid_state [simp]: "state_of (snd (reserve_cid ev p s)) q = state_of s q"
  by (simp add: reserve_cid_def now_ns_def Let_def state_of_def)

lemma execution_keeps_position:
  assumes "ed_is_accept_data d \<or> \<not> ed_update_position_on_fill d"
  shows "st_position_in_lots (state_of (on_execution ev p d s) q) = st_position_in_lots (state_of s q)"
proof -
  have accepted: "st_position_in_lots (state_of (on_accepted ev p' oc d s) q) = st_position_in_lots (state_of s q)" for p' oc
    using reserve_cid_state [of ev p' s]
    by (cases "reserve_cid ev p' s")
      (auto simp: on_accepted_def bind_order_no_def clear_waiting_if_idle_def erase_waiting_place_def split: option.splits)
  show ?thesis
    using assms accepted
    by (auto simp: on_execution_def on_reject_def on_cancelled_def on_fill_def clear_waiting_if_idle_def
        erase_waiting_place_def erase_waiting_cancel_def state_of_forget_order Let_def split: option.splits)
qed

text \<open>
  C33. On Binance the trader's position follows the account stream alone: whatever the adapter runs
  through, no execution it publishes, live or from the open-order snapshot, moves the position of
  any product of the trader.
\<close>

theorem binance_executions_keep_positions:
  assumes "bl_reach be l" "ExecutionEvent p d \<in> set (bl_event_queue l)"
    "handle_task ev (MarketDataTask \<lparr>md_feed = FeedExecution, md_product = p, md_data = PExecution d\<rparr>) s = Inr s'"
  shows "st_position_in_lots (state_of s' q) = st_position_in_lots (state_of s q)"
proof -
  have "event_ok be (ExecutionEvent p d)" using bl_reach_pub [OF assms(1)] assms(2) by (auto simp: pub_ok_def list_all_iff)
  with execution_keeps_position [of d ev p s q] assms(3) show ?thesis
    by (simp add: handle_task_def process_market_data_def)
qed

text \<open>An adapter with credentials that has received one fill on its user stream.\<close>

definition demo_user_env :: "string bl_env" where
  "demo_user_env = demo_bl_env\<lparr>be_rest := demo_listener_rest\<lparr>re_keys := Some (''KEY'', ''SECRET''),
       re_transfer := \<lambda>i rq. CurlDone 200 [''{}''] [],
       re_json := (re_json demo_listener_rest)\<lparr>js_parse := \<lambda>t. Some t, js_at := \<lambda>k j. Some j, js_str := \<lambda>j. Some ''listen''\<rparr>\<rparr>,
     be_classify_user := \<lambda>t. Some ''ORDER_TRADE_UPDATE'',
     be_order_update := \<lambda>t. Some \<lparr>ou_s = ''A'', ou_c = ''5'', ou_S = ''BUY'', ou_x = ''TRADE'', ou_i = 9, ou_p = [], ou_q = [],
       ou_z = [], ou_L = [], ou_l = []\<rparr>\<rparr>"

lemma drain_dial_statuses:
  assumes "bl_reach be l" "bl_running l" "bl_ws_event_queue l = map (\<lambda>so. WsStatus so True False) sos @ q"
  shows "\<exists>l'. bl_reach be l' \<and> bl_running l' \<and> bl_ws_event_queue l' = q"
  using assms
proof (induction sos arbitrary: l)
  case Nil
  then show ?case by auto
next
  case (Cons so sos)
  let ?l = "worker_round be l"
  let ?rest = "l\<lparr>bl_ws_event_queue := map (\<lambda>so. WsStatus so True False) sos @ q\<rparr>"
  have run: "bl_running ?rest" using Cons.prems(2) by simp
  have "?l = worker_event be (WsStatus so True False) ?rest"
    using Cons.prems(3) run by (simp add: worker_round_def Let_def)
  then have l: "?l = on_ws_status be so True False ?rest" by (simp add: worker_event_def)
  have v: "sock_view ?l = sock_view ?rest" unfolding l on_ws_status_view by simp
  have "bl_step be l ?l" using Cons.prems(3) by (intro bl_step.worker) simp
  then have "bl_reach be ?l" using Cons.prems(1) by (simp add: bl_reach_def)
  then show ?case using Cons.IH [of ?l] Cons.prems(2) sock_viewD(2,3) [OF v] by simp
qed

lemma demo_user_publishes:
  "\<exists>l d. bl_reach demo_user_env l \<and> ExecutionEvent ''A'' d \<in> set (bl_event_queue l)"
proof -
  let ?l0 = "bl_start (make_binance_listener demo_user_env)"
  let ?l1 = "bl_run_start demo_user_env ?l0"
  have r1: "bl_reach demo_user_env ?l1"
    unfolding bl_reach_def by (intro r_into_rtranclp bl_step.start) (simp add: bl_start_def)
  have q1: "bl_ws_event_queue ?l1 = map (\<lambda>so. WsStatus so True False) [MarketSocket, TradeSocket, UserSocket]"
    "bl_running ?l1" "rd_client (bl_user ?l1) \<noteq> None"
    by (simp_all add: demo_user_env_def demo_listener_defs create_user_client_def create_listen_key_def rest_post_def
        perform_def response_ok_def at_str_def schedule_keepalive_def auth_header_def om_has_def s32_id write_callback_def Let_def)
  let ?l2 = "bl_socket_message UserSocket ''{}'' ?l1"
  have "bl_step demo_user_env ?l1 ?l2" by (rule bl_step.message) (use q1(3) in simp)
  then have r2: "bl_reach demo_user_env ?l2" using r1 by (simp add: bl_reach_def)
  have q2: "bl_ws_event_queue ?l2 = map (\<lambda>so. WsStatus so True False) [MarketSocket, TradeSocket, UserSocket] @ [WsPayload UserSocket ''{}'']"
    "bl_running ?l2" using q1 by (simp_all add: bl_socket_message_def)
  obtain l3 where l3: "bl_reach demo_user_env l3" "bl_running l3" "bl_ws_event_queue l3 = [WsPayload UserSocket ''{}'']"
    using drain_dial_statuses [OF r2 q2(2,1)] by blast
  have "bl_step demo_user_env l3 (worker_round demo_user_env l3)" by (rule bl_step.worker) (simp add: l3(3))
  then have "bl_reach demo_user_env (worker_round demo_user_env l3)" using l3(1) by (simp add: bl_reach_def)
  moreover have "\<exists>d. ExecutionEvent ''A'' d \<in> set (bl_event_queue (worker_round demo_user_env l3))"
    by (simp add: worker_round_def worker_event_def l3 handle_user_payload_def demo_user_env_def read_order_update_def
        sd_def emit_opt_def bl_emit_def Let_def) blast
  ultimately show ?thesis by blast
qed

theorem binance_executions_keep_positions_witness:
  "\<exists>l d s'. bl_reach demo_user_env l \<and> ExecutionEvent ''A'' d \<in> set (bl_event_queue l)
    \<and> handle_task demo_env (MarketDataTask \<lparr>md_feed = FeedExecution, md_product = ''A'', md_data = PExecution d\<rparr>) demo_resting = Inr s'
    \<and> st_position_in_lots (state_of s' ''A'') = st_position_in_lots (state_of demo_resting ''A'')"
proof -
  obtain l d where l: "bl_reach demo_user_env l" "ExecutionEvent ''A'' d \<in> set (bl_event_queue l)"
    using demo_user_publishes by blast
  obtain s' where s': "handle_task demo_env (MarketDataTask \<lparr>md_feed = FeedExecution, md_product = ''A'', md_data = PExecution d\<rparr>) demo_resting = Inr s'"
    by (simp add: handle_task_def process_market_data_def)
  from binance_executions_keep_positions [OF l s'] l s' show ?thesis by blast
qed

end
